(* ===== verification/Prelude.thy ===== *)
theory Prelude
  imports
    Main
    "HOL-Library.AList"
    "HOL-Library.Char_ord"
    "HOL-Library.List_Lexorder"
    "HOL-Library.Multiset"
begin

text \<open>
  What every component shares: results that are a thrown error or a value, the part of the
  JavaScript standard library the sources use on text and arrays, and the comparator
  interface behind every \<open>sort\<close> call.

  A text is a \<^typ>\<open>string\<close>, one \<^typ>\<open>char\<close> per UTF-16 code unit below 256; code units past
  that are outside the model. Numbers that the code keeps as integers are \<^typ>\<open>int\<close>. A
  JavaScript \<open>Map\<close> is an association list in insertion order (\<^const>\<open>AList.update\<close> keeps a
  key's place, as \<open>Map.set\<close> does) and a \<open>Set\<close> a list without repeats.
\<close>

section \<open>Results\<close>

text \<open>One constructor per error class of the sources; its text names the cause, not the message.\<close>

datatype failure =
    MoneyError string
  | RangeError string
  | DateParseError string
  | TransitionError string "string list list"
  | ThresholdDirectionError "string list"
  | JournalInputError string
  | IdentityError string
  | PacketError string
  | ManualEntryError string string
  | LedgerSnapshotError string
  | LedgerExtractError string
  | RetailerBoardError string
  | PortalTermsAllowanceError string
  | NoEvidenceRequirementsError string
  | TypeError string
  | QboMalformedResponse string
  | QboInvalidId string
  | PostingInputError string
  | PostingDecisionError string
  | WritebackNotFoundError string
  | WritebackNotApprovedError string
  | WritebackExistsError string
  | PostingConnectionNotFoundError string
  | AccountMapRequiredError string
  | WriteoffAmountMismatchError int int
  | SettlementApprovalRefusedError string
  | TotpSecretError string
  | TotpInputError string

type_synonym 'a res = "failure + 'a"

definition bind_res :: "'a res \<Rightarrow> ('a \<Rightarrow> 'b res) \<Rightarrow> 'b res" where
  "bind_res m f = (case m of Inl e \<Rightarrow> Inl e | Inr x \<Rightarrow> f x)"

lemma bind_res_simps [simp]:
  "bind_res (Inl e) f = Inl e"
  "bind_res (Inr x) f = f x"
  by (simp_all add: bind_res_def)

lemma bind_res_Inr_iff: "bind_res m f = Inr y \<longleftrightarrow> (\<exists>x. m = Inr x \<and> f x = Inr y)"
  by (cases m) simp_all

lemma bind_res_Inl_iff:
  "bind_res m f = Inl e \<longleftrightarrow> m = Inl e \<or> (\<exists>x. m = Inr x \<and> f x = Inl e)"
  by (cases m) simp_all

text \<open>An array mapped, or folded, by a function that may throw: the first throw wins.\<close>

fun map_res :: "('a \<Rightarrow> 'b res) \<Rightarrow> 'a list \<Rightarrow> 'b list res" where
  "map_res f [] = Inr []"
| "map_res f (x # xs) = bind_res (f x) (\<lambda>y. bind_res (map_res f xs) (\<lambda>ys. Inr (y # ys)))"

fun fold_res :: "('s \<Rightarrow> 'a \<Rightarrow> 's res) \<Rightarrow> 's \<Rightarrow> 'a list \<Rightarrow> 's res" where
  "fold_res f s [] = Inr s"
| "fold_res f s (x # xs) = bind_res (f s x) (\<lambda>s'. fold_res f s' xs)"

lemma map_res_Inr_iff: "map_res f xs = Inr ys \<longleftrightarrow> list_all2 (\<lambda>x y. f x = Inr y) xs ys"
proof (induction xs arbitrary: ys)
  case Nil
  then show ?case by auto
next
  case (Cons x xs)
  then show ?case by (cases ys) (auto simp: bind_res_Inr_iff)
qed

lemma map_res_total: "(\<And>x. x \<in> set xs \<Longrightarrow> f x = Inr (g x)) \<Longrightarrow> map_res f xs = Inr (map g xs)"
  by (induction xs) auto

lemma map_res_Inr_map: "map_res f xs = Inr ys \<longleftrightarrow> (\<forall>x\<in>set xs. \<exists>y. f x = Inr y) \<and> ys = map (projr \<circ> f) xs"
  by (induction xs arbitrary: ys) (auto simp: bind_res_Inr_iff)

text \<open>Over the same elements in another order the values are the same in that order.\<close>

lemma map_res_mset:
  assumes "map_res f xs = Inr ys" "mset xs' = mset xs"
  shows "\<exists>ys'. map_res f xs' = Inr ys' \<and> mset ys' = mset ys"
  using assms by (auto simp: map_res_Inr_map dest: mset_eq_setD)

lemma fold_res_append:
  "fold_res f s (xs @ ys) = bind_res (fold_res f s xs) (\<lambda>s'. fold_res f s' ys)"
proof (induction xs arbitrary: s)
  case Nil
  then show ?case by simp
next
  case (Cons x xs)
  then show ?case by (cases "f s x") simp_all
qed

text \<open>An invariant of the accumulator that every step keeps holds at the end.\<close>

lemma fold_res_invariant:
  assumes "fold_res f s xs = Inr t" and "P s"
    and "\<And>s x s'. P s \<Longrightarrow> x \<in> set xs \<Longrightarrow> f s x = Inr s' \<Longrightarrow> P s'"
  shows "P t"
  using assms
proof (induction xs arbitrary: s)
  case Nil
  then show ?case by simp
next
  case (Cons x xs)
  from Cons.prems(1) obtain s' where s': "f s x = Inr s'" "fold_res f s' xs = Inr t"
    by (auto simp: bind_res_Inr_iff)
  have "P s'" by (rule Cons.prems(3) [OF Cons.prems(2) _ s'(1)]) simp
  with s'(2) show ?case
    by (rule Cons.IH) (meson Cons.prems(3) list.set_intros(2))
qed

section \<open>Arrays, maps and sets\<close>

text \<open>First occurrences in order: what spreading a \<open>Set\<close> built from an array gives.\<close>

fun dedupe :: "'a list \<Rightarrow> 'a list" where
  "dedupe [] = []"
| "dedupe (x # xs) = x # filter (\<lambda>y. y \<noteq> x) (dedupe xs)"

lemma set_dedupe [simp]: "set (dedupe xs) = set xs"
  by (induction xs) auto

lemma distinct_dedupe [simp]: "distinct (dedupe xs)"
  by (induction xs) auto

lemma dedupe_eq_Nil [simp]: "dedupe xs = [] \<longleftrightarrow> xs = []"
  by (cases xs) auto

lemma dedupe_distinct: "distinct xs \<Longrightarrow> dedupe xs = xs"
  by (induction xs) (auto intro: filter_True)

lemma length_dedupe_le: "length (dedupe xs) \<le> length xs"
  by (induction xs) (auto intro: le_trans [OF length_filter_le])

text \<open>\<open>Array.find\<close> and the last-writer map a \<open>new Map(entries)\<close> builds.\<close>

fun find_first :: "('a \<Rightarrow> bool) \<Rightarrow> 'a list \<Rightarrow> 'a option" where
  "find_first P [] = None"
| "find_first P (x # xs) = (if P x then Some x else find_first P xs)"

lemma find_first_Some: "find_first P xs = Some x \<Longrightarrow> x \<in> set xs \<and> P x"
  by (induction xs) (auto split: if_splits)

lemma find_first_None_iff: "find_first P xs = None \<longleftrightarrow> (\<forall>x\<in>set xs. \<not> P x)"
  by (induction xs) auto

text \<open>The first element of each key, in order: a \<open>Map\<close> that keeps what it already holds.\<close>

fun first_by :: "('a \<Rightarrow> 'k) \<Rightarrow> 'a list \<Rightarrow> 'a list" where
  "first_by key [] = []"
| "first_by key (x # xs) = x # filter (\<lambda>y. key y \<noteq> key x) (first_by key xs)"

lemma first_by_subset: "set (first_by key xs) \<subseteq> set xs"
  by (induction xs) auto

lemma key_first_by [simp]: "key ` set (first_by key xs) = key ` set xs"
proof (induction xs)
  case (Cons x xs)
  have "key ` set (first_by key (x # xs)) = insert (key x) (key ` set (first_by key xs) - {key x})"
    by auto
  then show ?case using Cons.IH by simp
qed simp

lemma distinct_first_by [simp]: "distinct (map key (first_by key xs))"
  by (induction xs) (auto simp: distinct_map inj_on_def)

lemma first_by_iff: "x \<in> set (first_by key xs) \<longleftrightarrow> find_first (\<lambda>y. key y = key x) xs = Some x"
  by (induction xs) auto

lemma find_first_by:
  assumes "find_first (\<lambda>y. key y = k) xs = Some x"
  shows "x \<in> set (first_by key xs)" "key x = k"
proof -
  show "key x = k" using find_first_Some [OF assms] by simp
  then show "x \<in> set (first_by key xs)" using assms by (simp add: first_by_iff)
qed

definition last_wins :: "('k \<times> 'v) list \<Rightarrow> ('k \<times> 'v) list" where
  "last_wins kvs = fold (\<lambda>(k, v) m. AList.update k v m) kvs []"

lemma map_of_fold_update:
  "map_of (fold (\<lambda>(k, v) m. AList.update k v m) kvs m) = map_of m ++ map_of (rev kvs)"
proof (induction kvs arbitrary: m)
  case Nil
  then show ?case by simp
next
  case (Cons kv kvs)
  obtain k v where kv: "kv = (k, v)" by (cases kv)
  show ?case unfolding kv fold_Cons comp_def prod.case Cons.IH update_conv'
    by (rule ext) (simp add: map_add_def split: option.splits)
qed

lemma map_of_last_wins: "map_of (last_wins kvs) = map_of (rev kvs)"
  by (simp add: last_wins_def map_of_fold_update)

lemma distinct_fst_last_wins: "distinct (map fst (last_wins kvs))"
proof -
  have "distinct (map fst (fold (\<lambda>(k, v) m. AList.update k v m) kvs m))"
    if "distinct (map fst m)" for m :: "('a \<times> 'b) list"
    using that by (induction kvs arbitrary: m) (auto simp: distinct_update)
  then show ?thesis by (simp add: last_wins_def)
qed

text \<open>Elements gathered by key, keys in order of first appearance: the \<open>map.set(key, [...old, x])\<close>
  loop.\<close>

definition group_by :: "('a \<Rightarrow> 'k) \<Rightarrow> 'a list \<Rightarrow> ('k \<times> 'a list) list" where
  "group_by key xs = fold (\<lambda>x m. AList.update (key x)
     ((case map_of m (key x) of None \<Rightarrow> [] | Some ys \<Rightarrow> ys) @ [x]) m) xs []"

lemma group_by_snoc:
  "group_by key (xs @ [x]) = AList.update (key x)
     ((case map_of (group_by key xs) (key x) of None \<Rightarrow> [] | Some ys \<Rightarrow> ys) @ [x]) (group_by key xs)"
  by (simp add: group_by_def)

lemma map_of_group_by:
  "map_of (group_by key xs) k =
     (if filter (\<lambda>x. key x = k) xs = [] then None else Some (filter (\<lambda>x. key x = k) xs))"
proof (induction xs arbitrary: k rule: rev_induct)
  case Nil
  then show ?case by (simp add: group_by_def)
next
  case (snoc x xs)
  then show ?case by (simp add: group_by_snoc update_conv')
qed

lemma lookup_group_by:
  "(case map_of (group_by key xs) k of None \<Rightarrow> [] | Some ys \<Rightarrow> ys) = filter (\<lambda>x. key x = k) xs"
  by (simp add: map_of_group_by)

lemma distinct_group_by: "distinct (map fst (group_by key xs))"
proof (induction xs rule: rev_induct)
  case Nil
  then show ?case by (simp add: group_by_def)
next
  case (snoc x xs)
  then show ?case by (simp add: group_by_snoc distinct_update)
qed

lemma group_by_iff:
  "(k, ys) \<in> set (group_by key xs) \<longleftrightarrow> ys \<noteq> [] \<and> ys = filter (\<lambda>x. key x = k) xs"
  using map_of_group_by [of key xs k] distinct_group_by [of key xs]
  by (metis map_of_eq_Some_iff option.distinct(1) option.inject)

text \<open>A filter whose test may throw.\<close>

fun filter_res :: "('a \<Rightarrow> bool res) \<Rightarrow> 'a list \<Rightarrow> 'a list res" where
  "filter_res P [] = Inr []"
| "filter_res P (x # xs) = bind_res (P x) (\<lambda>keep.
     bind_res (filter_res P xs) (\<lambda>ys. Inr (if keep then x # ys else ys)))"

lemma filter_res_Inr:
  "filter_res P xs = Inr ys \<Longrightarrow> ys = filter (\<lambda>x. P x = Inr True) xs \<and> (\<forall>x\<in>set xs. \<exists>b. P x = Inr b)"
  by (induction xs arbitrary: ys) (auto simp: bind_res_Inr_iff split: if_splits)

end
