(* ===== verification/JsText.thy ===== *)
theory JsText
  imports Prelude
begin

text \<open>
  The text operations of the JavaScript library that the sources call: \<open>trim\<close>, case folding,
  \<open>split\<close>, decimal digits of a number and back, \<open>padStart\<close>/\<open>padEnd\<close>, and the character
  classes of their regular expressions. Case folding is exact for code units whose folded form
  is again below 256 (all ASCII and Latin-1 letters but \<open>U+00B5\<close>, \<open>U+00DF\<close> and \<open>U+00FF\<close> under
  upper-casing, which stay as they are here).
\<close>

section \<open>Character classes\<close>

definition code_unit :: "char \<Rightarrow> nat" where
  "code_unit c = of_char c"

definition is_ws :: "char \<Rightarrow> bool" where
  "is_ws c \<longleftrightarrow> (9 \<le> code_unit c \<and> code_unit c \<le> 13) \<or> code_unit c = 32 \<or> code_unit c = 160"

definition is_digit :: "char \<Rightarrow> bool" where
  "is_digit c \<longleftrightarrow> 48 \<le> code_unit c \<and> code_unit c \<le> 57"

definition is_lower :: "char \<Rightarrow> bool" where
  "is_lower c \<longleftrightarrow> 97 \<le> code_unit c \<and> code_unit c \<le> 122"

definition is_upper :: "char \<Rightarrow> bool" where
  "is_upper c \<longleftrightarrow> 65 \<le> code_unit c \<and> code_unit c \<le> 90"

definition is_letter :: "char \<Rightarrow> bool" where
  "is_letter c \<longleftrightarrow> is_lower c \<or> is_upper c"

definition is_word_char :: "char \<Rightarrow> bool" where
  "is_word_char c \<longleftrightarrow> is_letter c \<or> is_digit c \<or> c = CHR ''_''"

text \<open>What \<open>.\<close> does not match: the line terminators below 256.\<close>

definition is_newline :: "char \<Rightarrow> bool" where
  "is_newline c \<longleftrightarrow> code_unit c = 10 \<or> code_unit c = 13"

definition is_control :: "char \<Rightarrow> bool" where
  "is_control c \<longleftrightarrow> code_unit c < 32 \<or> code_unit c = 127"

definition to_upper_char :: "char \<Rightarrow> char" where
  "to_upper_char c =
     (if is_lower c \<or> 224 \<le> code_unit c \<and> code_unit c \<le> 254 \<and> code_unit c \<noteq> 247
      then char_of (code_unit c - 32) else c)"

definition to_lower_char :: "char \<Rightarrow> char" where
  "to_lower_char c =
     (if is_upper c \<or> 192 \<le> code_unit c \<and> code_unit c \<le> 222 \<and> code_unit c \<noteq> 215
      then char_of (code_unit c + 32) else c)"

abbreviation to_upper :: "string \<Rightarrow> string" where
  "to_upper \<equiv> map to_upper_char"

abbreviation to_lower :: "string \<Rightarrow> string" where
  "to_lower \<equiv> map to_lower_char"

lemma digit_not_ws: "is_digit c \<Longrightarrow> \<not> is_ws c"
  by (simp add: is_digit_def is_ws_def)

lemma digit_upper: "is_digit c \<Longrightarrow> to_upper_char c = c"
  by (simp add: is_digit_def to_upper_char_def is_lower_def)

section \<open>Trimming and splitting\<close>

definition trim_start :: "string \<Rightarrow> string" where
  "trim_start s = dropWhile is_ws s"

definition trim_end :: "string \<Rightarrow> string" where
  "trim_end s = rev (dropWhile is_ws (rev s))"

definition trim :: "string \<Rightarrow> string" where
  "trim s = trim_end (trim_start s)"

lemma trim_start_id: "s = [] \<or> \<not> is_ws (hd s) \<Longrightarrow> trim_start s = s"
  by (cases s) (auto simp: trim_start_def)

lemma trim_end_id: "s = [] \<or> \<not> is_ws (last s) \<Longrightarrow> trim_end s = s"
  by (cases s rule: rev_cases) (auto simp: trim_end_def)

lemma trim_id: "s = [] \<or> \<not> is_ws (hd s) \<and> \<not> is_ws (last s) \<Longrightarrow> trim s = s"
  by (auto simp: trim_def trim_start_id trim_end_id)

lemma trim_Nil [simp]: "trim [] = []"
  by (simp add: trim_id)

lemma trim_no_ws: "\<forall>c\<in>set s. \<not> is_ws c \<Longrightarrow> trim s = s"
  by (rule trim_id) (cases s, auto)

lemma trim_start_ends: "trim_start s \<noteq> [] \<Longrightarrow> \<not> is_ws (hd (trim_start s))"
  by (simp add: trim_start_def hd_dropWhile)

lemma trim_end_ends: "trim_end s \<noteq> [] \<Longrightarrow> \<not> is_ws (last (trim_end s))"
  by (simp add: trim_end_def last_rev hd_dropWhile)

lemma hd_trim_end: "trim_end s \<noteq> [] \<Longrightarrow> hd (trim_end s) = hd s"
proof -
  assume ne: "trim_end s \<noteq> []"
  have "s = trim_end s @ rev (takeWhile is_ws (rev s))"
    unfolding trim_end_def
    by (metis rev_append rev_rev_ident takeWhile_dropWhile_id)
  then show ?thesis using ne by (metis hd_append2)
qed

text \<open>Trimming is idempotent, so a trimmed value is stored once and compared as stored.\<close>

lemma trim_trim [simp]: "trim (trim s) = trim s"
proof (rule trim_id)
  show "trim s = [] \<or> \<not> is_ws (hd (trim s)) \<and> \<not> is_ws (last (trim s))"
  proof (cases "trim s = []")
    case False
    then have "\<not> is_ws (last (trim s))" unfolding trim_def by (rule trim_end_ends)
    moreover have "hd (trim s) = hd (trim_start s)"
      using False unfolding trim_def by (rule hd_trim_end)
    moreover have "trim_start s \<noteq> []" using False by (auto simp: trim_def trim_end_def)
    ultimately show ?thesis using trim_start_ends by simp
  qed simp
qed

lemma set_trim_subset: "set (trim s) \<subseteq> set s"
  unfolding trim_def trim_end_def trim_start_def
  using set_dropWhileD by (metis (no_types, lifting) set_rev subsetI)

text \<open>\<open>replace(/\s+/g, ' ')\<close>; the flag says the character before was white space.\<close>

fun collapse_from :: "bool \<Rightarrow> string \<Rightarrow> string" where
  "collapse_from after [] = []"
| "collapse_from after (c # s) =
     (if is_ws c then (if after then collapse_from True s else CHR '' '' # collapse_from True s)
      else c # collapse_from False s)"

definition collapse_ws :: "string \<Rightarrow> string" where
  "collapse_ws s = collapse_from False s"

lemma collapse_from_id: "\<forall>c\<in>set s. \<not> is_ws c \<Longrightarrow> collapse_from after s = s"
  by (induction after s rule: collapse_from.induct) auto

lemma collapse_ws_id: "\<forall>c\<in>set s. \<not> is_ws c \<Longrightarrow> collapse_ws s = s"
  by (simp add: collapse_ws_def collapse_from_id)

lemma space_is_ws: "is_ws CHR '' ''"
  by (simp add: is_ws_def code_unit_def)

lemma collapse_from_collapse_from [simp]:
  "collapse_from after (collapse_from after s) = collapse_from after s"
  by (induction after s rule: collapse_from.induct) (auto simp: space_is_ws)

lemma collapse_ws_idem [simp]: "collapse_ws (collapse_ws s) = collapse_ws s"
  by (simp add: collapse_ws_def)

text \<open>Trimming and collapsing look at white space only.\<close>

lemma trim_map: "(\<And>c. is_ws (f c) = is_ws c) \<Longrightarrow> trim (map f s) = map f (trim s)"
  by (simp add: trim_def trim_start_def trim_end_def dropWhile_map rev_map comp_def)

lemma collapse_map:
  "(\<And>c. is_ws (f c) = is_ws c) \<Longrightarrow> f CHR '' '' = CHR '' '' \<Longrightarrow>
    collapse_from after (map f s) = map f (collapse_from after s)"
  by (induction after s rule: collapse_from.induct) auto

lemma collapse_ends:
  "s \<noteq> [] \<Longrightarrow> \<not> is_ws (last s) \<Longrightarrow> collapse_from after s \<noteq> [] \<and> last (collapse_from after s) = last s"
  by (induction after s rule: collapse_from.induct) (auto split: if_splits)

lemma to_lower_ws: "is_ws (to_lower_char c) = is_ws c"
  by (auto simp: to_lower_char_def is_ws_def is_upper_def code_unit_def of_char_of)

lemma to_lower_idem [simp]: "to_lower_char (to_lower_char c) = to_lower_char c"
  by (auto simp: to_lower_char_def is_upper_def code_unit_def of_char_of)

text \<open>\<open>split\<close> on one character always gives at least one piece.\<close>

fun split_on :: "char \<Rightarrow> string \<Rightarrow> string list" where
  "split_on c [] = [[]]"
| "split_on c (x # xs) =
     (if x = c then [] # split_on c xs
      else (case split_on c xs of [] \<Rightarrow> [[x]] | p # ps \<Rightarrow> (x # p) # ps))"

lemma split_on_ne [simp]: "split_on c s \<noteq> []"
  by (induction s) (auto split: list.splits)

lemma split_on_none: "c \<notin> set s \<Longrightarrow> split_on c s = [s]"
  by (induction s) auto

lemma split_on_append: "c \<notin> set s \<Longrightarrow> split_on c (s @ c # t) = s # split_on c t"
  by (induction s) auto

lemma split_on_append_sep: "split_on c (s @ c # t) = split_on c s @ split_on c t"
proof (induction s)
  case Nil
  then show ?case by simp
next
  case (Cons x s)
  obtain p ps where "split_on c s = p # ps" by (meson neq_Nil_conv split_on_ne)
  with Cons show ?case by auto
qed

text \<open>\<open>join\<close> puts a separator between the pieces.\<close>

fun join :: "string \<Rightarrow> string list \<Rightarrow> string" where
  "join sep [] = []"
| "join sep [s] = s"
| "join sep (s # t # ts) = s @ sep @ join sep (t # ts)"

lemma join_split: "join [c] (split_on c s) = s"
proof (induction s)
  case Nil
  then show ?case by simp
next
  case (Cons x s)
  obtain p ps where "split_on c s = p # ps" by (meson neq_Nil_conv split_on_ne)
  with Cons show ?case by (cases ps) auto
qed

section \<open>Decimal numbers\<close>

definition digit_char :: "nat \<Rightarrow> char" where
  "digit_char d = char_of (48 + d)"

definition digit_value :: "char \<Rightarrow> nat" where
  "digit_value c = code_unit c - 48"

fun nat_text :: "nat \<Rightarrow> string" where
  "nat_text n = (if n < 10 then [digit_char n] else nat_text (n div 10) @ [digit_char (n mod 10)])"

declare nat_text.simps [simp del]

definition text_nat :: "string \<Rightarrow> nat" where
  "text_nat s = foldl (\<lambda>a c. 10 * a + digit_value c) 0 s"

definition int_text :: "int \<Rightarrow> string" where
  "int_text n = (if n < 0 then CHR ''-'' # nat_text (nat (- n)) else nat_text (nat n))"

definition pad_start :: "nat \<Rightarrow> char \<Rightarrow> string \<Rightarrow> string" where
  "pad_start n c s = replicate (n - length s) c @ s"

definition pad_end :: "nat \<Rightarrow> char \<Rightarrow> string \<Rightarrow> string" where
  "pad_end n c s = s @ replicate (n - length s) c"

lemma code_unit_digit_char: "d < 10 \<Longrightarrow> code_unit (digit_char d) = 48 + d"
  by (simp add: code_unit_def digit_char_def)

lemma digit_value_digit_char [simp]: "d < 10 \<Longrightarrow> digit_value (digit_char d) = d"
  by (simp add: digit_value_def code_unit_digit_char)

lemma is_digit_digit_char [simp]: "d < 10 \<Longrightarrow> is_digit (digit_char d)"
  by (simp add: is_digit_def code_unit_digit_char)

lemma digit_char_digit_value: "is_digit c \<Longrightarrow> digit_char (digit_value c) = c"
  by (simp add: is_digit_def digit_char_def digit_value_def code_unit_def)

lemma digit_value_bound: "is_digit c \<Longrightarrow> digit_value c < 10"
  unfolding is_digit_def digit_value_def by linarith

lemma text_nat_Nil [simp]: "text_nat [] = 0"
  by (simp add: text_nat_def)

lemma text_nat_snoc: "text_nat (s @ [c]) = 10 * text_nat s + digit_value c"
  by (simp add: text_nat_def)

lemma text_nat_append: "text_nat (s @ t) = text_nat s * 10 ^ length t + text_nat t"
proof (induction t rule: rev_induct)
  case Nil
  then show ?case by simp
next
  case (snoc c t)
  have "text_nat (s @ t @ [c]) = 10 * text_nat (s @ t) + digit_value c"
    using text_nat_snoc [of "s @ t" c] by simp
  with snoc show ?case by (simp add: text_nat_snoc algebra_simps)
qed

lemma nat_text_digits: "\<forall>c\<in>set (nat_text n). is_digit c"
proof (induction n rule: nat_text.induct)
  case (1 n)
  then show ?case by (subst nat_text.simps) auto
qed

lemma nat_text_ne [simp]: "nat_text n \<noteq> []"
  by (subst nat_text.simps) simp

lemma text_nat_nat_text [simp]: "text_nat (nat_text n) = n"
proof (induction n rule: nat_text.induct)
  case (1 n)
  then show ?case
    by (subst nat_text.simps) (auto simp: text_nat_snoc text_nat_def)
qed

lemma text_nat_zeros [simp]: "text_nat (replicate n CHR ''0'' @ s) = text_nat s"
proof -
  have "text_nat (replicate n CHR ''0'') = 0"
    by (induction n) (simp_all add: text_nat_def digit_value_def code_unit_def)
  then show ?thesis by (simp add: text_nat_append)
qed

lemma text_nat_pad [simp]: "text_nat (pad_start n CHR ''0'' s) = text_nat s"
  by (simp add: pad_start_def)

lemma text_nat_bound: "\<forall>c\<in>set s. is_digit c \<Longrightarrow> text_nat s < 10 ^ length s"
proof (induction s rule: rev_induct)
  case Nil
  then show ?case by simp
next
  case (snoc c s)
  then have "text_nat s < 10 ^ length s" "digit_value c < 10" by (auto simp: digit_value_bound)
  then show ?case by (simp add: text_nat_snoc)
qed

lemma digit_zero [simp]: "is_digit CHR ''0''"
  by (simp add: is_digit_def code_unit_def)

lemma pad_start_digits: "\<forall>c\<in>set s. is_digit c \<Longrightarrow> \<forall>c\<in>set (pad_start n CHR ''0'' s). is_digit c"
  by (auto simp: pad_start_def)

lemma length_nat_text_less: "0 < k \<Longrightarrow> n < 10 ^ k \<Longrightarrow> length (nat_text n) \<le> k"
proof (induction n arbitrary: k rule: nat_text.induct)
  case (1 n)
  show ?case
  proof (cases "n < 10")
    case True
    then show ?thesis using "1.prems" by (subst nat_text.simps) simp
  next
    case False
    with "1.prems" obtain k' where k: "k = Suc k'" "0 < k'"
      by (cases k) (auto simp: gr0_conv_Suc, metis less_irrefl_nat power_0 power_one_right not0_implies_Suc mult.right_neutral)
    have "n div 10 < 10 ^ k'" using "1.prems" k by simp
    with "1.IH" [OF False k(2)] have "length (nat_text (n div 10)) \<le> k'" by blast
    with False k show ?thesis by (subst nat_text.simps) simp
  qed
qed

lemma length_pad_start: "length s \<le> n \<Longrightarrow> length (pad_start n c s) = n"
  by (simp add: pad_start_def)

text \<open>Digit texts of one length are ordered as the numbers they write.\<close>

lemma digit_less_iff:
  "is_digit c \<Longrightarrow> is_digit d \<Longrightarrow> c < d \<longleftrightarrow> digit_value c < digit_value d"
  by (auto simp: is_digit_def digit_value_def code_unit_def less_char_def)

lemma text_nat_Cons: "text_nat (c # s) = digit_value c * 10 ^ length s + text_nat s"
  using text_nat_append [of "[c]" s] by (simp add: text_nat_def)

lemma digit_value_inj: "is_digit c \<Longrightarrow> is_digit d \<Longrightarrow> digit_value c = digit_value d \<Longrightarrow> c = d"
  by (metis digit_char_digit_value)

lemma digits_less_iff:
  assumes "length s = length t" "\<forall>c\<in>set s. is_digit c" "\<forall>c\<in>set t. is_digit c"
  shows "s < t \<longleftrightarrow> text_nat s < text_nat t"
  using assms
proof (induction s t rule: list_induct2)
  case Nil
  then show ?case by simp
next
  case (Cons c s d t)
  have bs: "text_nat s < 10 ^ length s" and bt: "text_nat t < 10 ^ length s"
    using Cons text_nat_bound [of s] text_nat_bound [of t] by auto
  consider "digit_value c < digit_value d" | "digit_value d < digit_value c" | "c = d"
    using Cons.prems digit_value_inj by (metis linorder_neqE_nat list.set_intros(1))
  then show ?case
  proof cases
    case 1
    then have "Suc (digit_value c) * 10 ^ length s \<le> digit_value d * 10 ^ length s"
      by (intro mult_right_mono) simp_all
    with 1 show ?thesis using Cons bs by (simp add: text_nat_Cons digit_less_iff)
  next
    case 2
    then have "Suc (digit_value d) * 10 ^ length s \<le> digit_value c * 10 ^ length s"
      by (intro mult_right_mono) simp_all
    with 2 show ?thesis using Cons bt by (auto simp: text_nat_Cons digit_less_iff)
  next
    case 3
    with Cons show ?thesis by (simp add: text_nat_Cons)
  qed
qed

section \<open>Printing and reading back\<close>

text \<open>
  The contract between a printer and the parser that reads its texts: what is printed reads
  back, so different values have different texts.
\<close>

locale round_trip =
  fixes print :: "'a \<Rightarrow> 'b" and parse :: "'b \<Rightarrow> 'a option" and valid :: "'a \<Rightarrow> bool"
  assumes parse_print: "valid x \<Longrightarrow> parse (print x) = Some x"
begin

lemma print_inj: "valid x \<Longrightarrow> valid y \<Longrightarrow> print x = print y \<Longrightarrow> x = y"
  by (metis option.inject parse_print)

lemma print_eq_iff: "valid x \<Longrightarrow> valid y \<Longrightarrow> print x = print y \<longleftrightarrow> x = y"
  using print_inj by blast

end

text \<open>A parser that reads the printed texts only: each value has one text.\<close>

locale codec = round_trip +
  assumes print_parse: "parse s = Some x \<Longrightarrow> valid x \<and> print x = s"
begin

lemma parse_inj: "parse s = Some x \<Longrightarrow> parse t = Some x \<Longrightarrow> s = t"
  by (metis print_parse)

lemma parse_valid: "parse s = Some x \<Longrightarrow> valid x"
  using print_parse by blast

lemma parse_Some_iff: "parse s = Some x \<longleftrightarrow> valid x \<and> s = print x"
  using parse_print print_parse by blast

end

end
