(* ===== verification/Money.thy ===== *)
theory Money
  imports JsText
begin

text \<open>
  Integer cents and basis points: the arithmetic of \<open>packages/core-domain/src/money.ts\<close>.
  A JavaScript number is \<open>Whole v\<close> (an integer-valued double, given as the integer) or
  \<open>NotWhole\<close> (a fraction, \<open>NaN\<close> or an infinity). Sums and differences of two safe integers
  that leave the safe range are refused by \<open>cents\<close> whatever double they round to, so the
  integer model agrees with the code; products run in \<open>BigInt\<close> and are exact.
\<close>

section \<open>Integer cents\<close>

datatype js_number = Whole int | NotWhole

definition max_safe :: int where
  "max_safe = 9007199254740991"

definition safe_int :: "int \<Rightarrow> bool" where
  "safe_int v \<longleftrightarrow> \<bar>v\<bar> \<le> max_safe"

fun cents :: "js_number \<Rightarrow> int res" where
  "cents NotWhole = Inl (MoneyError ''not an integer'')"
| "cents (Whole v) =
     (if safe_int v then Inr v else Inl (MoneyError ''out of safe integer range''))"

abbreviation cents_of :: "int \<Rightarrow> int res" where
  "cents_of v \<equiv> cents (Whole v)"

fun bps :: "js_number \<Rightarrow> int res" where
  "bps NotWhole = Inl (MoneyError ''bps'')"
| "bps (Whole v) = (if v < 0 \<or> v > 10000 then Inl (MoneyError ''bps'') else Inr v)"

definition addCents :: "int \<Rightarrow> int \<Rightarrow> int res" where
  "addCents a b = cents_of (a + b)"

definition subCents :: "int \<Rightarrow> int \<Rightarrow> int res" where
  "subCents a b = cents_of (a - b)"

definition sumCents :: "int list \<Rightarrow> int res" where
  "sumCents values = fold_res addCents 0 values"

definition divRoundHalfUp :: "int \<Rightarrow> int \<Rightarrow> int res" where
  "divRoundHalfUp numerator denominator =
     (if denominator \<le> 0 then Inl (MoneyError ''denominator must be positive'')
      else let negative = numerator < 0;
               n = (if negative then - numerator else numerator);
               q = (n * 2 + denominator) div (denominator * 2)
           in Inr (if negative then - q else q))"

definition applyBps :: "int \<Rightarrow> int \<Rightarrow> int res" where
  "applyBps amount rate = bind_res (divRoundHalfUp (amount * rate) 10000) cents_of"

definition feeCents :: "int \<Rightarrow> int \<Rightarrow> int res" where
  "feeCents billableRecovery feePctBps =
     (if billableRecovery < 0 then Inl (MoneyError ''a recovery cannot be negative'')
      else applyBps billableRecovery feePctBps)"

fun shortageCents :: "js_number \<Rightarrow> js_number \<Rightarrow> int \<Rightarrow> int res" where
  "shortageCents (Whole qtyInvoiced) (Whole qtyReceived) unitCostCents =
     (if qtyInvoiced < 0 \<or> qtyReceived < 0 then Inl (MoneyError ''quantities cannot be negative'')
      else if qtyReceived > qtyInvoiced then Inl (MoneyError ''overage'')
      else if unitCostCents < 0 then Inl (MoneyError ''unit cost cannot be negative'')
      else cents_of ((qtyInvoiced - qtyReceived) * unitCostCents))"
| "shortageCents _ _ _ = Inl (MoneyError ''quantities must be integers'')"

section \<open>Checked sums\<close>

text \<open>
  What the rest of the program relies on: an addition that either throws or gives the exact
  sum within its range. A sum over an array then either throws or is exact.
\<close>

locale checked_sum =
  fixes add :: "int \<Rightarrow> int \<Rightarrow> int res" and in_range :: "int \<Rightarrow> bool"
  assumes add_exact: "add a b = Inr c \<longleftrightarrow> in_range c \<and> c = a + b"
begin

lemma sum_exact: "fold_res add a xs = Inr c \<Longrightarrow> c = a + sum_list xs"
  by (induction xs arbitrary: a) (force simp: bind_res_Inr_iff add_exact)+

lemma sum_in_range: "fold_res add a xs = Inr c \<Longrightarrow> in_range a \<Longrightarrow> in_range c"
  by (induction xs arbitrary: a) (auto simp: bind_res_Inr_iff add_exact)

lemma sum_map_exact: "fold_res (\<lambda>acc x. add acc (f x)) a xs = Inr c \<Longrightarrow> c = a + (\<Sum>x\<leftarrow>xs. f x)"
  by (induction xs arbitrary: a) (force simp: bind_res_Inr_iff add_exact)+

text \<open>Where every partial sum stays in range, the sum is returned.\<close>

lemma sum_total:
  assumes "\<And>k. k \<le> length xs \<Longrightarrow> in_range (a + sum_list (take k xs))"
  shows "fold_res add a xs = Inr (a + sum_list xs)"
  using assms
proof (induction xs arbitrary: a)
  case Nil
  then show ?case by simp
next
  case (Cons x xs)
  have "in_range (a + x)" using Cons.prems [of 1] by simp
  moreover have "fold_res add (a + x) xs = Inr (a + x + sum_list xs)"
    using Cons.prems [of "Suc k" for k] by (intro Cons.IH) (simp add: add.assoc)
  ultimately have "add a x = Inr (a + x)" using add_exact by blast
  then show ?case using \<open>fold_res add (a + x) xs = _\<close> by (simp add: add.assoc)
qed

end

lemma cents_Inr_iff: "cents n = Inr v \<longleftrightarrow> n = Whole v \<and> safe_int v"
  by (cases n) auto

interpretation cents: checked_sum addCents safe_int
  by unfold_locales (auto simp: addCents_def)

lemma safe_int_0 [simp]: "safe_int 0"
  by (simp add: safe_int_def max_safe_def)

lemma subCents_Inr_iff: "subCents a b = Inr c \<longleftrightarrow> safe_int c \<and> c = a - b"
  by (auto simp: subCents_def)

lemma addCents_Inr_iff: "addCents a b = Inr c \<longleftrightarrow> safe_int c \<and> c = a + b"
  by (rule cents.add_exact)

lemma sumCents_Inr: "sumCents xs = Inr c \<Longrightarrow> c = sum_list xs \<and> safe_int c"
  using cents.sum_exact [of 0 xs c] cents.sum_in_range [of 0 xs c] by (simp add: sumCents_def)

text \<open>Non-negative amounts with a safe total never throw on the way.\<close>

lemma sumCents_nonneg:
  assumes "\<forall>x\<in>set xs. 0 \<le> x" "sum_list xs \<le> max_safe"
  shows "sumCents xs = Inr (sum_list xs)"
proof -
  have "safe_int (0 + sum_list (take k xs))" for k
  proof -
    have "sum_list xs = sum_list (take k xs) + sum_list (drop k xs)"
      by (metis append_take_drop_id sum_list_append)
    moreover have "0 \<le> sum_list (take k xs)" "0 \<le> sum_list (drop k xs)"
      using assms(1) by (auto intro!: sum_list_nonneg dest: in_set_takeD in_set_dropD)
    ultimately show ?thesis using assms(2) by (simp add: safe_int_def)
  qed
  then show ?thesis using cents.sum_total [of xs 0] by (simp add: sumCents_def)
qed

section \<open>Rounding and rates\<close>

text \<open>The quotient is within half a unit of the exact one, a half rounds away from zero, and the
  sign is the numerator's.\<close>

lemma divRoundHalfUp_spec:
  assumes "0 < d"
  shows "divRoundHalfUp n d = Inr (sgn n * ((2 * \<bar>n\<bar> + d) div (2 * d)))"
  using assms by (auto simp: divRoundHalfUp_def Let_def sgn_if mult.commute add.commute)

lemma half_up_bounds:
  fixes n d :: int
  assumes "0 < d"
  shows "2 * d * ((2 * n + d) div (2 * d)) \<le> 2 * n + d"
    "2 * n - d < 2 * d * ((2 * n + d) div (2 * d))"
proof -
  have "2 * d * ((2 * n + d) div (2 * d)) + (2 * n + d) mod (2 * d) = 2 * n + d"
    by (rule mult_div_mod_eq)
  moreover have "0 \<le> (2 * n + d) mod (2 * d)" "(2 * n + d) mod (2 * d) < 2 * d" using assms by simp_all
  ultimately show "2 * d * ((2 * n + d) div (2 * d)) \<le> 2 * n + d"
    "2 * n - d < 2 * d * ((2 * n + d) div (2 * d))" by linarith+
qed

lemma divRoundHalfUp_error:
  assumes "divRoundHalfUp n d = Inr q"
  shows "0 < d" "\<bar>2 * n - 2 * d * q\<bar> \<le> d" "0 \<le> n \<Longrightarrow> 0 \<le> q \<and> 2 * n - 2 * d * q < d"
proof -
  show d: "0 < d" using assms by (auto simp: divRoundHalfUp_def split: if_splits)
  define k where "k = (2 * \<bar>n\<bar> + d) div (2 * d)"
  have q: "q = sgn n * k" using assms divRoundHalfUp_spec [OF d] by (simp add: k_def)
  have k: "2 * d * k \<le> 2 * \<bar>n\<bar> + d" "2 * \<bar>n\<bar> - d < 2 * d * k" "0 \<le> k"
    using half_up_bounds [OF d, of "\<bar>n\<bar>"] d by (simp_all add: k_def pos_imp_zdiv_nonneg_iff)
  have z: "n = 0 \<Longrightarrow> k = 0" using d by (simp add: k_def)
  show "\<bar>2 * n - 2 * d * q\<bar> \<le> d"
    using k z d by (cases n "0::int" rule: linorder_cases) (auto simp: q)
  show "0 \<le> n \<Longrightarrow> 0 \<le> q \<and> 2 * n - 2 * d * q < d"
    using k z d by (cases n "0::int" rule: linorder_cases) (auto simp: q)
qed

lemma div_mono_half: "0 < (d::int) \<Longrightarrow> a \<le> b \<Longrightarrow> a div d \<le> b div d"
  by (rule zdiv_mono1)

lemma applyBps_Inr: "applyBps a r = Inr f \<Longrightarrow> divRoundHalfUp (a * r) 10000 = Inr f \<and> safe_int f"
  by (auto simp: applyBps_def bind_res_Inr_iff split: if_splits)

lemma applyBps_total:
  assumes "safe_int a" "0 \<le> a" "0 \<le> r" "r \<le> 10000"
  obtains f where "applyBps a r = Inr f" "0 \<le> f" "f \<le> a"
proof -
  obtain f where f: "divRoundHalfUp (a * r) 10000 = Inr f"
    using divRoundHalfUp_spec [of 10000 "a * r"] by simp
  have ar: "0 \<le> a * r" "a * r \<le> a * 10000" using assms by (simp_all add: mult_left_mono)
  have fn: "0 \<le> f" using divRoundHalfUp_error(3) [OF f ar(1)] by simp
  have "2 * 10000 * f \<le> 2 * (a * r) + 10000"
    using divRoundHalfUp_error(2) [OF f] by linarith
  then have "f \<le> a" using ar(2) by linarith
  moreover from this fn have "safe_int f" using assms(1) by (simp add: safe_int_def)
  ultimately show ?thesis using that f fn by (simp add: applyBps_def)
qed

section \<open>Properties\<close>

text \<open>The fee on a recovery is between nothing and the whole recovery, at every rate from 0 to
  10,000 basis points, and within half a cent of the exact product. It is always returned.\<close>

theorem fee_within_recovery:
  assumes "safe_int a" "0 \<le> a" "0 \<le> r" "r \<le> 10000"
  shows "\<exists>f. feeCents a r = Inr f \<and> 0 \<le> f \<and> f \<le> a \<and> \<bar>2 * (a * r) - 20000 * f\<bar> \<le> 10000"
proof -
  obtain f where f: "applyBps a r = Inr f" "0 \<le> f" "f \<le> a" using applyBps_total [OF assms] .
  have "divRoundHalfUp (a * r) 10000 = Inr f" using applyBps_Inr [OF f(1)] by simp
  from divRoundHalfUp_error(2) [OF this] show ?thesis using f assms(2) by (simp add: feeCents_def)
qed

theorem fee_within_recovery_witness:
  "\<exists>f. feeCents 312055 2250 = Inr f \<and> 0 \<le> f \<and> f \<le> 312055 \<and> \<bar>2 * (312055 * 2250) - 20000 * f\<bar> \<le> 10000"
  using fee_within_recovery [of 312055 2250] by (simp add: safe_int_def max_safe_def)

section \<open>Integers as doubles\<close>

text \<open>The sum of two integer doubles is their exact sum rounded to 53 binary digits, ties to even.\<close>

function unit_from :: "int \<Rightarrow> int \<Rightarrow> int" where
  "unit_from u a = (if a < 9007199254740992 * u \<or> u \<le> 0 then u else unit_from (2 * u) a)"
  by pat_completeness auto
termination by (relation "measure (\<lambda>(u, a). nat (a - u))") auto

declare unit_from.simps [simp del]

definition round_double :: "int \<Rightarrow> int" where
  "round_double n =
     (let a = \<bar>n\<bar>; u = unit_from 1 a; q = a div u; r = a mod u;
          m = (if 2 * r > u \<or> 2 * r = u \<and> q mod 2 = 1 then q + 1 else q) * u
      in if n < 0 then - m else m)"

lemma round_double_safe: "safe_int n \<Longrightarrow> round_double n = n"
proof -
  assume "safe_int n"
  then have u: "unit_from 1 \<bar>n\<bar> = 1" by (subst unit_from.simps) (simp add: safe_int_def max_safe_def)
  show ?thesis unfolding round_double_def Let_def u by simp
qed

end
