(* ===== verification/MoneyText.thy ===== *)
theory MoneyText
  imports Money
begin

text \<open>
  Money as printed, from \<open>packages/core-domain/src/money.ts\<close>: the reader both parsers share,
  amounts in cents, unit prices past the cent, and the two printers. The lemmas show that a
  formatted amount reads back as the same cents and what a parser can return.
\<close>

section \<open>Reading a printed number\<close>

record printed_number =
  pn_negative :: bool
  pn_whole :: string
  pn_fraction :: string

text \<open>\<open>/^\((.*)\)$/\<close>: the text between accounting parentheses.\<close>

definition parenthesised :: "string \<Rightarrow> string option" where
  "parenthesised s =
     (if 2 \<le> length s \<and> hd s = CHR ''('' \<and> last s = CHR '')'' \<and>
         list_all (\<lambda>c. \<not> is_newline c) (butlast (tl s))
      then Some (butlast (tl s)) else None)"

text \<open>\<open>/^(.*?)\s*(CR|DR)$/\<close>: the text before a trailing marker, and whether it is \<open>CR\<close>.\<close>

definition credit_marker :: "string \<Rightarrow> (string \<times> bool) option" where
  "credit_marker s =
     (let n = length s; m = drop (n - 2) s; p = trim_end (take (n - 2) s) in
      if 2 \<le> n \<and> (m = ''CR'' \<or> m = ''DR'') \<and> list_all (\<lambda>c. \<not> is_newline c) p
      then Some (p, m = ''CR'') else None)"

text \<open>\<open>replace(/\bUSD\b/g, '')\<close>; \<open>prev\<close> says whether the character before is a word character.\<close>

fun drop_usd :: "bool \<Rightarrow> string \<Rightarrow> string" where
  "drop_usd prev [] = []"
| "drop_usd prev (c # s) =
     (if \<not> prev \<and> take 3 (c # s) = ''USD'' \<and> (drop 2 s = [] \<or> \<not> is_word_char (hd (drop 2 s)))
      then drop_usd True (drop 2 s)
      else c # drop_usd (is_word_char c) s)"

text \<open>\<open>/^[0-9,]*\.?[0-9]*$/\<close>\<close>

definition number_shape :: "string \<Rightarrow> bool" where
  "number_shape s =
     (let r = dropWhile (\<lambda>c. is_digit c \<or> c = CHR '','') s
      in r = [] \<or> hd r = CHR ''.'' \<and> list_all is_digit (tl r))"

definition groups_ok :: "string list \<Rightarrow> bool" where
  "groups_ok groups =
     (case groups of [] \<Rightarrow> False
      | g # rest \<Rightarrow> g \<noteq> [] \<and> length g \<le> 3 \<and> list_all (\<lambda>h. length h = 3) rest)"

text \<open>A leading sign, the second one that can flip the parentheses' or the marker's.\<close>

definition strip_sign :: "bool \<Rightarrow> string \<Rightarrow> bool \<times> string" where
  "strip_sign negative working =
     (case working of
        [] \<Rightarrow> (negative, working)
      | c # r \<Rightarrow> if c = CHR ''-'' then (\<not> negative, r)
                else if c = CHR ''+'' then (negative, r) else (negative, working))"

text \<open>The digits, taken apart at the point, with the thousands separators checked and dropped.\<close>

definition read_digits :: "bool \<Rightarrow> string \<Rightarrow> printed_number res" where
  "read_digits negative working =
     (if \<not> number_shape working \<or> working = [] \<or> working = ''.''
      then Inl (MoneyError ''cannot parse money'')
      else let
        parts = split_on CHR ''.'' working;
        wholePart = hd parts;
        fractionPart = (case tl parts of [] \<Rightarrow> [] | f # _ \<Rightarrow> f);
        whole = filter (\<lambda>c. c \<noteq> CHR '','') wholePart
      in
      if CHR '','' \<in> set wholePart \<and> \<not> groups_ok (split_on CHR '','' wholePart)
      then Inl (MoneyError ''ambiguous thousands separators'')
      else if whole = [] \<and> fractionPart = [] then Inl (MoneyError ''cannot parse money'')
      else Inr \<lparr>pn_negative = negative, pn_whole = whole, pn_fraction = fractionPart\<rparr>)"

definition readPrinted :: "string \<Rightarrow> printed_number res" where
  "readPrinted text =
     (let w0 = to_upper (trim text) in
      if w0 = [] then Inl (MoneyError ''cannot parse money from an empty string'')
      else let
        (n1, w1) = (case parenthesised w0 of Some p \<Rightarrow> (True, trim p) | None \<Rightarrow> (False, w0));
        (n2, w2) = (case credit_marker w1 of
                      Some (p, cr) \<Rightarrow> (if cr then \<not> n1 else n1, trim p) | None \<Rightarrow> (n1, w1));
        w3 = filter (\<lambda>c. \<not> is_ws c) (filter (\<lambda>c. c \<noteq> CHR ''$'') (drop_usd False w2));
        (n4, w4) = strip_sign n2 w3
      in read_digits n4 w4)"

section \<open>Amounts\<close>

definition mayBeThousandsGroup :: "string \<Rightarrow> bool" where
  "mayBeThousandsGroup fraction \<longleftrightarrow> length fraction = 3"

definition centsOfFraction :: "string \<Rightarrow> string res" where
  "centsOfFraction fractionPart =
     (if length fractionPart = 2 then Inr fractionPart
      else if length fractionPart < 2 then Inl (MoneyError ''expected two decimal places'')
      else if \<not> list_all (\<lambda>c. c = CHR ''0'') (drop 2 fractionPart)
        then Inl (MoneyError ''a fraction of a cent is not rounded'')
      else if mayBeThousandsGroup fractionPart
        then Inl (MoneyError ''three digits could be a thousands group'')
      else Inr (take 2 fractionPart))"

definition parseMoneyToCents :: "string \<Rightarrow> int res" where
  "parseMoneyToCents text =
     bind_res (readPrinted text) (\<lambda>printed.
     bind_res (if pn_fraction printed = [] then Inr ''00'' else centsOfFraction (pn_fraction printed))
       (\<lambda>fraction.
        let magnitude =
              int (text_nat ((if pn_whole printed = [] then ''0'' else pn_whole printed) @ fraction))
        in if \<not> safe_int magnitude then Inl (MoneyError ''out of safe integer range'')
           else cents_of (if pn_negative printed then - magnitude else magnitude)))"

text \<open>\<open>toLocaleString('en-US')\<close> of a whole number: a comma before every third digit from the end.\<close>

fun group_rev :: "string \<Rightarrow> string" where
  "group_rev (a # b # c # d # r) = a # b # c # CHR '','' # group_rev (d # r)"
| "group_rev s = s"

definition thousands :: "nat \<Rightarrow> string" where
  "thousands n = rev (group_rev (rev (nat_text n)))"

definition formatCents :: "int \<Rightarrow> string" where
  "formatCents amount =
     (let negative = amount < 0; a = \<bar>amount\<bar>
      in (if negative then ''-'' else []) @ ''$'' @ thousands (nat (a div 100)) @ ''.'' @
         pad_start 2 CHR ''0'' (nat_text (nat (a mod 100))))"

section \<open>Unit prices\<close>

record unit_price =
  up_cents :: int
  up_rounded :: bool
  up_units :: int
  up_places :: nat

definition centsFromBigInt :: "int \<Rightarrow> int res" where
  "centsFromBigInt value =
     (if \<not> safe_int value then Inl (MoneyError ''out of safe integer range'') else cents_of value)"

definition parseUnitPrice :: "string \<Rightarrow> unit_price res" where
  "parseUnitPrice text =
     bind_res (readPrinted text) (\<lambda>printed.
       if length (pn_fraction printed) = 1 then Inl (MoneyError ''expected two decimal places'')
       else if mayBeThousandsGroup (pn_fraction printed)
         then Inl (MoneyError ''three digits could be a thousands group'')
       else let
         places = length (pn_fraction printed);
         magnitude = int (text_nat ((if pn_whole printed = [] then ''0'' else pn_whole printed) @
                                    pn_fraction printed));
         units = (if pn_negative printed then - magnitude else magnitude);
         scale = 10 ^ places
       in bind_res (divRoundHalfUp (units * 100) scale) (\<lambda>rounded.
          bind_res (centsFromBigInt rounded) (\<lambda>c.
          Inr \<lparr>up_cents = c, up_rounded = \<not> scale dvd units * 100,
               up_units = units, up_places = places\<rparr>)))"

fun extendedCents :: "js_number \<Rightarrow> unit_price \<Rightarrow> int res" where
  "extendedCents NotWhole price = Inl (MoneyError ''a quantity must be an integer'')"
| "extendedCents (Whole quantity) price =
     (if \<not> safe_int quantity then Inl (MoneyError ''a quantity must be an integer'')
      else bind_res (divRoundHalfUp (quantity * up_units price * 100) (10 ^ up_places price))
        (\<lambda>total. if \<not> safe_int total then Inl (MoneyError ''out of the safe integer range of cents'')
                 else cents_of total))"

fun withinACentAt :: "js_number \<Rightarrow> unit_price \<Rightarrow> int \<Rightarrow> bool" where
  "withinACentAt NotWhole price amount = False"
| "withinACentAt (Whole quantity) price amount =
     (safe_int quantity \<and>
      (let scale = 10 ^ up_places price;
           difference = amount * scale - quantity * up_units price * 100
       in \<bar>difference\<bar> < scale))"

fun shortageCentsAt :: "js_number \<Rightarrow> js_number \<Rightarrow> unit_price \<Rightarrow> int res" where
  "shortageCentsAt (Whole qtyInvoiced) (Whole qtyReceived) price =
     (if qtyInvoiced < 0 \<or> qtyReceived < 0 then Inl (MoneyError ''quantities cannot be negative'')
      else if qtyReceived > qtyInvoiced then Inl (MoneyError ''overage'')
      else if up_units price < 0 then Inl (MoneyError ''unit cost cannot be negative'')
      else extendedCents (Whole (qtyInvoiced - qtyReceived)) price)"
| "shortageCentsAt _ _ _ = Inl (MoneyError ''quantities must be integers'')"

text \<open>\<open>BigInt\<close> division truncates; here it divides exactly or not at all.\<close>

definition unitsAtPrice :: "int \<Rightarrow> unit_price \<Rightarrow> int option" where
  "unitsAtPrice amount price =
     (let perUnit = up_units price * 100 in
      if perUnit = 0 then None
      else let numerator = amount * 10 ^ up_places price in
        if \<not> perUnit dvd numerator then None
        else let units = numerator div perUnit in if safe_int units then Some units else None)"

definition compareUnitPrices :: "unit_price \<Rightarrow> unit_price \<Rightarrow> int" where
  "compareUnitPrices a b =
     (let left = up_units a * 10 ^ up_places b; right = up_units b * 10 ^ up_places a
      in if left = right then 0 else if left < right then -1 else 1)"

definition drop_trailing_zeros :: "string \<Rightarrow> string" where
  "drop_trailing_zeros s = rev (dropWhile (\<lambda>c. c = CHR ''0'') (rev s))"

definition formatUnitPrice :: "unit_price \<Rightarrow> string" where
  "formatUnitPrice price =
     (let negative = up_units price < 0;
          magnitude = \<bar>up_units price\<bar>;
          scale = 10 ^ up_places price;
          whole = magnitude div scale;
          digits = pad_start (up_places price) CHR ''0'' (nat_text (nat (magnitude mod scale)));
          f0 = pad_end 2 CHR ''0'' (drop_trailing_zeros digits);
          fraction = (if length f0 = 3 then f0 @ ''0'' else f0)
      in (if negative then ''-'' else []) @ ''$'' @ thousands (nat whole) @ ''.'' @ fraction)"

section \<open>What is printed reads back\<close>

lemma filter_group_rev:
  "\<forall>c\<in>set r. is_digit c \<Longrightarrow> filter (\<lambda>c. c \<noteq> CHR '','') (group_rev r) = r"
proof -
  have comma: "is_digit c \<Longrightarrow> c \<noteq> CHR '',''" for c by (auto simp: is_digit_def code_unit_def)
  show "\<forall>c\<in>set r. is_digit c \<Longrightarrow> ?thesis"
    by (induction r rule: group_rev.induct) (auto dest: comma)
qed

lemma set_group_rev: "c \<in> set (group_rev r) \<Longrightarrow> c \<in> set r \<or> c = CHR '',''"
  by (induction r rule: group_rev.induct) auto

lemma last_group_rev: "r \<noteq> [] \<Longrightarrow> group_rev r \<noteq> [] \<and> last (group_rev r) = last r"
  by (induction r rule: group_rev.induct) auto

lemma group_rev_groups:
  "\<forall>c\<in>set r. is_digit c \<Longrightarrow> r \<noteq> [] \<Longrightarrow> groups_ok (split_on CHR '','' (rev (group_rev r)))"
proof (induction r rule: group_rev.induct)
  case (1 a b c d r)
  have comma: "is_digit c \<Longrightarrow> c \<noteq> CHR '',''" for c by (auto simp: is_digit_def code_unit_def)
  have "split_on CHR '','' [c, b, a] = [[c, b, a]]"
    using "1.prems"(1) by (intro split_on_none) (auto dest: comma)
  moreover have "groups_ok (split_on CHR '','' (rev (group_rev (d # r))))"
    using 1 by simp
  ultimately show ?case
    by (auto simp: split_on_append_sep groups_ok_def split: list.splits)
qed (auto simp: groups_ok_def is_digit_def code_unit_def)

lemma thousands_facts:
  "filter (\<lambda>c. c \<noteq> CHR '','') (thousands n) = nat_text n"
  "\<forall>c\<in>set (thousands n). is_digit c \<or> c = CHR '',''"
  "thousands n \<noteq> []" "is_digit (hd (thousands n))"
  "groups_ok (split_on CHR '','' (thousands n))"
proof -
  let ?r = "rev (nat_text n)"
  have d: "\<forall>c\<in>set ?r. is_digit c" using nat_text_digits by simp
  show "filter (\<lambda>c. c \<noteq> CHR '','') (thousands n) = nat_text n"
    by (simp add: thousands_def filter_group_rev [OF d] rev_filter [symmetric])
  show "\<forall>c\<in>set (thousands n). is_digit c \<or> c = CHR '',''"
    using set_group_rev d by (fastforce simp: thousands_def)
  have l: "group_rev ?r \<noteq> []" "last (group_rev ?r) = last ?r" using last_group_rev [of ?r] by simp_all
  then show "thousands n \<noteq> []" by (simp add: thousands_def)
  show "is_digit (hd (thousands n))"
    using l d by (metis hd_rev last_in_set rev_is_Nil_conv nat_text_ne thousands_def)
  show "groups_ok (split_on CHR '','' (thousands n))"
    unfolding thousands_def by (rule group_rev_groups [OF d]) simp
qed

lemma drop_usd_id: "CHR ''U'' \<notin> set s \<Longrightarrow> drop_usd prev s = s"
  by (induction prev s rule: drop_usd.induct) auto

definition money_char :: "char \<Rightarrow> bool" where
  "money_char c \<longleftrightarrow> is_digit c \<or> c \<in> {CHR '','', CHR ''.'', CHR ''$'', CHR ''-''}"

lemma money_char_facts:
  assumes "money_char c"
  shows "\<not> is_ws c" "to_upper_char c = c" "c \<noteq> CHR ''U''" "c \<noteq> CHR ''(''" "c \<noteq> CHR ''C''" "c \<noteq> CHR ''D''"
  using assms
  by (auto simp: money_char_def is_digit_def is_ws_def to_upper_char_def is_lower_def code_unit_def)

text \<open>The reader on the shape both printers produce.\<close>

lemma readPrinted_shape:
  assumes G: "\<forall>c\<in>set G. is_digit c \<or> c = CHR '',''" "G \<noteq> []" "is_digit (hd G)"
      "CHR '','' \<in> set G \<longrightarrow> groups_ok (split_on CHR '','' G)"
    and F: "\<forall>c\<in>set F. is_digit c" "2 \<le> length F"
  shows "readPrinted ((if neg then ''-'' else []) @ (if dollar then ''$'' else []) @ G @ ''.'' @ F) =
    Inr \<lparr>pn_negative = neg, pn_whole = filter (\<lambda>c. c \<noteq> CHR '','') G, pn_fraction = F\<rparr>"
proof -
  define t where "t = (if neg then ''-'' else []) @ (if dollar then ''$'' else []) @ G @ ''.'' @ F"
  have mc: "\<forall>c\<in>set t. money_char c" using G(1) F(1) by (auto simp: t_def money_char_def)
  have trim: "trim t = t" using mc money_char_facts(1) by (intro trim_no_ws) blast
  have upper: "to_upper t = t" using mc money_char_facts(2) by (simp add: map_idI)
  have ne: "t \<noteq> []" using G(2) by (simp add: t_def)
  have "hd t \<noteq> CHR ''(''" using mc money_char_facts(4) ne by (meson hd_in_set)
  then have paren: "parenthesised t = None" by (simp add: parenthesised_def)
  have "set (drop (length t - 2) t) \<subseteq> set t" by (rule set_drop_subset)
  then have "CHR ''C'' \<notin> set (drop (length t - 2) t)" "CHR ''D'' \<notin> set (drop (length t - 2) t)"
    using mc money_char_facts(5,6) by blast+
  then have cr: "credit_marker t = None"
    by (auto simp: credit_marker_def Let_def)
  have usd: "drop_usd False t = t" using mc money_char_facts(3) by (intro drop_usd_id) blast
  have dollar: "c \<noteq> CHR ''$''" if "is_digit c \<or> c = CHR '',''" for c
    using that by (auto simp: is_digit_def code_unit_def)
  have filt: "filter (\<lambda>c. \<not> is_ws c) (filter (\<lambda>c. c \<noteq> CHR ''$'') t) =
      (if neg then ''-'' else []) @ G @ ''.'' @ F"
  proof -
    have "filter (\<lambda>c. \<not> is_ws c) (filter (\<lambda>c. c \<noteq> CHR ''$'') t) = filter (\<lambda>c. c \<noteq> CHR ''$'') t"
      using mc money_char_facts(1) by (intro filter_True) auto
    moreover have "filter (\<lambda>c. c \<noteq> CHR ''$'') G = G" "filter (\<lambda>c. c \<noteq> CHR ''$'') F = F"
      using G(1) F(1) dollar by (auto intro!: filter_True)
    ultimately show ?thesis by (simp add: t_def)
  qed
  have hdG: "hd G \<noteq> CHR ''-''" "hd G \<noteq> CHR ''+''" using G(3) by (auto simp: is_digit_def code_unit_def)
  have dot: "\<not> (is_digit CHR ''.'' \<or> CHR ''.'' = CHR '','')" by (simp add: is_digit_def code_unit_def)
  have "dropWhile (\<lambda>c. is_digit c \<or> c = CHR '','') (G @ ''.'' @ F) = ''.'' @ F"
    using G(1) dot by (simp add: dropWhile_append2 dropWhile_append3)
  then have shape: "number_shape (G @ ''.'' @ F)" using F(1) by (simp add: number_shape_def list_all_iff)
  have "CHR ''.'' \<notin> set G" "CHR ''.'' \<notin> set F" using G(1) F(1) dot by auto
  then have split: "split_on CHR ''.'' (G @ ''.'' @ F) = [G, F]"
    using split_on_append [of "CHR ''.''" G F] by (simp add: split_on_none)
  have F': "F \<noteq> []" using F(2) by auto
  obtain g G' where gG: "G = g # G'" using G(2) by (cases G) auto
  have sgn: "strip_sign False ((if neg then ''-'' else []) @ G @ ''.'' @ F) = (neg, G @ ''.'' @ F)"
    using hdG by (simp add: gG strip_sign_def)
  have digits: "read_digits neg (G @ ''.'' @ F) =
      Inr \<lparr>pn_negative = neg, pn_whole = filter (\<lambda>c. c \<noteq> CHR '','') G, pn_fraction = F\<rparr>"
  proof -
    have "\<not> (CHR '','' \<in> set G \<and> \<not> groups_ok (split_on CHR '','' G))" using G(4) by blast
    moreover have "G @ ''.'' @ F \<noteq> ''.''" using F' G(2) by (cases G) simp_all
    ultimately show ?thesis using shape F' G(2) unfolding read_digits_def split Let_def list.sel
      by (simp only: if_False) simp
  qed
  show ?thesis
    unfolding t_def [symmetric] readPrinted_def Let_def trim upper paren
    by (simp only: ne if_False option.case prod.case cr usd filt sgn digits)
qed

lemmas readPrinted_plain = readPrinted_shape [OF _ _ _ impI, where dollar = True, simplified]

lemma read_plain_iff:
  assumes "\<forall>c\<in>set W. is_digit c" "W \<noteq> []" "\<forall>c\<in>set F. is_digit c" "length F = 2"
  shows "parseMoneyToCents ((if neg then ''-'' else []) @ W @ ''.'' @ F) = Inr c \<longleftrightarrow>
    c = (if neg then - int (text_nat (W @ F)) else int (text_nat (W @ F))) \<and> safe_int c"
proof -
  have comma: "CHR '','' \<notin> set W" using assms(1) by (auto simp: is_digit_def code_unit_def)
  then have "filter (\<lambda>c. c \<noteq> CHR '','') W = W" by (auto intro: filter_True)
  then have "readPrinted ((if neg then ''-'' else []) @ W @ ''.'' @ F) =
      Inr \<lparr>pn_negative = neg, pn_whole = W, pn_fraction = F\<rparr>"
    using readPrinted_shape [of W F neg False] assms comma by (cases W) auto
  moreover have "F \<noteq> []" using assms(4) by auto
  ultimately show ?thesis using assms(2,4)
    by (cases neg) (auto simp: parseMoneyToCents_def centsOfFraction_def Let_def safe_int_def)
qed

lemma read_plain:
  assumes "\<forall>c\<in>set W. is_digit c" "W \<noteq> []" "\<forall>c\<in>set F. is_digit c" "length F = 2"
    "safe_int (if neg then - int (text_nat (W @ F)) else int (text_nat (W @ F)))"
  shows "parseMoneyToCents ((if neg then ''-'' else []) @ W @ ''.'' @ F) =
    Inr (if neg then - int (text_nat (W @ F)) else int (text_nat (W @ F)))"
  using read_plain_iff [OF assms(1-4)] assms(5) by blast

lemma pad2_digits: "\<forall>c\<in>set (pad_start k CHR ''0'' (nat_text n)). is_digit c"
  by (rule pad_start_digits [OF nat_text_digits])

lemma readPrinted_formatCents:
  "readPrinted (formatCents a) =
    Inr \<lparr>pn_negative = a < 0, pn_whole = nat_text (nat (\<bar>a\<bar> div 100)),
         pn_fraction = pad_start 2 CHR ''0'' (nat_text (nat (\<bar>a\<bar> mod 100)))\<rparr>"
proof -
  have "length (pad_start 2 CHR ''0'' (nat_text (nat (\<bar>a\<bar> mod 100)))) = 2"
    by (intro length_pad_start length_nat_text_less) simp_all
  then show ?thesis
    unfolding formatCents_def Let_def
    using readPrinted_plain [OF thousands_facts(2-5) pad2_digits, of 2 "nat (\<bar>a\<bar> mod 100)" "a < 0" "nat (\<bar>a\<bar> div 100)"]
      thousands_facts(1) by simp
qed

lemma parse_formatCents: "safe_int a \<Longrightarrow> parseMoneyToCents (formatCents a) = Inr a"
proof -
  assume safe: "safe_int a"
  define f where "f = pad_start 2 CHR ''0'' (nat_text (nat (\<bar>a\<bar> mod 100)))"
  define w where "w = nat_text (nat (\<bar>a\<bar> div 100))"
  have l: "length f = 2" unfolding f_def
    by (intro length_pad_start length_nat_text_less) simp_all
  have "0 \<le> \<bar>a\<bar> div 100" by (simp add: pos_imp_zdiv_nonneg_iff)
  then have mag: "int (text_nat (w @ f)) = \<bar>a\<bar>"
    unfolding text_nat_append l by (simp add: w_def f_def)
  have rp: "readPrinted (formatCents a) = Inr \<lparr>pn_negative = a < 0, pn_whole = w, pn_fraction = f\<rparr>"
    unfolding w_def f_def by (rule readPrinted_formatCents)
  have ne: "w \<noteq> []" "f \<noteq> []" using l by (auto simp: w_def)
  have cf: "centsOfFraction f = Inr f" by (simp add: centsOfFraction_def l)
  have "safe_int \<bar>a\<bar>" using safe by (simp add: safe_int_def)
  then have "parseMoneyToCents (formatCents a) = cents_of (if a < 0 then - \<bar>a\<bar> else \<bar>a\<bar>)"
    unfolding parseMoneyToCents_def rp bind_res_simps printed_number.simps Let_def
    by (simp only: ne if_False cf bind_res_simps mag simp_thms)
  then show ?thesis using safe by (simp split: if_splits)
qed

definition parse_money :: "string \<Rightarrow> int option" where
  "parse_money s = (case parseMoneyToCents s of Inl _ \<Rightarrow> None | Inr v \<Rightarrow> Some v)"

interpretation money_text: round_trip formatCents parse_money safe_int
  by unfold_locales (simp add: parse_money_def parse_formatCents)

text \<open>Whatever a parser returns is a safe integer.\<close>

lemma parseMoneyToCents_safe: "parseMoneyToCents s = Inr v \<Longrightarrow> safe_int v"
  by (auto simp: parseMoneyToCents_def bind_res_Inr_iff Let_def split: if_splits)

section \<open>Unit prices keep their exact value\<close>

lemma divRoundHalfUp_scale: "0 < k \<Longrightarrow> divRoundHalfUp (n * k) (d * k) = divRoundHalfUp n d"
proof -
  assume k: "0 < k"
  have "(m * k * 2 + d * k) div (d * k * 2) = (m * 2 + d) div (d * 2)" for m
  proof -
    have "m * k * 2 + d * k = (m * 2 + d) * k" "d * k * 2 = d * 2 * k" by (simp_all add: algebra_simps)
    then show ?thesis using k by simp
  qed
  moreover have "n * k < 0 \<longleftrightarrow> n < 0" "d * k \<le> 0 \<longleftrightarrow> d \<le> 0"
    using k by (simp_all add: mult_less_0_iff mult_le_0_iff)
  moreover have "- (n * k) = - n * k" by simp
  ultimately show ?thesis by (simp only: divRoundHalfUp_def Let_def split: if_split) simp
qed

definition price_ok :: "unit_price \<Rightarrow> bool" where
  "price_ok p \<longleftrightarrow> divRoundHalfUp (up_units p * 100) (10 ^ up_places p) = Inr (up_cents p) \<and>
     safe_int (up_cents p) \<and> (up_rounded p \<longleftrightarrow> \<not> 10 ^ up_places p dvd up_units p * 100)"

lemma parseUnitPrice_ok: "parseUnitPrice s = Inr p \<Longrightarrow> price_ok p"
  by (auto simp: parseUnitPrice_def price_ok_def bind_res_Inr_iff centsFromBigInt_def Let_def
      split: if_splits)

lemma compareUnitPrices_eq_0_iff:
  "compareUnitPrices a b = 0 \<longleftrightarrow> up_units a * 10 ^ up_places b = up_units b * 10 ^ up_places a"
  by (simp add: compareUnitPrices_def Let_def)

text \<open>Two writings of one price round to the same cents.\<close>

lemma same_value_same_cents:
  fixes u v :: int
  assumes "u * 10 ^ q = v * 10 ^ p"
  shows "divRoundHalfUp (u * 100) (10 ^ p) = divRoundHalfUp (v * 100) (10 ^ q)"
    "10 ^ p dvd u * 100 \<longleftrightarrow> 10 ^ q dvd v * 100"
proof -
  have eq: "u * 100 * 10 ^ q = v * 100 * 10 ^ p" using assms by simp
  have c: "(10::int) ^ p * 10 ^ q = 10 ^ q * 10 ^ p" by (rule mult.commute)
  have "divRoundHalfUp (u * 100) (10 ^ p) = divRoundHalfUp (u * 100 * 10 ^ q) (10 ^ p * 10 ^ q)"
    by (simp add: divRoundHalfUp_scale)
  also have "\<dots> = divRoundHalfUp (v * 100 * 10 ^ p) (10 ^ q * 10 ^ p)" by (simp only: eq c)
  also have "\<dots> = divRoundHalfUp (v * 100) (10 ^ q)" by (simp add: divRoundHalfUp_scale)
  finally show "divRoundHalfUp (u * 100) (10 ^ p) = divRoundHalfUp (v * 100) (10 ^ q)" .
  have "10 ^ p dvd u * 100 \<longleftrightarrow> 10 ^ p * 10 ^ q dvd u * 100 * 10 ^ q"
    by (rule dvd_times_right_cancel_iff [symmetric]) simp
  also have "\<dots> \<longleftrightarrow> 10 ^ q * 10 ^ p dvd v * 100 * 10 ^ p" by (simp only: eq c)
  also have "\<dots> \<longleftrightarrow> 10 ^ q dvd v * 100"
    by (rule dvd_times_right_cancel_iff) simp
  finally show "10 ^ p dvd u * 100 \<longleftrightarrow> 10 ^ q dvd v * 100" .
qed

lemma drop_trailing_zeros_split:
  obtains k where "s = drop_trailing_zeros s @ replicate k CHR ''0''"
proof -
  let ?z = "takeWhile (\<lambda>c. c = CHR ''0'') (rev s)"
  have "rev s = ?z @ dropWhile (\<lambda>c. c = CHR ''0'') (rev s)" by simp
  then have s: "s = drop_trailing_zeros s @ rev ?z"
    unfolding drop_trailing_zeros_def by (metis rev_append rev_rev_ident)
  have "\<forall>c\<in>set (rev ?z). c = CHR ''0''" by (auto dest: set_takeWhileD)
  then have "rev ?z = replicate (length (rev ?z)) CHR ''0''"
    using replicate_length_same by metis
  with s show ?thesis using that by metis
qed

lemma text_nat_append_zeros: "text_nat (s @ replicate k CHR ''0'') = text_nat s * 10 ^ k"
  using text_nat_zeros [of k "[]"] by (simp add: text_nat_append)

text \<open>The fraction \<open>formatUnitPrice\<close> prints: the same value as the places it came from.\<close>

definition printed_fraction :: "string \<Rightarrow> string" where
  "printed_fraction digits =
     (let f0 = pad_end 2 CHR ''0'' (drop_trailing_zeros digits)
      in if length f0 = 3 then f0 @ ''0'' else f0)"

lemma printed_fraction_facts:
  assumes "\<forall>c\<in>set d. is_digit c"
  shows "\<forall>c\<in>set (printed_fraction d). is_digit c" "2 \<le> length (printed_fraction d)"
    "length (printed_fraction d) \<noteq> 3"
    "text_nat (printed_fraction d) * 10 ^ length d = text_nat d * 10 ^ length (printed_fraction d)"
proof -
  obtain k where k: "d = drop_trailing_zeros d @ replicate k CHR ''0''"
    using drop_trailing_zeros_split .
  let ?e = "drop_trailing_zeros d"
  obtain j where j: "printed_fraction d = ?e @ replicate j CHR ''0''"
  proof (cases "length (pad_end 2 CHR ''0'' ?e) = 3")
    case True
    then have "printed_fraction d = ?e @ replicate (2 - length ?e + 1) CHR ''0''"
      by (simp add: printed_fraction_def pad_end_def Let_def replicate_append_same)
    then show ?thesis by (rule that)
  next
    case False
    then have "printed_fraction d = ?e @ replicate (2 - length ?e) CHR ''0''"
      by (simp add: printed_fraction_def pad_end_def Let_def)
    then show ?thesis by (rule that)
  qed
  have "set ?e \<subseteq> set d" using k by (metis Un_upper1 set_append)
  then show "\<forall>c\<in>set (printed_fraction d). is_digit c" using assms j by auto
  show "2 \<le> length (printed_fraction d)" "length (printed_fraction d) \<noteq> 3"
    by (auto simp: printed_fraction_def pad_end_def Let_def)
  have "text_nat d = text_nat ?e * 10 ^ k" "length d = length ?e + k"
    using k text_nat_append_zeros [of ?e k] by (metis, metis length_append length_replicate)
  moreover have "text_nat (printed_fraction d) = text_nat ?e * 10 ^ j"
    "length (printed_fraction d) = length ?e + j"
    using j by (simp_all add: text_nat_append_zeros)
  ultimately show "text_nat (printed_fraction d) * 10 ^ length d =
      text_nat d * 10 ^ length (printed_fraction d)"
    by (simp add: power_add)
qed

lemma formatUnitPrice_eq:
  "formatUnitPrice p =
     (if up_units p < 0 then ''-'' else []) @ ''$'' @
     thousands (nat (\<bar>up_units p\<bar> div 10 ^ up_places p)) @ ''.'' @
     printed_fraction (pad_start (up_places p) CHR ''0'' (nat_text (nat (\<bar>up_units p\<bar> mod 10 ^ up_places p))))"
  by (simp add: formatUnitPrice_def printed_fraction_def Let_def)

lemma parse_formatUnitPrice:
  assumes "price_ok p"
  shows "\<exists>q. parseUnitPrice (formatUnitPrice p) = Inr q \<and> compareUnitPrices p q = 0 \<and>
    up_cents q = up_cents p \<and> up_rounded q = up_rounded p"
proof -
  define P where "P = up_places p"
  define m where "m = \<bar>up_units p\<bar>"
  define d where "d = pad_start P CHR ''0'' (nat_text (nat (m mod 10 ^ P)))"
  define F where "F = printed_fraction d"
  define W where "W = nat (m div 10 ^ P)"
  have dd: "\<forall>c\<in>set d. is_digit c" unfolding d_def by (rule pad2_digits)
  note F = printed_fraction_facts [OF dd, folded F_def]
  have rp: "readPrinted (formatUnitPrice p) =
      Inr \<lparr>pn_negative = up_units p < 0, pn_whole = nat_text W, pn_fraction = F\<rparr>"
    unfolding formatUnitPrice_eq
    using readPrinted_plain [OF thousands_facts(2-5) F(1,2), of "up_units p < 0" W] thousands_facts(1)
    by (simp add: F_def d_def W_def P_def m_def)
  have mn: "0 \<le> m" by (simp add: m_def)
  have frac: "int (text_nat F) * 10 ^ P = m mod 10 ^ P * 10 ^ length F"
  proof (cases "P = 0")
    case True
    then have "text_nat d = 0" by (simp add: d_def)
    then have "text_nat F = 0" using F(4) by simp
    with True show ?thesis by simp
  next
    case False
    have "nat (m mod 10 ^ P) < 10 ^ P" by (simp add: nat_less_iff)
    then have "length d = P"
      unfolding d_def using False by (intro length_pad_start length_nat_text_less) auto
    moreover have "int (text_nat d) = m mod 10 ^ P" by (simp add: d_def)
    ultimately show ?thesis using F(4) by (metis of_nat_mult of_nat_numeral of_nat_power)
  qed
  define u where "u = int (text_nat (nat_text W @ F))"
  have "u = (m div 10 ^ P) * 10 ^ length F + int (text_nat F)"
    using mn by (simp add: u_def text_nat_append W_def pos_imp_zdiv_nonneg_iff)
  then have "u * 10 ^ P = (m div 10 ^ P) * 10 ^ length F * 10 ^ P + int (text_nat F) * 10 ^ P"
    by (simp only: distrib_right)
  also have "\<dots> = (m div 10 ^ P * 10 ^ P + m mod 10 ^ P) * 10 ^ length F"
    unfolding frac by (simp only: distrib_left mult.assoc mult.commute mult.left_commute)
  finally have uP: "u * 10 ^ P = m * 10 ^ length F" by (simp only: div_mult_mod_eq)
  define v where "v = (if up_units p < 0 then - u else u)"
  have vP: "up_units p * 10 ^ length F = v * 10 ^ P"
    using uP by (auto simp: v_def m_def)
  note same = same_value_same_cents [OF vP]
  have ok: "divRoundHalfUp (v * 100) (10 ^ length F) = Inr (up_cents p)" "safe_int (up_cents p)"
    "up_rounded p \<longleftrightarrow> \<not> 10 ^ length F dvd v * 100"
    using assms same by (simp_all add: price_ok_def P_def)
  define q where "q = \<lparr>up_cents = up_cents p, up_rounded = up_rounded p, up_units = v, up_places = length F\<rparr>"
  have l1: "length F \<noteq> 1" using F(2) by auto
  have "parseUnitPrice (formatUnitPrice p) =
      bind_res (divRoundHalfUp (v * 100) (10 ^ length F)) (\<lambda>r.
      bind_res (centsFromBigInt r) (\<lambda>c. Inr \<lparr>up_cents = c,
        up_rounded = \<not> 10 ^ length F dvd v * 100, up_units = v, up_places = length F\<rparr>))"
    unfolding parseUnitPrice_def rp bind_res_simps printed_number.simps Let_def mayBeThousandsGroup_def
    by (simp only: F(3) l1 if_False nat_text_ne u_def [symmetric] v_def [symmetric])
  then have "parseUnitPrice (formatUnitPrice p) = Inr q"
    using ok by (simp add: centsFromBigInt_def q_def)
  moreover have "compareUnitPrices p q = 0"
    unfolding compareUnitPrices_eq_0_iff using vP by (simp add: q_def P_def)
  ultimately show ?thesis by (auto simp: q_def)
qed

section \<open>Properties\<close>

text \<open>C25: every amount a page can hold survives printing: what \<open>formatCents\<close> prints, with its sign,
  thousands separators and two decimals, \<open>parseMoneyToCents\<close> reads back to the same cents.\<close>

theorem money_round_trip: "safe_int a \<Longrightarrow> parseMoneyToCents (formatCents a) = Inr a"
  by (rule parse_formatCents)

theorem money_round_trip_witness: "parseMoneyToCents (formatCents (- 123456789)) = Inr (- 123456789)"
  by (rule money_round_trip) (simp add: safe_int_def max_safe_def)

text \<open>A unit price read off a page, printed and read again is the same price to the last digit,
  with the same cents and the same note of whether those cents were rounded.\<close>

theorem unit_price_round_trip:
  assumes "parseUnitPrice s = Inr p"
  shows "\<exists>q. parseUnitPrice (formatUnitPrice p) = Inr q \<and> compareUnitPrices p q = 0 \<and>
    up_cents q = up_cents p \<and> up_rounded q = up_rounded p"
  by (rule parse_formatUnitPrice [OF parseUnitPrice_ok [OF assms]])

theorem unit_price_round_trip_witness:
  "\<exists>q. parseUnitPrice (formatUnitPrice \<lparr>up_cents = 9, up_rounded = True, up_units = 875, up_places = 4\<rparr>) = Inr q \<and>
    compareUnitPrices \<lparr>up_cents = 9, up_rounded = True, up_units = 875, up_places = 4\<rparr> q = 0 \<and>
    up_cents q = 9 \<and> up_rounded q"
proof -
  have "parseUnitPrice ''$0.0875'' = Inr \<lparr>up_cents = 9, up_rounded = True, up_units = 875, up_places = 4\<rparr>"
    by code_simp
  from unit_price_round_trip [OF this] show ?thesis by simp
qed

end
