(* ===== verification/Calendar.thy ===== *)
theory Calendar
  imports JsText
begin

text \<open>
  The proleptic Gregorian calendar behind JavaScript's \<open>Date\<close> in UTC, in whole days from
  1 January 1970, and the \<open>YYYY-MM-DD\<close> texts the sources keep dates in. \<open>days_before_year\<close> is
  the language's \<open>DayFromYear\<close>; the reverse direction finds the year by an estimate and a
  correction. The lemmas show that the two directions are inverse, that days and valid ISO
  texts correspond one to one, and that comparing two valid ISO texts as text compares days.
\<close>

section \<open>Civil dates and day numbers\<close>

definition leap :: "int \<Rightarrow> bool" where
  "leap y \<longleftrightarrow> y mod 4 = 0 \<and> (y mod 100 \<noteq> 0 \<or> y mod 400 = 0)"

definition month_days :: "int \<Rightarrow> int \<Rightarrow> int" where
  "month_days y m =
     (if m = 2 then (if leap y then 29 else 28)
      else if m = 4 \<or> m = 6 \<or> m = 9 \<or> m = 11 then 30 else 31)"

definition days_before_year :: "int \<Rightarrow> int" where
  "days_before_year y =
     365 * (y - 1970) + (y - 1969) div 4 - (y - 1901) div 100 + (y - 1601) div 400"

definition year_length :: "int \<Rightarrow> int" where
  "year_length y = (if leap y then 366 else 365)"

definition days_before_month :: "int \<Rightarrow> int \<Rightarrow> int" where
  "days_before_month y m =
     (let l = (if leap y then 1 else 0) in
      if m \<le> 1 then 0 else if m = 2 then 31
      else if m = 3 then 59 + l else if m = 4 then 90 + l
      else if m = 5 then 120 + l else if m = 6 then 151 + l
      else if m = 7 then 181 + l else if m = 8 then 212 + l
      else if m = 9 then 243 + l else if m = 10 then 273 + l
      else if m = 11 then 304 + l else if m = 12 then 334 + l else 365 + l)"

definition day_of_civil :: "int \<Rightarrow> int \<Rightarrow> int \<Rightarrow> int" where
  "day_of_civil y m d = days_before_year y + days_before_month y m + d - 1"

text \<open>\<open>Date.UTC\<close>: months past December run into later years, days past a month's end into later
  months, and the years 0 to 99 stand for 1900 to 1999.\<close>

definition date_utc :: "int \<Rightarrow> int \<Rightarrow> int \<Rightarrow> int" where
  "date_utc y m d =
     (let y' = (if 0 \<le> y \<and> y \<le> 99 then 1900 + y else y)
      in day_of_civil (y' + (m - 1) div 12) ((m - 1) mod 12 + 1) d)"

definition year_of_day :: "int \<Rightarrow> int" where
  "year_of_day n =
     (let e = n * 400 div 146097 + 1970 in
      if days_before_year (e + 1) \<le> n then e + 1
      else if days_before_year e \<le> n then e else e - 1)"

definition month_of_year_day :: "int \<Rightarrow> int \<Rightarrow> int" where
  "month_of_year_day y k =
     (if k < days_before_month y 2 then 1 else if k < days_before_month y 3 then 2
      else if k < days_before_month y 4 then 3 else if k < days_before_month y 5 then 4
      else if k < days_before_month y 6 then 5 else if k < days_before_month y 7 then 6
      else if k < days_before_month y 8 then 7 else if k < days_before_month y 9 then 8
      else if k < days_before_month y 10 then 9 else if k < days_before_month y 11 then 10
      else if k < days_before_month y 12 then 11 else 12)"

definition civil_of_day :: "int \<Rightarrow> int \<times> int \<times> int" where
  "civil_of_day n =
     (let y = year_of_day n; k = n - days_before_year y; m = month_of_year_day y k
      in (y, m, k - days_before_month y m + 1))"

definition valid_civil :: "int \<Rightarrow> int \<Rightarrow> int \<Rightarrow> bool" where
  "valid_civil y m d \<longleftrightarrow> 1 \<le> m \<and> m \<le> 12 \<and> 1 \<le> d \<and> d \<le> month_days y m"

lemma div_add_one: "0 < (n::int) \<Longrightarrow> (a + 1) div n = a div n + (if (a + 1) mod n = 0 then 1 else 0)"
proof -
  assume n: "0 < n"
  define q r where "q = a div n" and "r = a mod n"
  have a: "a + 1 = (r + 1) + q * n" and r: "0 \<le> r" "r < n"
    using n by (simp_all add: q_def r_def)
  have "(a + 1) div n = q + (r + 1) div n" "(a + 1) mod n = (r + 1) mod n"
    unfolding a using n by simp_all
  moreover have "(r + 1) div n = (if r + 1 = n then 1 else 0)"
    "(r + 1) mod n = (if r + 1 = n then 0 else r + 1)" using r by auto
  ultimately show ?thesis using r by (simp add: q_def)
qed

lemma mod_shift: "c mod n = 0 \<Longrightarrow> (y - c) mod n = y mod (n::int)"
  by (metis diff_zero mod_diff_right_eq)

lemma days_before_year_Suc: "days_before_year (y + 1) = days_before_year y + year_length y"
proof -
  have d4: "(y - 1968) div 4 = (y - 1969) div 4 + (if y mod 4 = 0 then 1 else 0)"
    using div_add_one [of 4 "y - 1969"] mod_shift [of 1968 4 y] by simp
  have d100: "(y - 1900) div 100 = (y - 1901) div 100 + (if y mod 100 = 0 then 1 else 0)"
    using div_add_one [of 100 "y - 1901"] mod_shift [of 1900 100 y] by simp
  have d400: "(y - 1600) div 400 = (y - 1601) div 400 + (if y mod 400 = 0 then 1 else 0)"
    using div_add_one [of 400 "y - 1601"] mod_shift [of 1600 400 y] by simp
  have c: "y + 1 - 1969 = y - 1968" "y + 1 - 1901 = y - 1900" "y + 1 - 1601 = y - 1600" by simp_all
  have "y mod 400 = 0 \<Longrightarrow> y mod 100 = 0" "y mod 100 = 0 \<Longrightarrow> y mod 4 = 0"
    using mod_mod_cancel [of 100 400 y] mod_mod_cancel [of 4 100 y] by simp_all
  then show ?thesis
    unfolding days_before_year_def c d4 d100 d400 year_length_def leap_def
    by (cases "y mod 4 = 0"; cases "y mod 100 = 0"; cases "y mod 400 = 0") simp_all
qed

lemma year_length_bounds: "365 \<le> year_length y" "year_length y \<le> 366"
  by (auto simp: year_length_def)

lemma days_before_year_mono_aux: "days_before_year y + 365 * int k \<le> days_before_year (y + int k)"
proof (induction k)
  case 0
  then show ?case by simp
next
  case (Suc k)
  have "days_before_year (y + int (Suc k)) = days_before_year (y + int k) + year_length (y + int k)"
    using days_before_year_Suc [of "y + int k"] by (simp add: algebra_simps)
  with Suc year_length_bounds [of "y + int k"] show ?case by (simp add: algebra_simps)
qed

lemma days_before_year_less: "y < z \<Longrightarrow> days_before_year y + year_length y \<le> days_before_year z"
  using days_before_year_mono_aux [of "y + 1" "nat (z - (y + 1))"] days_before_year_Suc [of y] by simp

lemma year_of_day_bounds:
  "days_before_year (year_of_day n) \<le> n"
  "n < days_before_year (year_of_day n) + year_length (year_of_day n)"
proof -
  define e where "e = n * 400 div 146097 + 1970"
  have b: "400 * days_before_year y \<le> 146097 * (y - 1970) + 800"
    "146097 * (y - 1970) - 800 \<le> 400 * days_before_year y" for y
  proof -
    define q4 q100 q400 where "q4 = (y - 1969) div 4" and "q100 = (y - 1901) div 100"
      and "q400 = (y - 1601) div 400"
    have "400 * q4 \<le> 100 * y - 196900" "100 * y - 197200 \<le> 400 * q4"
      unfolding q4_def by linarith+
    moreover have "400 * q100 \<le> 4 * y - 7604" "4 * y - 8004 \<le> 400 * q100"
      unfolding q100_def by linarith+
    moreover have "400 * q400 \<le> y - 1601" "y - 2001 \<le> 400 * q400"
      unfolding q400_def by linarith+
    moreover have "days_before_year y = 365 * (y - 1970) + q4 - q100 + q400"
      by (simp add: days_before_year_def q4_def q100_def q400_def)
    ultimately show "400 * days_before_year y \<le> 146097 * (y - 1970) + 800"
      "146097 * (y - 1970) - 800 \<le> 400 * days_before_year y" by simp_all
  qed
  have e: "146097 * (e - 1970) \<le> n * 400" "n * 400 < 146097 * (e - 1970) + 146097"
    unfolding e_def by simp_all
  have lo: "days_before_year (e - 1) \<le> n" using b(1) [of "e - 1"] e by simp
  have hi: "n < days_before_year (e + 2)" using b(2) [of "e + 2"] e by simp
  have s: "days_before_year (e + 2) = days_before_year (e + 1) + year_length (e + 1)"
    "days_before_year (e + 1) = days_before_year e + year_length e"
    "days_before_year e = days_before_year (e - 1) + year_length (e - 1)"
    using days_before_year_Suc [of "e + 1"] days_before_year_Suc [of e] days_before_year_Suc [of "e - 1"]
    by (simp_all add: algebra_simps)
  show "days_before_year (year_of_day n) \<le> n"
    "n < days_before_year (year_of_day n) + year_length (year_of_day n)"
    unfolding year_of_day_def Let_def e_def [symmetric] using lo hi s by auto
qed

lemma year_of_day_unique:
  assumes "days_before_year y \<le> n" "n < days_before_year y + year_length y"
  shows "year_of_day n = y"
proof (rule ccontr)
  assume "year_of_day n \<noteq> y"
  then consider "year_of_day n < y" | "y < year_of_day n" by linarith
  then show False
    using days_before_year_less year_of_day_bounds [of n] assms by cases fastforce+
qed

lemma month_cases:
  assumes "1 \<le> (m::int)" "m \<le> 12"
  obtains "m = 1" | "m = 2" | "m = 3" | "m = 4" | "m = 5" | "m = 6" | "m = 7" | "m = 8"
    | "m = 9" | "m = 10" | "m = 11" | "m = 12"
proof -
  have "m = 1 \<or> m = 2 \<or> m = 3 \<or> m = 4 \<or> m = 5 \<or> m = 6 \<or> m = 7 \<or> m = 8 \<or> m = 9 \<or> m = 10 \<or>
      m = 11 \<or> m = 12" using assms by presburger
  then show ?thesis using that by blast
qed

lemma month_chain:
  "1 \<le> m \<Longrightarrow> m \<le> 12 \<Longrightarrow>
    (if m < 2 then 1 else if m < 3 then 2 else if m < 4 then 3 else if m < 5 then 4
     else if m < 6 then 5 else if m < 7 then 6 else if m < 8 then 7 else if m < 9 then 8
     else if m < 10 then 9 else if m < 11 then 10 else if m < 12 then 11 else 12) = (m::int)"
  by (erule (1) month_cases) simp_all

lemma days_before_month_next:
  assumes "1 \<le> m" "m \<le> 12"
  shows "days_before_month y (m + 1) = days_before_month y m + month_days y m"
  by (rule month_cases [OF assms]) (simp_all add: days_before_month_def month_days_def)

lemma days_before_month_13: "days_before_month y 13 = year_length y"
  by (simp add: days_before_month_def year_length_def)

lemma days_before_month_1: "days_before_month y 1 = 0"
  by (simp add: days_before_month_def)

lemma month_days_pos: "28 \<le> month_days y m"
  by (simp add: month_days_def)

lemma days_before_month_less:
  assumes "1 \<le> m" "m < m'" "m' \<le> 13"
  shows "days_before_month y m + month_days y m \<le> days_before_month y m'"
proof -
  have "m + 1 + int k \<le> 13 \<Longrightarrow>
      days_before_month y m + month_days y m \<le> days_before_month y (m + 1 + int k)" for k
  proof (induction k)
    case 0
    then show ?case using days_before_month_next [of m y] assms by simp
  next
    case (Suc k)
    then show ?case
      using days_before_month_next [of "m + 1 + int k" y] month_days_pos [of y "m + 1 + int k"] assms
      by (simp add: algebra_simps)
  qed
  from this [of "nat (m' - (m + 1))"] show ?thesis using assms by simp
qed

lemma month_of_year_day_unique:
  assumes "1 \<le> m" "m \<le> 12" "1 \<le> d" "d \<le> month_days y m"
  shows "month_of_year_day y (days_before_month y m + d - 1) = m"
proof -
  let ?k = "days_before_month y m + d - 1"
  have k: "?k < days_before_month y m' \<longleftrightarrow> m < m'" if "1 \<le> m'" "m' \<le> 13" for m'
  proof (cases "m < m'")
    case True
    then show ?thesis using days_before_month_less [of m m' y] assms that by simp
  next
    case False
    then show ?thesis
      using days_before_month_less [of m' m y] month_days_pos [of y m'] assms that
      by (cases "m = m'") auto
  qed
  have "month_of_year_day y ?k =
      (if m < 2 then 1 else if m < 3 then 2 else if m < 4 then 3 else if m < 5 then 4
       else if m < 6 then 5 else if m < 7 then 6 else if m < 8 then 7 else if m < 9 then 8
       else if m < 10 then 9 else if m < 11 then 10 else if m < 12 then 11 else 12)"
    unfolding month_of_year_day_def using k by simp
  then show ?thesis using month_chain [OF assms(1,2)] by simp
qed

lemma month_of_year_day_exists:
  assumes "0 \<le> k" "k < year_length y"
  obtains m where "1 \<le> m" "m \<le> 12" "days_before_month y m \<le> k" "k < days_before_month y (m + 1)"
proof -
  have "\<exists>m. 1 \<le> m \<and> m \<le> 12 \<and> days_before_month y m \<le> k \<and> k < days_before_month y (m + 1)"
  proof (rule ccontr)
    assume no: "\<nexists>m. 1 \<le> m \<and> m \<le> 12 \<and> days_before_month y m \<le> k \<and> k < days_before_month y (m + 1)"
    have "j \<le> 12 \<Longrightarrow> days_before_month y (1 + int j) \<le> k" for j
    proof (induction j)
      case 0
      then show ?case using assms days_before_month_1 by simp
    next
      case (Suc j)
      then show ?case using no by (force simp: algebra_simps)
    qed
    from this [of 12] show False using assms days_before_month_13 [of y] by simp
  qed
  then show ?thesis using that by blast
qed

lemma month_of_year_day_valid:
  assumes "0 \<le> k" "k < year_length y"
  shows "valid_civil y (month_of_year_day y k) (k - days_before_month y (month_of_year_day y k) + 1)"
proof -
  obtain m where m: "1 \<le> m" "m \<le> 12" "days_before_month y m \<le> k" "k < days_before_month y (m + 1)"
    using month_of_year_day_exists [OF assms] .
  then have "valid_civil y m (k - days_before_month y m + 1)"
    using days_before_month_next [of m y] by (simp add: valid_civil_def)
  moreover from this have "month_of_year_day y k = m"
    using month_of_year_day_unique [of m "k - days_before_month y m + 1" y]
    by (simp add: valid_civil_def)
  ultimately show ?thesis by simp
qed

lemma year_day_bounds:
  "valid_civil y m d \<Longrightarrow> 0 \<le> days_before_month y m + d - 1"
  "valid_civil y m d \<Longrightarrow> days_before_month y m + d - 1 < year_length y"
proof -
  assume v: "valid_civil y m d"
  then have m: "1 \<le> m" "m \<le> 12" and d: "1 \<le> d" "d \<le> month_days y m" by (auto simp: valid_civil_def)
  have "0 \<le> days_before_month y m" by (simp add: days_before_month_def Let_def)
  then show "0 \<le> days_before_month y m + d - 1" using d by linarith
  show "days_before_month y m + d - 1 < year_length y"
    using days_before_month_less [OF m(1), of 13 y] m d days_before_month_13 [of y] by auto
qed

text \<open>The two directions are inverse to each other.\<close>

lemma civil_of_day_of_civil: "valid_civil y m d \<Longrightarrow> civil_of_day (day_of_civil y m d) = (y, m, d)"
proof -
  assume v: "valid_civil y m d"
  then have m: "1 \<le> m" "m \<le> 12" and d: "1 \<le> d" "d \<le> month_days y m" by (auto simp: valid_civil_def)
  let ?n = "day_of_civil y m d"
  have "year_of_day ?n = y"
    using year_day_bounds [OF v] by (intro year_of_day_unique) (auto simp: day_of_civil_def)
  moreover have "?n - days_before_year y = days_before_month y m + d - 1"
    by (simp add: day_of_civil_def)
  ultimately show ?thesis
    using month_of_year_day_unique [OF m d] by (simp add: civil_of_day_def Let_def)
qed

lemma valid_civil_of_day: "civil_of_day n = (y, m, d) \<Longrightarrow> valid_civil y m d"
  using month_of_year_day_valid [of "n - days_before_year (year_of_day n)" "year_of_day n"]
    year_of_day_bounds [of n]
  by (auto simp: civil_of_day_def Let_def)

lemma day_of_civil_of_day: "civil_of_day n = (y, m, d) \<Longrightarrow> day_of_civil y m d = n"
  by (auto simp: civil_of_day_def Let_def day_of_civil_def)

text \<open>Civil dates are ordered as their day numbers.\<close>

lemma day_of_civil_less_iff:
  assumes "valid_civil y m d" "valid_civil y' m' d'"
  shows "day_of_civil y m d < day_of_civil y' m' d' \<longleftrightarrow>
    y < y' \<or> y = y' \<and> (m < m' \<or> m = m' \<and> d < d')"
proof -
  have less: "day_of_civil a b c < day_of_civil a' b' c'"
    if v: "valid_civil a b c" "valid_civil a' b' c'"
      and l: "a < a' \<or> a = a' \<and> (b < b' \<or> b = b' \<and> c < c')" for a b c a' b' c'
    using l
  proof (elim disjE conjE)
    assume "a < a'"
    from days_before_year_less [OF this] year_day_bounds(2) [OF v(1)] year_day_bounds(1) [OF v(2)]
    show ?thesis unfolding day_of_civil_def by linarith
  next
    assume "a = a'" "b < b'"
    with v days_before_month_less [of b b' a] show ?thesis
      unfolding day_of_civil_def valid_civil_def by auto
  qed (simp add: day_of_civil_def)
  show ?thesis
  proof (cases "y < y' \<or> y = y' \<and> (m < m' \<or> m = m' \<and> d < d')")
    case True
    then show ?thesis using less assms by blast
  next
    case False
    then have "(y, m, d) = (y', m', d') \<or> y' < y \<or> y' = y \<and> (m' < m \<or> m' = m \<and> d' < d)" by auto
    then show ?thesis using False less [OF assms(2,1)] by auto
  qed
qed

section \<open>ISO texts\<close>

text \<open>The texts that \<open>/^(\d{4})-(\d{2})-(\d{2})$/\<close> matches, and the three numbers it captures.\<close>

definition iso_shape :: "string \<Rightarrow> bool" where
  "iso_shape s \<longleftrightarrow> length s = 10 \<and> s ! 4 = CHR ''-'' \<and> s ! 7 = CHR ''-'' \<and>
     list_all is_digit (take 4 s) \<and> list_all is_digit (take 2 (drop 5 s)) \<and> list_all is_digit (drop 8 s)"

definition iso_parts :: "string \<Rightarrow> (int \<times> int \<times> int) option" where
  "iso_parts s =
     (if iso_shape s
      then Some (int (text_nat (take 4 s)), int (text_nat (take 2 (drop 5 s))), int (text_nat (drop 8 s)))
      else None)"

definition padded :: "nat \<Rightarrow> int \<Rightarrow> string" where
  "padded k n = pad_start k CHR ''0'' (nat_text (nat n))"

definition civil_text :: "int \<Rightarrow> int \<Rightarrow> int \<Rightarrow> string" where
  "civil_text y m d = padded 4 y @ ''-'' @ padded 2 m @ ''-'' @ padded 2 d"

text \<open>\<open>new Date(day * 86400000).toISOString().slice(0, 10)\<close>, with the signed six-digit years the
  format uses outside 0 to 9999.\<close>

definition iso_of_day :: "int \<Rightarrow> string" where
  "iso_of_day n =
     (case civil_of_day n of (y, m, d) \<Rightarrow>
       if 0 \<le> y \<and> y \<le> 9999 then civil_text y m d
       else take 10 ((if y < 0 then ''-'' else ''+'') @ padded 6 \<bar>y\<bar> @ ''-'' @ padded 2 m @ ''-'' @ padded 2 d))"

text \<open>\<open>Date.parse\<close> of an ISO day at midnight UTC, in days: a value exactly for a real calendar day.\<close>

definition iso_day :: "string \<Rightarrow> int option" where
  "iso_day s =
     (case iso_parts s of None \<Rightarrow> None
      | Some (y, m, d) \<Rightarrow> if valid_civil y m d then Some (day_of_civil y m d) else None)"

definition four_digit_year :: "int \<Rightarrow> bool" where
  "four_digit_year n \<longleftrightarrow> 0 \<le> fst (civil_of_day n) \<and> fst (civil_of_day n) \<le> 9999"

lemma padded_length: "0 < k \<Longrightarrow> 0 \<le> n \<Longrightarrow> n < 10 ^ k \<Longrightarrow> length (padded k n) = k"
  unfolding padded_def
  by (intro length_pad_start length_nat_text_less) (simp_all add: nat_less_iff)

lemma padded_digits: "list_all is_digit (padded k n)"
  using pad_start_digits [OF nat_text_digits] by (simp add: padded_def list_all_iff)

lemma text_nat_padded: "0 \<le> n \<Longrightarrow> int (text_nat (padded k n)) = n"
  by (simp add: padded_def)

lemma padded_text_nat:
  assumes "list_all is_digit s" "0 < length s"
  shows "padded (length s) (int (text_nat s)) = s"
proof -
  let ?t = "padded (length s) (int (text_nat s))"
  have d: "\<forall>c\<in>set s. is_digit c" "\<forall>c\<in>set ?t. is_digit c"
    using assms(1) padded_digits [of "length s" "int (text_nat s)"] by (simp_all add: list_all_iff)
  have "int (text_nat s) < 10 ^ length s" using text_nat_bound [OF d(1)] by (metis of_nat_less_iff of_nat_numeral of_nat_power)
  then have l: "length ?t = length s" using padded_length [of "length s"] assms(2) by simp
  have "text_nat ?t = text_nat s" using text_nat_padded [of "int (text_nat s)" "length s"] by simp
  then show ?thesis
    using digits_less_iff [OF l d(2,1)] digits_less_iff [OF l [symmetric] d] by (metis less_irrefl linorder_neqE)
qed

lemma valid_civil_bounds: "valid_civil y m d \<Longrightarrow> 1 \<le> m \<and> m < 100 \<and> 1 \<le> d \<and> d < 100"
  by (auto simp: valid_civil_def month_days_def split: if_splits)

lemma iso_parts_civil_text:
  assumes "0 \<le> y" "y \<le> 9999" "valid_civil y m d"
  shows "iso_parts (civil_text y m d) = Some (y, m, d)"
proof -
  note b = valid_civil_bounds [OF assms(3)]
  have l: "length (padded 4 y) = 4" "length (padded 2 m) = 2" "length (padded 2 d) = 2"
    using b assms(1,2) by (auto intro!: padded_length)
  have t: "take 4 (civil_text y m d) = padded 4 y" "take 2 (drop 5 (civil_text y m d)) = padded 2 m"
    "drop 8 (civil_text y m d) = padded 2 d"
    by (simp_all add: civil_text_def l)
  have n: "civil_text y m d ! 4 = CHR ''-''" "civil_text y m d ! 7 = CHR ''-''"
    by (simp_all add: civil_text_def l nth_append)
  have "iso_shape (civil_text y m d)"
    unfolding iso_shape_def t n using l padded_digits by (simp add: civil_text_def)
  then show ?thesis using b assms(1) by (simp add: iso_parts_def t text_nat_padded)
qed

lemma iso_parts_Some:
  assumes "iso_parts s = Some (y, m, d)"
  shows "s = civil_text y m d" "0 \<le> y" "y \<le> 9999"
proof -
  from assms have sh: "iso_shape s" and y: "y = int (text_nat (take 4 s))"
    and m: "m = int (text_nat (take 2 (drop 5 s)))" and d: "d = int (text_nat (drop 8 s))"
    by (auto simp: iso_parts_def split: if_splits)
  have l: "length s = 10" using sh by (simp add: iso_shape_def)
  have p: "padded 4 y = take 4 s" "padded 2 m = take 2 (drop 5 s)" "padded 2 d = drop 8 s"
    using padded_text_nat [of "take 4 s"] padded_text_nat [of "take 2 (drop 5 s)"]
      padded_text_nat [of "drop 8 s"] sh unfolding y m d by (simp_all add: iso_shape_def l)
  have "s = take 4 s @ s ! 4 # take 2 (drop 5 s) @ s ! 7 # drop 8 s"
    using id_take_nth_drop [of 4 s] id_take_nth_drop [of 2 "drop 5 s"] l by simp
  then show "s = civil_text y m d" using sh by (simp add: civil_text_def p iso_shape_def)
  show "0 \<le> y" "y \<le> 9999"
    using text_nat_bound [of "take 4 s"] sh unfolding y by (auto simp: iso_shape_def list_all_iff l)
qed

lemma iso_day_Some_iff:
  "iso_day s = Some n \<longleftrightarrow>
    (\<exists>y m d. s = civil_text y m d \<and> 0 \<le> y \<and> y \<le> 9999 \<and> valid_civil y m d \<and> n = day_of_civil y m d)"
proof
  assume "iso_day s = Some n"
  then obtain y m d where "iso_parts s = Some (y, m, d)" "valid_civil y m d" "n = day_of_civil y m d"
    by (auto simp: iso_day_def split: option.splits if_splits)
  then show "\<exists>y m d. s = civil_text y m d \<and> 0 \<le> y \<and> y \<le> 9999 \<and> valid_civil y m d \<and> n = day_of_civil y m d"
    using iso_parts_Some by blast
qed (auto simp: iso_day_def iso_parts_civil_text)

interpretation iso: codec iso_of_day iso_day four_digit_year
proof
  fix n assume "four_digit_year n"
  moreover obtain y m d where c: "civil_of_day n = (y, m, d)" by (metis prod_cases3)
  ultimately have y: "0 \<le> y" "y \<le> 9999" by (simp_all add: four_digit_year_def)
  show "iso_day (iso_of_day n) = Some n"
    unfolding iso_day_Some_iff iso_of_day_def c
    using y valid_civil_of_day [OF c] day_of_civil_of_day [OF c] by force
next
  fix s n assume "iso_day s = Some n"
  then obtain y m d where "s = civil_text y m d" "0 \<le> y" "y \<le> 9999" "valid_civil y m d"
    and "n = day_of_civil y m d" unfolding iso_day_Some_iff by blast
  then show "four_digit_year n \<and> iso_of_day n = s"
    by (simp add: four_digit_year_def iso_of_day_def civil_of_day_of_civil)
qed

text \<open>Comparing two ISO days as texts, which the sources do throughout, compares the days.\<close>

lemma append_less_append:
  "length xs = length ys \<Longrightarrow> xs @ us < ys @ vs \<longleftrightarrow> xs < ys \<or> xs = ys \<and> us < (vs :: string)"
  by (induction xs ys rule: list_induct2) auto

lemma padded_less_iff:
  assumes "0 < k" "0 \<le> a" "a < 10 ^ k" "0 \<le> b" "b < 10 ^ k"
  shows "padded k a < padded k b \<longleftrightarrow> a < b" "padded k a = padded k b \<longleftrightarrow> a = b"
proof -
  have "length (padded k a) = length (padded k b)" using assms by (simp add: padded_length)
  moreover have "\<forall>c\<in>set (padded k n). is_digit c" for n using padded_digits by (simp add: list_all_iff)
  ultimately have "padded k a < padded k b \<longleftrightarrow> text_nat (padded k a) < text_nat (padded k b)"
    by (intro digits_less_iff)
  moreover have n: "text_nat (padded k a) = nat a" "text_nat (padded k b) = nat b"
    by (simp_all add: padded_def)
  ultimately show "padded k a < padded k b \<longleftrightarrow> a < b" using assms(2,4) by auto
  show "padded k a = padded k b \<longleftrightarrow> a = b" using assms n by fastforce
qed

lemma iso_less_iff:
  assumes "iso_day s = Some a" "iso_day t = Some b"
  shows "s < t \<longleftrightarrow> a < b"
proof -
  from assms obtain y m d y' m' d' where
    s: "s = civil_text y m d" "0 \<le> y" "y \<le> 9999" "valid_civil y m d" "a = day_of_civil y m d"
    and t: "t = civil_text y' m' d'" "0 \<le> y'" "y' \<le> 9999" "valid_civil y' m' d'" "b = day_of_civil y' m' d'"
    unfolding iso_day_Some_iff by blast
  note bs = valid_civil_bounds [OF s(4)] valid_civil_bounds [OF t(4)]
  have "length (padded 4 y) = length (padded 4 y')" "length (padded 2 m) = length (padded 2 m')"
    using bs s t by (auto simp: padded_length)
  then have "s < t \<longleftrightarrow> padded 4 y < padded 4 y' \<or> padded 4 y = padded 4 y' \<and>
      (padded 2 m < padded 2 m' \<or> padded 2 m = padded 2 m' \<and> padded 2 d < padded 2 d')"
    unfolding s(1) t(1) civil_text_def by (simp add: append_less_append)
  also have "\<dots> \<longleftrightarrow> y < y' \<or> y = y' \<and> (m < m' \<or> m = m' \<and> d < d')"
    using bs s t by (simp add: padded_less_iff)
  also have "\<dots> \<longleftrightarrow> a < b" using day_of_civil_less_iff [OF s(4) t(4)] s t by simp
  finally show ?thesis .
qed

lemma iso_le_iff:
  assumes "iso_day s = Some a" "iso_day t = Some b"
  shows "s \<le> t \<longleftrightarrow> a \<le> b"
  using iso_less_iff [OF assms(2,1)] by (metis linorder_not_le)

lemmas iso_eval = iso_day_def iso_parts_def iso_shape_def is_digit_def code_unit_def text_nat_def
  digit_value_def valid_civil_def month_days_def day_of_civil_def days_before_year_def
  days_before_month_def leap_def

end
