(* ===== verification/Dates.thy ===== *)
theory Dates
  imports Calendar
begin

text \<open>
  Dates as printed, from \<open>packages/core-domain/src/dates.ts\<close>: the reader that turns a date on
  a page into \<open>YYYY-MM-DD\<close> or refuses it, and Excel date serials. The lemmas show that a text
  the reader returns is a real calendar day in 2000 to 2100, that an ISO day reads as itself
  under every order, and which day a serial stands for.
\<close>

section \<open>Printed dates\<close>

datatype DateOrder = mdy | dmy | ymd

definition MIN_YEAR :: int where "MIN_YEAR = 2000"

definition MAX_YEAR :: int where "MAX_YEAR = 2100"

definition MONTHS :: "(string \<times> int) list" where
  "MONTHS =
     [(''january'', 1), (''jan'', 1), (''february'', 2), (''feb'', 2), (''march'', 3), (''mar'', 3),
      (''april'', 4), (''apr'', 4), (''may'', 5), (''june'', 6), (''jun'', 6), (''july'', 7),
      (''jul'', 7), (''august'', 8), (''aug'', 8), (''september'', 9), (''sept'', 9), (''sep'', 9),
      (''october'', 10), (''oct'', 10), (''november'', 11), (''nov'', 11), (''december'', 12),
      (''dec'', 12)]"

definition daysInMonth :: "int \<Rightarrow> int \<Rightarrow> int" where
  "daysInMonth year month =
     (if month = 2
      then (if year mod 4 = 0 \<and> (year mod 100 \<noteq> 0 \<or> year mod 400 = 0) then 29 else 28)
      else if month = 4 \<or> month = 6 \<or> month = 9 \<or> month = 11 then 30 else 31)"

definition assemble :: "int \<Rightarrow> int \<Rightarrow> int \<Rightarrow> string res" where
  "assemble year month day =
     (if year < MIN_YEAR \<or> year > MAX_YEAR then Inl (DateParseError ''year out of range'')
      else if month < 1 \<or> month > 12 then Inl (DateParseError ''not a month'')
      else if day < 1 \<or> day > daysInMonth year month then Inl (DateParseError ''not a calendar day'')
      else Inr (civil_text year month day))"

text \<open>Three runs of digits and the two characters between them, when that is all the text.\<close>

definition three_numbers :: "string \<Rightarrow> (string \<times> char \<times> string \<times> char \<times> string) option" where
  "three_numbers s =
     (case dropWhile is_digit s of
        [] \<Rightarrow> None
      | x # r \<Rightarrow>
          (case dropWhile is_digit r of
             [] \<Rightarrow> None
           | y # t \<Rightarrow>
               if list_all is_digit t
               then Some (takeWhile is_digit s, x, takeWhile is_digit r, y, t) else None))"

definition one_or_two :: "string \<Rightarrow> bool" where
  "one_or_two s \<longleftrightarrow> 1 \<le> length s \<and> length s \<le> 2"

text \<open>\<open>/^(\d{1,2})([/-])(\d{1,2})\2(\d{4})$/\<close> and \<open>/^(\d{4})([/.-])(\d{1,2})\2(\d{1,2})$/\<close>\<close>

definition numeric_date :: "string \<Rightarrow> (string \<times> string \<times> string) option" where
  "numeric_date s =
     (case three_numbers s of
        Some (a, x, b, y, c) \<Rightarrow>
          if one_or_two a \<and> (x = CHR ''/'' \<or> x = CHR ''-'') \<and> one_or_two b \<and> y = x \<and> length c = 4
          then Some (a, b, c) else None
      | None \<Rightarrow> None)"

definition year_first_date :: "string \<Rightarrow> (string \<times> string \<times> string) option" where
  "year_first_date s =
     (case three_numbers s of
        Some (a, x, b, y, c) \<Rightarrow>
          if length a = 4 \<and> (x = CHR ''/'' \<or> x = CHR ''.'' \<or> x = CHR ''-'') \<and> one_or_two b \<and>
             y = x \<and> one_or_two c
          then Some (a, b, c) else None
      | None \<Rightarrow> None)"

text \<open>Optional and required pieces of the two month-name patterns.\<close>

definition skip_char :: "char \<Rightarrow> string \<Rightarrow> string" where
  "skip_char c s = (case s of [] \<Rightarrow> [] | x # r \<Rightarrow> if x = c then r else s)"

definition skip_ordinal :: "string \<Rightarrow> string" where
  "skip_ordinal s =
     (if to_lower (take 2 s) \<in> {''st'', ''nd'', ''rd'', ''th''} then drop 2 s else s)"

definition space_year :: "string \<Rightarrow> string option" where
  "space_year s =
     (case s of
        [] \<Rightarrow> None
      | x # r \<Rightarrow> if x = CHR '' '' \<and> length r = 4 \<and> list_all is_digit r then Some r else None)"

text \<open>\<open>/^([A-Za-z]+)\.? ?(\d{1,2})(?:st|nd|rd|th)?,? (\d{4})$/i\<close>\<close>

definition month_first_date :: "string \<Rightarrow> (string \<times> string \<times> string) option" where
  "month_first_date s =
     (let name = takeWhile is_letter s;
          r = skip_char CHR '' '' (skip_char CHR ''.'' (dropWhile is_letter s));
          day = takeWhile is_digit r
      in if name = [] \<or> \<not> one_or_two day then None
         else (case space_year (skip_char CHR '','' (skip_ordinal (dropWhile is_digit r))) of
                 None \<Rightarrow> None | Some year \<Rightarrow> Some (name, day, year)))"

text \<open>\<open>/^(\d{1,2})(?:st|nd|rd|th)? ([A-Za-z]+)\.?,? (\d{4})$/i\<close>\<close>

definition day_first_date :: "string \<Rightarrow> (string \<times> string \<times> string) option" where
  "day_first_date s =
     (let day = takeWhile is_digit s;
          r = skip_ordinal (dropWhile is_digit s)
      in if \<not> one_or_two day then None
         else (case r of
                 [] \<Rightarrow> None
               | x # t \<Rightarrow>
                   if x \<noteq> CHR '' '' \<or> takeWhile is_letter t = [] then None
                   else (case space_year (skip_char CHR '','' (skip_char CHR ''.'' (dropWhile is_letter t))) of
                           None \<Rightarrow> None | Some year \<Rightarrow> Some (day, takeWhile is_letter t, year))))"

definition parsePrintedDate :: "string \<Rightarrow> DateOrder \<Rightarrow> string res" where
  "parsePrintedDate text order =
     (let working = collapse_ws (trim text); num = (\<lambda>s. int (text_nat s)) in
      if working = [] then Inl (DateParseError ''cannot parse a date from an empty string'')
      else case iso_parts working of
        Some (y, m, d) \<Rightarrow> assemble y m d
      | None \<Rightarrow>
      (case (if order \<noteq> ymd then numeric_date working else None) of
        Some (a, b, c) \<Rightarrow>
          (if order = dmy then assemble (num c) (num b) (num a) else assemble (num c) (num a) (num b))
      | None \<Rightarrow>
      (case (if order = ymd then year_first_date working else None) of
        Some (a, b, c) \<Rightarrow> assemble (num a) (num b) (num c)
      | None \<Rightarrow>
      (case month_first_date working of
        Some (name, day, year) \<Rightarrow>
          (case map_of MONTHS (to_lower name) of
             None \<Rightarrow> Inl (DateParseError ''unknown month name'')
           | Some month \<Rightarrow> assemble (num year) month (num day))
      | None \<Rightarrow>
      (case day_first_date working of
        Some (day, name, year) \<Rightarrow>
          (case map_of MONTHS (to_lower name) of
             None \<Rightarrow> Inl (DateParseError ''unknown month name'')
           | Some month \<Rightarrow> assemble (num year) month (num day))
      | None \<Rightarrow> Inl (DateParseError ''cannot parse a date''))))))"

datatype PrintedDate = PDate string | PProblem failure

text \<open>Only a \<open>DateParseError\<close> becomes a problem; anything else would be thrown on.\<close>

definition tryParsePrintedDate :: "string \<Rightarrow> PrintedDate res" where
  "tryParsePrintedDate text =
     (case parsePrintedDate text mdy of
        Inr d \<Rightarrow> Inr (PDate d)
      | Inl (DateParseError m) \<Rightarrow> Inr (PProblem (DateParseError m))
      | Inl e \<Rightarrow> Inl e)"

section \<open>Excel serials\<close>

text \<open>\<open>/^(\d+)(?:\.\d*)?$/\<close>: the digits before an optional time of day.\<close>

definition serial_days :: "string \<Rightarrow> nat option" where
  "serial_days s =
     (let n = takeWhile is_digit s; r = dropWhile is_digit s
      in if n = [] then None
         else (case r of
                 [] \<Rightarrow> Some (text_nat n)
               | x # t \<Rightarrow> if x = CHR ''.'' \<and> list_all is_digit t then Some (text_nat n) else None))"

definition excelSerialToIso :: "string \<Rightarrow> bool \<Rightarrow> string res" where
  "excelSerialToIso serial date1904 =
     (case serial_days (trim serial) of
        None \<Rightarrow> Inl (RangeError ''not a date serial'')
      | Some days \<Rightarrow>
          if days > 2958465 then Inl (RangeError ''date serial out of range'')
          else if date1904 then Inr (iso_of_day (date_utc 1904 1 1 + int days))
          else if days = 0 then Inl (RangeError ''date serial 0 is not a day'')
          else if days = 60 then Inl (RangeError ''date serial 60 never existed'')
          else Inr (iso_of_day (date_utc 1899 12 31 + int (if days > 60 then days - 1 else days))))"

section \<open>What the readers return\<close>

lemma daysInMonth_month_days: "daysInMonth y m = month_days y m"
  by (simp add: daysInMonth_def month_days_def leap_def)

lemma assemble_Inr_iff:
  "assemble y m d = Inr s \<longleftrightarrow> 2000 \<le> y \<and> y \<le> 2100 \<and> valid_civil y m d \<and> s = civil_text y m d"
  by (auto simp: assemble_def valid_civil_def daysInMonth_month_days MIN_YEAR_def MAX_YEAR_def)

definition printable_day :: "string \<Rightarrow> bool" where
  "printable_day s \<longleftrightarrow> (case iso_day s of None \<Rightarrow> False
     | Some n \<Rightarrow> day_of_civil 2000 1 1 \<le> n \<and> n \<le> day_of_civil 2100 12 31)"

lemma assemble_printable: "assemble y m d = Inr s \<Longrightarrow> printable_day s"
proof -
  assume "assemble y m d = Inr s"
  then have y: "2000 \<le> y" "y \<le> 2100" and v: "valid_civil y m d" and s: "s = civil_text y m d"
    by (simp_all add: assemble_Inr_iff)
  have i: "iso_day s = Some (day_of_civil y m d)"
    unfolding iso_day_Some_iff using y v s by force
  have v1: "valid_civil 2000 1 1" "valid_civil 2100 12 31" by (simp_all add: valid_civil_def month_days_def)
  have "\<not> day_of_civil y m d < day_of_civil 2000 1 1"
    unfolding day_of_civil_less_iff [OF v v1(1)] using y v by (auto simp: valid_civil_def)
  moreover have "d \<le> 31" using v by (auto simp: valid_civil_def month_days_def split: if_splits)
  then have "\<not> day_of_civil 2100 12 31 < day_of_civil y m d"
    unfolding day_of_civil_less_iff [OF v1(2) v] using y v by (auto simp: valid_civil_def)
  ultimately show ?thesis by (simp add: printable_day_def i)
qed

lemmas date_splits = if_splits option.splits prod.splits

lemma parsePrintedDate_printable: "parsePrintedDate text order = Inr s \<Longrightarrow> printable_day s"
  unfolding parsePrintedDate_def Let_def
  by (auto split: date_splits dest: assemble_printable)

lemma parsePrintedDate_error: "parsePrintedDate text order = Inl e \<Longrightarrow> \<exists>m. e = DateParseError m"
  unfolding parsePrintedDate_def Let_def assemble_def
  by (auto split: date_splits)

lemma tryParse_total: "\<exists>p. tryParsePrintedDate text = Inr p"
proof (cases "parsePrintedDate text mdy")
  case (Inl e)
  then obtain m where "e = DateParseError m" using parsePrintedDate_error by blast
  with Inl show ?thesis by (simp add: tryParsePrintedDate_def)
qed (simp add: tryParsePrintedDate_def)

lemma civil_text_chars: "\<forall>c\<in>set (civil_text y m d). is_digit c \<or> c = CHR ''-''"
  using padded_digits by (auto simp: civil_text_def list_all_iff)

lemma parse_iso_day:
  assumes "printable_day s"
  shows "parsePrintedDate s order = Inr s"
proof -
  from assms obtain n where n: "iso_day s = Some n" "day_of_civil 2000 1 1 \<le> n" "n \<le> day_of_civil 2100 12 31"
    by (auto simp: printable_day_def split: option.splits)
  from n(1) obtain y m d where s: "s = civil_text y m d" "0 \<le> y" "y \<le> 9999" "valid_civil y m d"
    and d: "n = day_of_civil y m d" unfolding iso_day_Some_iff by blast
  have v1: "valid_civil 2000 1 1" "valid_civil 2100 12 31" by (simp_all add: valid_civil_def month_days_def)
  have y: "2000 \<le> y" "y \<le> 2100"
    using n(2,3) day_of_civil_less_iff [OF s(4) v1(1)] day_of_civil_less_iff [OF v1(2) s(4)]
    unfolding d by (smt (verit) )+
  have nw: "\<forall>c\<in>set s. \<not> is_ws c"
    using civil_text_chars [of y m d] digit_not_ws unfolding s(1)
    by (auto simp: is_ws_def code_unit_def)
  have w: "collapse_ws (trim s) = s" using nw by (simp add: trim_no_ws collapse_ws_id)
  have ip: "iso_parts s = Some (y, m, d)" unfolding s(1) by (rule iso_parts_civil_text [OF s(2-4)])
  have "s \<noteq> []" using ip by (auto simp: iso_parts_def iso_shape_def)
  moreover have "assemble y m d = Inr s" unfolding assemble_Inr_iff using y s by simp
  ultimately show ?thesis unfolding parsePrintedDate_def w Let_def by (simp add: ip)
qed

lemma excel_epochs: "date_utc 1904 1 1 = -24107" "date_utc 1899 12 31 = -25568"
  by (simp_all add: date_utc_def day_of_civil_def days_before_year_def days_before_month_def leap_def)

lemma four_digit_year_range: "-719528 \<le> n \<Longrightarrow> n \<le> 2932896 \<Longrightarrow> four_digit_year n"
proof -
  assume n: "-719528 \<le> n" "n \<le> 2932896"
  have b: "days_before_year 0 = -719528" "days_before_year 10000 = 2932897"
    by (simp_all add: days_before_year_def)
  note y = year_of_day_bounds [of n]
  have "\<not> year_of_day n < 0" using days_before_year_less [of "year_of_day n" 0] y n b by linarith
  moreover have "\<not> 10000 \<le> year_of_day n"
  proof
    assume "10000 \<le> year_of_day n"
    then have "days_before_year 10000 \<le> days_before_year (year_of_day n)"
      using days_before_year_less [of 10000 "year_of_day n"] year_length_bounds [of 10000]
      by (cases "year_of_day n = 10000") auto
    then show False using y(1) n b by linarith
  qed
  ultimately show ?thesis by (simp add: four_digit_year_def civil_of_day_def Let_def)
qed

lemma iso_day_iso_of_day: "-719528 \<le> n \<Longrightarrow> n \<le> 2932896 \<Longrightarrow> iso_day (iso_of_day n) = Some n"
  by (rule iso.parse_print [OF four_digit_year_range])

lemma past_9999:
  assumes "2932897 \<le> k"
  shows "iso_day (iso_of_day k) = None"
proof -
  have "days_before_year 10000 = 2932897" by (simp add: days_before_year_def)
  then have "10000 \<le> year_of_day k"
    using days_before_year_less [of "year_of_day k" 10000] year_of_day_bounds [of k] assms by linarith
  then obtain y m d where c: "civil_of_day k = (y, m, d)" "10000 \<le> y"
    by (simp add: civil_of_day_def Let_def)
  then obtain rest where "iso_of_day k = CHR ''+'' # rest" by (simp add: iso_of_day_def)
  then have "\<not> iso_shape (iso_of_day k)" by (simp add: iso_shape_def is_digit_def code_unit_def)
  then show ?thesis by (simp add: iso_day_def iso_parts_def)
qed

section \<open>Properties\<close>

text \<open>C30: a printed date that is read at all is read as a real calendar day from 2000-01-01 to
  2100-12-31, in ISO form, and reading that form again, in either order of day and month, gives it
  back.\<close>

theorem printed_date_real:
  assumes "parsePrintedDate text order = Inr s"
  shows "printable_day s \<and> parsePrintedDate s order' = Inr s"
  using parsePrintedDate_printable [OF assms] parse_iso_day by blast

theorem printed_date_real_witness:
  "printable_day ''2024-02-29'' \<and> parsePrintedDate ''2024-02-29'' dmy = Inr ''2024-02-29''"
proof (rule printed_date_real)
  show "parsePrintedDate ''Feb 29, 2024'' mdy = Inr ''2024-02-29''" by code_simp
qed

text \<open>Two ISO days compare as texts the way their days compare, which every window, deadline and
  effective date of the program relies on.\<close>

theorem iso_text_order:
  assumes "iso_day s = Some a" "iso_day t = Some b"
  shows "(s < t \<longleftrightarrow> a < b) \<and> (s \<le> t \<longleftrightarrow> a \<le> b)"
  using iso_less_iff [OF assms] iso_le_iff [OF assms] by simp

theorem iso_text_order_witness:
  "(''2023-12-31'' < ''2024-01-01'' \<longleftrightarrow> (19722 :: int) < 19723) \<and>
   (''2023-12-31'' \<le> ''2024-01-01'' \<longleftrightarrow> (19722 :: int) \<le> 19723)"
proof (rule iso_text_order)
  show "iso_day ''2023-12-31'' = Some 19722" by (simp add: iso_eval)
  show "iso_day ''2024-01-01'' = Some 19723" by (simp add: iso_eval)
qed

text \<open>Every serial the 1900 system accepts is an ISO day; in the 1904 system serials past
  2957003 are accepted too, and those give a text that is no ISO day: the shared upper bound fits
  the 1900 system only.\<close>

theorem excel_serial_days:
  assumes "serial_days (trim serial) = Some n" "excelSerialToIso serial date1904 = Inr s"
  shows "iso_day s \<noteq> None \<longleftrightarrow> \<not> (date1904 \<and> n > 2957003)"
proof -
  obtain k where k: "s = iso_of_day k" "k = (if date1904 then int n - 24107 else int (if n > 60 then n - 1 else n) - 25568)"
    and n: "n \<le> 2958465"
    using assms by (auto simp: excelSerialToIso_def excel_epochs split: if_splits)
  show ?thesis
  proof (cases "date1904 \<and> n > 2957003")
    case True
    then have "2932897 \<le> k" using k by auto
    then show ?thesis using past_9999 True k by simp
  next
    case False
    then have "-719528 \<le> k" "k \<le> 2932896" using k n by (auto split: if_splits)
    then show ?thesis using iso_day_iso_of_day False k by simp
  qed
qed

theorem excel_serial_days_witness:
  "iso_day (iso_of_day 2934358) \<noteq> None \<longleftrightarrow> \<not> (True \<and> (2958465 :: nat) > 2957003)"
proof (rule excel_serial_days)
  show n: "serial_days (trim ''2958465'') = Some 2958465"
    by (simp add: serial_days_def trim_no_ws Let_def is_ws_def is_digit_def code_unit_def
        text_nat_def digit_value_def)
  show "excelSerialToIso ''2958465'' True = Inr (iso_of_day 2934358)"
    by (simp add: excelSerialToIso_def n excel_epochs)
qed

end
