(* ===== verification/Case_State.thy ===== *)
theory Case_State
  imports Prelude
begin

text \<open>
  The case state machine of \<open>packages/core-domain/src/state-machine.ts\<close>: the sixteen states, the
  transition table as data, the queries over it, \<open>applyTransition\<close>, and the breadth-first
  search \<open>isReachable\<close>. The lemmas show that the table has one edge per key, so a move is never
  ambiguous, that the search decides reachability, and which states and guards a run of moves
  must pass.
\<close>

section \<open>States and guards\<close>

datatype CaseState =
    Discovered | Classified | Evidence_Pending | Evidence_Complete | Decided | Auto_Dispute_Queued
  | Analyst_Review | Auto_Writeoff_Queued | Awaiting_Approval | Submitted | Won
  | Lost | Partial | Written_Off | Merged | Removed

instantiation CaseState :: enum
begin

definition enum_CaseState :: "CaseState list" where
  "enum_CaseState =
     [Discovered, Classified, Evidence_Pending, Evidence_Complete, Decided, Auto_Dispute_Queued,
      Analyst_Review, Auto_Writeoff_Queued, Awaiting_Approval, Submitted, Won,
      Lost, Partial, Written_Off, Merged, Removed]"

definition enum_all_CaseState :: "(CaseState \<Rightarrow> bool) \<Rightarrow> bool" where
  "enum_all_CaseState P \<longleftrightarrow> list_all P enum_class.enum"

definition enum_ex_CaseState :: "(CaseState \<Rightarrow> bool) \<Rightarrow> bool" where
  "enum_ex_CaseState P \<longleftrightarrow> list_ex P enum_class.enum"

instance
proof
  show univ: "UNIV = set (enum_class.enum :: CaseState list)"
  proof (rule set_eqI)
    fix s :: CaseState
    show "s \<in> UNIV \<longleftrightarrow> s \<in> set enum_class.enum" by (cases s) (simp_all add: enum_CaseState_def)
  qed
  show "distinct (enum_class.enum :: CaseState list)" by (simp add: enum_CaseState_def)
  show "enum_class.enum_all P \<longleftrightarrow> Ball UNIV P" for P :: "CaseState \<Rightarrow> bool"
    by (simp add: enum_all_CaseState_def univ list_all_iff)
  show "enum_class.enum_ex P \<longleftrightarrow> Bex UNIV P" for P :: "CaseState \<Rightarrow> bool"
    by (simp add: enum_ex_CaseState_def univ list_ex_iff)
qed

end

definition CASE_STATES :: "CaseState list" where
  "CASE_STATES =
     [Discovered, Classified, Evidence_Pending, Evidence_Complete, Decided, Auto_Dispute_Queued,
      Analyst_Review, Auto_Writeoff_Queued, Awaiting_Approval, Submitted, Won,
      Lost, Partial, Written_Off, Merged, Removed]"

definition TERMINAL_STATES :: "CaseState list" where
  "TERMINAL_STATES = [Won, Lost, Partial, Written_Off]"

definition MERGEABLE_STATES :: "CaseState list" where
  "MERGEABLE_STATES =
     [Discovered, Classified, Evidence_Pending, Evidence_Complete, Decided,
      Auto_Dispute_Queued, Analyst_Review, Auto_Writeoff_Queued, Awaiting_Approval]"

definition CLOSED_STATES :: "CaseState list" where
  "CLOSED_STATES = TERMINAL_STATES @ [Merged, Removed]"

datatype GuardName =
    Doc_Type_Known
  | Classification_Confidence_Meets_Tenant_Minimum
  | All_Required_Evidence_Present
  | Decision_Schemas_B_And_C_Passed
  | Confidence_Within_Tenant_Dispute_Ceiling
  | Amount_Within_Tenant_Writeoff_Ceiling
  | Analyst_Requested_More_Evidence
  | Packet_Assembled_And_Submission_Safe
  | Approval_Row_Exists
  | Outcome_Detected
  | Human_Decision_Recorded
  | Outcome_Recorded_By_Human
  | Duplicate_Confirmed_By_Person
  | Merge_Undone_By_Person
  | Removed_By_Owner_Or_Approver

primrec guard_text :: "GuardName \<Rightarrow> string" where
  "guard_text Doc_Type_Known = ''doc_type_known''"
| "guard_text Classification_Confidence_Meets_Tenant_Minimum = ''classification_confidence_meets_tenant_minimum''"
| "guard_text All_Required_Evidence_Present = ''all_required_evidence_present''"
| "guard_text Decision_Schemas_B_And_C_Passed = ''decision_schemas_b_and_c_passed''"
| "guard_text Confidence_Within_Tenant_Dispute_Ceiling = ''confidence_within_tenant_dispute_ceiling''"
| "guard_text Amount_Within_Tenant_Writeoff_Ceiling = ''amount_within_tenant_writeoff_ceiling''"
| "guard_text Analyst_Requested_More_Evidence = ''analyst_requested_more_evidence''"
| "guard_text Packet_Assembled_And_Submission_Safe = ''packet_assembled_and_submission_safe''"
| "guard_text Approval_Row_Exists = ''approval_row_exists''"
| "guard_text Outcome_Detected = ''outcome_detected''"
| "guard_text Human_Decision_Recorded = ''human_decision_recorded''"
| "guard_text Outcome_Recorded_By_Human = ''outcome_recorded_by_human''"
| "guard_text Duplicate_Confirmed_By_Person = ''duplicate_confirmed_by_person''"
| "guard_text Merge_Undone_By_Person = ''merge_undone_by_person''"
| "guard_text Removed_By_Owner_Or_Approver = ''removed_by_owner_or_approver''"

record transition =
  tr_from :: CaseState
  tr_to :: CaseState
  tr_trigger :: string
  tr_guards :: "GuardName list"
  tr_workflow :: string
  tr_idempotency :: string

definition edge ::
  "CaseState \<Rightarrow> CaseState \<Rightarrow> string \<Rightarrow> GuardName list \<Rightarrow> string \<Rightarrow> string \<Rightarrow> transition" where
  "edge f t trigger guards workflow idempotency =
     \<lparr>tr_from = f, tr_to = t, tr_trigger = trigger, tr_guards = guards,
      tr_workflow = workflow, tr_idempotency = idempotency\<rparr>"

section \<open>The table\<close>

definition written_edges :: "transition list" where
  "written_edges = [
  edge Discovered Classified ''document.classified'' [Doc_Type_Known]
     ''classify.case''
     ''key = sha256(document); step memoised'',
  edge Classified Evidence_Pending ''evidence.planned'' [Classification_Confidence_Meets_Tenant_Minimum]
     ''plan.evidence''
     ''checklist upsert by (deduction_id, evidence_type)'',
  edge Classified Analyst_Review ''decision.recorded'' [Human_Decision_Recorded]
     ''decide.human''
     ''one human decision row per (deduction, analyst submission of the form)'',
  edge Evidence_Pending Evidence_Complete ''evidence.sufficient'' [All_Required_Evidence_Present]
     ''score.evidence''
     ''pure function of the current evidence set'',
  edge Evidence_Complete Decided ''decision.recorded'' [Decision_Schemas_B_And_C_Passed]
     ''decide.case''
     ''skip when input_state_hash is unchanged'',
  edge Decided Auto_Dispute_Queued ''decision.routed'' [Confidence_Within_Tenant_Dispute_Ceiling]
     ''route.decision''
     ''deterministic in the decision row'',
  edge Decided Analyst_Review ''decision.routed'' []
     ''route.decision''
     ''deterministic in the decision row'',
  edge Decided Auto_Writeoff_Queued ''decision.routed'' [Amount_Within_Tenant_Writeoff_Ceiling]
     ''route.decision''
     ''deterministic in the decision row'',
  edge Analyst_Review Evidence_Pending ''evidence.requested'' [Analyst_Requested_More_Evidence]
     ''plan.evidence''
     ''checklist upsert by (deduction_id, evidence_type)'',
  edge Auto_Dispute_Queued Awaiting_Approval ''packet.assembled'' [Packet_Assembled_And_Submission_Safe]
     ''assemble.packet''
     ''packet is content-hashed'',
  edge Analyst_Review Awaiting_Approval ''packet.assembled'' [Packet_Assembled_And_Submission_Safe]
     ''assemble.packet''
     ''packet is content-hashed'',
  edge Auto_Writeoff_Queued Awaiting_Approval ''packet.assembled'' [Packet_Assembled_And_Submission_Safe]
     ''assemble.packet''
     ''packet is content-hashed'',
  edge Awaiting_Approval Submitted ''submission.recorded'' [Approval_Row_Exists]
     ''submit.packet (waitForEvent approval.granted)''
     ''unique (decision_id, channel)'',
  edge Awaiting_Approval Written_Off ''writeoff.recorded'' [Approval_Row_Exists]
     ''writeoff.case (waitForEvent approval.granted)''
     ''unique (decision_id)'',
  edge Submitted Won ''outcome.detected'' [Outcome_Detected]
     ''detect.outcome''
     ''outcome events are append-only'',
  edge Submitted Lost ''outcome.detected'' [Outcome_Detected]
     ''detect.outcome''
     ''outcome events are append-only'',
  edge Submitted Partial ''outcome.detected'' [Outcome_Detected]
     ''detect.outcome''
     ''outcome events are append-only'',
  edge Submitted Won ''outcome.recorded'' [Outcome_Recorded_By_Human]
     ''record.outcome''
     ''outcome events are append-only; the case state is the projection'',
  edge Submitted Partial ''outcome.recorded'' [Outcome_Recorded_By_Human]
     ''record.outcome''
     ''outcome events are append-only; the case state is the projection'',
  edge Submitted Lost ''outcome.recorded'' [Outcome_Recorded_By_Human]
     ''record.outcome''
     ''outcome events are append-only; the case state is the projection'']"

definition merge_edges :: "transition list" where
  "merge_edges = concat (map (\<lambda>s.
     [edge s Merged ''case.merged_into'' [Duplicate_Confirmed_By_Person] ''merge.duplicate''
        ''one merge per pair: unique (org_id, least(a, b), greatest(a, b), action)'',
      edge Merged s ''case.merge_undone'' [Merge_Undone_By_Person] ''unmerge.duplicate''
        ''one undo per pair: unique (org_id, least(a, b), greatest(a, b), action)''])
     MERGEABLE_STATES)"

definition removal_edges :: "transition list" where
  "removal_edges = map (\<lambda>s.
     edge s Removed ''case.removed'' [Removed_By_Owner_Or_Approver] ''remove.case''
       ''a removed case never leaves removed; a second removal is refused'')
     MERGEABLE_STATES"

definition TRANSITIONS :: "transition list" where
  "TRANSITIONS = written_edges @ merge_edges @ removal_edges"

definition INITIAL_STATE :: CaseState where
  "INITIAL_STATE = Discovered"

section \<open>Queries\<close>

definition isTerminal :: "CaseState \<Rightarrow> bool" where
  "isTerminal state \<longleftrightarrow> state \<in> set TERMINAL_STATES"

definition isClosed :: "CaseState \<Rightarrow> bool" where
  "isClosed state \<longleftrightarrow> state \<in> set CLOSED_STATES"

definition isMergeable :: "CaseState \<Rightarrow> bool" where
  "isMergeable state \<longleftrightarrow> state \<in> set MERGEABLE_STATES"

definition transitionsFrom :: "CaseState \<Rightarrow> transition list" where
  "transitionsFrom state = filter (\<lambda>t. tr_from t = state) TRANSITIONS"

definition transitionsBetween :: "CaseState \<Rightarrow> CaseState \<Rightarrow> transition list" where
  "transitionsBetween f t = filter (\<lambda>e. tr_from e = f \<and> tr_to e = t) TRANSITIONS"

definition findTransition :: "CaseState \<Rightarrow> CaseState \<Rightarrow> string option \<Rightarrow> transition option" where
  "findTransition f t trigger =
     find_first (\<lambda>e. tr_from e = f \<and> tr_to e = t \<and>
       (case trigger of None \<Rightarrow> True | Some g \<Rightarrow> tr_trigger e = g)) TRANSITIONS"

definition canTransition :: "CaseState \<Rightarrow> CaseState \<Rightarrow> string option \<Rightarrow> bool" where
  "canTransition f t trigger \<longleftrightarrow> findTransition f t trigger \<noteq> None"

text \<open>\<open>guards\<close> answers whether a guard is recorded as exactly \<open>true\<close>. A blocked move names the
  unmet guards of every candidate edge.\<close>

definition applyTransition ::
  "CaseState \<Rightarrow> CaseState \<Rightarrow> string \<Rightarrow> (GuardName \<Rightarrow> bool) \<Rightarrow> transition res" where
  "applyTransition f t trigger guards =
     (let candidates = filter (\<lambda>e. tr_from e = f \<and> tr_to e = t \<and> tr_trigger e = trigger) TRANSITIONS in
      if candidates = [] then Inl (TransitionError ''illegal'' [])
      else let satisfied = filter (\<lambda>e. list_all guards (tr_guards e)) candidates in
        if length satisfied > 1 then Inl (TransitionError ''ambiguous'' [])
        else case satisfied of
          e # _ \<Rightarrow> Inr e
        | [] \<Rightarrow> Inl (TransitionError ''blocked''
                  (map (\<lambda>e. map guard_text (filter (\<lambda>g. \<not> guards g) (tr_guards e))) candidates)))"

text \<open>The inner loop of the search: \<open>None\<close> when the target is met, else the states seen and the
  queue after one state's edges.\<close>

fun visit ::
  "CaseState \<Rightarrow> CaseState list \<Rightarrow> CaseState list \<Rightarrow> CaseState list \<Rightarrow> CaseState list \<Rightarrow>
   (CaseState list \<times> CaseState list) option" where
  "visit goal avoid [] seen queue = Some (seen, queue)"
| "visit goal avoid (next # nexts) seen queue =
     (if next = goal then None
      else if next \<in> set avoid \<or> next \<in> set seen then visit goal avoid nexts seen queue
      else visit goal avoid nexts (next # seen) (queue @ [next]))"

lemma visit_facts:
  assumes "visit goal avoid ns seen queue = Some (seen', queue')"
  shows "set seen \<subseteq> set seen'" "seen' = seen \<and> queue' = queue \<or> set seen \<subset> set seen'"
  using assms
  by (induction goal avoid ns seen queue rule: visit.induct) (auto split: if_splits)

function search :: "CaseState \<Rightarrow> CaseState list \<Rightarrow> CaseState list \<Rightarrow> CaseState list \<Rightarrow> bool" where
  "search goal avoid seen [] = False"
| "search goal avoid seen (current # queue) =
     (case visit goal avoid (map tr_to (transitionsFrom current)) seen queue of
        None \<Rightarrow> True
      | Some (seen', queue') \<Rightarrow> search goal avoid seen' queue')"
  by pat_completeness auto
termination
proof (relation "measures [\<lambda>(g, a, seen, q). card (- set seen), \<lambda>(g, a, seen, q). length q]")
  fix goal avoid seen current queue x seen' queue'
  assume "visit goal avoid (map tr_to (transitionsFrom current)) seen queue = Some x"
    and "(seen', queue') = x"
  then have "seen' = seen \<and> queue' = queue \<or> set seen \<subset> set seen'" using visit_facts(2) by blast
  moreover have "set seen \<subset> set seen' \<Longrightarrow> card (- set seen') < card (- set seen)"
    by (rule psubset_card_mono) auto
  ultimately show "((goal, avoid, seen', queue'), goal, avoid, seen, current # queue) \<in>
      measures [\<lambda>(g, a, seen, q). card (- set seen), \<lambda>(g, a, seen, q). length q]"
    by auto
qed simp

definition isReachable :: "CaseState \<Rightarrow> CaseState \<Rightarrow> CaseState list \<Rightarrow> bool" where
  "isReachable f t avoid = (if f \<in> set avoid then False else search t avoid [f] [f])"

section \<open>One edge per key\<close>

text \<open>The contract of a table keyed by part of its rows: no key twice, so a key picks one row.\<close>

locale keyed_table =
  fixes table :: "'e list" and key :: "'e \<Rightarrow> 'k"
  assumes distinct_keys: "distinct (map key table)"
begin

lemma key_unique: "a \<in> set table \<Longrightarrow> b \<in> set table \<Longrightarrow> key a = key b \<Longrightarrow> a = b"
  using distinct_keys by (simp add: distinct_map inj_on_def)

lemma rows_of_key: "e \<in> set table \<Longrightarrow> filter (\<lambda>x. key x = key e) table = [e]"
proof -
  assume e: "e \<in> set table"
  have "distinct (filter (\<lambda>x. key x = key e) table)" using distinct_keys by (simp add: distinct_map)
  moreover have "set (filter (\<lambda>x. key x = key e) table) = {e}" using e key_unique by auto
  ultimately show ?thesis by (metis distinct_card card.empty card_insert_disjoint empty_iff finite.emptyI
      length_0_conv length_Suc_conv list.simps(15) set_empty singleton_insert_inj_eq' One_nat_def)
qed

lemma no_row: "(\<forall>e\<in>set table. key e \<noteq> k) \<Longrightarrow> filter (\<lambda>x. key x = k) table = []"
  by (simp add: filter_empty_conv)

end

definition tr_key :: "transition \<Rightarrow> CaseState \<times> CaseState \<times> string" where
  "tr_key e = (tr_from e, tr_to e, tr_trigger e)"

lemmas table_defs = TRANSITIONS_def written_edges_def merge_edges_def removal_edges_def
  MERGEABLE_STATES_def edge_def

interpretation transitions: keyed_table TRANSITIONS tr_key
  by unfold_locales (simp add: table_defs tr_key_def)

lemma applyTransition_candidates:
  "filter (\<lambda>e. tr_from e = f \<and> tr_to e = t \<and> tr_trigger e = g) TRANSITIONS =
   filter (\<lambda>e. tr_key e = (f, t, g)) TRANSITIONS"
  by (simp add: tr_key_def)

lemma applyTransition_Inr_iff:
  "applyTransition f t trigger guards = Inr e \<longleftrightarrow>
    e \<in> set TRANSITIONS \<and> tr_key e = (f, t, trigger) \<and> list_all guards (tr_guards e)"
proof (cases "\<exists>x\<in>set TRANSITIONS. tr_key x = (f, t, trigger)")
  case True
  then obtain x where x: "x \<in> set TRANSITIONS" "tr_key x = (f, t, trigger)" by blast
  have "filter (\<lambda>e. tr_key e = (f, t, trigger)) TRANSITIONS = [x]"
    using transitions.rows_of_key [OF x(1)] x(2) by simp
  then show ?thesis
    using x transitions.key_unique [of e x] unfolding applyTransition_def applyTransition_candidates
    by (auto split: if_splits)
next
  case False
  then have "filter (\<lambda>e. tr_key e = (f, t, trigger)) TRANSITIONS = []"
    using transitions.no_row by blast
  then show ?thesis using False unfolding applyTransition_def applyTransition_candidates by auto
qed

lemma applyTransition_Inl:
  assumes "applyTransition f t trigger guards = Inl err"
  shows "(\<forall>e\<in>set TRANSITIONS. tr_key e \<noteq> (f, t, trigger)) \<and> err = TransitionError ''illegal'' [] \<or>
    (\<exists>e\<in>set TRANSITIONS. tr_key e = (f, t, trigger) \<and> (\<exists>g\<in>set (tr_guards e). \<not> guards g) \<and>
       err = TransitionError ''blocked'' [map guard_text (filter (\<lambda>g. \<not> guards g) (tr_guards e))])"
proof (cases "\<exists>x\<in>set TRANSITIONS. tr_key x = (f, t, trigger)")
  case True
  then obtain x where x: "x \<in> set TRANSITIONS" "tr_key x = (f, t, trigger)" by blast
  have "filter (\<lambda>e. tr_key e = (f, t, trigger)) TRANSITIONS = [x]"
    using transitions.rows_of_key [OF x(1)] x(2) by simp
  then show ?thesis
    using x assms unfolding applyTransition_def applyTransition_candidates
    by (auto simp: Let_def list_all_iff split: if_splits)
next
  case False
  then have "filter (\<lambda>e. tr_key e = (f, t, trigger)) TRANSITIONS = []"
    using transitions.no_row by blast
  then show ?thesis using False assms unfolding applyTransition_def applyTransition_candidates by auto
qed

section \<open>The search decides reachability\<close>

definition has_edge :: "CaseState \<Rightarrow> CaseState \<Rightarrow> bool" where
  "has_edge f t \<longleftrightarrow> t \<in> set (map tr_to (transitionsFrom f))"

text \<open>A path of at least one edge whose states strictly between the ends are outside \<open>avoid\<close>.\<close>

inductive reaches :: "CaseState list \<Rightarrow> CaseState \<Rightarrow> CaseState \<Rightarrow> bool" for avoid where
  direct: "has_edge f t \<Longrightarrow> reaches avoid f t"
| via: "has_edge f m \<Longrightarrow> m \<notin> set avoid \<Longrightarrow> reaches avoid m t \<Longrightarrow> reaches avoid f t"

lemma visit_None: "visit goal avoid ns seen queue = None \<Longrightarrow> goal \<in> set ns"
  by (induction goal avoid ns seen queue rule: visit.induct) (auto split: if_splits)

lemma visit_sets:
  "visit goal avoid ns seen queue = Some (seen', queue') \<Longrightarrow>
    set queue \<subseteq> set queue' \<and> set seen' \<subseteq> set seen \<union> set queue' \<and>
    set queue' \<subseteq> set queue \<union> (set ns - set avoid)"
  by (induction goal avoid ns seen queue rule: visit.induct) (auto split: if_splits)

lemma visit_closes:
  "visit goal avoid ns seen queue = Some (seen', queue') \<Longrightarrow> n \<in> set ns \<Longrightarrow>
    n \<noteq> goal \<and> (n \<in> set avoid \<or> n \<in> set seen')"
  using visit_facts(1)
  by (induction goal avoid ns seen queue rule: visit.induct) (fastforce split: if_splits)+

lemma search_sound: "search goal avoid seen queue \<Longrightarrow> \<exists>q\<in>set queue. reaches avoid q goal"
proof (induction goal avoid seen queue rule: search.induct)
  case (2 goal avoid seen current queue)
  show ?case
  proof (cases "visit goal avoid (map tr_to (transitionsFrom current)) seen queue")
    case None
    then have "has_edge current goal" unfolding has_edge_def by (rule visit_None)
    then show ?thesis by (auto intro: reaches.direct)
  next
    case (Some p)
    obtain seen' queue' where p: "p = (seen', queue')" by (cases p)
    have "search goal avoid seen' queue'" using "2.prems" Some p by simp
    from "2.IH" [OF Some p [symmetric] this] obtain q where q: "q \<in> set queue'" "reaches avoid q goal"
      by (auto simp: p)
    then have "q \<in> set queue \<or> has_edge current q \<and> q \<notin> set avoid"
      using visit_sets [OF Some [unfolded p]] unfolding has_edge_def by blast
    then show ?thesis using q(2) by (auto intro: reaches.via)
  qed
qed simp

definition closed_except :: "CaseState \<Rightarrow> CaseState list \<Rightarrow> CaseState set \<Rightarrow> CaseState set \<Rightarrow> bool" where
  "closed_except goal avoid S Q \<longleftrightarrow>
     (\<forall>s\<in>S - Q. \<forall>n. has_edge s n \<longrightarrow> n \<noteq> goal \<and> (n \<in> set avoid \<or> n \<in> S))"

lemma closed_no_path:
  assumes "reaches avoid s goal" and "closed_except goal avoid S {}"
  shows "s \<notin> S"
  using assms by (induction rule: reaches.induct) (auto simp: closed_except_def)

lemma search_complete:
  "\<not> search goal avoid seen queue \<Longrightarrow> closed_except goal avoid (set seen) (set queue) \<Longrightarrow>
    s \<in> set seen \<Longrightarrow> \<not> reaches avoid s goal"
proof (induction goal avoid seen queue rule: search.induct)
  case (1 goal avoid seen)
  then show ?case using closed_no_path by auto
next
  case (2 goal avoid seen current queue)
  from "2.prems"(1) obtain seen' queue' where
    v: "visit goal avoid (map tr_to (transitionsFrom current)) seen queue = Some (seen', queue')"
    and more: "\<not> search goal avoid seen' queue'" by (auto split: option.splits)
  have "closed_except goal avoid (set seen') (set queue')"
    using "2.prems"(2) visit_closes [OF v] visit_sets [OF v] visit_facts(1) [OF v]
    unfolding closed_except_def has_edge_def by (auto; blast)
  moreover have "s \<in> set seen'" using visit_facts(1) [OF v] "2.prems"(3) by blast
  ultimately show ?case using "2.IH" [OF v refl more] by blast
qed

lemma isReachable_iff:
  "isReachable f t avoid \<longleftrightarrow> f \<notin> set avoid \<and> reaches avoid f t"
proof (cases "f \<in> set avoid")
  case False
  have "closed_except t avoid (set [f]) (set [f])" by (simp add: closed_except_def)
  then show ?thesis
    using False search_sound [of t avoid "[f]" "[f]"] search_complete [of t avoid "[f]" "[f]" f]
    by (auto simp: isReachable_def)
qed (simp add: isReachable_def)

section \<open>Runs of moves\<close>

text \<open>A run is what the callers of \<open>applyTransition\<close> do to one case: each move names its target,
  its event and the guards recorded at that moment, and starts where the last one ended.\<close>

inductive run ::
  "CaseState \<Rightarrow> (transition \<times> (GuardName \<Rightarrow> bool)) list \<Rightarrow> CaseState \<Rightarrow> bool" where
  stay: "run s [] s"
| move: "applyTransition s t trigger guards = Inr e \<Longrightarrow> run t moves u \<Longrightarrow> run s ((e, guards) # moves) u"

inductive_cases run_NilE: "run s [] u"
inductive_cases run_ConsE: "run s (m # ms) u"

definition filed_states :: "CaseState list" where
  "filed_states = Submitted # TERMINAL_STATES"

lemma edge_into_filed:
  assumes "e \<in> set TRANSITIONS" "tr_to e \<in> set filed_states" "tr_from e \<notin> set filed_states"
  shows "tr_from e = Awaiting_Approval \<and> Approval_Row_Exists \<in> set (tr_guards e)"
proof -
  have "list_all (\<lambda>e. tr_to e \<in> set filed_states \<longrightarrow> tr_from e \<notin> set filed_states \<longrightarrow>
      tr_from e = Awaiting_Approval \<and> Approval_Row_Exists \<in> set (tr_guards e)) TRANSITIONS"
    by (simp add: table_defs filed_states_def TERMINAL_STATES_def)
  then show ?thesis using assms by (auto simp: list_all_iff)
qed

lemma edge_from_filed:
  assumes "e \<in> set TRANSITIONS" "tr_from e \<in> set filed_states"
  shows "tr_from e = Submitted \<and> tr_to e \<in> set TERMINAL_STATES"
proof -
  have "list_all (\<lambda>e. tr_from e \<in> set filed_states \<longrightarrow>
      tr_from e = Submitted \<and> tr_to e \<in> set TERMINAL_STATES) TRANSITIONS"
    by (simp add: table_defs filed_states_def TERMINAL_STATES_def)
  then show ?thesis using assms by (auto simp: list_all_iff)
qed

lemma edge_from_removed: "e \<in> set TRANSITIONS \<Longrightarrow> tr_from e \<noteq> Removed"
proof -
  have "list_all (\<lambda>e. tr_from e \<noteq> Removed) TRANSITIONS" by (simp add: table_defs)
  then show "e \<in> set TRANSITIONS \<Longrightarrow> tr_from e \<noteq> Removed" by (auto simp: list_all_iff)
qed

lemma move_edge:
  assumes "applyTransition s t trigger guards = Inr e"
  shows "e \<in> set TRANSITIONS" "tr_from e = s" "tr_to e = t" "tr_trigger e = trigger"
    "list_all guards (tr_guards e)"
  using assms by (simp_all add: applyTransition_Inr_iff tr_key_def)

lemma run_into_filed:
  assumes "run s moves u" "s \<notin> set filed_states" "u \<in> set filed_states"
  shows "\<exists>(e, guards)\<in>set moves. tr_from e = Awaiting_Approval \<and>
    tr_to e \<in> set filed_states \<and> guards Approval_Row_Exists"
  using assms
proof (induction rule: run.induct)
  case (move s t trigger guards e moves u)
  note e = move_edge [OF move.hyps(1)]
  show ?case
  proof (cases "t \<in> set filed_states")
    case True
    then have "tr_from e = Awaiting_Approval \<and> Approval_Row_Exists \<in> set (tr_guards e)"
      using edge_into_filed [OF e(1)] e(2,3) move.prems(1) by simp
    then show ?thesis using True e(3,5) by (auto simp: list_all_iff)
  next
    case False
    then show ?thesis using move.IH move.prems(2) by auto
  qed
qed simp

lemma run_from_closed:
  assumes "run s moves u" "s \<in> set TERMINAL_STATES \<or> s = Removed"
  shows "moves = [] \<and> u = s"
  using assms
proof (cases rule: run.cases)
  case (move t trigger guards e moves)
  note e = move_edge [OF move(2)]
  have "s \<noteq> Removed" using edge_from_removed e by auto
  moreover have "s \<notin> set TERMINAL_STATES"
    using edge_from_filed [OF e(1)] e(2) by (auto simp: filed_states_def TERMINAL_STATES_def)
  ultimately show ?thesis using assms(2) by simp
qed simp

lemma run_from_submitted:
  assumes "run Submitted moves u"
  shows "moves = [] \<and> u = Submitted \<or> length moves = 1 \<and> u \<in> set TERMINAL_STATES"
  using assms
proof (cases rule: run.cases)
  case (move t trigger guards e ms)
  note e = move_edge [OF move(2)]
  have "t \<in> set TERMINAL_STATES" using edge_from_filed [OF e(1)] e(2,3) by (simp add: filed_states_def)
  moreover have "ms = [] \<and> u = t" using run_from_closed [OF move(3)] calculation by simp
  ultimately show ?thesis using move by simp
qed simp

lemma has_edge_iff: "has_edge f t \<longleftrightarrow> (\<exists>e\<in>set TRANSITIONS. tr_from e = f \<and> tr_to e = t)"
  by (auto simp: has_edge_def transitionsFrom_def)

lemma has_written_edge:
  "list_ex (\<lambda>e. tr_from e = f \<and> tr_to e = t) written_edges \<Longrightarrow> has_edge f t"
  by (auto simp: has_edge_iff TRANSITIONS_def list_ex_iff)

lemma forward_edges:
  "has_edge Discovered Classified" "has_edge Classified Analyst_Review"
  "has_edge Evidence_Pending Evidence_Complete" "has_edge Evidence_Complete Decided"
  "has_edge Decided Analyst_Review" "has_edge Auto_Dispute_Queued Awaiting_Approval"
  "has_edge Analyst_Review Awaiting_Approval" "has_edge Auto_Writeoff_Queued Awaiting_Approval"
  "has_edge Awaiting_Approval Written_Off" "has_edge Submitted Won"
  by (rule has_written_edge, simp add: written_edges_def edge_def)+

lemma ends_reachable:
  "s \<in> set CLOSED_STATES \<or> s \<notin> {Merged, Removed} \<and> (\<exists>t\<in>set TERMINAL_STATES. reaches [Merged, Removed] s t)"
proof -
  have a: "reaches [Merged, Removed] Awaiting_Approval Written_Off" by (intro reaches.direct forward_edges)
  have v: "has_edge f m \<Longrightarrow> m \<notin> {Merged, Removed} \<Longrightarrow> reaches [Merged, Removed] m Written_Off \<Longrightarrow>
      reaches [Merged, Removed] f Written_Off" for f m
    by (rule reaches.via) auto
  have r: "reaches [Merged, Removed] Analyst_Review Written_Off" by (rule v [OF forward_edges(7) _ a]) simp
  have c: "reaches [Merged, Removed] Classified Written_Off" by (rule v [OF forward_edges(2) _ r]) simp
  have d: "reaches [Merged, Removed] Decided Written_Off" by (rule v [OF forward_edges(5) _ r]) simp
  have e: "reaches [Merged, Removed] Evidence_Complete Written_Off" by (rule v [OF forward_edges(4) _ d]) simp
  have p: "reaches [Merged, Removed] Evidence_Pending Written_Off" by (rule v [OF forward_edges(3) _ e]) simp
  have i: "reaches [Merged, Removed] Discovered Written_Off" by (rule v [OF forward_edges(1) _ c]) simp
  have q: "reaches [Merged, Removed] Auto_Dispute_Queued Written_Off" by (rule v [OF forward_edges(6) _ a]) simp
  have w: "reaches [Merged, Removed] Auto_Writeoff_Queued Written_Off" by (rule v [OF forward_edges(8) _ a]) simp
  have s: "reaches [Merged, Removed] Submitted Won" by (intro reaches.direct forward_edges)
  show ?thesis
    using a r c d e p i q w s by (cases s) (auto simp: CLOSED_STATES_def TERMINAL_STATES_def)
qed

lemma not_around_approval:
  assumes "reaches [Awaiting_Approval] f t" "t \<in> set filed_states" "f \<notin> set filed_states"
  shows "f = Awaiting_Approval"
  using assms
proof (induction rule: reaches.induct)
  case (direct f t)
  then show ?case using edge_into_filed by (auto simp: has_edge_iff)
next
  case (via f m t)
  show ?case
  proof (cases "m \<in> set filed_states")
    case True
    then show ?thesis using edge_into_filed via by (auto simp: has_edge_iff)
  next
    case False
    then show ?thesis using via by simp
  qed
qed

section \<open>Properties\<close>

text \<open>C24: the table decides every move: \<open>applyTransition\<close> returns an edge exactly when it is the table's
  edge for that pair of states and event and all its guards are recorded; it is never ambiguous, a
  move the table lacks is illegal, and a move it has is blocked only by naming an unmet guard.\<close>

theorem transition_decided:
  "(applyTransition f t trigger guards = Inr e \<longleftrightarrow>
      e \<in> set TRANSITIONS \<and> tr_key e = (f, t, trigger) \<and> list_all guards (tr_guards e)) \<and>
   (applyTransition f t trigger guards \<noteq> Inl (TransitionError ''ambiguous'' [])) \<and>
   (applyTransition f t trigger guards = Inl (TransitionError ''illegal'' []) \<longleftrightarrow>
      (f, t, trigger) \<notin> tr_key ` set TRANSITIONS)"
proof -
  have ill: "applyTransition f t trigger guards = Inl (TransitionError ''illegal'' [])"
    if "(f, t, trigger) \<notin> tr_key ` set TRANSITIONS"
  proof (cases "applyTransition f t trigger guards")
    case (Inl err)
    then show ?thesis using applyTransition_Inl [OF Inl] that by (metis image_eqI)
  next
    case (Inr x)
    then show ?thesis using that by (metis applyTransition_Inr_iff image_eqI)
  qed
  show ?thesis
    using applyTransition_Inr_iff applyTransition_Inl [of f t trigger guards] ill
    by (auto simp: image_iff)
qed

text \<open>C1: nothing is filed, and nothing is written off, without an approval: every run of moves that
  starts before a filing and ends in \<open>submitted\<close>, an outcome or \<open>written_off\<close> contains a move out of
  \<open>awaiting_approval\<close> at which the approval row was recorded.\<close>

theorem filing_needs_approval:
  assumes "run s moves u" "s \<notin> set filed_states" "u \<in> set filed_states"
  shows "\<exists>(e, guards)\<in>set moves. tr_from e = Awaiting_Approval \<and>
    tr_to e \<in> set filed_states \<and> guards Approval_Row_Exists"
  by (rule run_into_filed [OF assms])

theorem filing_needs_approval_witness:
  "\<exists>(e, guards)\<in>set [(edge Awaiting_Approval Submitted ''submission.recorded'' [Approval_Row_Exists]
        ''submit.packet (waitForEvent approval.granted)'' ''unique (decision_id, channel)'',
        \<lambda>g. g = Approval_Row_Exists)].
    tr_from e = Awaiting_Approval \<and> tr_to e \<in> set filed_states \<and> guards Approval_Row_Exists"
proof -
  have "applyTransition Awaiting_Approval Submitted ''submission.recorded'' (\<lambda>g. g = Approval_Row_Exists) =
      Inr (edge Awaiting_Approval Submitted ''submission.recorded'' [Approval_Row_Exists]
        ''submit.packet (waitForEvent approval.granted)'' ''unique (decision_id, channel)'')"
    by (simp add: applyTransition_def table_defs)
  then have "run Awaiting_Approval [(edge Awaiting_Approval Submitted ''submission.recorded'' [Approval_Row_Exists]
        ''submit.packet (waitForEvent approval.granted)'' ''unique (decision_id, channel)'',
        \<lambda>g. g = Approval_Row_Exists)] Submitted"
    by (rule run.move) (rule run.stay)
  moreover have "Awaiting_Approval \<notin> set filed_states" "Submitted \<in> set filed_states"
    by (simp_all add: filed_states_def TERMINAL_STATES_def)
  ultimately show ?thesis by (rule filing_needs_approval)
qed

text \<open>What is filed stays filed: from \<open>submitted\<close> a case makes at most one more move, into an
  outcome, and from an outcome, a write-off or a removal it makes none.\<close>

theorem filed_stays_filed:
  assumes "run s moves u" "s \<in> set filed_states \<or> s = Removed"
  shows "(s = Submitted \<and> length moves \<le> 1 \<or> moves = []) \<and> (s = Submitted \<and> u \<in> set filed_states \<or> u = s)"
proof (cases "s = Submitted")
  case True
  then show ?thesis using run_from_submitted [of moves u] assms(1) by (auto simp: filed_states_def)
next
  case False
  then have "s \<in> set TERMINAL_STATES \<or> s = Removed" using assms(2) by (auto simp: filed_states_def)
  then show ?thesis using run_from_closed [OF assms(1)] by simp
qed

theorem filed_stays_filed_witness:
  "(Won = Submitted \<and> length ([] :: (transition \<times> (GuardName \<Rightarrow> bool)) list) \<le> 1 \<or>
    ([] :: (transition \<times> (GuardName \<Rightarrow> bool)) list) = []) \<and> (Won = Submitted \<and> Won \<in> set filed_states \<or> Won = Won)"
  by (rule filed_stays_filed [OF run.stay]) (simp add: filed_states_def TERMINAL_STATES_def)

text \<open>The breadth-first search decides reachability: it answers true exactly when a path of at
  least one edge leads to the goal whose states before it, the start included, avoid the forbidden
  ones.\<close>

theorem reachability_decided: "isReachable f t avoid \<longleftrightarrow> f \<notin> set avoid \<and> reaches avoid f t"
  by (rule isReachable_iff)

text \<open>No case is stuck: from every state that is not closed an outcome or a write-off can be
  reached without merging or removing the case, and from \<open>discovered\<close> neither \<open>submitted\<close> nor
  \<open>written_off\<close> can be reached around \<open>awaiting_approval\<close>.\<close>

theorem no_case_stuck:
  "(isClosed s \<or> (\<exists>t\<in>set TERMINAL_STATES. isReachable s t [Merged, Removed])) \<and>
   \<not> isReachable INITIAL_STATE Submitted [Awaiting_Approval] \<and>
   \<not> isReachable INITIAL_STATE Written_Off [Awaiting_Approval]"
  using ends_reachable not_around_approval
  by (auto simp: isReachable_iff isClosed_def CLOSED_STATES_def INITIAL_STATE_def filed_states_def
      TERMINAL_STATES_def)

end
