(* ===== verification/Reasons.thy ===== *)
theory Reasons
  imports Prelude
begin

text \<open>
  The canonical reason taxonomy of \<open>packages/core-domain/src/reason-codes.ts\<close> and the words of
  \<open>reason-words.ts\<close>: the ten families, the codes with their family, the words a letter prints,
  and the reasons the decide form offers. The one character of those words past U+00FF, the em
  dash of \<open>unknown_uncoded\<close>, is written \<open>CHR 0x97\<close>.
\<close>

datatype ReasonFamily =
    Fam_Shortage | Fam_Pricing | Fam_Compliance | Fam_Duplicate | Fam_Returns |
    Fam_Promotion | Fam_Freight | Fam_Quality | Fam_Post_Audit | Fam_Other

datatype CanonicalReasonCode =
    Shortage_Quantity | Shortage_Carton | Shortage_Concealed | Shortage_Never_Received |
    Shortage_Pallet | Price_Discrepancy | Price_Unauthorised_Change |
    Cost_Increase_Not_Honoured | Unauthorised_Deduction_No_Basis | Substitution_Price |
    Compliance_Otif | Compliance_Late_Delivery | Compliance_Early_Delivery |
    Compliance_Asn_Missing | Compliance_Asn_Inaccurate | Compliance_Label_Barcode |
    Compliance_Packaging | Compliance_Routing_Guide | Compliance_Appointment_Missed |
    Compliance_Pallet_Spec | Duplicate_Payment | Duplicate_Claim |
    Duplicate_Invoice_Deduction | Return_Unsaleable | Return_Authorised |
    Return_Unauthorised | Return_Handling_Fee | Promo_Allowance_Claimed |
    Promo_Not_Agreed | Promo_Duplicate_Allowance | Promo_Rate_Mismatch |
    Markdown_Allowance | Coop_Advertising | New_Store_Allowance | Freight_Prepaid_Billed |
    Freight_Rate_Mismatch | Freight_Unauthorised_Carrier | Detention_Or_Layover |
    Quality_Damaged_In_Transit | Quality_Expired_Short_Dated | Quality_Spec_Mismatch |
    Post_Audit_Pricing | Post_Audit_Allowance | Post_Audit_Freight | Unknown_Uncoded |
    Administrative_Fee | Tax_Adjustment

definition REASON_FAMILIES :: "ReasonFamily list" where
  "REASON_FAMILIES =
    [Fam_Shortage, Fam_Pricing, Fam_Compliance, Fam_Duplicate, Fam_Returns, Fam_Promotion,
    Fam_Freight, Fam_Quality, Fam_Post_Audit, Fam_Other]"

primrec family_text :: "ReasonFamily \<Rightarrow> string" where
  "family_text Fam_Shortage = ''shortage''"
| "family_text Fam_Pricing = ''pricing''"
| "family_text Fam_Compliance = ''compliance''"
| "family_text Fam_Duplicate = ''duplicate''"
| "family_text Fam_Returns = ''returns''"
| "family_text Fam_Promotion = ''promotion''"
| "family_text Fam_Freight = ''freight''"
| "family_text Fam_Quality = ''quality''"
| "family_text Fam_Post_Audit = ''post_audit''"
| "family_text Fam_Other = ''other''"

primrec code_text :: "CanonicalReasonCode \<Rightarrow> string" where
  "code_text Shortage_Quantity = ''shortage_quantity''"
| "code_text Shortage_Carton = ''shortage_carton''"
| "code_text Shortage_Concealed = ''shortage_concealed''"
| "code_text Shortage_Never_Received = ''shortage_never_received''"
| "code_text Shortage_Pallet = ''shortage_pallet''"
| "code_text Price_Discrepancy = ''price_discrepancy''"
| "code_text Price_Unauthorised_Change = ''price_unauthorised_change''"
| "code_text Cost_Increase_Not_Honoured = ''cost_increase_not_honoured''"
| "code_text Unauthorised_Deduction_No_Basis = ''unauthorised_deduction_no_basis''"
| "code_text Substitution_Price = ''substitution_price''"
| "code_text Compliance_Otif = ''compliance_otif''"
| "code_text Compliance_Late_Delivery = ''compliance_late_delivery''"
| "code_text Compliance_Early_Delivery = ''compliance_early_delivery''"
| "code_text Compliance_Asn_Missing = ''compliance_asn_missing''"
| "code_text Compliance_Asn_Inaccurate = ''compliance_asn_inaccurate''"
| "code_text Compliance_Label_Barcode = ''compliance_label_barcode''"
| "code_text Compliance_Packaging = ''compliance_packaging''"
| "code_text Compliance_Routing_Guide = ''compliance_routing_guide''"
| "code_text Compliance_Appointment_Missed = ''compliance_appointment_missed''"
| "code_text Compliance_Pallet_Spec = ''compliance_pallet_spec''"
| "code_text Duplicate_Payment = ''duplicate_payment''"
| "code_text Duplicate_Claim = ''duplicate_claim''"
| "code_text Duplicate_Invoice_Deduction = ''duplicate_invoice_deduction''"
| "code_text Return_Unsaleable = ''return_unsaleable''"
| "code_text Return_Authorised = ''return_authorised''"
| "code_text Return_Unauthorised = ''return_unauthorised''"
| "code_text Return_Handling_Fee = ''return_handling_fee''"
| "code_text Promo_Allowance_Claimed = ''promo_allowance_claimed''"
| "code_text Promo_Not_Agreed = ''promo_not_agreed''"
| "code_text Promo_Duplicate_Allowance = ''promo_duplicate_allowance''"
| "code_text Promo_Rate_Mismatch = ''promo_rate_mismatch''"
| "code_text Markdown_Allowance = ''markdown_allowance''"
| "code_text Coop_Advertising = ''coop_advertising''"
| "code_text New_Store_Allowance = ''new_store_allowance''"
| "code_text Freight_Prepaid_Billed = ''freight_prepaid_billed''"
| "code_text Freight_Rate_Mismatch = ''freight_rate_mismatch''"
| "code_text Freight_Unauthorised_Carrier = ''freight_unauthorised_carrier''"
| "code_text Detention_Or_Layover = ''detention_or_layover''"
| "code_text Quality_Damaged_In_Transit = ''quality_damaged_in_transit''"
| "code_text Quality_Expired_Short_Dated = ''quality_expired_short_dated''"
| "code_text Quality_Spec_Mismatch = ''quality_spec_mismatch''"
| "code_text Post_Audit_Pricing = ''post_audit_pricing''"
| "code_text Post_Audit_Allowance = ''post_audit_allowance''"
| "code_text Post_Audit_Freight = ''post_audit_freight''"
| "code_text Unknown_Uncoded = ''unknown_uncoded''"
| "code_text Administrative_Fee = ''administrative_fee''"
| "code_text Tax_Adjustment = ''tax_adjustment''"

primrec familyOf :: "CanonicalReasonCode \<Rightarrow> ReasonFamily" where
  "familyOf Shortage_Quantity = Fam_Shortage"
| "familyOf Shortage_Carton = Fam_Shortage"
| "familyOf Shortage_Concealed = Fam_Shortage"
| "familyOf Shortage_Never_Received = Fam_Shortage"
| "familyOf Shortage_Pallet = Fam_Shortage"
| "familyOf Price_Discrepancy = Fam_Pricing"
| "familyOf Price_Unauthorised_Change = Fam_Pricing"
| "familyOf Cost_Increase_Not_Honoured = Fam_Pricing"
| "familyOf Unauthorised_Deduction_No_Basis = Fam_Pricing"
| "familyOf Substitution_Price = Fam_Pricing"
| "familyOf Compliance_Otif = Fam_Compliance"
| "familyOf Compliance_Late_Delivery = Fam_Compliance"
| "familyOf Compliance_Early_Delivery = Fam_Compliance"
| "familyOf Compliance_Asn_Missing = Fam_Compliance"
| "familyOf Compliance_Asn_Inaccurate = Fam_Compliance"
| "familyOf Compliance_Label_Barcode = Fam_Compliance"
| "familyOf Compliance_Packaging = Fam_Compliance"
| "familyOf Compliance_Routing_Guide = Fam_Compliance"
| "familyOf Compliance_Appointment_Missed = Fam_Compliance"
| "familyOf Compliance_Pallet_Spec = Fam_Compliance"
| "familyOf Duplicate_Payment = Fam_Duplicate"
| "familyOf Duplicate_Claim = Fam_Duplicate"
| "familyOf Duplicate_Invoice_Deduction = Fam_Duplicate"
| "familyOf Return_Unsaleable = Fam_Returns"
| "familyOf Return_Authorised = Fam_Returns"
| "familyOf Return_Unauthorised = Fam_Returns"
| "familyOf Return_Handling_Fee = Fam_Returns"
| "familyOf Promo_Allowance_Claimed = Fam_Promotion"
| "familyOf Promo_Not_Agreed = Fam_Promotion"
| "familyOf Promo_Duplicate_Allowance = Fam_Promotion"
| "familyOf Promo_Rate_Mismatch = Fam_Promotion"
| "familyOf Markdown_Allowance = Fam_Promotion"
| "familyOf Coop_Advertising = Fam_Promotion"
| "familyOf New_Store_Allowance = Fam_Promotion"
| "familyOf Freight_Prepaid_Billed = Fam_Freight"
| "familyOf Freight_Rate_Mismatch = Fam_Freight"
| "familyOf Freight_Unauthorised_Carrier = Fam_Freight"
| "familyOf Detention_Or_Layover = Fam_Freight"
| "familyOf Quality_Damaged_In_Transit = Fam_Quality"
| "familyOf Quality_Expired_Short_Dated = Fam_Quality"
| "familyOf Quality_Spec_Mismatch = Fam_Quality"
| "familyOf Post_Audit_Pricing = Fam_Post_Audit"
| "familyOf Post_Audit_Allowance = Fam_Post_Audit"
| "familyOf Post_Audit_Freight = Fam_Post_Audit"
| "familyOf Unknown_Uncoded = Fam_Other"
| "familyOf Administrative_Fee = Fam_Other"
| "familyOf Tax_Adjustment = Fam_Other"

definition CANONICAL_REASON_CODE_LIST :: "CanonicalReasonCode list" where
  "CANONICAL_REASON_CODE_LIST = [
     Shortage_Quantity, Shortage_Carton, Shortage_Concealed, Shortage_Never_Received,
     Shortage_Pallet, Price_Discrepancy, Price_Unauthorised_Change,
     Cost_Increase_Not_Honoured, Unauthorised_Deduction_No_Basis, Substitution_Price,
     Compliance_Otif, Compliance_Late_Delivery, Compliance_Early_Delivery,
     Compliance_Asn_Missing, Compliance_Asn_Inaccurate, Compliance_Label_Barcode,
     Compliance_Packaging, Compliance_Routing_Guide, Compliance_Appointment_Missed,
     Compliance_Pallet_Spec, Duplicate_Payment, Duplicate_Claim,
     Duplicate_Invoice_Deduction, Return_Unsaleable, Return_Authorised,
     Return_Unauthorised, Return_Handling_Fee, Promo_Allowance_Claimed, Promo_Not_Agreed,
     Promo_Duplicate_Allowance, Promo_Rate_Mismatch, Markdown_Allowance, Coop_Advertising,
     New_Store_Allowance, Freight_Prepaid_Billed, Freight_Rate_Mismatch,
     Freight_Unauthorised_Carrier, Detention_Or_Layover, Quality_Damaged_In_Transit,
     Quality_Expired_Short_Dated, Quality_Spec_Mismatch, Post_Audit_Pricing,
     Post_Audit_Allowance, Post_Audit_Freight, Unknown_Uncoded, Administrative_Fee,
     Tax_Adjustment]"

definition REASON_CODE_CARDINALITY_CEILING :: nat where
  "REASON_CODE_CARDINALITY_CEILING = 60"

definition isCanonicalReasonCode :: "string \<Rightarrow> bool" where
  "isCanonicalReasonCode value \<longleftrightarrow> value \<in> set (map code_text CANONICAL_REASON_CODE_LIST)"

section \<open>The words\<close>

primrec REASON_WORDS :: "CanonicalReasonCode \<Rightarrow> string" where
  "REASON_WORDS Shortage_Quantity =
     ''Shortage deducted for units that were shipped and delivered''"
| "REASON_WORDS Shortage_Carton =
     ''Carton shortage deducted on a shipment delivered in full''"
| "REASON_WORDS Shortage_Concealed =
     ''Concealed shortage claimed after a clean delivery receipt''"
| "REASON_WORDS Shortage_Never_Received =
     ''Shipment deducted as never received, though delivery is documented''"
| "REASON_WORDS Shortage_Pallet =
     ''Pallet shortage deducted on a shipment delivered in full''"
| "REASON_WORDS Price_Discrepancy =
     ''Paid at a price other than the agreed price''"
| "REASON_WORDS Price_Unauthorised_Change =
     ''Price changed without agreement''"
| "REASON_WORDS Cost_Increase_Not_Honoured =
     ''An agreed cost increase was not honoured''"
| "REASON_WORDS Unauthorised_Deduction_No_Basis =
     ''Deduction taken with no stated basis or supporting documentation''"
| "REASON_WORDS Substitution_Price =
     ''Substituted item deducted at the wrong price''"
| "REASON_WORDS Compliance_Otif =
     ''On-time or fill-rate fine that the delivery records do not support''"
| "REASON_WORDS Compliance_Late_Delivery =
     ''Late-delivery fine that the delivery records do not support''"
| "REASON_WORDS Compliance_Early_Delivery =
     ''Early-delivery fine that the delivery records do not support''"
| "REASON_WORDS Compliance_Asn_Missing =
     ''Missing-ASN fine that the transmission records do not support''"
| "REASON_WORDS Compliance_Asn_Inaccurate =
     ''Inaccurate-ASN fine that the transmission records do not support''"
| "REASON_WORDS Compliance_Label_Barcode =
     ''Labelling or barcode fine that the shipment records do not support''"
| "REASON_WORDS Compliance_Packaging =
     ''Packaging fine that the shipment records do not support''"
| "REASON_WORDS Compliance_Routing_Guide =
     ''Routing-guide fine that the shipment records do not support''"
| "REASON_WORDS Compliance_Appointment_Missed =
     ''Missed-appointment fine that the appointment records do not support''"
| "REASON_WORDS Compliance_Pallet_Spec =
     ''Pallet-specification fine that the shipment records do not support''"
| "REASON_WORDS Duplicate_Payment =
     ''Deducted as a duplicate payment, though the invoice was paid once''"
| "REASON_WORDS Duplicate_Claim =
     ''The same claim deducted twice''"
| "REASON_WORDS Duplicate_Invoice_Deduction =
     ''The same invoice deducted twice''"
| "REASON_WORDS Return_Unsaleable =
     ''Unsaleables deduction the agreement does not provide for''"
| "REASON_WORDS Return_Authorised =
     ''Return deducted beyond what was authorised''"
| "REASON_WORDS Return_Unauthorised =
     ''Return deducted without authorisation''"
| "REASON_WORDS Return_Handling_Fee =
     ''Return handling fee the agreement does not provide for''"
| "REASON_WORDS Promo_Allowance_Claimed =
     ''Promotional allowance deducted beyond what was agreed''"
| "REASON_WORDS Promo_Not_Agreed =
     ''Promotion or allowance that was never agreed''"
| "REASON_WORDS Promo_Duplicate_Allowance =
     ''The same allowance deducted twice''"
| "REASON_WORDS Promo_Rate_Mismatch =
     ''Allowance deducted at a rate other than the agreed rate''"
| "REASON_WORDS Markdown_Allowance =
     ''Markdown allowance that was never agreed''"
| "REASON_WORDS Coop_Advertising =
     ''Co-op advertising deduction that was not agreed or not performed''"
| "REASON_WORDS New_Store_Allowance =
     ''New-store allowance that was never agreed''"
| "REASON_WORDS Freight_Prepaid_Billed =
     ''Freight charged on a prepaid shipment''"
| "REASON_WORDS Freight_Rate_Mismatch =
     ''Freight charged at a rate other than the agreed rate''"
| "REASON_WORDS Freight_Unauthorised_Carrier =
     ''Carrier charge the routing instructions do not support''"
| "REASON_WORDS Detention_Or_Layover =
     ''Detention or layover charge the delivery records do not support''"
| "REASON_WORDS Quality_Damaged_In_Transit =
     ''Damage deducted that occurred after the goods left the supplier''"
| "REASON_WORDS Quality_Expired_Short_Dated =
     ''Deducted as short-dated, though shipped within the agreed date code''"
| "REASON_WORDS Quality_Spec_Mismatch =
     ''Deducted as out of specification, though it met the agreed specification''"
| "REASON_WORDS Post_Audit_Pricing =
     ''Post-audit pricing claim the invoices and agreements do not support''"
| "REASON_WORDS Post_Audit_Allowance =
     ''Post-audit allowance claim the agreements do not support''"
| "REASON_WORDS Post_Audit_Freight =
     ''Post-audit freight claim the freight records do not support''"
| "REASON_WORDS Unknown_Uncoded =
     ''Other '' @ [CHR 0x97] @ '' set out in the explanation''"
| "REASON_WORDS Administrative_Fee =
     ''Administrative fee the agreement does not provide for''"
| "REASON_WORDS Tax_Adjustment =
     ''Tax adjustment the invoices do not support''"

definition REASON_WORDS_MAX_LENGTH :: nat where
  "REASON_WORDS_MAX_LENGTH = 100"

definition reasonInWords :: "CanonicalReasonCode \<Rightarrow> string" where
  "reasonInWords code = REASON_WORDS code"

definition DISPUTE_REASON_CODES :: "CanonicalReasonCode list" where
  "DISPUTE_REASON_CODES = [
     Shortage_Quantity, Shortage_Never_Received, Shortage_Concealed, Shortage_Carton,
     Shortage_Pallet, Price_Discrepancy, Unauthorised_Deduction_No_Basis,
     Cost_Increase_Not_Honoured, Compliance_Otif, Compliance_Late_Delivery,
     Compliance_Early_Delivery, Compliance_Appointment_Missed, Compliance_Asn_Missing,
     Compliance_Routing_Guide, Duplicate_Claim, Duplicate_Invoice_Deduction,
     Return_Unauthorised, Return_Unsaleable, Promo_Not_Agreed, Promo_Rate_Mismatch,
     Promo_Duplicate_Allowance, Freight_Prepaid_Billed, Freight_Rate_Mismatch,
     Detention_Or_Layover, Quality_Damaged_In_Transit, Quality_Expired_Short_Dated,
     Quality_Spec_Mismatch, Post_Audit_Pricing, Post_Audit_Allowance, Administrative_Fee,
     Unknown_Uncoded]"

definition DISPUTE_REASONS :: "(CanonicalReasonCode \<times> string) list" where
  "DISPUTE_REASONS = map (\<lambda>code. (code, REASON_WORDS code)) DISPUTE_REASON_CODES"

section \<open>The taxonomy\<close>

lemma all_codes: "code \<in> set CANONICAL_REASON_CODE_LIST"
  by (cases code) (simp_all add: CANONICAL_REASON_CODE_LIST_def)

lemma all_codes_iff: "(\<forall>code. P code) \<longleftrightarrow> list_all P CANONICAL_REASON_CODE_LIST"
  using all_codes by (auto simp: list_all_iff)

lemma code_text_inj: "code_text a = code_text b \<Longrightarrow> a = b"
proof -
  have "distinct (map code_text CANONICAL_REASON_CODE_LIST)" by code_simp
  then have "inj_on code_text (set CANONICAL_REASON_CODE_LIST)" by (simp add: distinct_map)
  then show "code_text a = code_text b \<Longrightarrow> a = b" using all_codes by (meson inj_onD)
qed

lemma family_text_inj: "family_text f = family_text g \<Longrightarrow> f = g"
  by (cases f; cases g) simp_all

lemma reason_words_short: "length (REASON_WORDS code) \<le> REASON_WORDS_MAX_LENGTH"
proof -
  have "list_all (\<lambda>code. length (REASON_WORDS code) \<le> REASON_WORDS_MAX_LENGTH) CANONICAL_REASON_CODE_LIST"
    by code_simp
  then show ?thesis using all_codes by (auto simp: list_all_iff)
qed

lemma reason_words_inj: "REASON_WORDS a = REASON_WORDS b \<Longrightarrow> a = b"
proof -
  have "distinct (map REASON_WORDS CANONICAL_REASON_CODE_LIST)" by code_simp
  then have "inj_on REASON_WORDS (set CANONICAL_REASON_CODE_LIST)" by (simp add: distinct_map)
  then show "REASON_WORDS a = REASON_WORDS b \<Longrightarrow> a = b" using all_codes by (meson inj_onD)
qed

lemma taxonomy_size: "length CANONICAL_REASON_CODE_LIST \<le> REASON_CODE_CARDINALITY_CEILING"
  by code_simp

lemma taxonomy_distinct: "distinct CANONICAL_REASON_CODE_LIST"
  by code_simp

section \<open>Properties\<close>

text \<open>The taxonomy is closed and the letters are fit to print: every code has words of at most
  \<open>REASON_WORDS_MAX_LENGTH\<close> characters, no two codes share their words or their text, and a text is a
  canonical code exactly when it is some code's.\<close>

theorem reasons_fit:
  "length (reasonInWords code) \<le> REASON_WORDS_MAX_LENGTH \<and>
   (reasonInWords code = reasonInWords other \<longleftrightarrow> code = other) \<and>
   (code_text code = code_text other \<longleftrightarrow> code = other) \<and>
   (isCanonicalReasonCode value \<longleftrightarrow> value \<in> range code_text)"
  using reason_words_short reason_words_inj code_text_inj all_codes
  by (auto simp: reasonInWords_def isCanonicalReasonCode_def)

end
