(* ===== verification/Journal.thy ===== *)
theory Journal
  imports Money Reasons
begin

text \<open>
  Draft journal entries: \<open>packages/core-domain/src/journal.ts\<close>. A case implies up to three
  two-line entries (found, recovered, written off). The lemmas show that every entry balances,
  which inputs are refused, and what the entries of an accepted input move.
\<close>

datatype JournalStage = Found | Recovered | Written_Off_Stage

datatype AccountRole =
  Accounts_Receivable | Deductions_Receivable | Cash | Writeoff_Expense

record JournalLine =
  line_account :: string
  line_role :: AccountRole
  line_debit :: int
  line_credit :: int
  line_memo :: string

record DraftEntry =
  entry_stage :: JournalStage
  entry_lines :: "JournalLine list"
  entry_tag :: "ReasonFamily option"

record AccountMap =
  accountsReceivable :: string
  deductionsReceivable :: string
  cash_account :: string
  writeoffByFamily :: "ReasonFamily \<Rightarrow> string"
  unclassifiedWriteoff :: string

primrec default_writeoff :: "ReasonFamily \<Rightarrow> string" where
  "default_writeoff Fam_Shortage = ''Shortage Deductions Expense''"
| "default_writeoff Fam_Pricing = ''Pricing Deductions Expense''"
| "default_writeoff Fam_Compliance = ''Compliance Fines Expense''"
| "default_writeoff Fam_Duplicate = ''Deductions Write-off Expense''"
| "default_writeoff Fam_Returns = ''Returns & Allowances''"
| "default_writeoff Fam_Promotion = ''Trade Promotion Expense''"
| "default_writeoff Fam_Freight = ''Freight Deductions Expense''"
| "default_writeoff Fam_Quality = ''Quality Deductions Expense''"
| "default_writeoff Fam_Post_Audit = ''Deductions Write-off Expense''"
| "default_writeoff Fam_Other = ''Deductions Write-off Expense''"

definition DEFAULT_ACCOUNT_MAP :: AccountMap where
  "DEFAULT_ACCOUNT_MAP =
     \<lparr>accountsReceivable = ''Accounts Receivable'',
      deductionsReceivable = ''Deductions Receivable'',
      cash_account = ''Undeposited Funds'',
      writeoffByFamily = default_writeoff,
      unclassifiedWriteoff = ''Deductions Write-off Expense (unclassified)''\<rparr>"

primrec FAMILY_WORDS :: "ReasonFamily \<Rightarrow> string" where
  "FAMILY_WORDS Fam_Shortage = ''Shortage''"
| "FAMILY_WORDS Fam_Pricing = ''Pricing''"
| "FAMILY_WORDS Fam_Compliance = ''Compliance fine''"
| "FAMILY_WORDS Fam_Duplicate = ''Duplicate deduction''"
| "FAMILY_WORDS Fam_Returns = ''Returns''"
| "FAMILY_WORDS Fam_Promotion = ''Trade promotion''"
| "FAMILY_WORDS Fam_Freight = ''Freight''"
| "FAMILY_WORDS Fam_Quality = ''Quality''"
| "FAMILY_WORDS Fam_Post_Audit = ''Post-audit claim''"
| "FAMILY_WORDS Fam_Other = ''Other deduction''"

definition writeoffAccountFor :: "ReasonFamily option \<Rightarrow> AccountMap \<Rightarrow> string" where
  "writeoffAccountFor family amap =
     (case family of None \<Rightarrow> unclassifiedWriteoff amap | Some f \<Rightarrow> writeoffByFamily amap f)"

definition isBalanced :: "DraftEntry \<Rightarrow> bool res" where
  "isBalanced entry =
     bind_res (sumCents (map line_debit (entry_lines entry))) (\<lambda>d.
     bind_res (sumCents (map line_credit (entry_lines entry))) (\<lambda>c. Inr (d = c)))"

definition pair ::
  "JournalStage \<Rightarrow> int \<Rightarrow> string \<times> AccountRole \<Rightarrow> string \<times> AccountRole \<Rightarrow> string \<Rightarrow>
   ReasonFamily option \<Rightarrow> DraftEntry" where
  "pair stage amount debit credit memo tag =
     \<lparr>entry_stage = stage,
      entry_lines =
        [\<lparr>line_account = fst debit, line_role = snd debit, line_debit = amount, line_credit = 0,
          line_memo = memo\<rparr>,
         \<lparr>line_account = fst credit, line_role = snd credit, line_debit = 0, line_credit = amount,
          line_memo = memo\<rparr>],
      entry_tag = tag\<rparr>"

datatype JournalOutcome = Outcome_Won | Outcome_Partial | Outcome_Lost | Outcome_Declined

record JournalInput =
  in_amount :: js_number
  in_recovered :: "js_number option"
  in_outcome :: "JournalOutcome option"
  in_family :: "ReasonFamily option"
  in_printedReasonCode :: "string option"
  in_map :: "AccountMap option"

definition safe_number :: "js_number \<Rightarrow> int option" where
  "safe_number n = (case n of Whole v \<Rightarrow> if safe_int v then Some v else None | NotWhole \<Rightarrow> None)"

text \<open>The input checks, in the code's order: the amount and what was recovered, if anything was
  given, as integers.\<close>

definition checked_amounts :: "JournalInput \<Rightarrow> (int \<times> int option) res" where
  "checked_amounts i =
     (case safe_number (in_amount i) of
        None \<Rightarrow> Inl (JournalInputError ''amount'')
      | Some a \<Rightarrow>
        if a \<le> 0 then Inl (JournalInputError ''amount'')
        else (case in_recovered i of
          None \<Rightarrow>
            if in_outcome i = Some Outcome_Won then Inl (JournalInputError ''a won case recovers the whole'')
            else Inr (a, None)
        | Some n \<Rightarrow> (case safe_number n of
            None \<Rightarrow> Inl (JournalInputError ''recovered'')
          | Some r \<Rightarrow>
            if r < 0 then Inl (JournalInputError ''recovered'')
            else if r > a then Inl (JournalInputError ''recovered more than deducted'')
            else if (in_outcome i = Some Outcome_Lost \<or> in_outcome i = Some Outcome_Declined) \<and> r \<noteq> 0
              then Inl (JournalInputError ''recovers nothing'')
            else if in_outcome i = Some Outcome_Won \<and> r \<noteq> a
              then Inl (JournalInputError ''a won case recovers the whole'')
            else Inr (a, Some r))))"

definition entry_memo :: "JournalInput \<Rightarrow> string" where
  "entry_memo i = (case in_family i of
      Some f \<Rightarrow> FAMILY_WORDS f
    | None \<Rightarrow> (case in_printedReasonCode i of
        Some code \<Rightarrow> ''Payer reason as printed: '' @ code
      | None \<Rightarrow> ''Reason not chosen yet''))"

text \<open>The entries once the amounts are accepted: \<open>rest\<close> is what was not recovered.\<close>

definition entries_of :: "JournalInput \<Rightarrow> int \<Rightarrow> int \<Rightarrow> int \<Rightarrow> DraftEntry list" where
  "entries_of i a r rest =
     (let amap = (case in_map i of None \<Rightarrow> DEFAULT_ACCOUNT_MAP | Some m \<Rightarrow> m);
          dr = (deductionsReceivable amap, Deductions_Receivable)
      in [pair Found a dr (accountsReceivable amap, Accounts_Receivable) (entry_memo i) (in_family i)] @
         (if r > 0
          then [pair Recovered r (cash_account amap, Cash) dr ''Recovered from the payer'' (in_family i)]
          else []) @
         (if in_outcome i \<noteq> None \<and> rest > 0
          then [pair Written_Off_Stage rest
                  (writeoffAccountFor (in_family i) amap, Writeoff_Expense) dr ''Not recovered'' (in_family i)]
          else []))"

definition draftEntries :: "JournalInput \<Rightarrow> DraftEntry list res" where
  "draftEntries i = bind_res (checked_amounts i) (\<lambda>(a, rIn).
     let r = (case rIn of None \<Rightarrow> 0 | Some r \<Rightarrow> r)
     in bind_res (subCents a r) (\<lambda>rest. Inr (entries_of i a r rest)))"

definition projectedEntries ::
  "int \<Rightarrow> ReasonFamily option \<Rightarrow> AccountMap option \<Rightarrow> (DraftEntry list \<times> DraftEntry list) res" where
  "projectedEntries amountCents family amap =
     (let base = \<lparr>in_amount = Whole amountCents, in_recovered = None, in_outcome = Some Outcome_Lost,
                  in_family = family, in_printedReasonCode = None, in_map = amap\<rparr> in
      bind_res (draftEntries (base\<lparr>in_recovered := Some (Whole amountCents), in_outcome := Some Outcome_Won\<rparr>))
        (\<lambda>won. bind_res (draftEntries base) (\<lambda>lost. Inr (won, lost))))"

section \<open>What the entries move\<close>

lemma safe_number_Some: "safe_number n = Some v \<longleftrightarrow> n = Whole v \<and> safe_int v"
  by (cases n) (auto simp: safe_number_def)

lemma isBalanced_pair: "safe_int a \<Longrightarrow> isBalanced (pair stage a d c memo tag) = Inr True"
  by (simp add: isBalanced_def pair_def sumCents_def addCents_def)

lemma checked_amounts_Inr:
  assumes "checked_amounts i = Inr (a, rIn)"
  shows "in_amount i = Whole a" "0 < a" "safe_int a"
    "in_recovered i = map_option Whole rIn"
    "\<forall>r. rIn = Some r \<longrightarrow> 0 \<le> r \<and> r \<le> a"
    "in_outcome i = Some Outcome_Won \<Longrightarrow> rIn = Some a"
    "in_outcome i = Some Outcome_Lost \<or> in_outcome i = Some Outcome_Declined \<Longrightarrow> rIn = None \<or> rIn = Some 0"
  using assms
  by (auto simp: checked_amounts_def safe_number_Some split: option.splits if_splits)

text \<open>Debits less credits on one role, over all lines of some entries.\<close>

definition net :: "AccountRole \<Rightarrow> DraftEntry list \<Rightarrow> int" where
  "net role entries =
     (\<Sum>l\<leftarrow>concat (map entry_lines entries). if line_role l = role then line_debit l - line_credit l else 0)"

lemma net_simps [simp]:
  "net role [] = 0"
  "net role (e # f # es) = net role [e] + net role (f # es)"
  "net role (es @ fs) = net role es + net role fs"
  by (simp_all add: net_def)

lemma net_pair [simp]:
  "net role [pair stage a d c memo tag] =
     (if snd d = role then a else 0) - (if snd c = role then a else 0)"
  by (simp add: net_def pair_def)

lemma draftEntries_Inr:
  assumes "draftEntries i = Inr es"
  obtains a rIn r where
    "checked_amounts i = Inr (a, rIn)" "r = (case rIn of None \<Rightarrow> 0 | Some r \<Rightarrow> r)"
    "0 \<le> r" "r \<le> a" "safe_int a" "safe_int r" "safe_int (a - r)" "es = entries_of i a r (a - r)"
proof -
  from assms obtain a rIn where c: "checked_amounts i = Inr (a, rIn)"
    by (auto simp: draftEntries_def bind_res_Inr_iff)
  note ck = checked_amounts_Inr [OF c]
  define r where "r = (case rIn of None \<Rightarrow> 0 | Some r \<Rightarrow> r)"
  have r: "0 \<le> r" "r \<le> a" using ck(2,5) by (auto simp: r_def split: option.splits)
  have s: "safe_int r" "safe_int (a - r)" using r ck(3) by (auto simp: safe_int_def)
  have "es = entries_of i a r (a - r)"
    using assms c s(2) by (simp add: draftEntries_def subCents_def Let_def flip: r_def)
  then show ?thesis using that c r_def r ck(3) s by blast
qed

text \<open>Every accepted input has entries: the checks are the only refusals.\<close>

lemma draftEntries_total:
  assumes "checked_amounts i = Inr (a, rIn)"
  shows "\<exists>es. draftEntries i = Inr es"
proof -
  define r where "r = (case rIn of None \<Rightarrow> 0 | Some r \<Rightarrow> r)"
  note ck = checked_amounts_Inr [OF assms]
  have "0 \<le> r" "r \<le> a" using ck(2,5) by (auto simp: r_def split: option.splits)
  then have "subCents a r = Inr (a - r)" using ck(3) by (auto simp: subCents_Inr_iff safe_int_def)
  then show ?thesis using assms by (simp add: draftEntries_def Let_def flip: r_def)
qed

lemma entries_of_balanced:
  "safe_int a \<Longrightarrow> safe_int r \<Longrightarrow> safe_int rest \<Longrightarrow>
    list_all (\<lambda>e. isBalanced e = Inr True) (entries_of i a r rest)"
  by (simp add: entries_of_def Let_def isBalanced_pair)

lemma draftEntries_balanced:
  assumes "draftEntries i = Inr es" "e \<in> set es"
  shows "isBalanced e = Inr True"
proof -
  obtain a r where "safe_int a" "safe_int r" "safe_int (a - r)" "es = entries_of i a r (a - r)"
    using draftEntries_Inr [OF assms(1)] by metis
  then show ?thesis using entries_of_balanced assms(2) by (simp add: list_all_iff)
qed

lemma entries_of_net:
  "net Deductions_Receivable (entries_of i a r rest) =
     a - (if r > 0 then r else 0) - (if in_outcome i \<noteq> None \<and> rest > 0 then rest else 0)"
  "net Cash (entries_of i a r rest) = (if r > 0 then r else 0)"
  "net Writeoff_Expense (entries_of i a r rest) = (if in_outcome i \<noteq> None \<and> rest > 0 then rest else 0)"
  "net Accounts_Receivable (entries_of i a r rest) = - a"
  by (simp_all add: entries_of_def Let_def)

section \<open>Properties\<close>

text \<open>C18: the drafts of an accepted case balance, entry by entry, and together they move what the
  case is about: receivables fall by the deducted amount, cash rises by what was recovered, and once
  there is an outcome nothing is left on the deductions account: the rest is written off.\<close>

theorem journal_balances:
  assumes "draftEntries i = Inr es"
  shows "list_all (\<lambda>e. isBalanced e = Inr True) es \<and>
    (\<exists>a r. in_amount i = Whole a \<and> 0 \<le> r \<and> r \<le> a \<and>
      in_recovered i \<in> {None, Some (Whole r)} \<and> (in_recovered i = None \<longrightarrow> r = 0) \<and>
      net Accounts_Receivable es = - a \<and> net Cash es = r \<and>
      net Deductions_Receivable es = (if in_outcome i = None then a - r else 0) \<and>
      net Writeoff_Expense es = (if in_outcome i = None then 0 else a - r))"
proof -
  obtain a rIn r where d: "checked_amounts i = Inr (a, rIn)" "r = (case rIn of None \<Rightarrow> 0 | Some r \<Rightarrow> r)"
    "0 \<le> r" "r \<le> a" "es = entries_of i a r (a - r)"
    by (rule draftEntries_Inr [OF assms])
  have "in_recovered i \<in> {None, Some (Whole r)} \<and> (in_recovered i = None \<longrightarrow> r = 0)"
    using checked_amounts_Inr(4) [OF d(1)] d(2) by (auto split: option.splits)
  then show ?thesis
    using draftEntries_balanced [OF assms] checked_amounts_Inr(1) [OF d(1)] d(3,4)
    unfolding d(5) by (auto simp: list_all_iff entries_of_net intro!: exI [of _ r])
qed

theorem journal_balances_witness:
  "\<exists>es. draftEntries \<lparr>in_amount = Whole 312000, in_recovered = Some (Whole 180000),
        in_outcome = Some Outcome_Partial, in_family = Some Fam_Shortage,
        in_printedReasonCode = None, in_map = None\<rparr> = Inr es \<and>
    list_all (\<lambda>e. isBalanced e = Inr True) es"
proof -
  let ?i = "\<lparr>in_amount = Whole 312000, in_recovered = Some (Whole 180000),
        in_outcome = Some Outcome_Partial, in_family = Some Fam_Shortage,
        in_printedReasonCode = None, in_map = None\<rparr>"
  have "checked_amounts ?i = Inr (312000, Some 180000)"
    by (simp add: checked_amounts_def safe_number_def safe_int_def max_safe_def)
  then obtain es where "draftEntries ?i = Inr es" using draftEntries_total by blast
  then show ?thesis using journal_balances [of ?i es] by blast
qed

end
