(* ===== verification/JsSort.thy ===== *)
theory JsSort
  imports Prelude
begin

text \<open>
  \<open>Array.prototype.sort\<close>: a stable sort by a comparator whose sign orders two elements. The
  language fixes the result only when the comparator is consistent; the interface
  \<open>comparator\<close> states that, and every comparator of the sources interprets it.
\<close>

section \<open>The sort\<close>

fun insert_by :: "('a \<Rightarrow> 'a \<Rightarrow> int) \<Rightarrow> 'a \<Rightarrow> 'a list \<Rightarrow> 'a list" where
  "insert_by cmp x [] = [x]"
| "insert_by cmp x (y # ys) = (if cmp x y \<le> 0 then x # y # ys else y # insert_by cmp x ys)"

definition sort_by :: "('a \<Rightarrow> 'a \<Rightarrow> int) \<Rightarrow> 'a list \<Rightarrow> 'a list" where
  "sort_by cmp xs = foldr (insert_by cmp) xs []"

lemma sort_by_simps [simp]:
  "sort_by cmp [] = []"
  "sort_by cmp (x # xs) = insert_by cmp x (sort_by cmp xs)"
  by (simp_all add: sort_by_def)

lemma mset_insert_by [simp]: "mset (insert_by cmp x xs) = add_mset x (mset xs)"
  by (induction xs) auto

lemma mset_sort_by [simp]: "mset (sort_by cmp xs) = mset xs"
  by (induction xs) auto

lemma set_sort_by [simp]: "set (sort_by cmp xs) = set xs"
  by (metis mset_sort_by set_mset_mset)

lemma length_sort_by [simp]: "length (sort_by cmp xs) = length xs"
  by (metis mset_sort_by size_mset)

lemma distinct_sort_by [simp]: "distinct (sort_by cmp xs) = distinct xs"
  by (metis mset_sort_by mset_eq_imp_distinct_iff)

lemma sort_by_eq_Nil [simp]: "sort_by cmp xs = [] \<longleftrightarrow> xs = []"
  by (metis length_sort_by length_0_conv)

section \<open>Comparators of the sources\<close>

text \<open>\<open>a < b ? -1 : a > b ? 1 : 0\<close>, and \<open>x || y\<close> between two comparisons.\<close>

definition compare_text :: "'a::linorder \<Rightarrow> 'a \<Rightarrow> int" where
  "compare_text a b = (if a < b then -1 else if a > b then 1 else 0)"

definition or_else :: "int \<Rightarrow> int \<Rightarrow> int" where
  "or_else x y = (if x \<noteq> 0 then x else y)"

lemma compare_text_eq_0 [simp]: "compare_text a b = 0 \<longleftrightarrow> a = b"
  by (auto simp: compare_text_def)

lemma compare_text_le_0 [simp]: "compare_text a b \<le> 0 \<longleftrightarrow> a \<le> b"
  by (auto simp: compare_text_def)

lemma compare_text_ge_0 [simp]: "0 \<le> compare_text a b \<longleftrightarrow> b \<le> a"
  by (auto simp: compare_text_def)

lemma or_else_eq_0 [simp]: "or_else x y = 0 \<longleftrightarrow> x = 0 \<and> y = 0"
  by (simp add: or_else_def)

section \<open>The comparator interface\<close>

locale comparator =
  fixes cmp :: "'a \<Rightarrow> 'a \<Rightarrow> int"
  assumes swap: "cmp b a \<le> 0 \<longleftrightarrow> 0 \<le> cmp a b"
    and trans: "cmp a b \<le> 0 \<Longrightarrow> cmp b c \<le> 0 \<Longrightarrow> cmp a c \<le> 0"
begin

lemma self: "cmp a a = 0"
  using swap [of a a] by linarith

lemma total: "cmp a b \<le> 0 \<or> cmp b a \<le> 0"
  using swap [of b a] by linarith

lemma strict_trans: "cmp a b < 0 \<Longrightarrow> cmp b c \<le> 0 \<Longrightarrow> cmp a c < 0"
  using swap trans by (metis linorder_not_le order_less_imp_le)

lemma strict_trans2: "cmp a b \<le> 0 \<Longrightarrow> cmp b c < 0 \<Longrightarrow> cmp a c < 0"
  using swap trans by (metis linorder_not_le order_less_imp_le)

lemma sorted_insert_by:
  "sorted_wrt (\<lambda>a b. cmp a b \<le> 0) xs \<Longrightarrow> sorted_wrt (\<lambda>a b. cmp a b \<le> 0) (insert_by cmp x xs)"
proof (induction xs)
  case Nil
  then show ?case by simp
next
  case (Cons y ys)
  have set_ins: "set (insert_by cmp x ys) = insert x (set ys)"
    by (metis mset_insert_by set_mset_add_mset_insert set_mset_mset)
  show ?case
  proof (cases "cmp x y \<le> 0")
    case True
    with Cons.prems show ?thesis by (auto intro: trans)
  next
    case False
    then have "cmp y x \<le> 0" using total by blast
    with False Cons show ?thesis by (auto simp: set_ins)
  qed
qed

lemma sorted_sort_by: "sorted_wrt (\<lambda>a b. cmp a b \<le> 0) (sort_by cmp xs)"
  by (induction xs) (auto intro: sorted_insert_by)

lemma sort_by_first_least:
  assumes "sort_by cmp xs = x # ys" and "z \<in> set xs"
  shows "cmp x z \<le> 0"
proof -
  have "z = x \<or> z \<in> set ys" using assms set_sort_by [of cmp xs] by auto
  moreover have "\<forall>y\<in>set ys. cmp x y \<le> 0" using sorted_sort_by [of xs] assms(1) by simp
  ultimately show ?thesis using self by auto
qed

text \<open>A sorted list is left as it is.\<close>

lemma sort_by_sorted: "sorted_wrt (\<lambda>a b. cmp a b \<le> 0) xs \<Longrightarrow> sort_by cmp xs = xs"
proof (induction xs)
  case Nil
  then show ?case by simp
next
  case (Cons x xs)
  then show ?case by (cases xs) auto
qed

lemma sort_by_sort_by: "sort_by cmp (sort_by cmp xs) = sort_by cmp xs"
  by (rule sort_by_sorted) (rule sorted_sort_by)

end

text \<open>
  A comparator that tells apart any two elements with different keys: over elements with
  different keys the sorted array depends on the elements alone, not on the order they came in.
\<close>

locale keyed_comparator = comparator cmp
  for cmp :: "'a \<Rightarrow> 'a \<Rightarrow> int" +
  fixes key :: "'a \<Rightarrow> 'k"
  assumes tie: "cmp a b = 0 \<Longrightarrow> key a = key b"
begin

lemma sorted_unique:
  assumes "sorted_wrt (\<lambda>a b. cmp a b \<le> 0) xs" "sorted_wrt (\<lambda>a b. cmp a b \<le> 0) ys"
    and "mset xs = mset ys" and "distinct (map key xs)"
  shows "xs = ys"
  using assms
proof (induction xs arbitrary: ys)
  case Nil
  then show ?case by simp
next
  case (Cons x xs)
  from Cons.prems(3) obtain y ys' where ys: "ys = y # ys'" by (cases ys) auto
  have sets: "set (x # xs) = set (y # ys')"
    using Cons.prems(3) ys by (metis set_mset_mset)
  have "x = y"
  proof (rule ccontr)
    assume ne: "x \<noteq> y"
    then have "x \<in> set ys'" and y: "y \<in> set xs" using sets by auto
    then have "cmp y x \<le> 0" "cmp x y \<le> 0" using Cons.prems(1,2) ys by auto
    then have "cmp x y = 0" using swap [of y x] by linarith
    then have "key x = key y" by (rule tie)
    with y Cons.prems(4) show False by (metis distinct.simps(2) image_eqI list.simps(9) set_map)
  qed
  moreover have "xs = ys'"
    using Cons.prems ys \<open>x = y\<close> by (intro Cons.IH) auto
  ultimately show ?case using ys by simp
qed

lemma sort_by_cong_mset:
  "mset xs = mset ys \<Longrightarrow> distinct (map key xs) \<Longrightarrow> sort_by cmp xs = sort_by cmp ys"
  by (rule sorted_unique)
    (simp_all add: sorted_sort_by, metis distinct_map mset_eq_imp_distinct_iff mset_sort_by set_sort_by)

end

lemma comparator_key: "comparator (\<lambda>a b. compare_text (f a) (f b))"
  by unfold_locales auto

lemma comparator_difference: "comparator (\<lambda>a b. f a - (f b :: int))"
  by unfold_locales auto

lemma comparator_descending: "comparator (\<lambda>a b. f b - (f a :: int))"
  by unfold_locales auto

lemma comparator_or_else:
  assumes "comparator c" and "comparator d"
  shows "comparator (\<lambda>a b. or_else (c a b) (d a b))"
proof -
  have le: "or_else x y \<le> 0 \<longleftrightarrow> x < 0 \<or> x = 0 \<and> y \<le> 0" for x y by (auto simp: or_else_def)
  have ge: "0 \<le> or_else x y \<longleftrightarrow> x > 0 \<or> x = 0 \<and> y \<ge> 0" for x y by (auto simp: or_else_def)
  have neg: "c b a < 0 \<longleftrightarrow> c a b > 0" "c b a = 0 \<longleftrightarrow> c a b = 0" for a b
    using comparator.swap [OF assms(1), of a b] comparator.swap [OF assms(1), of b a] by linarith+
  show ?thesis
  proof
    fix a b
    show "or_else (c b a) (d b a) \<le> 0 \<longleftrightarrow> 0 \<le> or_else (c a b) (d a b)"
      unfolding le ge neg using comparator.swap [OF assms(2)] by auto
  next
    fix a b e
    assume "or_else (c a b) (d a b) \<le> 0" "or_else (c b e) (d b e) \<le> 0"
    then have "c a b < 0 \<and> c b e \<le> 0 \<or> c a b \<le> 0 \<and> c b e < 0 \<or>
        c a b = 0 \<and> c b e = 0 \<and> d a b \<le> 0 \<and> d b e \<le> 0"
      unfolding le by auto
    then show "or_else (c a e) (d a e) \<le> 0"
    proof (elim disjE conjE)
      assume eq: "c a b = 0" "c b e = 0" and d: "d a b \<le> 0" "d b e \<le> 0"
      have "c a e \<le> 0" "c e a \<le> 0"
        using comparator.trans [OF assms(1)] eq neg(2) by (metis order_refl)+
      then have "c a e = 0" using neg by (metis linorder_not_le order_antisym_conv)
      with comparator.trans [OF assms(2) d] show ?thesis by (simp add: le)
    qed (auto simp: le comparator.strict_trans [OF assms(1)] comparator.strict_trans2 [OF assms(1)])
  qed
qed

interpretation by_text: keyed_comparator "compare_text :: string \<Rightarrow> string \<Rightarrow> int" "\<lambda>s. s"
  by unfold_locales auto

lemma sort_by_text: "sort_by compare_text xs = sort (xs :: string list)"
  by (rule properties_for_sort [symmetric]) (use by_text.sorted_sort_by [of xs] in simp_all)

end
