(* ===== verification/Ledger.thy ===== *)
theory Ledger
  imports JsText JsSort
begin

text \<open>
  A customer's ledger as rows (\<open>packages/core-domain/src/ledger.ts\<close>) and the join a sync tallies
  (\<open>settlement.ts\<close>): the invoices a window's payments and credits name, and the window's rows
  merged with those invoices' histories. The lemmas show that each row is kept once, that
  applications are trimmed to the invoices asked for, and that no requested one is lost.
\<close>

section \<open>Rows\<close>

datatype AccountingSourceKind = Qbo | Netsuite | Xero

record LedgerApplication =
  la_invoiceExternalId :: string
  la_amountCents :: int

record LedgerInvoice =
  li_sourceKind :: AccountingSourceKind
  li_externalId :: string
  li_invoiceNumber :: string
  li_customerExternalId :: string
  li_customerName :: string
  li_issuedOn :: string
  li_dueOn :: "string option"
  li_totalCents :: int
  li_balanceCents :: int
  li_currency :: string

record LedgerPayment =
  lp_sourceKind :: AccountingSourceKind
  lp_externalId :: string
  lp_customerExternalId :: string
  lp_receivedOn :: string
  lp_totalCents :: int
  lp_reference :: "string option"
  lp_memo :: "string option"
  lp_appliedTo :: "LedgerApplication list"

record LedgerCredit =
  lc_sourceKind :: AccountingSourceKind
  lc_externalId :: string
  lc_customerExternalId :: string
  lc_issuedOn :: string
  lc_totalCents :: int
  lc_memo :: "string option"
  lc_appliedTo :: "LedgerApplication list"

record LedgerInvoiceHistories =
  lh_invoices :: "LedgerInvoice list"
  lh_payments :: "LedgerPayment list"
  lh_credits :: "LedgerCredit list"

record LedgerActivity =
  act_payments :: "LedgerPayment list"
  act_credits :: "LedgerCredit list"

record SettlementLedger =
  sl_invoices :: "LedgerInvoice list"
  sl_payments :: "LedgerPayment list"
  sl_credits :: "LedgerCredit list"

section \<open>The join\<close>

definition invoicesNamedBy :: "LedgerActivity \<Rightarrow> string list" where
  "invoicesNamedBy activity =
     sort_by compare_text (dedupe (filter (\<lambda>k. trim k \<noteq> [])
       (map la_invoiceExternalId
         (concat (map lp_appliedTo (act_payments activity) @ map lc_appliedTo (act_credits activity))))))"

text \<open>The loop both merges share, over a row's id, its applications and their update.\<close>

fun mergeTrimmed_from ::
  "('r \<Rightarrow> string) \<Rightarrow> ('r \<Rightarrow> LedgerApplication list) \<Rightarrow> (LedgerApplication list \<Rightarrow> 'r \<Rightarrow> 'r) \<Rightarrow>
   string list \<Rightarrow> string list \<Rightarrow> 'r list \<Rightarrow> 'r list" where
  "mergeTrimmed_from ext apps set_apps requested seen [] = []"
| "mergeTrimmed_from ext apps set_apps requested seen (row # rows) =
     (if ext row \<in> set seen then mergeTrimmed_from ext apps set_apps requested seen rows
      else let appliedTo = filter (\<lambda>a. la_invoiceExternalId a \<in> set requested) (apps row) in
        (if length appliedTo = length (apps row) then row else set_apps appliedTo row) #
        mergeTrimmed_from ext apps set_apps requested (ext row # seen) rows)"

definition mergeTrimmed ::
  "('r \<Rightarrow> string) \<Rightarrow> ('r \<Rightarrow> LedgerApplication list) \<Rightarrow> (LedgerApplication list \<Rightarrow> 'r \<Rightarrow> 'r) \<Rightarrow>
   'r list \<Rightarrow> 'r list \<Rightarrow> string list \<Rightarrow> 'r list" where
  "mergeTrimmed ext apps set_apps preferred rest requested =
     mergeTrimmed_from ext apps set_apps requested [] (preferred @ rest)"

fun requested_invoices :: "string list \<Rightarrow> string list \<Rightarrow> LedgerInvoice list \<Rightarrow> LedgerInvoice list" where
  "requested_invoices requested seen [] = []"
| "requested_invoices requested seen (invoice # invoices) =
     (if li_externalId invoice \<notin> set requested \<or> li_externalId invoice \<in> set seen
      then requested_invoices requested seen invoices
      else invoice # requested_invoices requested (li_externalId invoice # seen) invoices)"

definition settlementLedger :: "LedgerActivity \<Rightarrow> LedgerInvoiceHistories \<Rightarrow> SettlementLedger" where
  "settlementLedger activity histories =
     (let requested = invoicesNamedBy activity in
      \<lparr>sl_invoices = requested_invoices requested [] (lh_invoices histories),
       sl_payments = mergeTrimmed lp_externalId lp_appliedTo (\<lambda>as p. p\<lparr>lp_appliedTo := as\<rparr>)
         (lh_payments histories) (act_payments activity) requested,
       sl_credits = mergeTrimmed lc_externalId lc_appliedTo (\<lambda>as c. c\<lparr>lc_appliedTo := as\<rparr>)
         (lh_credits histories) (act_credits activity) requested\<rparr>)"

section \<open>What the join keeps\<close>

lemma set_invoicesNamedBy:
  "k \<in> set (invoicesNamedBy activity) \<longleftrightarrow> trim k \<noteq> [] \<and>
     ((\<exists>p\<in>set (act_payments activity). \<exists>a\<in>set (lp_appliedTo p). la_invoiceExternalId a = k) \<or>
      (\<exists>c\<in>set (act_credits activity). \<exists>a\<in>set (lc_appliedTo c). la_invoiceExternalId a = k))"
  by (auto simp: invoicesNamedBy_def)

text \<open>The question does not depend on the order, or the repeats, of the activity's rows.\<close>

lemma invoicesNamedBy_sorted: "sorted_wrt (\<le>) (invoicesNamedBy activity)" "distinct (invoicesNamedBy activity)"
  using by_text.sorted_sort_by unfolding invoicesNamedBy_def by simp_all

lemma invoicesNamedBy_eq:
  assumes "set (invoicesNamedBy a) = set (invoicesNamedBy b)"
  shows "invoicesNamedBy a = invoicesNamedBy b"
  using assms invoicesNamedBy_sorted [of a] invoicesNamedBy_sorted [of b]
  by (metis sorted_distinct_set_unique)

text \<open>A row with settable applications: what \<open>mergeTrimmed\<close> relies on, and what it then keeps.\<close>

locale applied_rows =
  fixes ext :: "'r \<Rightarrow> string" and apps :: "'r \<Rightarrow> LedgerApplication list"
    and set_apps :: "LedgerApplication list \<Rightarrow> 'r \<Rightarrow> 'r"
  assumes apps_set [simp]: "apps (set_apps as r) = as"
    and ext_set [simp]: "ext (set_apps as r) = ext r"
    and set_same [simp]: "set_apps (apps r) r = r"
begin

definition trimmed :: "string list \<Rightarrow> 'r \<Rightarrow> 'r" where
  "trimmed requested r = set_apps (filter (\<lambda>a. la_invoiceExternalId a \<in> set requested) (apps r)) r"

lemma trimmed_eq:
  "(let as = filter (\<lambda>a. la_invoiceExternalId a \<in> set requested) (apps r) in
    if length as = length (apps r) then r else set_apps as r) = trimmed requested r"
proof (cases "length (filter (\<lambda>a. la_invoiceExternalId a \<in> set requested) (apps r)) = length (apps r)")
  case True
  then have "filter (\<lambda>a. la_invoiceExternalId a \<in> set requested) (apps r) = apps r"
    by (metis length_filter_less nat_neq_iff filter_True)
  then show ?thesis by (simp add: trimmed_def)
qed (simp add: trimmed_def Let_def)

lemma from_Cons:
  "mergeTrimmed_from ext apps set_apps requested seen (r # rs) =
    (if ext r \<in> set seen then mergeTrimmed_from ext apps set_apps requested seen rs
     else trimmed requested r # mergeTrimmed_from ext apps set_apps requested (ext r # seen) rs)"
  by (simp flip: trimmed_eq add: Let_def)

lemma ext_trimmed [simp]: "ext (trimmed requested r) = ext r"
  by (simp add: trimmed_def)

lemma from_ids:
  "set (map ext (mergeTrimmed_from ext apps set_apps requested seen rs)) = ext ` set rs - set seen \<and>
   distinct (map ext (mergeTrimmed_from ext apps set_apps requested seen rs))"
  by (induction rs arbitrary: seen) (auto simp: from_Cons simp del: mergeTrimmed_from.simps(2))

lemma from_rows:
  "m \<in> set (mergeTrimmed_from ext apps set_apps requested seen rs) \<Longrightarrow>
   find_first (\<lambda>r. ext r = ext m) rs \<noteq> None \<and>
   m = trimmed requested (the (find_first (\<lambda>r. ext r = ext m) rs))"
proof (induction rs arbitrary: seen)
  case (Cons r rs)
  show ?case
  proof (cases "ext r \<in> set seen")
    case True
    have m: "m \<in> set (mergeTrimmed_from ext apps set_apps requested seen rs)"
      using Cons.prems True by (simp add: from_Cons del: mergeTrimmed_from.simps(2))
    have "ext m \<in> set (map ext (mergeTrimmed_from ext apps set_apps requested seen rs))" using m by simp
    then have "ext m \<notin> set seen" using from_ids by blast
    then show ?thesis using Cons.IH [OF m] True by auto
  next
    case False
    then consider "m = trimmed requested r"
      | "m \<in> set (mergeTrimmed_from ext apps set_apps requested (ext r # seen) rs)"
      using Cons.prems by (auto simp: from_Cons simp del: mergeTrimmed_from.simps(2))
    then show ?thesis
    proof cases
      case 2
      then have "ext m \<in> set (map ext (mergeTrimmed_from ext apps set_apps requested (ext r # seen) rs))"
        by simp
      then have "ext m \<noteq> ext r" using from_ids by (metis DiffE list.set_intros(1))
      then show ?thesis using Cons.IH [OF 2] by auto
    qed simp
  qed
qed simp

text \<open>One copy of each id, the preferred one, with exactly its requested applications.\<close>

lemma merge_ids: "distinct (map ext (mergeTrimmed ext apps set_apps preferred rest requested))"
  "ext ` set (mergeTrimmed ext apps set_apps preferred rest requested) = ext ` (set preferred \<union> set rest)"
  using from_ids [of requested "[]" "preferred @ rest"] by (auto simp: mergeTrimmed_def)

lemma merge_row:
  "m \<in> set (mergeTrimmed ext apps set_apps preferred rest requested) \<Longrightarrow>
   \<exists>r. find_first (\<lambda>r. ext r = ext m) (preferred @ rest) = Some r \<and> m = trimmed requested r"
  using from_rows [of m requested "[]" "preferred @ rest"] by (auto simp: mergeTrimmed_def)

lemma merge_apps:
  assumes "m \<in> set (mergeTrimmed ext apps set_apps preferred rest requested)"
  shows "\<exists>r\<in>set preferred \<union> set rest. ext r = ext m \<and>
    apps m = filter (\<lambda>a. la_invoiceExternalId a \<in> set requested) (apps r)"
  using merge_row [OF assms] find_first_Some by (fastforce simp: trimmed_def)

end

interpretation payment_rows: applied_rows lp_externalId lp_appliedTo "\<lambda>as p. p\<lparr>lp_appliedTo := as\<rparr>"
  by unfold_locales simp_all

interpretation credit_rows: applied_rows lc_externalId lc_appliedTo "\<lambda>as c. c\<lparr>lc_appliedTo := as\<rparr>"
  by unfold_locales simp_all

lemma requested_invoices_spec:
  "distinct (map li_externalId (requested_invoices requested seen invoices))"
  "set (map li_externalId (requested_invoices requested seen invoices)) =
     (li_externalId ` set invoices \<inter> set requested) - set seen"
  "set (requested_invoices requested seen invoices) \<subseteq> set invoices"
proof (induction invoices arbitrary: seen)
  case (Cons i invoices)
  {
    case 1
    then show ?case using Cons.IH(1,2) by (auto simp flip: set_map) 
  next
    case 2
    then show ?case using Cons.IH(2) by auto
  next
    case 3
    then show ?case using Cons.IH(3) by auto
  }
qed simp_all

section \<open>Properties\<close>

text \<open>The ledger a sync tallies holds one copy of each payment the histories and the window know,
  and each keeps exactly its applications to the invoices asked for; every invoice in it was asked
  for, once, and every invoice asked for that the histories have is in it.\<close>

theorem settlement_one_copy:
  "distinct (map lp_externalId (sl_payments (settlementLedger activity histories))) \<and>
   lp_externalId ` set (sl_payments (settlementLedger activity histories)) =
     lp_externalId ` (set (lh_payments histories) \<union> set (act_payments activity)) \<and>
   (\<forall>m\<in>set (sl_payments (settlementLedger activity histories)).
     \<exists>r\<in>set (lh_payments histories) \<union> set (act_payments activity). lp_externalId r = lp_externalId m \<and>
       lp_appliedTo m = filter (\<lambda>a. la_invoiceExternalId a \<in> set (invoicesNamedBy activity)) (lp_appliedTo r)) \<and>
   distinct (map li_externalId (sl_invoices (settlementLedger activity histories))) \<and>
   li_externalId ` set (sl_invoices (settlementLedger activity histories)) =
     li_externalId ` set (lh_invoices histories) \<inter> set (invoicesNamedBy activity)"
  unfolding settlementLedger_def Let_def SettlementLedger.simps
  using payment_rows.merge_ids payment_rows.merge_apps requested_invoices_spec(1,2) [of _ "[]"]
  by (intro conjI ballI) simp_all

theorem settlement_one_copy_witness:
  "distinct (map lp_externalId (sl_payments (settlementLedger
     \<lparr>act_payments = [], act_credits = []\<rparr> \<lparr>lh_invoices = [], lh_payments = [], lh_credits = []\<rparr>)))"
  using settlement_one_copy by blast

end
