(* ===== verification/Short_Pay.thy ===== *)
theory Short_Pay
  imports Ledger MoneyText
begin

text \<open>
  Short-pay detection: \<open>packages/core-domain/src/short-pay.ts\<close>. Three passes over a ledger: what
  the invoices say, what was applied to them, and the gap. The lemmas characterise exactly which
  invoices become candidates and with what figures, that the report's order is total, and when
  the checked sums refuse a ledger.
\<close>

section \<open>The report\<close>

datatype GapStatus = Gap_Open | Gap_Credited | Gap_Mixed

record ShortPayCandidate =
  sc_invoiceExternalId :: string
  sc_invoiceNumber :: string
  sc_customerExternalId :: string
  sc_customerName :: string
  sc_invoiceTotalCents :: int
  sc_appliedPaymentsCents :: int
  sc_appliedCreditsCents :: int
  sc_gapCents :: int
  sc_gapStatus :: GapStatus
  sc_paymentReferences :: "string list"
  sc_paymentMemos :: "string list"
  sc_creditMemos :: "string list"
  sc_lastPaymentOn :: "string option"

datatype LedgerAnomalyKind =
  Overapplied | Application_To_Unknown_Invoice | Negative_Amount | Currency_Mismatch

record LedgerAnomaly =
  an_invoiceExternalId :: string
  an_kind :: LedgerAnomalyKind
  an_transactionExternalId :: "string option"
  an_detail :: string

record ShortPayReport =
  rep_candidates :: "ShortPayCandidate list"
  rep_anomalies :: "LedgerAnomaly list"
  rep_invoicesExamined :: nat

text \<open>A tally keeps which payments and credits reached the invoice; the code compares them by
  identity, here by their position in the array.\<close>

record InvoiceTally =
  t_paymentsCents :: int
  t_creditsCents :: int
  t_payments :: "(nat \<times> LedgerPayment) list"
  t_credits :: "(nat \<times> LedgerCredit) list"
  t_untrustworthy :: bool

definition emptyTally :: InvoiceTally where
  "emptyTally = \<lparr>t_paymentsCents = 0, t_creditsCents = 0, t_payments = [], t_credits = [],
     t_untrustworthy = False\<rparr>"

definition count_currencies :: "LedgerInvoice list \<Rightarrow> (string \<times> nat) list" where
  "count_currencies invoices = fold (\<lambda>i m.
     AList.update (li_currency i) ((case map_of m (li_currency i) of None \<Rightarrow> 0 | Some n \<Rightarrow> n) + 1) m)
     invoices []"

definition better_currency :: "string \<times> nat \<Rightarrow> string option \<times> nat \<Rightarrow> string option \<times> nat" where
  "better_currency entry current =
     (let currency = fst entry; count = snd entry; best = fst current; bestCount = snd current in
      if count > bestCount \<or>
         (count = bestCount \<and> (case best of None \<Rightarrow> False | Some b \<Rightarrow> currency < b))
      then (Some currency, count) else current)"

definition dominantCurrency :: "LedgerInvoice list \<Rightarrow> string option" where
  "dominantCurrency invoices = fst (fold better_currency (count_currencies invoices) (None, 0))"

definition dedupeNonEmpty :: "string option list \<Rightarrow> string list" where
  "dedupeNonEmpty values = dedupe (concat (map (\<lambda>v. case v of
     None \<Rightarrow> [] | Some s \<Rightarrow> if trim s = [] then [] else [s]) values))"

section \<open>Pass 1: the invoices\<close>

definition invoice_anomalies :: "string option \<Rightarrow> LedgerInvoice \<Rightarrow> LedgerAnomaly list" where
  "invoice_anomalies currency i =
     (let anomaly = (\<lambda>kind detail. \<lparr>an_invoiceExternalId = li_externalId i, an_kind = kind,
            an_transactionExternalId = None, an_detail = ''invoice '' @ li_invoiceNumber i @ detail\<rparr>) in
      (if li_totalCents i < 0
       then [anomaly Negative_Amount ('' has a negative total of '' @ formatCents (li_totalCents i))]
       else []) @
      (if li_balanceCents i < 0
       then [anomaly Negative_Amount ('' has a negative balance of '' @ formatCents (li_balanceCents i))]
       else []) @
      (case currency of
         Some c \<Rightarrow> if li_currency i \<noteq> c
           then [anomaly Currency_Mismatch
                  ('' is in '' @ li_currency i @ ''; the rest of this window is in '' @ c)]
           else []
       | None \<Rightarrow> []))"

section \<open>Pass 2: what was applied\<close>

record tallying =
  ty_anomalies :: "LedgerAnomaly list"
  ty_tallies :: "(string \<times> InvoiceTally) list"

definition tallyFor :: "(string \<times> InvoiceTally) list \<Rightarrow> string \<Rightarrow> InvoiceTally" where
  "tallyFor tallies k = (case map_of tallies k of Some t \<Rightarrow> t | None \<Rightarrow> emptyTally)"

definition application_anomalies ::
  "string \<Rightarrow> string \<Rightarrow> string list \<Rightarrow> LedgerApplication \<Rightarrow> LedgerAnomaly list" where
  "application_anomalies word ext known a =
     (let said = word @ '' '' @ ext @ '' applies '' @ formatCents (la_amountCents a) @ '' to invoice '' @
            la_invoiceExternalId a;
          anomaly = (\<lambda>kind detail. \<lparr>an_invoiceExternalId = la_invoiceExternalId a, an_kind = kind,
            an_transactionExternalId = Some ext, an_detail = detail\<rparr>) in
      (if la_amountCents a < 0 then [anomaly Negative_Amount said] else []) @
      (if la_invoiceExternalId a \<notin> set known
       then [anomaly Application_To_Unknown_Invoice (said @ '', which the ledger did not return'')]
       else []))"

text \<open>The document is pushed unless it is the last one pushed: one payment may split across
  several lines of the same invoice.\<close>

definition push_new :: "nat \<times> 'd \<Rightarrow> (nat \<times> 'd) list \<Rightarrow> (nat \<times> 'd) list" where
  "push_new d ds = (if ds \<noteq> [] \<and> fst (last ds) = fst d then ds else ds @ [d])"

definition pay_step ::
  "string list \<Rightarrow> tallying \<Rightarrow> (nat \<times> LedgerPayment) \<times> LedgerApplication \<Rightarrow> tallying res" where
  "pay_step known st event =
     (let (d, a) = event;
          st' = st\<lparr>ty_anomalies := ty_anomalies st @
            application_anomalies ''payment'' (lp_externalId (snd d)) known a\<rparr>;
          k = la_invoiceExternalId a in
      if k \<notin> set known then Inr st'
      else let tally = tallyFor (ty_tallies st) k in
        bind_res (addCents (t_paymentsCents tally) (la_amountCents a)) (\<lambda>sum.
          Inr (st'\<lparr>ty_tallies := AList.update k
            (tally\<lparr>t_untrustworthy := t_untrustworthy tally \<or> la_amountCents a < 0,
                   t_paymentsCents := sum, t_payments := push_new d (t_payments tally)\<rparr>)
            (ty_tallies st)\<rparr>)))"

definition credit_step ::
  "string list \<Rightarrow> tallying \<Rightarrow> (nat \<times> LedgerCredit) \<times> LedgerApplication \<Rightarrow> tallying res" where
  "credit_step known st event =
     (let (d, a) = event;
          st' = st\<lparr>ty_anomalies := ty_anomalies st @
            application_anomalies ''credit'' (lc_externalId (snd d)) known a\<rparr>;
          k = la_invoiceExternalId a in
      if k \<notin> set known then Inr st'
      else let tally = tallyFor (ty_tallies st) k in
        bind_res (addCents (t_creditsCents tally) (la_amountCents a)) (\<lambda>sum.
          Inr (st'\<lparr>ty_tallies := AList.update k
            (tally\<lparr>t_untrustworthy := t_untrustworthy tally \<or> la_amountCents a < 0,
                   t_creditsCents := sum, t_credits := push_new d (t_credits tally)\<rparr>)
            (ty_tallies st)\<rparr>)))"

text \<open>The nested loops over the documents and their applications, as one list of events.\<close>

definition events :: "('d \<Rightarrow> LedgerApplication list) \<Rightarrow> 'd list \<Rightarrow> ((nat \<times> 'd) \<times> LedgerApplication) list" where
  "events apps ds = concat (map (\<lambda>d. map (\<lambda>a. (d, a)) (apps (snd d))) (List.enumerate 0 ds))"

section \<open>Pass 3: the gap\<close>

definition gap_status :: "int \<Rightarrow> int \<Rightarrow> int \<Rightarrow> GapStatus" where
  "gap_status balance gap credited =
     (if balance = gap then Gap_Open else if credited \<ge> gap then Gap_Credited else Gap_Mixed)"

definition latest :: "string list \<Rightarrow> string option" where
  "latest days = fold (\<lambda>d best. case best of
     None \<Rightarrow> Some d | Some b \<Rightarrow> if d > b then Some d else best) days None"

definition candidate_of :: "LedgerInvoice \<Rightarrow> InvoiceTally \<Rightarrow> int \<Rightarrow> ShortPayCandidate" where
  "candidate_of i tally gap =
     \<lparr>sc_invoiceExternalId = li_externalId i,
      sc_invoiceNumber = li_invoiceNumber i,
      sc_customerExternalId = li_customerExternalId i,
      sc_customerName = li_customerName i,
      sc_invoiceTotalCents = li_totalCents i,
      sc_appliedPaymentsCents = t_paymentsCents tally,
      sc_appliedCreditsCents = t_creditsCents tally,
      sc_gapCents = gap,
      sc_gapStatus = gap_status (li_balanceCents i) gap (t_creditsCents tally),
      sc_paymentReferences = dedupeNonEmpty (map (lp_reference \<circ> snd) (t_payments tally)),
      sc_paymentMemos = dedupeNonEmpty (map (lp_memo \<circ> snd) (t_payments tally)),
      sc_creditMemos = dedupeNonEmpty (map (lc_memo \<circ> snd) (t_credits tally)),
      sc_lastPaymentOn = latest (map (lp_receivedOn \<circ> snd) (t_payments tally))\<rparr>"

definition examine ::
  "(string \<times> InvoiceTally) list \<Rightarrow> LedgerInvoice \<Rightarrow> (LedgerAnomaly list \<times> ShortPayCandidate list) res" where
  "examine tallies i =
     (let tally = tallyFor tallies (li_externalId i) in
      if t_untrustworthy tally \<or> li_totalCents i < 0 then Inr ([], [])
      else bind_res (addCents (t_paymentsCents tally) (t_creditsCents tally)) (\<lambda>applied.
        if applied > li_totalCents i then
          Inr ([\<lparr>an_invoiceExternalId = li_externalId i, an_kind = Overapplied,
                 an_transactionExternalId = None,
                 an_detail = ''invoice '' @ li_invoiceNumber i @ '' totals '' @
                   formatCents (li_totalCents i) @ '' but '' @ formatCents applied @
                   '' is applied to it''\<rparr>], [])
        else if t_paymentsCents tally \<le> 0 then Inr ([], [])
        else if t_paymentsCents tally \<ge> li_totalCents i then Inr ([], [])
        else bind_res (subCents (li_totalCents i) (t_paymentsCents tally)) (\<lambda>gap.
          Inr ([], [candidate_of i tally gap]))))"

definition compare_candidates :: "ShortPayCandidate \<Rightarrow> ShortPayCandidate \<Rightarrow> int" where
  "compare_candidates a b =
     or_else (sc_gapCents b - sc_gapCents a)
       (or_else (compare_text (sc_invoiceNumber a) (sc_invoiceNumber b))
         (compare_text (sc_invoiceExternalId a) (sc_invoiceExternalId b)))"

definition detectShortPays ::
  "LedgerInvoice list \<Rightarrow> LedgerPayment list \<Rightarrow> LedgerCredit list \<Rightarrow> ShortPayReport res" where
  "detectShortPays invoices payments credits =
     (let ledger = first_by li_externalId invoices;
          known = map li_externalId ledger;
          start = \<lparr>ty_anomalies = concat (map (invoice_anomalies (dominantCurrency ledger)) ledger),
                   ty_tallies = []\<rparr> in
      bind_res (fold_res (pay_step known) start (events lp_appliedTo payments)) (\<lambda>paid.
      bind_res (fold_res (credit_step known) paid (events lc_appliedTo credits)) (\<lambda>tallied.
      bind_res (map_res (examine (ty_tallies tallied)) ledger) (\<lambda>found.
        Inr \<lparr>rep_candidates = sort_by compare_candidates (concat (map snd found)),
             rep_anomalies = ty_anomalies tallied @ concat (map fst found),
             rep_invoicesExamined = length invoices\<rparr>))))"

section \<open>What the tallies add up to\<close>

lemma tallyFor_Nil [simp]: "tallyFor [] k = emptyTally"
  by (simp add: tallyFor_def)

lemma tallyFor_update [simp]: "tallyFor (AList.update k t m) k' = (if k' = k then t else tallyFor m k')"
  by (simp add: tallyFor_def update_conv')

definition amount_for :: "string \<Rightarrow> 'd \<times> LedgerApplication \<Rightarrow> int" where
  "amount_for k event = (if la_invoiceExternalId (snd event) = k then la_amountCents (snd event) else 0)"

definition negative_for :: "string \<Rightarrow> 'd \<times> LedgerApplication \<Rightarrow> bool" where
  "negative_for k event \<longleftrightarrow> la_invoiceExternalId (snd event) = k \<and> la_amountCents (snd event) < 0"

lemma amount_for_pair [simp]:
  "amount_for k (d, a) = (if la_invoiceExternalId a = k then la_amountCents a else 0)"
  by (simp add: amount_for_def)

text \<open>One of the two loops of pass 2: it adds to one sum of an invoice's tally, checked, leaves
  the other alone, and marks a tally a negative amount reached.\<close>

locale tally_loop =
  fixes step :: "string list \<Rightarrow> tallying \<Rightarrow> 'd \<times> LedgerApplication \<Rightarrow> tallying res"
    and sum other :: "InvoiceTally \<Rightarrow> int"
  assumes step_unknown: "la_invoiceExternalId a \<notin> set known \<Longrightarrow>
      \<exists>st'. step known st (d, a) = Inr st' \<and> ty_tallies st' = ty_tallies st"
    and step_known: "la_invoiceExternalId a \<in> set known \<Longrightarrow> step known st (d, a) = Inr st' \<Longrightarrow>
      \<exists>t'. ty_tallies st' = AList.update (la_invoiceExternalId a) t' (ty_tallies st) \<and>
        sum t' = sum (tallyFor (ty_tallies st) (la_invoiceExternalId a)) + la_amountCents a \<and>
        other t' = other (tallyFor (ty_tallies st) (la_invoiceExternalId a)) \<and>
        t_untrustworthy t' = (t_untrustworthy (tallyFor (ty_tallies st) (la_invoiceExternalId a)) \<or>
          la_amountCents a < 0)"
    and step_returns: "la_invoiceExternalId a \<in> set known \<Longrightarrow>
      safe_int (sum (tallyFor (ty_tallies st) (la_invoiceExternalId a)) + la_amountCents a) \<Longrightarrow>
      \<exists>st'. step known st (d, a) = Inr st'"
begin

lemma step_effect:
  assumes "step known st e = Inr st'" "k \<in> set known"
  shows "sum (tallyFor (ty_tallies st') k) = sum (tallyFor (ty_tallies st) k) + amount_for k e"
    "other (tallyFor (ty_tallies st') k) = other (tallyFor (ty_tallies st) k)"
    "t_untrustworthy (tallyFor (ty_tallies st') k) \<longleftrightarrow>
       t_untrustworthy (tallyFor (ty_tallies st) k) \<or> negative_for k e"
proof -
  obtain d a where e: "e = (d, a)" by (cases e)
  have "sum (tallyFor (ty_tallies st') k) = sum (tallyFor (ty_tallies st) k) + amount_for k e \<and>
    other (tallyFor (ty_tallies st') k) = other (tallyFor (ty_tallies st) k) \<and>
    (t_untrustworthy (tallyFor (ty_tallies st') k) \<longleftrightarrow>
       t_untrustworthy (tallyFor (ty_tallies st) k) \<or> negative_for k e)"
  proof (cases "la_invoiceExternalId a \<in> set known")
    case True
    from step_known [OF True assms(1) [unfolded e]] show ?thesis
      by (auto simp: e amount_for_def negative_for_def)
  next
    case False
    then show ?thesis using step_unknown [OF False, of st d] assms
      by (auto simp: e amount_for_def negative_for_def)
  qed
  then show "sum (tallyFor (ty_tallies st') k) = sum (tallyFor (ty_tallies st) k) + amount_for k e"
    "other (tallyFor (ty_tallies st') k) = other (tallyFor (ty_tallies st) k)"
    "t_untrustworthy (tallyFor (ty_tallies st') k) \<longleftrightarrow>
       t_untrustworthy (tallyFor (ty_tallies st) k) \<or> negative_for k e" by blast+
qed

lemma loop_effect:
  assumes "fold_res (step known) st es = Inr st'" "k \<in> set known"
  shows "sum (tallyFor (ty_tallies st') k) = sum (tallyFor (ty_tallies st) k) + (\<Sum>e\<leftarrow>es. amount_for k e) \<and>
    other (tallyFor (ty_tallies st') k) = other (tallyFor (ty_tallies st) k) \<and>
    (t_untrustworthy (tallyFor (ty_tallies st') k) \<longleftrightarrow>
       t_untrustworthy (tallyFor (ty_tallies st) k) \<or> (\<exists>e\<in>set es. negative_for k e))"
  using assms(1)
proof (induction es arbitrary: st)
  case (Cons e es)
  from Cons.prems obtain st1 where
    s: "step known st e = Inr st1" "fold_res (step known) st1 es = Inr st'"
    by (auto simp: bind_res_Inr_iff)
  show ?case using Cons.IH [OF s(2)] step_effect [OF s(1) assms(2)] by auto
qed simp

text \<open>No sum is refused where the amounts to one invoice stay within the safe range in total.\<close>

lemma loop_returns:
  "(\<And>k. k \<in> set known \<Longrightarrow>
      \<bar>sum (tallyFor (ty_tallies st) k)\<bar> + (\<Sum>e\<leftarrow>es. \<bar>amount_for k e\<bar>) \<le> max_safe) \<Longrightarrow>
    \<exists>st'. fold_res (step known) st es = Inr st'"
proof (induction es arbitrary: st)
  case (Cons e es)
  obtain d a where e: "e = (d, a)" by (cases e)
  have nonneg: "0 \<le> (\<Sum>e\<leftarrow>es. \<bar>amount_for k e\<bar>)" for k by (intro sum_list_nonneg) auto
  have "\<exists>st1. step known st e = Inr st1"
  proof (cases "la_invoiceExternalId a \<in> set known")
    case True
    have "safe_int (sum (tallyFor (ty_tallies st) (la_invoiceExternalId a)) + la_amountCents a)"
      using Cons.prems [OF True] nonneg [of "la_invoiceExternalId a"]
      by (auto simp: e amount_for_def safe_int_def)
    then show ?thesis using step_returns [OF True] e by simp
  next
    case False
    then show ?thesis using step_unknown e by blast
  qed
  then obtain st1 where st1: "step known st e = Inr st1" by blast
  have "\<exists>st'. fold_res (step known) st1 es = Inr st'"
  proof (rule Cons.IH)
    fix k assume k: "k \<in> set known"
    show "\<bar>sum (tallyFor (ty_tallies st1) k)\<bar> + (\<Sum>e\<leftarrow>es. \<bar>amount_for k e\<bar>) \<le> max_safe"
      using Cons.prems [OF k] step_effect(1) [OF st1 k] by simp
  qed
  then show ?case using st1 by simp
qed simp

end

interpretation payments: tally_loop pay_step t_paymentsCents t_creditsCents
  by unfold_locales
    (auto simp: pay_step_def Let_def addCents_Inr_iff bind_res_Inr_iff split: prod.splits)

interpretation credits: tally_loop credit_step t_creditsCents t_paymentsCents
  by unfold_locales
    (auto simp: credit_step_def Let_def addCents_Inr_iff bind_res_Inr_iff split: prod.splits)

text \<open>The specification's figures: what the documents apply to an invoice, and whether any amount is
  negative.\<close>

definition applied_to :: "('d \<Rightarrow> LedgerApplication list) \<Rightarrow> 'd list \<Rightarrow> string \<Rightarrow> int" where
  "applied_to apps ds k =
     (\<Sum>d\<leftarrow>ds. \<Sum>a\<leftarrow>apps d. if la_invoiceExternalId a = k then la_amountCents a else 0)"

definition has_negative :: "('d \<Rightarrow> LedgerApplication list) \<Rightarrow> 'd list \<Rightarrow> string \<Rightarrow> bool" where
  "has_negative apps ds k \<longleftrightarrow>
     (\<exists>d\<in>set ds. \<exists>a\<in>set (apps d). la_invoiceExternalId a = k \<and> la_amountCents a < 0)"

lemma events_from:
  "(\<Sum>e\<leftarrow>concat (map (\<lambda>d. map (\<lambda>a. (d, a)) (apps (snd d))) (List.enumerate n ds)). amount_for k e) =
     applied_to apps ds k"
  by (induction ds arbitrary: n) (simp_all add: applied_to_def comp_def)

lemma events_sum: "(\<Sum>e\<leftarrow>events apps ds. amount_for k e) = applied_to apps ds k"
  unfolding events_def by (rule events_from)

lemma events_negative: "(\<exists>e\<in>set (events apps ds). negative_for k e) \<longleftrightarrow> has_negative apps ds k"
proof -
  have "(\<exists>e\<in>set (events apps ds). negative_for k e) \<longleftrightarrow>
      (\<exists>d\<in>snd ` set (List.enumerate 0 ds). \<exists>a\<in>set (apps d). la_invoiceExternalId a = k \<and> la_amountCents a < 0)"
    by (auto simp: events_def negative_for_def; blast)
  moreover have "snd ` set (List.enumerate 0 ds) = set ds" by (metis list.set_map map_snd_enumerate)
  ultimately show ?thesis by (simp add: has_negative_def)
qed

lemma tallies_spec:
  assumes "fold_res (pay_step known) st (events lp_appliedTo payments) = Inr paid"
    and "fold_res (credit_step known) paid (events lc_appliedTo credits) = Inr tallied"
    and "ty_tallies st = []" "k \<in> set known"
  shows "t_paymentsCents (tallyFor (ty_tallies tallied) k) = applied_to lp_appliedTo payments k"
    "t_creditsCents (tallyFor (ty_tallies tallied) k) = applied_to lc_appliedTo credits k"
    "t_untrustworthy (tallyFor (ty_tallies tallied) k) \<longleftrightarrow>
       has_negative lp_appliedTo payments k \<or> has_negative lc_appliedTo credits k"
  using payments.loop_effect [OF assms(1,4)] credits.loop_effect [OF assms(2,4)] assms(3)
  by (simp_all add: emptyTally_def events_sum events_negative)

section \<open>The candidates\<close>

text \<open>What short-paid means: something was paid, less than the total, nothing applied twice over, and
  no negative amount in the way.\<close>

definition short_paid :: "int \<Rightarrow> int \<Rightarrow> int \<Rightarrow> bool \<Rightarrow> bool" where
  "short_paid billed paid credited negative \<longleftrightarrow>
     \<not> negative \<and> 0 < paid \<and> paid < billed \<and> paid + credited \<le> billed"

lemma examine_Inr:
  assumes "examine tallies i = Inr (as, cs)"
  shows "cs = (let t = tallyFor tallies (li_externalId i) in
     if short_paid (li_totalCents i) (t_paymentsCents t) (t_creditsCents t) (t_untrustworthy t)
     then [candidate_of i t (li_totalCents i - t_paymentsCents t)] else [])"
  using assms
  by (auto simp: examine_def Let_def short_paid_def bind_res_Inr_iff addCents_Inr_iff subCents_Inr_iff
      split: if_splits)

definition found_candidates :: "(string \<times> InvoiceTally) list \<Rightarrow> LedgerInvoice list \<Rightarrow> ShortPayCandidate list" where
  "found_candidates tallies ledger = concat (map (\<lambda>i. let t = tallyFor tallies (li_externalId i) in
     if short_paid (li_totalCents i) (t_paymentsCents t) (t_creditsCents t) (t_untrustworthy t)
     then [candidate_of i t (li_totalCents i - t_paymentsCents t)] else []) ledger)"

lemma examine_all:
  "map_res (examine tallies) ledger = Inr found \<Longrightarrow> concat (map snd found) = found_candidates tallies ledger"
proof (induction ledger arbitrary: found)
  case (Cons i ledger)
  then obtain as cs rest where *: "examine tallies i = Inr (as, cs)" "map_res (examine tallies) ledger = Inr rest"
    "found = (as, cs) # rest" by (auto simp: bind_res_Inr_iff)
  show ?case using Cons.IH [OF *(2)] examine_Inr [OF *(1)] *(3) by (simp add: found_candidates_def)
qed (simp add: found_candidates_def)

lemma detectShortPays_Inr:
  assumes "detectShortPays invoices payments credits = Inr rep"
  obtains tallies where
    "rep_candidates rep = sort_by compare_candidates (found_candidates tallies (first_by li_externalId invoices))"
    "\<And>i. i \<in> set invoices \<Longrightarrow>
       t_paymentsCents (tallyFor tallies (li_externalId i)) = applied_to lp_appliedTo payments (li_externalId i)"
    "\<And>i. i \<in> set invoices \<Longrightarrow>
       t_creditsCents (tallyFor tallies (li_externalId i)) = applied_to lc_appliedTo credits (li_externalId i)"
    "\<And>i. i \<in> set invoices \<Longrightarrow> t_untrustworthy (tallyFor tallies (li_externalId i)) \<longleftrightarrow>
       has_negative lp_appliedTo payments (li_externalId i) \<or> has_negative lc_appliedTo credits (li_externalId i)"
    "rep_invoicesExamined rep = length invoices"
proof -
  define ledger where "ledger = first_by li_externalId invoices"
  define known where "known = map li_externalId ledger"
  define start where "start = \<lparr>ty_anomalies = concat (map (invoice_anomalies (dominantCurrency ledger)) ledger),
    ty_tallies = []\<rparr>"
  from assms obtain paid tallied found where
    p: "fold_res (pay_step known) start (events lp_appliedTo payments) = Inr paid" and
    c: "fold_res (credit_step known) paid (events lc_appliedTo credits) = Inr tallied" and
    f: "map_res (examine (ty_tallies tallied)) ledger = Inr found" and
    r: "rep_candidates rep = sort_by compare_candidates (concat (map snd found))"
       "rep_invoicesExamined rep = length invoices"
    unfolding detectShortPays_def Let_def ledger_def [symmetric] known_def [symmetric] start_def [symmetric]
    by (auto simp: bind_res_Inr_iff)
  have k: "li_externalId i \<in> set known" if "i \<in> set invoices" for i
    using that by (simp add: known_def ledger_def)
  have n: "ty_tallies start = []" by (simp add: start_def)
  show ?thesis
    by (rule that [of "ty_tallies tallied"])
      (simp_all add: r examine_all [OF f] ledger_def tallies_spec [OF p c n k])
qed

definition short_paid_invoice ::
  "LedgerPayment list \<Rightarrow> LedgerCredit list \<Rightarrow> LedgerInvoice \<Rightarrow> bool" where
  "short_paid_invoice payments credits i \<longleftrightarrow>
     short_paid (li_totalCents i) (applied_to lp_appliedTo payments (li_externalId i))
       (applied_to lc_appliedTo credits (li_externalId i))
       (has_negative lp_appliedTo payments (li_externalId i) \<or>
        has_negative lc_appliedTo credits (li_externalId i))"

lemma candidate_fields:
  assumes "detectShortPays invoices payments credits = Inr rep" "c \<in> set (rep_candidates rep)"
  obtains i where "i \<in> set (first_by li_externalId invoices)" "short_paid_invoice payments credits i"
    "sc_invoiceExternalId c = li_externalId i" "sc_invoiceTotalCents c = li_totalCents i"
    "sc_appliedPaymentsCents c = applied_to lp_appliedTo payments (li_externalId i)"
    "sc_appliedCreditsCents c = applied_to lc_appliedTo credits (li_externalId i)"
    "sc_gapCents c = li_totalCents i - applied_to lp_appliedTo payments (li_externalId i)"
    "sc_gapStatus c = gap_status (li_balanceCents i) (sc_gapCents c) (sc_appliedCreditsCents c)"
proof -
  obtain tallies where t: "rep_candidates rep =
      sort_by compare_candidates (found_candidates tallies (first_by li_externalId invoices))"
    and p: "\<And>i. i \<in> set invoices \<Longrightarrow>
       t_paymentsCents (tallyFor tallies (li_externalId i)) = applied_to lp_appliedTo payments (li_externalId i)"
    and cr: "\<And>i. i \<in> set invoices \<Longrightarrow>
       t_creditsCents (tallyFor tallies (li_externalId i)) = applied_to lc_appliedTo credits (li_externalId i)"
    and u: "\<And>i. i \<in> set invoices \<Longrightarrow> t_untrustworthy (tallyFor tallies (li_externalId i)) \<longleftrightarrow>
       has_negative lp_appliedTo payments (li_externalId i) \<or> has_negative lc_appliedTo credits (li_externalId i)"
    using detectShortPays_Inr [OF assms(1)] by metis
  from assms(2) t obtain i where i: "i \<in> set (first_by li_externalId invoices)"
    and c: "c \<in> set (let t = tallyFor tallies (li_externalId i) in
     if short_paid (li_totalCents i) (t_paymentsCents t) (t_creditsCents t) (t_untrustworthy t)
     then [candidate_of i t (li_totalCents i - t_paymentsCents t)] else [])"
    by (auto simp: found_candidates_def)
  have m: "i \<in> set invoices" using i first_by_subset by fastforce
  show ?thesis
    by (rule that [OF i])
      (use c in \<open>auto simp: Let_def p [OF m] cr [OF m] u [OF m] short_paid_invoice_def candidate_of_def
         split: if_splits\<close>)
qed

lemma candidate_ids:
  assumes "detectShortPays invoices payments credits = Inr rep"
  shows "sc_invoiceExternalId ` set (rep_candidates rep) =
      li_externalId ` {i \<in> set (first_by li_externalId invoices). short_paid_invoice payments credits i}"
    "distinct (map sc_invoiceExternalId (rep_candidates rep))"
proof -
  obtain tallies where t: "rep_candidates rep =
      sort_by compare_candidates (found_candidates tallies (first_by li_externalId invoices))"
    and p: "\<And>i. i \<in> set invoices \<Longrightarrow>
       t_paymentsCents (tallyFor tallies (li_externalId i)) = applied_to lp_appliedTo payments (li_externalId i)"
    and cr: "\<And>i. i \<in> set invoices \<Longrightarrow>
       t_creditsCents (tallyFor tallies (li_externalId i)) = applied_to lc_appliedTo credits (li_externalId i)"
    and u: "\<And>i. i \<in> set invoices \<Longrightarrow> t_untrustworthy (tallyFor tallies (li_externalId i)) \<longleftrightarrow>
       has_negative lp_appliedTo payments (li_externalId i) \<or> has_negative lc_appliedTo credits (li_externalId i)"
    using detectShortPays_Inr [OF assms(1)] by metis
  have f: "short_paid (li_totalCents i)
         (t_paymentsCents (tallyFor tallies (li_externalId i)))
         (t_creditsCents (tallyFor tallies (li_externalId i))) (t_untrustworthy (tallyFor tallies (li_externalId i)))
       \<longleftrightarrow> short_paid_invoice payments credits i" if "i \<in> set invoices" for i
    by (simp add: short_paid_invoice_def p [OF that] cr [OF that] u [OF that])
  define ledger where "ledger = first_by li_externalId invoices"
  have sub: "set ledger \<subseteq> set invoices" unfolding ledger_def by (rule first_by_subset)
  have m: "map sc_invoiceExternalId (found_candidates tallies xs) =
      map li_externalId (filter (short_paid_invoice payments credits) xs)" if "set xs \<subseteq> set invoices" for xs
    using that by (induction xs) (auto simp: found_candidates_def Let_def f candidate_of_def)
  have "sc_invoiceExternalId ` set (rep_candidates rep) = set (map sc_invoiceExternalId (found_candidates tallies ledger))"
    by (simp add: t ledger_def)
  also have "\<dots> = li_externalId ` {i \<in> set (first_by li_externalId invoices). short_paid_invoice payments credits i}"
    unfolding m [OF sub] by (simp add: ledger_def)
  finally show "sc_invoiceExternalId ` set (rep_candidates rep) =
      li_externalId ` {i \<in> set (first_by li_externalId invoices). short_paid_invoice payments credits i}" .
  have "mset (map sc_invoiceExternalId (rep_candidates rep)) =
      mset (map sc_invoiceExternalId (found_candidates tallies ledger))"
    by (simp add: t ledger_def)
  then have "mset (map sc_invoiceExternalId (rep_candidates rep)) =
      mset (map li_externalId (filter (short_paid_invoice payments credits) ledger))"
    unfolding m [OF sub] .
  moreover have "distinct (map li_externalId (filter (short_paid_invoice payments credits) ledger))"
    unfolding ledger_def using distinct_first_by by (simp add: distinct_map_filter)
  ultimately show "distinct (map sc_invoiceExternalId (rep_candidates rep))"
    by (metis mset_eq_imp_distinct_iff)
qed

interpretation candidate_order: keyed_comparator compare_candidates sc_invoiceExternalId
proof -
  have "comparator compare_candidates"
    unfolding compare_candidates_def
    by (intro comparator_or_else comparator_descending comparator_key)
  then show "keyed_comparator compare_candidates sc_invoiceExternalId"
    by (simp add: keyed_comparator_def keyed_comparator_axioms_def compare_candidates_def)
qed

text \<open>A ledger whose amounts stay within the safe range in total is never refused.\<close>

definition turnover :: "LedgerPayment list \<Rightarrow> LedgerCredit list \<Rightarrow> string \<Rightarrow> int" where
  "turnover payments credits k =
     (\<Sum>e\<leftarrow>events lp_appliedTo payments. \<bar>amount_for k e\<bar>) +
     (\<Sum>e\<leftarrow>events lc_appliedTo credits. \<bar>amount_for k e\<bar>)"

lemma applied_to_le_turnover:
  "\<bar>applied_to lp_appliedTo payments k\<bar> + \<bar>applied_to lc_appliedTo credits k\<bar> \<le> turnover payments credits k"
  unfolding turnover_def events_sum [symmetric]
  by (intro add_mono sum_list_abs [THEN order_trans]) (simp_all add: comp_def)

lemma detectShortPays_returns:
  assumes "\<And>i. i \<in> set invoices \<Longrightarrow> turnover payments credits (li_externalId i) \<le> max_safe"
    and "\<And>i. i \<in> set invoices \<Longrightarrow> safe_int (li_totalCents i)"
  shows "\<exists>rep. detectShortPays invoices payments credits = Inr rep"
proof -
  define ledger where "ledger = first_by li_externalId invoices"
  define known where "known = map li_externalId ledger"
  define start where "start = \<lparr>ty_anomalies = concat (map (invoice_anomalies (dominantCurrency ledger)) ledger),
    ty_tallies = []\<rparr>"
  have k: "k \<in> set known \<longleftrightarrow> k \<in> li_externalId ` set invoices" for k
    by (simp add: known_def ledger_def)
  have pos: "0 \<le> (\<Sum>e\<leftarrow>es. \<bar>amount_for k e\<bar>)" for k and es :: "((nat \<times> 'z) \<times> LedgerApplication) list"
    by (intro sum_list_nonneg) auto
  have within: "(\<Sum>e\<leftarrow>events lp_appliedTo payments. \<bar>amount_for k e\<bar>) +
      (\<Sum>e\<leftarrow>events lc_appliedTo credits. \<bar>amount_for k e\<bar>) \<le> max_safe" if "k \<in> set known" for k
    using assms(1) that k unfolding turnover_def by auto
  have "\<exists>paid. fold_res (pay_step known) start (events lp_appliedTo payments) = Inr paid"
  proof (rule payments.loop_returns)
    fix k assume "k \<in> set known"
    then show "\<bar>t_paymentsCents (tallyFor (ty_tallies start) k)\<bar> +
        (\<Sum>e\<leftarrow>events lp_appliedTo payments. \<bar>amount_for k e\<bar>) \<le> max_safe"
      using within pos [of k "events lc_appliedTo credits"] by (fastforce simp: start_def emptyTally_def)
  qed
  then obtain paid where p: "fold_res (pay_step known) start (events lp_appliedTo payments) = Inr paid" ..
  have "\<exists>tallied. fold_res (credit_step known) paid (events lc_appliedTo credits) = Inr tallied"
  proof (rule credits.loop_returns)
    fix k assume k: "k \<in> set known"
    then show "\<bar>t_creditsCents (tallyFor (ty_tallies paid) k)\<bar> +
        (\<Sum>e\<leftarrow>events lc_appliedTo credits. \<bar>amount_for k e\<bar>) \<le> max_safe"
      using within [OF k] pos [of k "events lp_appliedTo payments"] payments.loop_effect [OF p k]
      by (simp add: start_def emptyTally_def)
  qed
  then obtain tallied where c: "fold_res (credit_step known) paid (events lc_appliedTo credits) = Inr tallied" ..
  have ex: "\<exists>r. examine (ty_tallies tallied) i = Inr r" if i: "i \<in> set ledger" for i
  proof -
    have m: "i \<in> set invoices" using i first_by_subset unfolding ledger_def by fastforce
    then have kn: "li_externalId i \<in> set known" using k by simp
    have n: "ty_tallies start = []" by (simp add: start_def)
    note t = tallies_spec [OF p c n kn]
    have "\<bar>applied_to lp_appliedTo payments (li_externalId i)\<bar> +
        \<bar>applied_to lc_appliedTo credits (li_externalId i)\<bar> \<le> max_safe"
      using applied_to_le_turnover assms(1) [OF m] by (rule order_trans)
    then have a: "addCents (t_paymentsCents (tallyFor (ty_tallies tallied) (li_externalId i)))
        (t_creditsCents (tallyFor (ty_tallies tallied) (li_externalId i))) =
        Inr (t_paymentsCents (tallyFor (ty_tallies tallied) (li_externalId i)) +
          t_creditsCents (tallyFor (ty_tallies tallied) (li_externalId i)))"
      unfolding t by (simp add: addCents_Inr_iff safe_int_def)
    have b: "0 < q \<Longrightarrow> q < li_totalCents i \<Longrightarrow> subCents (li_totalCents i) q = Inr (li_totalCents i - q)" for q
      using assms(2) [OF m] by (auto simp: subCents_Inr_iff safe_int_def)
    show ?thesis using a b unfolding examine_def Let_def by (auto simp: not_le)
  qed
  then have "\<exists>found. map_res (examine (ty_tallies tallied)) ledger = Inr found"
    using map_res_total [of ledger "examine (ty_tallies tallied)" "\<lambda>i. SOME r. examine (ty_tallies tallied) i = Inr r"]
    by (metis (mono_tags, lifting) someI_ex)
  then obtain found where f: "map_res (examine (ty_tallies tallied)) ledger = Inr found" ..
  have "detectShortPays invoices payments credits =
      Inr \<lparr>rep_candidates = sort_by compare_candidates (concat (map snd found)),
           rep_anomalies = ty_anomalies tallied @ concat (map fst found),
           rep_invoicesExamined = length invoices\<rparr>"
    unfolding detectShortPays_def Let_def ledger_def [symmetric] known_def [symmetric] start_def [symmetric]
    by (simp add: p c f)
  then show ?thesis by blast
qed

section \<open>Properties\<close>

text \<open>C5: the report names exactly the short-paid invoices, each once: those to which something was
  paid, less than the total, with payments and credits together within the total, and no negative
  application. Duplicate rows of one invoice count by their first.\<close>

theorem short_pays_exact:
  assumes "detectShortPays invoices payments credits = Inr rep"
  shows "distinct (map sc_invoiceExternalId (rep_candidates rep)) \<and>
    sc_invoiceExternalId ` set (rep_candidates rep) =
      li_externalId ` {i \<in> set (first_by li_externalId invoices). short_paid_invoice payments credits i}"
  using candidate_ids [OF assms] by simp

definition sample_invoice :: LedgerInvoice where
  "sample_invoice = \<lparr>li_sourceKind = Qbo, li_externalId = ''7'', li_invoiceNumber = ''INV-7'',
     li_customerExternalId = ''c'', li_customerName = ''Acme'', li_issuedOn = ''2025-01-02'', li_dueOn = None,
     li_totalCents = 10000000, li_balanceCents = 800000, li_currency = ''USD''\<rparr>"

definition sample_payment :: "int \<Rightarrow> LedgerPayment" where
  "sample_payment amount = \<lparr>lp_sourceKind = Qbo, lp_externalId = ''p'', lp_customerExternalId = ''c'',
     lp_receivedOn = ''2025-02-01'', lp_totalCents = amount, lp_reference = None, lp_memo = None,
     lp_appliedTo = [\<lparr>la_invoiceExternalId = ''7'', la_amountCents = amount\<rparr>,
       \<lparr>la_invoiceExternalId = ''7'', la_amountCents = 1\<rparr>]\<rparr>"

lemmas sample_defs = sample_invoice_def sample_payment_def events_def first_by.simps
  turnover_def amount_for_def max_safe_def safe_int_def

theorem short_pays_exact_witness:
  "\<exists>rep. detectShortPays [sample_invoice] [sample_payment 9200000] [] = Inr rep \<and>
    sc_invoiceExternalId ` set (rep_candidates rep) = {''7''}"
proof -
  have "\<exists>rep. detectShortPays [sample_invoice] [sample_payment 9200000] [] = Inr rep"
    by (rule detectShortPays_returns) (simp_all add: sample_defs)
  then obtain rep where rep: "detectShortPays [sample_invoice] [sample_payment 9200000] [] = Inr rep" by blast
  have "short_paid_invoice [sample_payment 9200000] [] sample_invoice"
    by (simp add: short_paid_invoice_def short_paid_def applied_to_def has_negative_def sample_defs)
  then have "{i \<in> set (first_by li_externalId [sample_invoice]). short_paid_invoice [sample_payment 9200000] [] i} =
      {sample_invoice}" by auto
  then have "sc_invoiceExternalId ` set (rep_candidates rep) = {''7''}"
    using short_pays_exact [OF rep] by (simp add: sample_invoice_def)
  then show ?thesis using rep by blast
qed

text \<open>A candidate's figures are the invoice's own: its gap is the total less what payments
  applied, always positive; credits are reported beside the gap and never reduce it, and they decide
  with the open balance whether the gap reads open, credited or mixed.\<close>

theorem candidate_figures:
  assumes "detectShortPays invoices payments credits = Inr rep" "c \<in> set (rep_candidates rep)"
  shows "\<exists>i\<in>set (first_by li_externalId invoices). sc_invoiceExternalId c = li_externalId i \<and>
    sc_appliedPaymentsCents c = applied_to lp_appliedTo payments (li_externalId i) \<and>
    sc_appliedCreditsCents c = applied_to lc_appliedTo credits (li_externalId i) \<and>
    sc_gapCents c = li_totalCents i - sc_appliedPaymentsCents c \<and> 0 < sc_gapCents c \<and>
    sc_appliedCreditsCents c \<le> sc_gapCents c \<and>
    sc_gapStatus c = (if li_balanceCents i = sc_gapCents c then Gap_Open
      else if sc_appliedCreditsCents c = sc_gapCents c then Gap_Credited else Gap_Mixed)"
proof -
  obtain i where "i \<in> set (first_by li_externalId invoices)" "short_paid_invoice payments credits i"
    "sc_invoiceExternalId c = li_externalId i" "sc_invoiceTotalCents c = li_totalCents i"
    "sc_appliedPaymentsCents c = applied_to lp_appliedTo payments (li_externalId i)"
    "sc_appliedCreditsCents c = applied_to lc_appliedTo credits (li_externalId i)"
    "sc_gapCents c = li_totalCents i - applied_to lp_appliedTo payments (li_externalId i)"
    "sc_gapStatus c = gap_status (li_balanceCents i) (sc_gapCents c) (sc_appliedCreditsCents c)"
    by (rule candidate_fields [OF assms])
  then show ?thesis by (intro bexI [of _ i]) (auto simp: short_paid_invoice_def short_paid_def gap_status_def)
qed

theorem candidate_figures_witness:
  "\<exists>rep. detectShortPays [sample_invoice] [sample_payment 9200000] [] = Inr rep \<and>
    (\<exists>c\<in>set (rep_candidates rep). 0 < sc_gapCents c)"
proof -
  have "\<exists>rep. detectShortPays [sample_invoice] [sample_payment 9200000] [] = Inr rep"
    by (rule detectShortPays_returns) (simp_all add: sample_defs)
  then obtain rep where rep: "detectShortPays [sample_invoice] [sample_payment 9200000] [] = Inr rep" by blast
  have "short_paid_invoice [sample_payment 9200000] [] sample_invoice"
    by (simp add: short_paid_invoice_def short_paid_def applied_to_def has_negative_def sample_defs)
  then have "rep_candidates rep \<noteq> []" using candidate_ids(1) [OF rep] by auto
  then obtain c where c: "c \<in> set (rep_candidates rep)" by (meson last_in_set)
  from candidate_figures [OF rep c] show ?thesis using rep c by blast
qed

text \<open>The detector does throw on a ledger: where one invoice's applications leave the safe
  integer range its checked sum raises a \<open>MoneyError\<close>, against the module's note that it never
  throws on bad ledger data.\<close>

theorem short_pays_can_throw:
  "detectShortPays [sample_invoice] [sample_payment 9007199254740991] [] =
     Inl (MoneyError ''out of safe integer range'')"
  by (simp add: detectShortPays_def sample_defs pay_step_def emptyTally_def addCents_def Let_def tallyFor_def)

text \<open>The report's order is the order of gaps from the largest, ties by invoice number and then by
  id, and it is the only such order: the same candidates in any order sort to the same report.\<close>

theorem candidates_in_order:
  assumes "detectShortPays invoices payments credits = Inr rep" "mset cs = mset (rep_candidates rep)"
  shows "sorted_wrt (\<lambda>a b. compare_candidates a b \<le> 0) (rep_candidates rep) \<and>
    sort_by compare_candidates cs = rep_candidates rep"
proof -
  have s: "sorted_wrt (\<lambda>a b. compare_candidates a b \<le> 0) (rep_candidates rep)"
    using detectShortPays_Inr [OF assms(1)] candidate_order.sorted_sort_by by metis
  have "sort_by compare_candidates (rep_candidates rep) = sort_by compare_candidates cs"
    using assms(2) candidate_ids(2) [OF assms(1)] by (intro candidate_order.sort_by_cong_mset) simp_all
  then show ?thesis using s candidate_order.sort_by_sorted [OF s] by simp
qed

theorem candidates_in_order_witness:
  "\<exists>rep. detectShortPays [sample_invoice] [sample_payment 9200000] [] = Inr rep \<and>
    sort_by compare_candidates (rev (rep_candidates rep)) = rep_candidates rep"
proof -
  have "\<exists>rep. detectShortPays [sample_invoice] [sample_payment 9200000] [] = Inr rep"
    by (rule detectShortPays_returns) (simp_all add: sample_defs)
  then obtain rep where rep: "detectShortPays [sample_invoice] [sample_payment 9200000] [] = Inr rep" by blast
  show ?thesis using candidates_in_order [OF rep, of "rev (rep_candidates rep)"] rep by auto
qed

end
