(* ===== verification/Settlement_Lines.thy ===== *)
theory Settlement_Lines
  imports Journal JsSort
begin

text \<open>
  The journal lines a settlement decision carries:
  \<open>packages/core-domain/src/settlement-lines.ts\<close>. The lines computed from the draft entries, the
  rule an edited set must pass, and what it changed. The lemmas show that the check accepts
  exactly the sets the rule describes, that computed lines balance, and that an empty difference
  means nothing was changed.
\<close>

definition SETTLEMENT_MIN_LINES :: nat where "SETTLEMENT_MIN_LINES = 2"

definition SETTLEMENT_MAX_LINES :: nat where "SETTLEMENT_MAX_LINES = 20"

definition SETTLEMENT_MEMO_MAX_LENGTH :: nat where "SETTLEMENT_MEMO_MAX_LENGTH = 500"

record SettlementLine =
  set_lineNo :: nat
  set_accountExternalId :: string
  set_debitCents :: int
  set_creditCents :: int
  set_memo :: "string option"

record StoredSettlementLine = SettlementLine +
  set_accountNameAsReported :: string
  set_accountTypeAsReported :: string

record SettlementLineInput =
  inp_accountExternalId :: string
  inp_debitCents :: js_number
  inp_creditCents :: js_number
  inp_memo :: "string option"

record SettlementChartAccount =
  acc_externalId :: string
  acc_name :: string
  acc_accountType :: string
  acc_active :: bool

record SettlementAccountIds =
  ids_arAccountId :: string
  ids_deductionsReceivableAccountId :: string
  ids_writeoffByFamily :: "ReasonFamily \<Rightarrow> string"
  ids_unclassifiedWriteoff :: string

record SettlementAccountPolicy =
  pol_receivableAccountId :: string
  pol_receivableAccountTypes :: "string list"
  pol_refusedAccountTypes :: "string list"

datatype SettlementLineProblemCode =
    Too_Few_Lines | Too_Many_Lines | Not_Integer_Cents | Both_Sides | No_Side
  | Account_Missing | Account_Unknown | Account_Inactive | Account_Type_Refused
  | Receivable_Changed | Memo_Too_Long | Memo_Control_Character | Unbalanced
  | Moves_More_Than_Computed

type_synonym problem = "SettlementLineProblemCode \<times> nat option"

datatype SettlementLinesVerdict =
  Lines_Ok "StoredSettlementLine list" | Lines_Refused "problem list"

section \<open>The computed lines\<close>

definition settlementEntryStages :: "bool \<Rightarrow> JournalStage list" where
  "settlementEntryStages includeFound =
     (if includeFound then [Found, Recovered, Written_Off_Stage] else [Recovered, Written_Off_Stage])"

fun accountFor :: "AccountRole \<Rightarrow> ReasonFamily option \<Rightarrow> SettlementAccountIds \<Rightarrow> string" where
  "accountFor Accounts_Receivable family accounts = ids_arAccountId accounts"
| "accountFor Cash family accounts = ids_arAccountId accounts"
| "accountFor Deductions_Receivable family accounts = ids_deductionsReceivableAccountId accounts"
| "accountFor Writeoff_Expense family accounts =
     (case family of None \<Rightarrow> ids_unclassifiedWriteoff accounts | Some f \<Rightarrow> ids_writeoffByFamily accounts f)"

text \<open>One draft line pushes its debit, then its credit, each where it is positive.\<close>

definition pushed :: "SettlementAccountIds \<Rightarrow> DraftEntry \<Rightarrow> JournalLine \<Rightarrow> (string \<times> int \<times> int) list" where
  "pushed accounts e l =
     (let account = accountFor (line_role l) (entry_tag e) accounts in
      (if line_debit l > 0 then [(account, line_debit l, 0)] else []) @
      (if line_credit l > 0 then [(account, 0, line_credit l)] else []))"

definition settlement_line :: "nat \<times> string \<times> int \<times> int \<Rightarrow> SettlementLine" where
  "settlement_line row = (case row of (n, account, debit, credit) \<Rightarrow>
     \<lparr>set_lineNo = n, set_accountExternalId = account, set_debitCents = debit,
      set_creditCents = credit, set_memo = None\<rparr>)"

definition settlementLinesFrom ::
  "DraftEntry list \<Rightarrow> SettlementAccountIds \<Rightarrow> bool \<Rightarrow> SettlementLine list res" where
  "settlementLinesFrom entries accounts includeFound =
     (let stages = settlementEntryStages includeFound;
          rows = concat (map (\<lambda>e. concat (map (pushed accounts e) (entry_lines e)))
            (filter (\<lambda>e. entry_stage e \<in> set stages) entries)) in
      if rows = [] then Inl (JournalInputError ''no draft lines'')
      else Inr (map settlement_line (List.enumerate 1 rows)))"

text \<open>Both sides' totals: the debits are read and summed before the credits are.\<close>

definition settlementTotals :: "(js_number \<times> js_number) list \<Rightarrow> (int \<times> int \<times> bool) res" where
  "settlementTotals lines =
     bind_res (bind_res (map_res (cents \<circ> fst) lines) sumCents) (\<lambda>debit.
     bind_res (bind_res (map_res (cents \<circ> snd) lines) sumCents) (\<lambda>credit.
       Inr (debit, credit, debit = credit)))"

definition line_sides :: "SettlementLine \<Rightarrow> js_number \<times> js_number" where
  "line_sides l = (Whole (set_debitCents l), Whole (set_creditCents l))"

section \<open>The check\<close>

text \<open>\<open>[\p{Cc}\p{Zl}\p{Zp}]\<close>: the C0 and C1 controls; the two separators are past U+00FF.\<close>

definition is_memo_control :: "char \<Rightarrow> bool" where
  "is_memo_control c \<longleftrightarrow> is_control c \<or> (128 \<le> code_unit c \<and> code_unit c \<le> 159)"

definition normaliseSettlementMemo :: "string option \<Rightarrow> SettlementLineProblemCode + string option" where
  "normaliseSettlementMemo memo = (case memo of
     None \<Rightarrow> Inr None
   | Some m \<Rightarrow> let trimmed = trim m in
       if trimmed = [] then Inr None
       else if \<exists>c\<in>set trimmed. is_memo_control c then Inl Memo_Control_Character
       else if length trimmed > SETTLEMENT_MEMO_MAX_LENGTH then Inl Memo_Too_Long
       else Inr (Some trimmed))"

definition sideKey :: "int \<times> int \<Rightarrow> string" where
  "sideKey sides = (if fst sides > 0 then CHR ''D'' # int_text (fst sides)
                    else CHR ''C'' # int_text (snd sides))"

text \<open>A line's two amounts: readable when both are safe integers and not negative.\<close>

fun readable :: "js_number \<times> js_number \<Rightarrow> (int \<times> int) option" where
  "readable (Whole d, Whole c) =
     (if safe_int d \<and> safe_int c \<and> \<not> d < 0 \<and> \<not> c < 0 then Some (d, c) else None)"
| "readable _ = None"

definition input_sides :: "SettlementLineInput \<Rightarrow> js_number \<times> js_number" where
  "input_sides line = (inp_debitCents line, inp_creditCents line)"

definition side_problem :: "SettlementLineInput \<Rightarrow> SettlementLineProblemCode option" where
  "side_problem line = (case readable (input_sides line) of
     None \<Rightarrow> Some Not_Integer_Cents
   | Some (d, c) \<Rightarrow> if d > 0 \<and> c > 0 then Some Both_Sides
       else if d = 0 \<and> c = 0 then Some No_Side else None)"

text \<open>The chart by id: a later row of the same id replaces an earlier one.\<close>

definition chart_account :: "SettlementChartAccount list \<Rightarrow> string \<Rightarrow> SettlementChartAccount option" where
  "chart_account chart k = map_of (last_wins (map (\<lambda>a. (acc_externalId a, a)) chart)) k"

definition account_problem ::
  "SettlementAccountPolicy \<Rightarrow> string \<Rightarrow> SettlementChartAccount option \<Rightarrow> SettlementLineProblemCode option" where
  "account_problem policy k account =
     (if k = [] then Some Account_Missing
      else case account of
        None \<Rightarrow> Some Account_Unknown
      | Some a \<Rightarrow>
        if \<not> acc_active a then Some Account_Inactive
        else if acc_accountType a \<in> set (pol_refusedAccountTypes policy) \<or>
          (acc_accountType a \<in> set (pol_receivableAccountTypes policy) \<and> k \<noteq> pol_receivableAccountId policy) \<or>
          (k = pol_receivableAccountId policy \<and> acc_accountType a \<notin> set (pol_receivableAccountTypes policy))
        then Some Account_Type_Refused
        else None)"

text \<open>What the check says of one line, and the line as it is stored when its amounts, memo and
  account can be read.\<close>

definition check_line ::
  "SettlementChartAccount list \<Rightarrow> SettlementAccountPolicy \<Rightarrow> nat \<times> SettlementLineInput \<Rightarrow>
   problem list \<times> StoredSettlementLine list" where
  "check_line chart policy numbered =
     (let lineNo = fst numbered; line = snd numbered;
          fail = (\<lambda>p. case p of None \<Rightarrow> [] | Some code \<Rightarrow> [(code, Some lineNo)]);
          memo = normaliseSettlementMemo (inp_memo line);
          k = trim (inp_accountExternalId line);
          account = (if k = [] then None else chart_account chart k)
      in (fail (side_problem line) @
          fail (case memo of Inl code \<Rightarrow> Some code | Inr _ \<Rightarrow> None) @
          fail (account_problem policy k account),
          case (side_problem line, account, memo, readable (input_sides line)) of
            (None, Some a, Inr m, Some (d, c)) \<Rightarrow>
              [\<lparr>set_lineNo = lineNo, set_accountExternalId = k, set_debitCents = d, set_creditCents = c,
                set_memo = m, set_accountNameAsReported = acc_name a,
                set_accountTypeAsReported = acc_accountType a\<rparr>]
          | _ \<Rightarrow> []))"

definition receivable_keys :: "SettlementAccountPolicy \<Rightarrow> (string \<times> int \<times> int) list \<Rightarrow> string list" where
  "receivable_keys policy rows = sort_by compare_text (map (sideKey \<circ> snd)
     (filter (\<lambda>r. trim (fst r) = pol_receivableAccountId policy) rows))"

text \<open>The checks over the whole set, once every amount is readable.\<close>

definition check_totals ::
  "SettlementAccountPolicy \<Rightarrow> (string \<times> int \<times> int) list \<Rightarrow> SettlementLine list \<Rightarrow> problem list res" where
  "check_totals policy rows computed =
     (let usable = filter (\<lambda>(_, d, c). (d > 0) \<noteq> (c > 0)) rows;
          changed = (if receivable_keys policy usable \<noteq> receivable_keys policy
                (map (\<lambda>l. (set_accountExternalId l, set_debitCents l, set_creditCents l)) computed)
              then [(Receivable_Changed, None)] else []) in
      case settlementTotals (map (\<lambda>(_, d, c). (Whole d, Whole c)) usable) of
        Inl _ \<Rightarrow> Inr ((Not_Integer_Cents, None) # changed)
      | Inr (debit, credit, balanced) \<Rightarrow>
          bind_res (settlementTotals (map line_sides computed)) (\<lambda>(computedDebit, _).
            Inr ((if \<not> balanced then [(Unbalanced, None)] else []) @
              (if debit > computedDebit then [(Moves_More_Than_Computed, None)] else []) @ changed)))"

definition validateSettlementLines ::
  "SettlementLineInput list \<Rightarrow> SettlementChartAccount list \<Rightarrow> SettlementLine list \<Rightarrow>
   SettlementAccountPolicy \<Rightarrow> SettlementLinesVerdict res" where
  "validateSettlementLines input chart computed policy =
     (let counts = (if length input < SETTLEMENT_MIN_LINES then [(Too_Few_Lines, None)] else []) @
            (if length input > SETTLEMENT_MAX_LINES then [(Too_Many_Lines, None)] else []);
          checked = map (check_line chart policy) (List.enumerate 1 input);
          amountsReadable = list_all (\<lambda>l. readable (input_sides l) \<noteq> None) input;
          rows = map (\<lambda>l. (inp_accountExternalId l, the (readable (input_sides l)))) input in
      bind_res (if amountsReadable then check_totals policy rows computed else Inr []) (\<lambda>over.
        let problems = counts @ concat (map fst checked) @ over in
        Inr (if problems = [] then Lines_Ok (concat (map snd checked)) else Lines_Refused problems)))"

section \<open>What an edit changed\<close>

datatype SettlementLineChange =
  Change_Account | Change_Amount | Change_Memo | Change_Added | Change_Removed

definition line_changes :: "SettlementLine option \<Rightarrow> SettlementLine option \<Rightarrow> SettlementLineChange list" where
  "line_changes mine theirs = (case mine of
     None \<Rightarrow> [Change_Removed]
   | Some m \<Rightarrow>
       (case theirs of
          None \<Rightarrow> [Change_Added]
        | Some t \<Rightarrow>
            (if set_accountExternalId m \<noteq> set_accountExternalId t then [Change_Account] else []) @
            (if set_debitCents m \<noteq> set_debitCents t \<or> set_creditCents m \<noteq> set_creditCents t
             then [Change_Amount] else [])) @
       (if set_memo m \<noteq> None \<and> set_memo m \<noteq> (case theirs of None \<Rightarrow> None | Some t \<Rightarrow> set_memo t)
        then [Change_Memo] else []))"

definition at_index :: "'a list \<Rightarrow> nat \<Rightarrow> 'a option" where
  "at_index xs i = (if i < length xs then Some (xs ! i) else None)"

definition diffSettlementLines ::
  "SettlementLine list \<Rightarrow> SettlementLine list \<Rightarrow> (nat \<times> SettlementLineChange list) list" where
  "diffSettlementLines stored computed =
     filter (\<lambda>d. snd d \<noteq> [])
       (map (\<lambda>i. (i + 1, line_changes (at_index stored i) (at_index computed i)))
          [0..<max (length stored) (length computed)])"

section \<open>The computed lines balance\<close>

definition even_entry :: "DraftEntry \<Rightarrow> bool" where
  "even_entry e \<longleftrightarrow> (\<forall>l\<in>set (entry_lines e). 0 \<le> line_debit l \<and> 0 \<le> line_credit l) \<and>
     sum_list (map line_debit (entry_lines e)) = sum_list (map line_credit (entry_lines e))"

lemma entries_of_even:
  "0 < a \<Longrightarrow> 0 \<le> r \<Longrightarrow> list_all even_entry (entries_of i a r rest)"
  by (simp add: entries_of_def Let_def even_entry_def pair_def)

lemma draftEntries_even: "draftEntries i = Inr es \<Longrightarrow> list_all even_entry es"
  using draftEntries_Inr checked_amounts_Inr(2) entries_of_even by metis

definition rows_debit :: "(string \<times> int \<times> int) list \<Rightarrow> int" where
  "rows_debit rows = (\<Sum>r\<leftarrow>rows. fst (snd r))"

definition rows_credit :: "(string \<times> int \<times> int) list \<Rightarrow> int" where
  "rows_credit rows = (\<Sum>r\<leftarrow>rows. snd (snd r))"

lemma rows_append [simp]:
  "rows_debit (a @ b) = rows_debit a + rows_debit b" "rows_credit (a @ b) = rows_credit a + rows_credit b"
  by (simp_all add: rows_debit_def rows_credit_def)

lemma pushed_sums:
  "\<forall>l\<in>set ls. 0 \<le> line_debit l \<and> 0 \<le> line_credit l \<Longrightarrow>
     rows_debit (concat (map (pushed accounts e) ls)) = sum_list (map line_debit ls) \<and>
     rows_credit (concat (map (pushed accounts e) ls)) = sum_list (map line_credit ls)"
  by (induction ls) (auto simp: pushed_def rows_debit_def rows_credit_def Let_def)

lemma entries_even_rows:
  "list_all even_entry es \<Longrightarrow>
     rows_debit (concat (map (\<lambda>e. concat (map (pushed accounts e) (entry_lines e))) es)) =
     rows_credit (concat (map (\<lambda>e. concat (map (pushed accounts e) (entry_lines e))) es))"
  by (induction es) (auto simp: even_entry_def pushed_sums, simp add: rows_debit_def rows_credit_def)

lemma pushed_one_side:
  "(k, d, c) \<in> set (pushed accounts e l) \<Longrightarrow> 0 < d \<and> c = 0 \<or> d = 0 \<and> 0 < c"
  by (auto simp: pushed_def Let_def split: if_splits)

definition one_sided :: "int \<Rightarrow> int \<Rightarrow> bool" where
  "one_sided d c \<longleftrightarrow> 0 < d \<and> c = 0 \<or> d = 0 \<and> 0 < c"

lemma numbered_lines:
  "map (\<lambda>l. (set_accountExternalId l, set_debitCents l, set_creditCents l))
     (map settlement_line (List.enumerate n rows)) = rows"
  "map set_lineNo (map settlement_line (List.enumerate n rows)) = [n..<n + length rows]"
  by (simp_all add: comp_def settlement_line_def case_prod_unfold)

lemma settlementLinesFrom_rows:
  assumes "settlementLinesFrom es accounts includeFound = Inr ls" "list_all even_entry es"
  shows "(\<Sum>l\<leftarrow>ls. set_debitCents l) = (\<Sum>l\<leftarrow>ls. set_creditCents l)"
    "\<forall>l\<in>set ls. one_sided (set_debitCents l) (set_creditCents l) \<and> set_memo l = None"
    "map set_lineNo ls = [1..<length ls + 1]" "ls \<noteq> []"
proof -
  define rows where r: "rows = concat (map (\<lambda>e. concat (map (pushed accounts e) (entry_lines e)))
            (filter (\<lambda>e. entry_stage e \<in> set (settlementEntryStages includeFound)) es))"
  have ne: "rows \<noteq> []" and ls: "ls = map settlement_line (List.enumerate 1 rows)"
    using assms(1) unfolding settlementLinesFrom_def Let_def r [symmetric] by (auto split: if_splits)
  have m: "map (\<lambda>l. (set_accountExternalId l, set_debitCents l, set_creditCents l)) ls = rows"
    unfolding ls by (rule numbered_lines(1))
  have d: "map (\<lambda>r. fst (snd r)) rows = map set_debitCents ls"
    and c: "map (\<lambda>r. snd (snd r)) rows = map set_creditCents ls" unfolding m [symmetric] by simp_all
  have "list_all even_entry (filter (\<lambda>e. entry_stage e \<in> set (settlementEntryStages includeFound)) es)"
    using assms(2) by (auto simp: list_all_iff)
  then have "rows_debit rows = rows_credit rows" unfolding r by (rule entries_even_rows)
  then show "(\<Sum>l\<leftarrow>ls. set_debitCents l) = (\<Sum>l\<leftarrow>ls. set_creditCents l)"
    by (simp add: rows_debit_def rows_credit_def d c)
  show "\<forall>l\<in>set ls. one_sided (set_debitCents l) (set_creditCents l) \<and> set_memo l = None"
  proof
    fix l assume l: "l \<in> set ls"
    then have "(set_accountExternalId l, set_debitCents l, set_creditCents l) \<in> set rows"
      unfolding m [symmetric] by force
    then have "one_sided (set_debitCents l) (set_creditCents l)"
      unfolding r one_sided_def by (auto dest: pushed_one_side)
    then show "one_sided (set_debitCents l) (set_creditCents l) \<and> set_memo l = None"
      using l unfolding ls by (auto simp: settlement_line_def split: prod.splits)
  qed
  show "map set_lineNo ls = [1..<length ls + 1]"
    unfolding ls using numbered_lines(2) [of 1 rows] by simp
  show "ls \<noteq> []" using ne m by auto
qed

section \<open>What the check accepts\<close>

lemma map_cents: "map_res (cents \<circ> (\<lambda>r. Whole (f r))) xs = Inr ys \<Longrightarrow> ys = map f xs"
  by (induction xs arbitrary: ys) (auto simp: bind_res_Inr_iff split: if_splits)

lemma settlementTotals_Inr:
  assumes "settlementTotals (map (\<lambda>r. (Whole (f r), Whole (g r))) xs) = Inr (d, c, b)"
  shows "d = (\<Sum>r\<leftarrow>xs. f r)" "c = (\<Sum>r\<leftarrow>xs. g r)" "b \<longleftrightarrow> d = c"
proof -
  have m: "map_res h (map k xs) = map_res (h \<circ> k) xs" for h :: "'b \<Rightarrow> int res" and k and xs :: "'a list"
    by (induction xs) simp_all
  from assms obtain ds cs where "map_res (cents \<circ> (\<lambda>r. Whole (f r))) xs = Inr ds" "sumCents ds = Inr d"
    "map_res (cents \<circ> (\<lambda>r. Whole (g r))) xs = Inr cs" "sumCents cs = Inr c" "b \<longleftrightarrow> d = c"
    by (auto simp: settlementTotals_def bind_res_Inr_iff m comp_def)
  then show "d = (\<Sum>r\<leftarrow>xs. f r)" "c = (\<Sum>r\<leftarrow>xs. g r)" "b \<longleftrightarrow> d = c"
    using map_cents sumCents_Inr by blast+
qed

text \<open>The rule for one line: one positive side, an active account of the chart whose type the policy
  allows, a memo that fits; stored as given but for the spaces around account and memo.\<close>

definition allowed_account :: "SettlementAccountPolicy \<Rightarrow> SettlementChartAccount \<Rightarrow> string \<Rightarrow> bool" where
  "allowed_account policy a k \<longleftrightarrow> acc_active a \<and> acc_accountType a \<notin> set (pol_refusedAccountTypes policy) \<and>
     (acc_accountType a \<in> set (pol_receivableAccountTypes policy) \<longleftrightarrow> k = pol_receivableAccountId policy)"

definition accepts_line ::
  "SettlementChartAccount list \<Rightarrow> SettlementAccountPolicy \<Rightarrow> SettlementLineInput \<Rightarrow> StoredSettlementLine \<Rightarrow> bool" where
  "accepts_line chart policy line l \<longleftrightarrow>
     readable (input_sides line) = Some (set_debitCents l, set_creditCents l) \<and>
     one_sided (set_debitCents l) (set_creditCents l) \<and>
     set_accountExternalId l = trim (inp_accountExternalId line) \<and> set_accountExternalId l \<noteq> [] \<and>
     normaliseSettlementMemo (inp_memo line) = Inr (set_memo l) \<and>
     (\<exists>a. chart_account chart (set_accountExternalId l) = Some a \<and>
        allowed_account policy a (set_accountExternalId l) \<and>
        set_accountNameAsReported l = acc_name a \<and> set_accountTypeAsReported l = acc_accountType a)"

lemma readable_Some: "readable s = Some (d, c) \<longleftrightarrow> s = (Whole d, Whole c) \<and> safe_int d \<and> safe_int c \<and> 0 \<le> d \<and> 0 \<le> c"
  by (cases s rule: readable.cases) auto

lemma check_line_ok:
  assumes "check_line chart policy (n, line) = ([], st)"
  shows "\<exists>l. st = [l] \<and> set_lineNo l = n \<and> accepts_line chart policy line l"
proof -
  define k where "k = trim (inp_accountExternalId line)"
  have side: "side_problem line = None"
    and memo: "\<exists>m. normaliseSettlementMemo (inp_memo line) = Inr m"
    and acc: "account_problem policy k (if k = [] then None else chart_account chart k) = None"
    using assms by (auto simp: check_line_def Let_def k_def split: option.splits sum.splits)
  obtain m where m: "normaliseSettlementMemo (inp_memo line) = Inr m" using memo by blast
  obtain d c where dc: "readable (input_sides line) = Some (d, c)"
    using side by (auto simp: side_problem_def split: option.splits)
  have one: "one_sided d c"
    using side dc by (auto simp: side_problem_def one_sided_def readable_Some split: if_splits)
  obtain a where a: "k \<noteq> []" "chart_account chart k = Some a" "allowed_account policy a k"
    using acc by (auto simp: account_problem_def allowed_account_def split: if_splits option.splits)
  have "st = [\<lparr>set_lineNo = n, set_accountExternalId = k, set_debitCents = d, set_creditCents = c,
                set_memo = m, set_accountNameAsReported = acc_name a,
                set_accountTypeAsReported = acc_accountType a\<rparr>]"
    using assms side m dc a by (simp add: check_line_def Let_def flip: k_def)
  then show ?thesis using one m dc a by (simp add: accepts_line_def k_def)
qed

lemma check_lines_ok:
  assumes "concat (map fst (map (check_line chart policy) (List.enumerate n input))) = []"
  shows "list_all2 (accepts_line chart policy) input
    (concat (map snd (map (check_line chart policy) (List.enumerate n input))))"
  using assms
proof (induction input arbitrary: n)
  case (Cons line input)
  obtain st where st: "check_line chart policy (n, line) = ([], st)"
    using Cons.prems by (cases "check_line chart policy (n, line)") auto
  then obtain l where l: "st = [l]" "accepts_line chart policy line l" using check_line_ok by blast
  have "concat (map fst (map (check_line chart policy) (List.enumerate (Suc n) input))) = []"
    using Cons.prems by simp
  then show ?case using Cons.IH st l by simp
qed simp

definition stored_row :: "'z SettlementLine_scheme \<Rightarrow> string \<times> int \<times> int" where
  "stored_row l = (set_accountExternalId l, set_debitCents l, set_creditCents l)"

text \<open>The rule over the whole set.\<close>

definition accepted_set ::
  "SettlementAccountPolicy \<Rightarrow> StoredSettlementLine list \<Rightarrow> SettlementLine list \<Rightarrow> bool" where
  "accepted_set policy stored computed \<longleftrightarrow>
     2 \<le> length stored \<and> length stored \<le> 20 \<and>
     (\<Sum>l\<leftarrow>stored. set_debitCents l) = (\<Sum>l\<leftarrow>stored. set_creditCents l) \<and>
     (\<Sum>l\<leftarrow>stored. set_debitCents l) \<le> (\<Sum>l\<leftarrow>computed. set_debitCents l) \<and>
     receivable_keys policy (map stored_row stored) = receivable_keys policy (map stored_row computed)"

lemma receivable_keys_trim:
  "receivable_keys policy (map (\<lambda>(k, s). (trim k, s)) rows) = receivable_keys policy rows"
proof -
  have "map (sideKey \<circ> snd) (filter (\<lambda>r. trim (fst r) = pol_receivableAccountId policy) (map (\<lambda>(k, s). (trim k, s)) rows)) =
      map (sideKey \<circ> snd) (filter (\<lambda>r. trim (fst r) = pol_receivableAccountId policy) rows)"
    by (induction rows) auto
  then show ?thesis by (simp add: receivable_keys_def)
qed

lemma accepted_rows:
  assumes "list_all2 (accepts_line chart policy) input stored"
  shows "map (\<lambda>(k, s). (trim k, s)) (map (\<lambda>l. (inp_accountExternalId l, the (readable (input_sides l)))) input) =
      map stored_row stored"
    "filter (\<lambda>(_, d, c). (d > 0) \<noteq> (c > 0)) (map (\<lambda>l. (inp_accountExternalId l, the (readable (input_sides l)))) input) =
      map (\<lambda>l. (inp_accountExternalId l, the (readable (input_sides l)))) input"
    "list_all (\<lambda>l. readable (input_sides l) \<noteq> None) input"
  using assms
  by (induction rule: list_all2_induct) (auto simp: accepts_line_def stored_row_def one_sided_def)

lemma validate_accepts:
  assumes "validateSettlementLines input chart computed policy = Inr (Lines_Ok stored)"
  shows "list_all2 (accepts_line chart policy) input stored" "accepted_set policy stored computed"
proof -
  define checked where "checked = map (check_line chart policy) (List.enumerate 1 input)"
  define rows where "rows = map (\<lambda>l. (inp_accountExternalId l, the (readable (input_sides l)))) input"
  from assms obtain over where
    over: "(if list_all (\<lambda>l. readable (input_sides l) \<noteq> None) input
            then check_totals policy rows computed else Inr []) = Inr over"
    and none: "length input \<ge> 2" "length input \<le> 20" "concat (map fst checked) = []" "over = []"
    and st: "stored = concat (map snd checked)"
    unfolding validateSettlementLines_def Let_def checked_def [symmetric] rows_def [symmetric]
    by (auto simp: bind_res_Inr_iff SETTLEMENT_MIN_LINES_def SETTLEMENT_MAX_LINES_def not_less
        split: if_splits)
  show lines: "list_all2 (accepts_line chart policy) input stored"
    using check_lines_ok none(3) st unfolding checked_def by blast
  note r = accepted_rows [OF lines, folded rows_def]
  have over': "check_totals policy rows computed = Inr []" using over r(3) none(4) by simp
  define D where "D = (\<Sum>row\<leftarrow>rows. fst (snd row))"
  have cr: "map (\<lambda>l. (set_accountExternalId l, set_debitCents l, set_creditCents l)) computed = map stored_row computed"
    by (simp add: stored_row_def)
  have pairs: "map (\<lambda>(_, d, c). (Whole d, Whole c)) rows = map (\<lambda>row. (Whole (fst (snd row)), Whole (snd (snd row)))) rows"
    by (simp add: case_prod_unfold)
  have sides: "map line_sides computed = map (\<lambda>l. (Whole (set_debitCents l), Whole (set_creditCents l))) computed"
    by (simp add: line_sides_def)
  obtain d c b where t: "settlementTotals (map (\<lambda>row. (Whole (fst (snd row)), Whole (snd (snd row)))) rows) = Inr (d, c, b)"
    using over' unfolding check_totals_def r(2) Let_def pairs by (auto split: sum.splits prod.splits)
  then obtain cd cb where u: "settlementTotals (map (\<lambda>l. (Whole (set_debitCents l), Whole (set_creditCents l))) computed) = Inr (cd, cb)"
    using over' unfolding check_totals_def r(2) Let_def pairs sides by (auto simp: bind_res_Inr_iff)
  have f: "b" "d \<le> cd" "receivable_keys policy rows = receivable_keys policy (map stored_row computed)"
    using over' unfolding check_totals_def r(2) Let_def pairs sides cr
    by (auto simp: t u split: if_splits)
  obtain cc cbal where cb: "cb = (cc, cbal)" by (cases cb)
  note T = settlementTotals_Inr [OF t] and U = settlementTotals_Inr [OF u [unfolded cb]]
  have sd: "map (\<lambda>row. fst (snd row)) rows = map set_debitCents stored"
    and sc: "map (\<lambda>row. snd (snd row)) rows = map set_creditCents stored"
    using arg_cong [OF r(1), of "map (\<lambda>row. fst (snd row))"] arg_cong [OF r(1), of "map (\<lambda>row. snd (snd row))"]
    by (simp_all add: comp_def case_prod_unfold stored_row_def)
  have "receivable_keys policy (map stored_row stored) = receivable_keys policy rows"
    unfolding r(1) [symmetric] by (rule receivable_keys_trim)
  then show "accepted_set policy stored computed"
    using none(1,2) list_all2_lengthD [OF lines] T U f
    by (simp add: accepted_set_def sd sc)
qed

section \<open>The difference\<close>

lemma line_changes_Nil:
  "line_changes (Some m) theirs = [] \<longleftrightarrow> (\<exists>t. theirs = Some t \<and>
     set_accountExternalId m = set_accountExternalId t \<and> set_debitCents m = set_debitCents t \<and>
     set_creditCents m = set_creditCents t \<and> (set_memo m = None \<or> set_memo m = set_memo t))"
  by (auto simp: line_changes_def split: option.splits)

lemma diff_Nil:
  "diffSettlementLines stored computed = [] \<longleftrightarrow>
     list_all2 (\<lambda>m t. set_accountExternalId m = set_accountExternalId t \<and> set_debitCents m = set_debitCents t \<and>
       set_creditCents m = set_creditCents t \<and> (set_memo m = None \<or> set_memo m = set_memo t)) stored computed"
proof -
  have "diffSettlementLines stored computed = [] \<longleftrightarrow>
      (\<forall>i<max (length stored) (length computed). line_changes (at_index stored i) (at_index computed i) = [])"
    by (auto simp: diffSettlementLines_def filter_empty_conv)
  also have "\<dots> \<longleftrightarrow> length stored = length computed \<and>
      (\<forall>i<length stored. line_changes (Some (stored ! i)) (Some (computed ! i)) = [])"
  proof (intro iffI conjI)
    assume *: "\<forall>i<max (length stored) (length computed). line_changes (at_index stored i) (at_index computed i) = []"
    show "length stored = length computed"
    proof (rule ccontr)
      assume ne: "length stored \<noteq> length computed"
      define i where "i = min (length stored) (length computed)"
      have "line_changes (at_index stored i) (at_index computed i) = []"
        using * ne by (auto simp: i_def)
      moreover have "at_index stored i = None \<or> at_index stored i \<noteq> None \<and> at_index computed i = None"
        by (auto simp: at_index_def i_def)
      ultimately show False by (auto simp: line_changes_def)
    qed
    then show "\<forall>i<length stored. line_changes (Some (stored ! i)) (Some (computed ! i)) = []"
      using * by (auto simp: at_index_def)
  qed (auto simp: at_index_def)
  finally show ?thesis by (simp add: list_all2_conv_all_nth line_changes_Nil)
qed

section \<open>Properties\<close>

text \<open>C12: what the check accepts keeps the rule: 2 to 20 lines, each a positive amount on one side of
  an active account the policy allows; debits equal credits and move no more than the computed entry;
  and the receivable account's lines are the computed ones.\<close>

theorem accepted_lines_keep_rule:
  assumes "validateSettlementLines input chart computed policy = Inr (Lines_Ok stored)"
  shows "list_all2 (accepts_line chart policy) input stored \<and> accepted_set policy stored computed"
  using validate_accepts [OF assms] by simp

definition sample_policy :: SettlementAccountPolicy where
  "sample_policy = \<lparr>pol_receivableAccountId = ''84'', pol_receivableAccountTypes = [''AR''],
     pol_refusedAccountTypes = [''Bank'']\<rparr>"

definition sample_chart :: "SettlementChartAccount list" where
  "sample_chart =
     [\<lparr>acc_externalId = ''84'', acc_name = ''Receivable'', acc_accountType = ''AR'', acc_active = True\<rparr>,
      \<lparr>acc_externalId = ''90'', acc_name = ''Write-off'', acc_accountType = ''Expense'', acc_active = True\<rparr>]"

definition sample_computed :: "SettlementLine list" where
  "sample_computed =
     [\<lparr>set_lineNo = 1, set_accountExternalId = ''90'', set_debitCents = 500, set_creditCents = 0, set_memo = None\<rparr>,
      \<lparr>set_lineNo = 2, set_accountExternalId = ''84'', set_debitCents = 0, set_creditCents = 500, set_memo = None\<rparr>]"

definition sample_input :: "SettlementLineInput list" where
  "sample_input =
     [\<lparr>inp_accountExternalId = ''90'', inp_debitCents = Whole 500, inp_creditCents = Whole 0, inp_memo = None\<rparr>,
      \<lparr>inp_accountExternalId = ''84'', inp_debitCents = Whole 0, inp_creditCents = Whole 500, inp_memo = None\<rparr>]"

definition sample_stored :: "StoredSettlementLine list" where
  "sample_stored =
     [\<lparr>set_lineNo = 1, set_accountExternalId = ''90'', set_debitCents = 500, set_creditCents = 0, set_memo = None,
       set_accountNameAsReported = ''Write-off'', set_accountTypeAsReported = ''Expense''\<rparr>,
      \<lparr>set_lineNo = 2, set_accountExternalId = ''84'', set_debitCents = 0, set_creditCents = 500, set_memo = None,
       set_accountNameAsReported = ''Receivable'', set_accountTypeAsReported = ''AR''\<rparr>]"

theorem accepted_lines_keep_rule_witness:
  "list_all2 (accepts_line sample_chart sample_policy) sample_input sample_stored \<and>
   accepted_set sample_policy sample_stored sample_computed"
proof (rule accepted_lines_keep_rule)
  have trims: "trim ''84'' = ''84''" "trim ''90'' = ''90''"
    by (simp_all add: trim_no_ws is_ws_def code_unit_def)
  have keys: "receivable_keys sample_policy [(''90'', 500, 0), (''84'', 0, 500)] = [sideKey (0, 500)]"
    by (simp add: receivable_keys_def sample_policy_def trims)
  have totals: "check_totals sample_policy [(''90'', 500, 0), (''84'', 0, 500)] sample_computed = Inr []"
    by (simp add: check_totals_def sample_computed_def keys line_sides_def settlementTotals_def
        sumCents_def addCents_def safe_int_def max_safe_def)
  show "validateSettlementLines sample_input sample_chart sample_computed sample_policy =
      Inr (Lines_Ok sample_stored)"
    by (simp add: validateSettlementLines_def sample_input_def input_sides_def safe_int_def max_safe_def
        totals [unfolded sample_policy_def] check_line_def Let_def side_problem_def normaliseSettlementMemo_def trims chart_account_def
        last_wins_def sample_chart_def account_problem_def sample_policy_def sample_stored_def
        SETTLEMENT_MIN_LINES_def SETTLEMENT_MAX_LINES_def)
qed

text \<open>The computed lines of any case balance, are numbered 1, 2, ... in order, and each is one
  positive side of one account with no memo.\<close>

theorem computed_lines_balance:
  assumes "draftEntries i = Inr es" "settlementLinesFrom es accounts includeFound = Inr ls"
  shows "(\<Sum>l\<leftarrow>ls. set_debitCents l) = (\<Sum>l\<leftarrow>ls. set_creditCents l) \<and>
    map set_lineNo ls = [1..<length ls + 1] \<and>
    list_all (\<lambda>l. one_sided (set_debitCents l) (set_creditCents l) \<and> set_memo l = None) ls"
  using settlementLinesFrom_rows [OF assms(2) draftEntries_even [OF assms(1)]]
  by (simp add: list_all_iff)

definition sample_ids :: SettlementAccountIds where
  "sample_ids = \<lparr>ids_arAccountId = ''84'', ids_deductionsReceivableAccountId = ''85'',
     ids_writeoffByFamily = (\<lambda>_. ''90''), ids_unclassifiedWriteoff = ''91''\<rparr>"

definition sample_case :: JournalInput where
  "sample_case = \<lparr>in_amount = Whole 312000, in_recovered = Some (Whole 180000),
     in_outcome = Some Outcome_Partial, in_family = Some Fam_Shortage,
     in_printedReasonCode = None, in_map = None\<rparr>"

theorem computed_lines_balance_witness:
  "\<exists>ls. (\<exists>es. draftEntries sample_case = Inr es \<and> settlementLinesFrom es sample_ids False = Inr ls) \<and>
    (\<Sum>l\<leftarrow>ls. set_debitCents l) = (\<Sum>l\<leftarrow>ls. set_creditCents l)"
proof -
  have e: "draftEntries sample_case = Inr (entries_of sample_case 312000 180000 132000)"
    by (simp add: draftEntries_def checked_amounts_def sample_case_def safe_number_def safe_int_def
        max_safe_def subCents_def)
  obtain ls where ls: "settlementLinesFrom (entries_of sample_case 312000 180000 132000) sample_ids False = Inr ls"
    by (simp add: settlementLinesFrom_def settlementEntryStages_def entries_of_def pair_def sample_case_def
        pushed_def Let_def)
  from computed_lines_balance [OF e ls] show ?thesis using e ls by blast
qed

text \<open>An empty difference means that nothing was changed: the stored lines are the computed ones,
  account by account and cent by cent, with no memo of their own.\<close>

theorem no_difference_no_change:
  "diffSettlementLines stored computed = [] \<longleftrightarrow>
     list_all2 (\<lambda>m t. set_accountExternalId m = set_accountExternalId t \<and> set_debitCents m = set_debitCents t \<and>
       set_creditCents m = set_creditCents t \<and> (set_memo m = None \<or> set_memo m = set_memo t)) stored computed"
  by (rule diff_Nil)

end
