(* ===== verification/Books.thy ===== *)
theory Books
  imports Calendar Ledger MoneyText
begin

text \<open>
  A customer's books: \<open>packages/core-domain/src/books.ts\<close>. Which accounts play which role, and the
  reconciliation of the ledger's deduction lines with our cases. The lemmas show that the
  reconciliation keeps every line and every case exactly once, and that it pairs a line with a
  case exactly when each is the other's only partner on that amount and day.
\<close>

section \<open>Rows\<close>

record LedgerAccount =
  ga_sourceKind :: AccountingSourceKind
  ga_externalId :: string
  ga_code :: "string option"
  ga_name :: string
  ga_fullyQualifiedName :: string
  ga_accountType :: string
  ga_accountSubType :: "string option"
  ga_classification :: "string option"
  ga_active :: bool
  ga_currentBalanceCents :: "int option"

record TrialBalanceLine =
  tbl_accountExternalId :: "string option"
  tbl_accountName :: string
  tbl_debitCents :: int
  tbl_creditCents :: int

record TrialBalance =
  tb_sourceKind :: AccountingSourceKind
  tb_asOf :: string
  tb_periodStart :: "string option"
  tb_basis :: "string option"
  tb_currency :: "string option"
  tb_lines :: "TrialBalanceLine list"
  tb_totalDebitCents :: int
  tb_totalCreditCents :: int

record GeneralLedgerLine =
  gl_accountExternalId :: "string option"
  gl_accountName :: string
  gl_date :: string
  gl_transactionType :: "string option"
  gl_transactionExternalId :: "string option"
  gl_documentNumber :: "string option"
  gl_name :: "string option"
  gl_memo :: "string option"
  gl_debitCents :: int
  gl_creditCents :: int
  gl_balanceCents :: "int option"

record LedgerWindow =
  win_from :: string
  win_to :: string

definition trialBalanceDifferenceCents :: "TrialBalance \<Rightarrow> int res" where
  "trialBalanceDifferenceCents tb = subCents (tb_totalDebitCents tb) (tb_totalCreditCents tb)"

text \<open>\<open>dayNumber\<close> reads four, two and two digits and lets \<open>Date.UTC\<close> carry any overflow.\<close>

definition dayNumber :: "string \<Rightarrow> int res" where
  "dayNumber day = (case iso_parts day of
     None \<Rightarrow> Inl (RangeError ''a books date is YYYY-MM-DD'')
   | Some (y, m, d) \<Rightarrow> Inr (date_utc y m d))"

definition windowDays :: "LedgerWindow \<Rightarrow> int res" where
  "windowDays w = bind_res (dayNumber (win_to w)) (\<lambda>b.
     bind_res (dayNumber (win_from w)) (\<lambda>a. Inr (b - a + 1)))"

section \<open>Which accounts\<close>

datatype BooksAccountRole = Role_Receivable | Role_Posting | Role_Deductions

definition RECEIVABLE_ACCOUNT_TYPE :: string where
  "RECEIVABLE_ACCOUNT_TYPE = ''Accounts Receivable''"

definition DEDUCTION_ACCOUNT_SUBTYPES :: "string list" where
  "DEDUCTION_ACCOUNT_SUBTYPES = [''DiscountsRefundsGiven'', ''AllowanceForBadDebts'']"

definition DEDUCTION_ACCOUNT_NAME_WORDS :: "string list" where
  "DEDUCTION_ACCOUNT_NAME_WORDS =
     [''deduction'', ''chargeback'', ''charge back'', ''charge-back'', ''allowance'', ''short pay'',
      ''short-pay'', ''shortpay'', ''billback'', ''bill back'', ''bill-back'', ''trade spend'', ''promo'']"

text \<open>The occurrences of a word, left to right, each with the character before it.\<close>

fun starts_after :: "char option \<Rightarrow> string \<Rightarrow> string \<Rightarrow> bool" where
  "starts_after before [] word = (word = [] \<and>
     (case before of None \<Rightarrow> True | Some c \<Rightarrow> \<not> (is_lower c \<or> is_digit c)))"
| "starts_after before (c # text) word =
     (take (length word) (c # text) = word \<and>
        (case before of None \<Rightarrow> True | Some b \<Rightarrow> \<not> (is_lower b \<or> is_digit b)) \<or>
      starts_after (Some c) text word)"

definition startsAWord :: "string \<Rightarrow> string \<Rightarrow> bool" where
  "startsAWord text word = starts_after None text word"

definition looksLikeDeductionsAccount :: "LedgerAccount \<Rightarrow> bool" where
  "looksLikeDeductionsAccount a \<longleftrightarrow>
     (case ga_accountSubType a of None \<Rightarrow> False | Some t \<Rightarrow> t \<in> set DEDUCTION_ACCOUNT_SUBTYPES) \<or>
     (\<exists>word\<in>set DEDUCTION_ACCOUNT_NAME_WORDS. startsAWord (to_lower (ga_fullyQualifiedName a)) word)"

definition account_roles :: "string list \<Rightarrow> LedgerAccount \<Rightarrow> BooksAccountRole list" where
  "account_roles posting a =
     (let receivable = ga_accountType a = RECEIVABLE_ACCOUNT_TYPE in
      (if receivable then [Role_Receivable] else []) @
      (if ga_externalId a \<in> set posting then [Role_Posting] else []) @
      (if \<not> receivable \<and> looksLikeDeductionsAccount a then [Role_Deductions] else []))"

definition booksAccountRoles :: "LedgerAccount list \<Rightarrow> string list \<Rightarrow> (string \<times> BooksAccountRole list) list" where
  "booksAccountRoles chart postingAccountIds = fold (\<lambda>a roles.
     let found = account_roles postingAccountIds a in
     if found \<noteq> [] then AList.update (ga_externalId a) found roles else roles) chart []"

section \<open>The reconciliation\<close>

record BooksCase =
  bc_caseId :: string
  bc_claimId :: "string option"
  bc_amountCents :: int
  bc_payerName :: "string option"
  bc_date :: "string option"

definition RECONCILIATION_CANDIDATE_DAYS :: int where
  "RECONCILIATION_CANDIDATE_DAYS = 7"

datatype ReconciliationRow =
    Matched GeneralLedgerLine int BooksCase
  | Books_Only GeneralLedgerLine int "BooksCase list"
  | Case_Only BooksCase "GeneralLedgerLine list"

definition lineAmountCents :: "GeneralLedgerLine \<Rightarrow> int res" where
  "lineAmountCents line = bind_res (subCents (gl_debitCents line) (gl_creditCents line)) (\<lambda>net.
     if net < 0 then cents_of (- net) else Inr net)"

definition line_amount :: "GeneralLedgerLine \<Rightarrow> int" where
  "line_amount line = \<bar>gl_debitCents line - gl_creditCents line\<bar>"

definition optional_text :: "string option \<Rightarrow> string" where
  "optional_text t = (case t of None \<Rightarrow> [] | Some s \<Rightarrow> s)"

text \<open>The comparators run on lines whose amounts the first loop has already computed, so they read
  the amount that \<open>lineAmountCents\<close> returned there.\<close>

definition byLine :: "GeneralLedgerLine \<Rightarrow> GeneralLedgerLine \<Rightarrow> int" where
  "byLine a b =
     or_else (compare_text (gl_date a) (gl_date b))
    (or_else (line_amount a - line_amount b)
    (or_else (compare_text (optional_text (gl_accountExternalId a)) (optional_text (gl_accountExternalId b)))
    (or_else (compare_text (optional_text (gl_transactionExternalId a)) (optional_text (gl_transactionExternalId b)))
       (compare_text (optional_text (gl_documentNumber a)) (optional_text (gl_documentNumber b))))))"

definition byCase :: "BooksCase \<Rightarrow> BooksCase \<Rightarrow> int" where
  "byCase a b =
     or_else (compare_text (optional_text (bc_date a)) (optional_text (bc_date b)))
    (or_else (bc_amountCents a - bc_amountCents b) (compare_text (bc_caseId a) (bc_caseId b)))"

definition row_key :: "int \<Rightarrow> string \<Rightarrow> string" where
  "row_key amount date = int_text amount @ CHR ''|'' # date"

text \<open>The lists of objects, each with its place: the code's sets hold objects by identity.\<close>

type_synonym numbered_line = "nat \<times> GeneralLedgerLine"
type_synonym numbered_case = "nat \<times> BooksCase"

definition line_key :: "numbered_line \<Rightarrow> string" where
  "line_key l = row_key (line_amount (snd l)) (gl_date (snd l))"

definition case_key :: "numbered_case \<Rightarrow> string" where
  "case_key c = row_key (bc_amountCents (snd c)) (optional_text (bc_date (snd c)))"

definition keyed_lines :: "GeneralLedgerLine list \<Rightarrow> numbered_line list" where
  "keyed_lines lines = filter (\<lambda>l. line_amount (snd l) \<noteq> 0) (List.enumerate 0 lines)"

definition keyed_cases :: "BooksCase list \<Rightarrow> numbered_case list" where
  "keyed_cases cases = filter (\<lambda>c. bc_date (snd c) \<noteq> None) (List.enumerate 0 cases)"

text \<open>A key with one line and one case on it.\<close>

definition only_pair :: "numbered_line list \<Rightarrow> numbered_case list \<Rightarrow> (numbered_line \<times> numbered_case) list" where
  "only_pair keyLines keyCases = (case (keyLines, keyCases) of ([l], [c]) \<Rightarrow> [(l, c)] | _ \<Rightarrow> [])"

definition matched_row :: "numbered_line \<times> numbered_case \<Rightarrow> ReconciliationRow" where
  "matched_row p = Matched (snd (fst p)) (line_amount (snd (fst p))) (snd (snd p))"

definition matched_pairs :: "GeneralLedgerLine list \<Rightarrow> BooksCase list \<Rightarrow> (numbered_line \<times> numbered_case) list" where
  "matched_pairs lines cases =
     (let casesByKey = group_by case_key (keyed_cases cases) in
      concat (map (\<lambda>(key, keyLines).
          only_pair keyLines (case map_of casesByKey key of None \<Rightarrow> [] | Some cs \<Rightarrow> cs))
        (group_by line_key (keyed_lines lines))))"

definition near :: "string \<Rightarrow> string option \<Rightarrow> bool res" where
  "near lineDate caseDate = (case caseDate of
     None \<Rightarrow> Inr True
   | Some d \<Rightarrow> bind_res (dayNumber lineDate) (\<lambda>a. bind_res (dayNumber d) (\<lambda>b.
       Inr (\<bar>a - b\<bar> \<le> RECONCILIATION_CANDIDATE_DAYS))))"

definition candidate_test :: "GeneralLedgerLine \<Rightarrow> BooksCase \<Rightarrow> bool res" where
  "candidate_test line one =
     (if bc_amountCents one = line_amount line then near (gl_date line) (bc_date one) else Inr False)"

definition books_only :: "BooksCase list \<Rightarrow> GeneralLedgerLine \<Rightarrow> ReconciliationRow res" where
  "books_only openCases line =
     bind_res (if line_amount line = 0 then Inr [] else filter_res (candidate_test line) openCases) (\<lambda>cs.
       Inr (Books_Only line (line_amount line) (sort_by byCase cs)))"

definition case_only :: "GeneralLedgerLine list \<Rightarrow> BooksCase \<Rightarrow> ReconciliationRow res" where
  "case_only openLines one =
     bind_res (filter_res (\<lambda>line. candidate_test line one) openLines) (\<lambda>ls.
       Inr (Case_Only one (sort_by byLine ls)))"

fun compare_rows :: "ReconciliationRow \<Rightarrow> ReconciliationRow \<Rightarrow> int" where
  "compare_rows (Matched a _ _) (Matched b _ _) = byLine a b"
| "compare_rows (Books_Only a _ _) (Books_Only b _ _) = byLine a b"
| "compare_rows (Case_Only a _) (Case_Only b _) = byCase a b"
| "compare_rows _ _ = 0"

definition open_lines :: "GeneralLedgerLine list \<Rightarrow> BooksCase list \<Rightarrow> GeneralLedgerLine list" where
  "open_lines lines cases = map snd (filter (\<lambda>l. l \<notin> fst ` set (matched_pairs lines cases)) (List.enumerate 0 lines))"

definition open_cases :: "GeneralLedgerLine list \<Rightarrow> BooksCase list \<Rightarrow> BooksCase list" where
  "open_cases lines cases = map snd (filter (\<lambda>c. c \<notin> snd ` set (matched_pairs lines cases)) (List.enumerate 0 cases))"

definition reconcileDeductions ::
  "GeneralLedgerLine list \<Rightarrow> BooksCase list \<Rightarrow> ReconciliationRow list res" where
  "reconcileDeductions lines cases =
     bind_res (map_res lineAmountCents lines) (\<lambda>_.
       let matched = map matched_row (matched_pairs lines cases);
           openLines = open_lines lines cases;
           openCases = open_cases lines cases in
       bind_res (map_res (books_only openCases) openLines) (\<lambda>booksOnly.
       bind_res (map_res (case_only openLines) openCases) (\<lambda>caseOnly.
         Inr (sort_by compare_rows matched @ sort_by compare_rows booksOnly @ sort_by compare_rows caseOnly))))"

definition totalLineAmountCents :: "GeneralLedgerLine list \<Rightarrow> int res" where
  "totalLineAmountCents lines =
     fold_res (\<lambda>total line. bind_res (lineAmountCents line) (addCents total)) 0 lines"

section \<open>One row for every line and every case\<close>

lemma nat_text_no_bar: "CHR ''|'' \<notin> set (nat_text n)"
proof -
  have "\<not> is_digit CHR ''|''" by (simp add: is_digit_def code_unit_def)
  then show ?thesis using nat_text_digits by blast
qed

lemma int_text_no_bar: "CHR ''|'' \<notin> set (int_text n)"
  using nat_text_no_bar by (simp add: int_text_def)

lemma nat_text_inj: "nat_text a = nat_text b \<Longrightarrow> a = b"
  by (metis text_nat_nat_text)

lemma nat_text_minus: "nat_text a \<noteq> CHR ''-'' # s"
proof -
  have "\<not> is_digit CHR ''-''" by (simp add: is_digit_def code_unit_def)
  then show ?thesis using nat_text_digits by (metis list.set_intros(1))
qed

lemma int_text_inj: "int_text a = int_text b \<Longrightarrow> a = b"
  using nat_text_minus [of "nat a" "nat_text (nat (- b))"] nat_text_minus [of "nat b" "nat_text (nat (- a))"]
    nat_text_inj [of "nat a" "nat b"] nat_text_inj [of "nat (- a)" "nat (- b)"]
  by (auto simp: int_text_def split: if_splits)

lemma row_key_eq_iff: "row_key a d = row_key b e \<longleftrightarrow> a = b \<and> d = e"
proof
  assume k: "row_key a d = row_key b e"
  then have "split_on CHR ''|'' (row_key a d) = split_on CHR ''|'' (row_key b e)" by simp
  then have "int_text a = int_text b"
    by (simp add: row_key_def split_on_append [OF int_text_no_bar])
  then show "a = b \<and> d = e" using int_text_inj k by (simp add: row_key_def)
qed simp

lemma only_pair_iff: "p \<in> set (only_pair ls cs) \<longleftrightarrow> ls = [fst p] \<and> cs = [snd p]"
  by (cases p) (auto simp: only_pair_def split: list.splits)

lemma matched_pairs_iff:
  "p \<in> set (matched_pairs lines cases) \<longleftrightarrow>
     filter (\<lambda>x. line_key x = line_key (fst p)) (keyed_lines lines) = [fst p] \<and>
     filter (\<lambda>x. case_key x = line_key (fst p)) (keyed_cases cases) = [snd p]"
proof
  assume "p \<in> set (matched_pairs lines cases)"
  then obtain k where k: "filter (\<lambda>x. line_key x = k) (keyed_lines lines) = [fst p]"
      "filter (\<lambda>x. case_key x = k) (keyed_cases cases) = [snd p]"
    by (auto simp: matched_pairs_def Let_def group_by_iff lookup_group_by only_pair_iff)
  have "fst p \<in> set (filter (\<lambda>x. line_key x = k) (keyed_lines lines))" unfolding k(1) by simp
  then have "line_key (fst p) = k" by simp
  then show "filter (\<lambda>x. line_key x = line_key (fst p)) (keyed_lines lines) = [fst p] \<and>
     filter (\<lambda>x. case_key x = line_key (fst p)) (keyed_cases cases) = [snd p]" using k by simp
next
  assume p: "filter (\<lambda>x. line_key x = line_key (fst p)) (keyed_lines lines) = [fst p] \<and>
     filter (\<lambda>x. case_key x = line_key (fst p)) (keyed_cases cases) = [snd p]"
  then have "(line_key (fst p), [fst p]) \<in> set (group_by line_key (keyed_lines lines))"
    by (simp add: group_by_iff)
  moreover define f where "f = (\<lambda>(key, keyLines). only_pair keyLines
    (case map_of (group_by case_key (keyed_cases cases)) key of None \<Rightarrow> [] | Some cs \<Rightarrow> cs))"
  have "f (line_key (fst p), [fst p]) = only_pair [fst p] [snd p]"
    using p by (simp add: f_def lookup_group_by)
  then have "p \<in> set (f (line_key (fst p), [fst p]))" by (simp add: only_pair_iff)
  ultimately have "p \<in> set (concat (map f (group_by line_key (keyed_lines lines))))"
    unfolding set_concat set_map by blast
  then show "p \<in> set (matched_pairs lines cases)"
    unfolding matched_pairs_def Let_def f_def .
qed

text \<open>No line and no case is in two pairs.\<close>

lemma matched_pairs_unique:
  assumes "p \<in> set (matched_pairs lines cases)" "q \<in> set (matched_pairs lines cases)"
  shows "fst p = fst q \<longleftrightarrow> snd p = snd q"
proof -
  have k: "case_key (snd r) = line_key (fst r)" if "r \<in> set (matched_pairs lines cases)" for r
    using that unfolding matched_pairs_iff by (metis (mono_tags, lifting) filter_eq_Cons_iff)
  show ?thesis using assms k unfolding matched_pairs_iff by (metis list.inject)
qed

lemma distinct_matched_pairs: "distinct (matched_pairs lines cases)"
proof -
  have d: "distinct (concat (map (\<lambda>(k, ls). only_pair ls (f k)) m))"
    if "distinct (map fst m)" "\<forall>(k, ls)\<in>set m. \<forall>l\<in>set ls. line_key l = k" for m f
    using that
  proof (induction m)
    case (Cons e m)
    obtain k ls where e: "e = (k, ls)" by (cases e)
    have "distinct (only_pair ls (f k))" by (auto simp: only_pair_def split: list.splits)
    moreover have False if "p \<in> set (only_pair ls (f k))" "(k', ls') \<in> set m" "p \<in> set (only_pair ls' (f k'))" for p k' ls'
    proof -
      have "line_key (fst p) = k" "line_key (fst p) = k'"
        using that Cons.prems(2) e by (force simp: only_pair_iff)+
      then show False using that(2) Cons.prems(1) e by force
    qed
    ultimately show ?case using Cons e by (auto split: prod.splits)
  qed simp
  show ?thesis
    unfolding matched_pairs_def Let_def
    by (rule d [OF distinct_group_by]) (auto simp: group_by_iff)
qed

fun row_lines :: "ReconciliationRow \<Rightarrow> GeneralLedgerLine list" where
  "row_lines (Matched line _ _) = [line]"
| "row_lines (Books_Only line _ _) = [line]"
| "row_lines (Case_Only _ _) = []"

fun row_cases :: "ReconciliationRow \<Rightarrow> BooksCase list" where
  "row_cases (Matched _ _ one) = [one]"
| "row_cases (Books_Only _ _ _) = []"
| "row_cases (Case_Only one _) = [one]"

text \<open>Taking a chosen part of a numbered list out leaves the rest: nothing is lost or doubled.\<close>

lemma mset_taken:
  assumes "distinct taken" "set taken \<subseteq> set (List.enumerate 0 xs)"
  shows "mset (map snd taken) + mset (map snd (filter (\<lambda>x. x \<notin> set taken) (List.enumerate 0 xs))) = mset xs"
proof -
  let ?e = "List.enumerate 0 xs"
  have "distinct ?e" by (simp add: distinct_enumerate)
  then have "mset (filter (\<lambda>x. x \<in> set taken) ?e) = mset taken"
    using assms by (intro set_eq_iff_mset_eq_distinct [THEN iffD1]) auto
  moreover have "mset ?e = mset (filter (\<lambda>x. x \<in> set taken) ?e) + mset (filter (\<lambda>x. x \<notin> set taken) ?e)"
    unfolding mset_filter by (rule multiset_partition)
  moreover have "mset xs = image_mset snd (mset ?e)" by (simp flip: mset_map)
  ultimately show ?thesis unfolding mset_map by (metis image_mset_union)
qed

lemma filter_single: "filter P xs = [x] \<Longrightarrow> x \<in> set xs \<and> P x"
  by (metis (mono_tags, lifting) filter_set list.set_intros(1) mem_Collect_eq set_filter)

lemma matched_subset:
  assumes "p \<in> set (matched_pairs lines cases)"
  shows "fst p \<in> set (List.enumerate 0 lines)" "snd p \<in> set (List.enumerate 0 cases)"
  using assms unfolding matched_pairs_iff by (auto simp: keyed_lines_def keyed_cases_def dest!: filter_single)

lemma inj_matched: "inj_on fst (set (matched_pairs lines cases))" "inj_on snd (set (matched_pairs lines cases))"
  using matched_pairs_unique by (fastforce intro!: inj_onI simp: prod_eq_iff)+

lemma lines_partition:
  "mset (map (snd \<circ> fst) (matched_pairs lines cases)) + mset (open_lines lines cases) = mset lines"
proof -
  have "distinct (map fst (matched_pairs lines cases))"
    using inj_matched(1) distinct_matched_pairs by (simp add: distinct_map)
  moreover have "set (map fst (matched_pairs lines cases)) \<subseteq> set (List.enumerate 0 lines)"
    using matched_subset(1) by auto
  ultimately have "mset (map snd (map fst (matched_pairs lines cases))) +
      mset (map snd (filter (\<lambda>x. x \<notin> set (map fst (matched_pairs lines cases))) (List.enumerate 0 lines))) = mset lines"
    by (rule mset_taken)
  then show ?thesis by (simp only: open_lines_def set_map map_map)
qed

lemma cases_partition:
  "mset (map (snd \<circ> snd) (matched_pairs lines cases)) + mset (open_cases lines cases) = mset cases"
proof -
  have "distinct (map snd (matched_pairs lines cases))"
    using inj_matched(2) distinct_matched_pairs by (simp add: distinct_map)
  moreover have "set (map snd (matched_pairs lines cases)) \<subseteq> set (List.enumerate 0 cases)"
    using matched_subset(2) by auto
  ultimately have "mset (map snd (map snd (matched_pairs lines cases))) +
      mset (map snd (filter (\<lambda>x. x \<notin> set (map snd (matched_pairs lines cases))) (List.enumerate 0 cases))) = mset cases"
    by (rule mset_taken)
  then show ?thesis by (simp only: open_cases_def set_map map_map)
qed

lemma books_only_rows:
  "map_res (books_only openCases) ls = Inr rows \<Longrightarrow>
     concat (map row_lines rows) = ls \<and> concat (map row_cases rows) = [] \<and>
     (\<forall>r\<in>set rows. \<exists>line cs. r = Books_Only line (line_amount line) cs \<and>
        set cs \<subseteq> {c \<in> set openCases. line_amount line \<noteq> 0 \<and> candidate_test line c = Inr True})"
  by (induction ls arbitrary: rows)
    (auto simp: bind_res_Inr_iff books_only_def dest!: filter_res_Inr split: if_splits)

lemma case_only_rows:
  "map_res (case_only openLines) cs = Inr rows \<Longrightarrow>
     concat (map row_lines rows) = [] \<and> concat (map row_cases rows) = cs \<and>
     (\<forall>r\<in>set rows. \<exists>one ls. r = Case_Only one ls \<and>
        set ls \<subseteq> {l \<in> set openLines. candidate_test l one = Inr True})"
  by (induction cs arbitrary: rows)
    (auto simp: bind_res_Inr_iff case_only_def dest!: filter_res_Inr)

lemma matched_row_parts:
  "concat (map row_lines (map matched_row ps)) = map (snd \<circ> fst) ps"
  "concat (map row_cases (map matched_row ps)) = map (snd \<circ> snd) ps"
  by (induction ps) (auto simp: matched_row_def)

lemma reconcile_Inr:
  assumes "reconcileDeductions lines cases = Inr rows"
  obtains booksOnly caseOnly where
    "map_res (books_only (open_cases lines cases)) (open_lines lines cases) = Inr booksOnly"
    "map_res (case_only (open_lines lines cases)) (open_cases lines cases) = Inr caseOnly"
    "rows = sort_by compare_rows (map matched_row (matched_pairs lines cases)) @ sort_by compare_rows booksOnly @
       sort_by compare_rows caseOnly"
  using assms by (auto simp: reconcileDeductions_def Let_def bind_res_Inr_iff)

lemma mset_concat_sorted: "mset (concat (map f (sort_by cmp xs))) = mset (concat (map f xs))"
  by (simp add: mset_concat flip: mset_map sum_mset_sum_list) (simp add: image_mset.compositionality)

lemma reconcile_keeps_all:
  assumes "reconcileDeductions lines cases = Inr rows"
  shows "mset (concat (map row_lines rows)) = mset lines" "mset (concat (map row_cases rows)) = mset cases"
proof -
  obtain booksOnly caseOnly where
    b: "map_res (books_only (open_cases lines cases)) (open_lines lines cases) = Inr booksOnly" and
    c: "map_res (case_only (open_lines lines cases)) (open_cases lines cases) = Inr caseOnly" and
    r: "rows = sort_by compare_rows (map matched_row (matched_pairs lines cases)) @ sort_by compare_rows booksOnly @
       sort_by compare_rows caseOnly"
    by (rule reconcile_Inr [OF assms])
  note parts = matched_row_parts books_only_rows [OF b] case_only_rows [OF c]
  show "mset (concat (map row_lines rows)) = mset lines"
    using lines_partition [of lines cases] by (simp add: r mset_concat_sorted parts del: map_map mset_map)
  show "mset (concat (map row_cases rows)) = mset cases"
    using cases_partition [of lines cases] by (simp add: r mset_concat_sorted parts del: map_map mset_map)
qed

text \<open>A pair on plain lists: the only line and the only case of one amount, not zero, on one day.\<close>

definition exact_pair ::
  "GeneralLedgerLine list \<Rightarrow> BooksCase list \<Rightarrow> GeneralLedgerLine \<Rightarrow> BooksCase \<Rightarrow> bool" where
  "exact_pair lines cases line one \<longleftrightarrow>
     line_amount line \<noteq> 0 \<and>
     filter (\<lambda>l. line_amount l = line_amount line \<and> gl_date l = gl_date line) lines = [line] \<and>
     filter (\<lambda>c. bc_amountCents c = line_amount line \<and> bc_date c = Some (gl_date line)) cases = [one]"

lemma map_snd_filter_enumerate: "map snd (filter (\<lambda>p. P (snd p)) (List.enumerate n xs)) = filter P xs"
  by (induction xs arbitrary: n) auto

lemma same_key_lines:
  assumes "line_amount line \<noteq> 0"
  shows "map snd (filter (\<lambda>x. line_key x = row_key (line_amount line) (gl_date line)) (keyed_lines lines)) =
    filter (\<lambda>l. line_amount l = line_amount line \<and> gl_date l = gl_date line) lines"
  using assms map_snd_filter_enumerate [of "\<lambda>l. line_amount l = line_amount line \<and> gl_date l = gl_date line" 0 lines]
  by (simp add: keyed_lines_def line_key_def row_key_eq_iff) (metis (mono_tags, lifting) filter_cong)

lemma same_key_cases:
  "map snd (filter (\<lambda>x. case_key x = row_key a d) (keyed_cases cases)) =
    filter (\<lambda>c. bc_amountCents c = a \<and> bc_date c = Some d) cases"
proof -
  have "filter (\<lambda>x. case_key x = row_key a d) (keyed_cases cases) =
      filter (\<lambda>x. bc_amountCents (snd x) = a \<and> bc_date (snd x) = Some d) (List.enumerate 0 cases)"
    unfolding keyed_cases_def case_key_def row_key_eq_iff filter_filter
    by (rule filter_cong) (auto simp: optional_text_def)
  then show ?thesis using map_snd_filter_enumerate [of "\<lambda>c. bc_amountCents c = a \<and> bc_date c = Some d"] by simp
qed

lemma matched_iff:
  assumes "reconcileDeductions lines cases = Inr rows"
  shows "Matched line amount one \<in> set rows \<longleftrightarrow> amount = line_amount line \<and> exact_pair lines cases line one"
proof -
  obtain booksOnly caseOnly where
    b: "map_res (books_only (open_cases lines cases)) (open_lines lines cases) = Inr booksOnly" and
    c: "map_res (case_only (open_lines lines cases)) (open_cases lines cases) = Inr caseOnly" and
    r: "rows = sort_by compare_rows (map matched_row (matched_pairs lines cases)) @ sort_by compare_rows booksOnly @
       sort_by compare_rows caseOnly"
    by (rule reconcile_Inr [OF assms])
  have "Matched line amount one \<in> set rows \<longleftrightarrow>
      (\<exists>p\<in>set (matched_pairs lines cases). Matched line amount one = matched_row p)"
    using books_only_rows [OF b] case_only_rows [OF c] by (fastforce simp: r)
  also have "\<dots> \<longleftrightarrow> amount = line_amount line \<and> exact_pair lines cases line one"
  proof
    assume "\<exists>p\<in>set (matched_pairs lines cases). Matched line amount one = matched_row p"
    then obtain p where p: "p \<in> set (matched_pairs lines cases)" "line = snd (fst p)" "one = snd (snd p)"
      "amount = line_amount line" by (auto simp: matched_row_def)
    note f = p(1) [unfolded matched_pairs_iff]
    have nz: "line_amount line \<noteq> 0"
      using filter_single [OF conjunct1 [OF f]] p(2) by (simp add: keyed_lines_def)
    have k: "line_key (fst p) = row_key (line_amount line) (gl_date line)" using p(2) by (simp add: line_key_def)
    show "amount = line_amount line \<and> exact_pair lines cases line one"
      using f p nz unfolding exact_pair_def k
      by (simp flip: same_key_lines same_key_cases)
  next
    assume *: "amount = line_amount line \<and> exact_pair lines cases line one"
    define k where "k = row_key (line_amount line) (gl_date line)"
    have l: "map snd (filter (\<lambda>x. line_key x = k) (keyed_lines lines)) = [line]"
      and o: "map snd (filter (\<lambda>x. case_key x = k) (keyed_cases cases)) = [one]"
      using * unfolding k_def exact_pair_def by (simp_all add: same_key_lines same_key_cases)
    then obtain i j where ij: "filter (\<lambda>x. line_key x = k) (keyed_lines lines) = [(i, line)]"
      "filter (\<lambda>x. case_key x = k) (keyed_cases cases) = [(j, one)]"
      by (auto simp: map_eq_Cons_conv)
    have "line_key (i, line) = k" by (simp add: line_key_def k_def)
    then have "((i, line), (j, one)) \<in> set (matched_pairs lines cases)"
      using ij by (simp add: matched_pairs_iff)
    then show "\<exists>p\<in>set (matched_pairs lines cases). Matched line amount one = matched_row p"
      using * by (force simp: matched_row_def)
  qed
  finally show ?thesis .
qed

section \<open>The order of the rows\<close>

interpretation line_order: comparator byLine
  unfolding byLine_def
  by (intro comparator_or_else comparator_key comparator_difference)

interpretation case_order: keyed_comparator byCase bc_caseId
proof -
  have "comparator byCase"
    unfolding byCase_def by (intro comparator_or_else comparator_key comparator_difference)
  then show "keyed_comparator byCase bc_caseId"
    by (simp add: keyed_comparator_def keyed_comparator_axioms_def byCase_def)
qed

section \<open>Roles\<close>

lemma receivable_not_deductions:
  "Role_Receivable \<in> set (account_roles posting a) \<Longrightarrow> Role_Deductions \<notin> set (account_roles posting a)"
  by (auto simp: account_roles_def Let_def split: if_splits)

lemma booksAccountRoles_snoc:
  "booksAccountRoles (chart @ [a]) posting =
     (if account_roles posting a \<noteq> [] then AList.update (ga_externalId a) (account_roles posting a) (booksAccountRoles chart posting)
      else booksAccountRoles chart posting)"
  by (simp add: booksAccountRoles_def Let_def)

lemma map_of_booksAccountRoles:
  assumes "distinct (map ga_externalId chart)"
  shows "map_of (booksAccountRoles chart posting) k = Some roles \<longleftrightarrow>
    roles \<noteq> [] \<and> (\<exists>a\<in>set chart. ga_externalId a = k \<and> account_roles posting a = roles)"
  using assms
proof (induction chart arbitrary: k rule: rev_induct)
  case Nil
  then show ?case by (simp add: booksAccountRoles_def)
next
  case (snoc a chart)
  have "map_of (booksAccountRoles chart posting) (ga_externalId a) \<noteq> Some roles"
    using snoc by (auto simp: image_iff)
  then show ?case using snoc by (auto simp: booksAccountRoles_snoc update_conv')
qed

section \<open>Properties\<close>

text \<open>The reconciliation loses nothing and doubles nothing: over all its rows, every ledger line and
  every case given appears exactly once.\<close>

theorem reconciliation_keeps_all:
  assumes "reconcileDeductions lines cases = Inr rows"
  shows "mset (concat (map row_lines rows)) = mset lines \<and> mset (concat (map row_cases rows)) = mset cases"
  using reconcile_keeps_all [OF assms] by simp

definition sample_line :: "string \<Rightarrow> GeneralLedgerLine" where
  "sample_line memo = \<lparr>gl_accountExternalId = Some ''84'', gl_accountName = ''Deductions'',
     gl_date = ''2025-03-01'', gl_transactionType = None, gl_transactionExternalId = None,
     gl_documentNumber = None, gl_name = None, gl_memo = Some memo, gl_debitCents = 50000,
     gl_creditCents = 0, gl_balanceCents = None\<rparr>"

definition sample_book_case :: BooksCase where
  "sample_book_case = \<lparr>bc_caseId = ''d1'', bc_claimId = None, bc_amountCents = 50000, bc_payerName = None,
     bc_date = Some ''2025-03-01''\<rparr>"

lemma sample_amount: "line_amount (sample_line m) = 50000" "gl_date (sample_line m) = ''2025-03-01''"
  "lineAmountCents (sample_line m) = Inr 50000"
  by (simp_all add: line_amount_def sample_line_def lineAmountCents_def subCents_def safe_int_def max_safe_def)

lemma sample_reconciled:
  "reconcileDeductions [sample_line m] [sample_book_case] = Inr [Matched (sample_line m) 50000 sample_book_case]"
proof -
  have "((0, sample_line m), (0, sample_book_case)) \<in> set (matched_pairs [sample_line m] [sample_book_case])"
    by (simp add: matched_pairs_iff keyed_lines_def keyed_cases_def line_key_def case_key_def sample_amount
        optional_text_def) (simp add: sample_book_case_def)
  moreover have "length (matched_pairs [sample_line m] [sample_book_case]) \<le> 1"
    by (simp add: matched_pairs_def Let_def group_by_def keyed_lines_def sample_amount only_pair_def
        split: list.splits)
  ultimately have p: "matched_pairs [sample_line m] [sample_book_case] = [((0, sample_line m), (0, sample_book_case))]"
    by (cases "matched_pairs [sample_line m] [sample_book_case]") auto
  show ?thesis
    by (simp add: reconcileDeductions_def p matched_row_def open_lines_def open_cases_def sample_amount)
qed

theorem reconciliation_keeps_all_witness:
  "mset (concat (map row_lines [Matched (sample_line []) 50000 sample_book_case])) = mset [sample_line []] \<and>
   mset (concat (map row_cases [Matched (sample_line []) 50000 sample_book_case])) = mset [sample_book_case]"
  by (rule reconciliation_keeps_all [OF sample_reconciled])

text \<open>C14: a match is asserted only where it is exact and the only one: a line and a case are matched
  exactly when the line moved that many cents, not zero, on the case's day, and no other line and no
  other case has that amount on that day.\<close>

theorem match_exact_and_only:
  assumes "reconcileDeductions lines cases = Inr rows"
  shows "Matched line amount one \<in> set rows \<longleftrightarrow> amount = line_amount line \<and> exact_pair lines cases line one"
  by (rule matched_iff [OF assms])

theorem match_exact_and_only_witness:
  "Matched (sample_line []) 50000 sample_book_case \<in> set [Matched (sample_line []) 50000 sample_book_case] \<longleftrightarrow>
     50000 = line_amount (sample_line []) \<and>
     exact_pair [sample_line []] [sample_book_case] (sample_line []) sample_book_case"
  by (rule match_exact_and_only [OF sample_reconciled])

text \<open>The answer does depend on the order of the lines where two differ in nothing the comparator
  reads: two lines of one day, amount, account, transaction and document number, told apart by their
  memo only, come back in the order they were given.\<close>

theorem reconciliation_order_dependent:
  "reconcileDeductions [sample_line ''a'', sample_line ''b''] [] \<noteq>
   reconcileDeductions [sample_line ''b'', sample_line ''a''] []"
proof -
  have r: "reconcileDeductions [sample_line m, sample_line n] [] =
      Inr [Books_Only (sample_line m) 50000 [], Books_Only (sample_line n) 50000 []]" for m n
  proof -
    have "p \<notin> set (matched_pairs [sample_line m, sample_line n] [])" for p
      by (simp add: matched_pairs_iff keyed_cases_def)
    then have "matched_pairs [sample_line m, sample_line n] [] = []" by (meson last_in_set)
    moreover have "byLine (sample_line m) (sample_line n) = 0"
      by (simp add: byLine_def sample_line_def line_amount_def)
    ultimately show ?thesis
      by (simp add: reconcileDeductions_def open_lines_def open_cases_def books_only_def sample_amount)
  qed
  show ?thesis unfolding r by (simp add: sample_line_def)
qed

text \<open>Each account of the chart gets exactly its roles, and a receivable is never also a
  deductions account, whatever its name.\<close>

theorem roles_of_accounts:
  assumes "distinct (map ga_externalId chart)"
    and "map_of (booksAccountRoles chart posting) k = Some roles"
  shows "(\<exists>a\<in>set chart. ga_externalId a = k \<and>
      roles = (if ga_accountType a = RECEIVABLE_ACCOUNT_TYPE then [Role_Receivable] else []) @
        (if k \<in> set posting then [Role_Posting] else []) @
        (if ga_accountType a \<noteq> RECEIVABLE_ACCOUNT_TYPE \<and> looksLikeDeductionsAccount a then [Role_Deductions] else [])) \<and>
    \<not> (Role_Receivable \<in> set roles \<and> Role_Deductions \<in> set roles)"
proof -
  obtain a where "a \<in> set chart" "ga_externalId a = k" "roles = account_roles posting a"
    using assms(2) unfolding map_of_booksAccountRoles [OF assms(1)] by blast
  then show ?thesis
    using receivable_not_deductions by (intro conjI bexI [of _ a]) (auto simp: account_roles_def Let_def)
qed

definition sample_account :: LedgerAccount where
  "sample_account = \<lparr>ga_sourceKind = Qbo, ga_externalId = ''84'', ga_code = None, ga_name = ''Promotions'',
     ga_fullyQualifiedName = ''Promotions'', ga_accountType = ''Accounts Receivable'', ga_accountSubType = None,
     ga_classification = None, ga_active = True, ga_currentBalanceCents = None\<rparr>"

theorem roles_of_accounts_witness:
  "\<not> (Role_Receivable \<in> set [Role_Receivable] \<and> Role_Deductions \<in> set [Role_Receivable])"
proof -
  have "map_of (booksAccountRoles [sample_account] []) ''84'' = Some [Role_Receivable]"
    by (simp add: booksAccountRoles_def account_roles_def sample_account_def RECEIVABLE_ACCOUNT_TYPE_def)
  from roles_of_accounts [OF _ this] show ?thesis by simp
qed

end
