(* ===== verification/Identity.thy ===== *)
theory Identity
  imports Calendar JsSort Money
begin

text \<open>
  Identity resolution: \<open>packages/core-domain/src/identity.ts\<close>. Whether an arrival is a deduction
  already held: exact on an identifier of the same kind, probable on invoice number, amount and
  date together, and never a choice between two. The lemmas characterise each answer by the
  deductions that match.
\<close>

section \<open>Names of a deduction\<close>

datatype IdentifierKind =
    Claim_Id | Invoice_Number | Credit_Memo_Id | Edi_812_Reference | Portal_Claim_Id | Ledger_Invoice_Id

primrec kind_text :: "IdentifierKind \<Rightarrow> string" where
  "kind_text Claim_Id = ''claim_id''"
| "kind_text Invoice_Number = ''invoice_number''"
| "kind_text Credit_Memo_Id = ''credit_memo_id''"
| "kind_text Edi_812_Reference = ''edi_812_reference''"
| "kind_text Portal_Claim_Id = ''portal_claim_id''"
| "kind_text Ledger_Invoice_Id = ''ledger_invoice_id''"

definition IDENTIFIER_KINDS :: "IdentifierKind list" where
  "IDENTIFIER_KINDS = [Claim_Id, Invoice_Number, Credit_Memo_Id, Edi_812_Reference, Portal_Claim_Id, Ledger_Invoice_Id]"

definition identifierMatchKey :: "string \<Rightarrow> string" where
  "identifierMatchKey identifier = to_lower (collapse_ws (trim identifier))"

record KnownIdentifier =
  ki_deductionId :: string
  ki_source :: string
  ki_kind :: IdentifierKind
  ki_identifier :: string

record ArrivalIdentity =
  ai_identifiers :: "(IdentifierKind \<times> string) list"
  ai_amountCents :: "int option"
  ai_invoiceNumber :: "string option"
  ai_deductionDate :: "string option"
  ai_debtorId :: "string option"

record KnownDeduction =
  kd_deductionId :: string
  kd_amountCents :: int
  kd_invoiceNumber :: "string option"
  kd_deductionDate :: "string option"
  kd_debtorId :: "string option"

datatype IdentityResolution =
    Exact string KnownIdentifier
  | Probable string "string list"
  | Ambiguous "string list" "string list"
  | No_Match

definition DEFAULT_DATE_TOLERANCE_DAYS :: int where
  "DEFAULT_DATE_TOLERANCE_DAYS = 7"

section \<open>Resolution\<close>

text \<open>\<open>isoDay\<close> keeps a day whose components survive \<open>Date.UTC\<close> and back.\<close>

definition isoDay :: "string \<Rightarrow> int option" where
  "isoDay text = (case iso_parts text of
     None \<Rightarrow> None
   | Some (y, m, d) \<Rightarrow> let utc = date_utc y m d in
       if civil_of_day utc = (y, m, d) then Some utc else None)"

text \<open>The known identifiers the nested loops meet, in order: same kind, same key, key not blank.\<close>

definition exact_hits :: "(IdentifierKind \<times> string) list \<Rightarrow> KnownIdentifier list \<Rightarrow> KnownIdentifier list" where
  "exact_hits arrived known = concat (map (\<lambda>a. let key = identifierMatchKey (snd a) in
     if key = [] then []
     else filter (\<lambda>k. ki_kind k = fst a \<and> identifierMatchKey (ki_identifier k) = key) known) arrived)"

definition probableBasis :: "ArrivalIdentity \<Rightarrow> KnownDeduction \<Rightarrow> int \<Rightarrow> string list option" where
  "probableBasis arrival candidate toleranceDays =
     (case (ai_invoiceNumber arrival, kd_invoiceNumber candidate) of
        (Some ia, Some ic) \<Rightarrow>
          if identifierMatchKey ia = [] then None
          else if identifierMatchKey ia \<noteq> identifierMatchKey ic then None
          else if ai_amountCents arrival = None then None
          else if ai_amountCents arrival \<noteq> Some (kd_amountCents candidate) then None
          else (case (ai_deductionDate arrival, kd_deductionDate candidate) of
            (Some da, Some dc) \<Rightarrow>
              (case (isoDay da, isoDay dc) of
                 (Some a, Some c) \<Rightarrow>
                   if \<bar>a - c\<bar> > toleranceDays then None
                   else let basis = [''invoice_number'', ''amount_cents'', ''deduction_date''] in
                     (case (ai_debtorId arrival, kd_debtorId candidate) of
                        (Some x, Some y) \<Rightarrow> if x \<noteq> y then None else Some (basis @ [''debtor_id''])
                      | _ \<Rightarrow> Some basis)
               | _ \<Rightarrow> None)
          | _ \<Rightarrow> None)
      | _ \<Rightarrow> None)"

definition PROBABLE_BASIS_ORDER :: "string list" where
  "PROBABLE_BASIS_ORDER = [''invoice_number'', ''amount_cents'', ''deduction_date'', ''debtor_id'']"

definition resolve_exact :: "KnownIdentifier list \<Rightarrow> IdentityResolution option" where
  "resolve_exact hits = (case first_by ki_deductionId hits of
     [] \<Rightarrow> None
   | [k] \<Rightarrow> Some (Exact (ki_deductionId k) k)
   | ks \<Rightarrow> Some (Ambiguous (sort_by compare_text (map ki_deductionId ks))
            (sort_by compare_text (map kind_text (dedupe (map ki_kind hits))))))"

definition resolve_probable :: "(KnownDeduction \<times> string list) list \<Rightarrow> IdentityResolution" where
  "resolve_probable probable = (case probable of
     [] \<Rightarrow> No_Match
   | [(c, basis)] \<Rightarrow> Probable (kd_deductionId c) basis
   | ps \<Rightarrow> Ambiguous (sort_by compare_text (map (kd_deductionId \<circ> fst) ps))
            (filter (\<lambda>name. name \<in> set (concat (map snd ps))) PROBABLE_BASIS_ORDER))"

definition probable_list :: "ArrivalIdentity \<Rightarrow> KnownDeduction list \<Rightarrow> int \<Rightarrow> (KnownDeduction \<times> string list) list" where
  "probable_list arrival known toleranceDays = concat (map (\<lambda>c.
     case probableBasis arrival c toleranceDays of None \<Rightarrow> [] | Some basis \<Rightarrow> [(c, basis)]) known)"

definition resolveIdentity ::
  "ArrivalIdentity \<Rightarrow> KnownIdentifier list \<Rightarrow> KnownDeduction list \<Rightarrow> js_number option \<Rightarrow> IdentityResolution res" where
  "resolveIdentity arrival knownIdentifiers knownDeductions dateToleranceDays =
     (case (case dateToleranceDays of None \<Rightarrow> Whole DEFAULT_DATE_TOLERANCE_DAYS | Some n \<Rightarrow> n) of
        NotWhole \<Rightarrow> Inl (IdentityError ''dateToleranceDays'')
      | Whole toleranceDays \<Rightarrow>
          if toleranceDays < 0 then Inl (IdentityError ''dateToleranceDays'')
          else (case resolve_exact (exact_hits (ai_identifiers arrival) knownIdentifiers) of
              Some r \<Rightarrow> Inr r
            | None \<Rightarrow> Inr (resolve_probable (probable_list arrival knownDeductions toleranceDays))))"

section \<open>What each answer means\<close>

text \<open>Two writings of one name: the same key, and a key that is not blank.\<close>

definition same_name :: "IdentifierKind \<times> string \<Rightarrow> KnownIdentifier \<Rightarrow> bool" where
  "same_name a k \<longleftrightarrow> ki_kind k = fst a \<and> identifierMatchKey (snd a) \<noteq> [] \<and>
     identifierMatchKey (ki_identifier k) = identifierMatchKey (snd a)"

definition exact_matches :: "ArrivalIdentity \<Rightarrow> KnownIdentifier list \<Rightarrow> string set" where
  "exact_matches arrival known =
     {ki_deductionId k | k. k \<in> set known \<and> (\<exists>a\<in>set (ai_identifiers arrival). same_name a k)}"

lemma exact_hits_set:
  "set (exact_hits arrived known) = {k \<in> set known. \<exists>a\<in>set arrived. same_name a k}"
  by (auto simp: exact_hits_def same_name_def Let_def)

lemma exact_matches_hits:
  "exact_matches arrival known = ki_deductionId ` set (exact_hits (ai_identifiers arrival) known)"
  by (auto simp: exact_matches_def exact_hits_set)

lemma resolve_exact_None: "resolve_exact hits = None \<longleftrightarrow> hits = []"
  by (cases hits) (auto simp: resolve_exact_def split: list.splits)

lemma resolve_exact_Exact:
  "resolve_exact hits = Some (Exact d k) \<Longrightarrow> ki_deductionId ` set hits = {d} \<and> k \<in> set hits \<and> ki_deductionId k = d"
proof -
  assume "resolve_exact hits = Some (Exact d k)"
  then have f: "first_by ki_deductionId hits = [k]" "d = ki_deductionId k"
    by (auto simp: resolve_exact_def split: list.splits)
  then show ?thesis
    using key_first_by [of ki_deductionId hits] first_by_subset [of ki_deductionId hits] by auto
qed

lemma resolve_exact_Ambiguous:
  assumes "resolve_exact hits = Some (Ambiguous ids basis)"
  shows "set ids = ki_deductionId ` set hits" "2 \<le> length ids" "distinct ids"
    "set basis = kind_text ` ki_kind ` set hits"
proof -
  define ks where "ks = first_by ki_deductionId hits"
  from assms have "2 \<le> length ks" "ids = sort_by compare_text (map ki_deductionId ks)"
    "basis = sort_by compare_text (map kind_text (dedupe (map ki_kind hits)))"
    unfolding resolve_exact_def ks_def [symmetric] by (auto split: list.splits)
  then show "set ids = ki_deductionId ` set hits" "2 \<le> length ids" "distinct ids"
    "set basis = kind_text ` ki_kind ` set hits"
    using key_first_by [of ki_deductionId hits] distinct_first_by [of ki_deductionId hits]
    unfolding ks_def by (auto simp: image_image)
qed

lemma resolve_exact_cases:
  "resolve_exact hits = Some r \<Longrightarrow> (\<exists>d k. r = Exact d k) \<or> (\<exists>ids basis. r = Ambiguous ids basis)"
  by (auto simp: resolve_exact_def split: list.splits)

lemma exact_iff:
  assumes "resolveIdentity arrival known deductions tol = Inr r"
  shows "(\<exists>k. r = Exact d k) \<longleftrightarrow> exact_matches arrival known = {d}"
proof -
  define hits where "hits = exact_hits (ai_identifiers arrival) known"
  have m: "exact_matches arrival known = ki_deductionId ` set hits"
    by (simp add: exact_matches_hits hits_def)
  show ?thesis
  proof (cases "resolve_exact hits")
    case None
    then have "hits = []" by (simp add: resolve_exact_None)
    moreover have "r \<noteq> Exact d k" for k
      using assms None unfolding resolveIdentity_def hits_def [symmetric]
      by (auto simp: resolve_probable_def split: js_number.splits if_splits list.splits option.splits)
    ultimately show ?thesis unfolding m by auto
  next
    case (Some x)
    then have r: "r = x" using assms unfolding resolveIdentity_def hits_def [symmetric]
      by (auto split: js_number.splits if_splits)
    from resolve_exact_cases [OF Some] show ?thesis
    proof
      assume "\<exists>d k. x = Exact d k"
      then show ?thesis using resolve_exact_Exact [of hits] Some r m by auto
    next
      assume "\<exists>ids basis. x = Ambiguous ids basis"
      then obtain ids basis where x: "x = Ambiguous ids basis" by blast
      have "ki_deductionId ` set hits \<noteq> {d}"
      proof
        assume "ki_deductionId ` set hits = {d}"
        then have "set ids = {d}" "2 \<le> length ids" "distinct ids"
          using resolve_exact_Ambiguous [of hits ids basis] Some x by auto
        then show False using distinct_card [of ids] by simp
      qed
      then show ?thesis unfolding m using r x by simp
    qed
  qed
qed

lemma no_exact:
  assumes "resolveIdentity arrival known deductions tol = Inr r" "exact_matches arrival known = {}"
  shows "\<exists>n\<ge>0. (case tol of None \<Rightarrow> n = DEFAULT_DATE_TOLERANCE_DAYS | Some t \<Rightarrow> t = Whole n) \<and>
    r = resolve_probable (probable_list arrival deductions n)"
proof -
  have "exact_hits (ai_identifiers arrival) known = []"
    using assms(2) unfolding exact_matches_hits by simp
  then have "resolve_exact (exact_hits (ai_identifiers arrival) known) = None" by (simp add: resolve_exact_None)
  then show ?thesis using assms(1) unfolding resolveIdentity_def
    by (auto simp: DEFAULT_DATE_TOLERANCE_DAYS_def split: js_number.splits if_splits option.splits)
qed

lemma probable_list_fst:
  "map fst (probable_list arrival known n) = filter (\<lambda>c. probableBasis arrival c n \<noteq> None) known"
  by (induction known) (auto simp: probable_list_def split: option.splits)

lemma resolve_probable_Probable:
  "resolve_probable ps = Probable d basis \<longleftrightarrow> (\<exists>c. ps = [(c, basis)] \<and> kd_deductionId c = d)"
  by (auto simp: resolve_probable_def split: list.splits prod.splits)

text \<open>What a probable answer rests on.\<close>

lemma probableBasis_Some:
  assumes "probableBasis arrival c n = Some basis"
  shows "ai_amountCents arrival = Some (kd_amountCents c)"
    "\<exists>i j. ai_invoiceNumber arrival = Some i \<and> kd_invoiceNumber c = Some j \<and>
       identifierMatchKey i = identifierMatchKey j \<and> identifierMatchKey i \<noteq> []"
    "\<exists>s t a b. ai_deductionDate arrival = Some s \<and> kd_deductionDate c = Some t \<and>
       isoDay s = Some a \<and> isoDay t = Some b \<and> \<bar>a - b\<bar> \<le> n"
    "ai_debtorId arrival = None \<or> kd_debtorId c = None \<or> ai_debtorId arrival = kd_debtorId c"
  using assms unfolding probableBasis_def Let_def
  by (auto split: option.splits if_splits)

text \<open>A day that survives the round trip through \<open>Date.UTC\<close> is a real calendar day.\<close>

lemma isoDay_real: "isoDay s = Some n \<Longrightarrow> iso_day s = Some n"
proof -
  assume "isoDay s = Some n"
  then obtain y m d where p: "iso_parts s = Some (y, m, d)" "n = date_utc y m d" "civil_of_day n = (y, m, d)"
    by (auto simp: isoDay_def Let_def split: option.splits if_splits)
  then show "iso_day s = Some n"
    using valid_civil_of_day [OF p(3)] day_of_civil_of_day [OF p(3)] by (simp add: iso_day_def)
qed

lemma isoDay_day: "iso_parts s = Some (y, m, d) \<Longrightarrow> 100 \<le> y \<Longrightarrow> valid_civil y m d \<Longrightarrow> isoDay s = Some (day_of_civil y m d)"
  using civil_of_day_of_civil [of y m d]
  by (simp add: isoDay_def date_utc_def Let_def valid_civil_def mod_pos_pos_trivial day_of_civil_def)

section \<open>Properties\<close>

text \<open>C29: an arrival resolves to a deduction without a person exactly when that deduction, and no other,
  carries one of the arrival's identifiers: the same kind and the same key. Any other answer is a
  question or a new deduction.\<close>

theorem exact_resolution:
  assumes "resolveIdentity arrival known deductions tol = Inr r"
  shows "(\<exists>k. r = Exact d k) \<longleftrightarrow> exact_matches arrival known = {d}"
  by (rule exact_iff [OF assms])

definition sample_arrival :: ArrivalIdentity where
  "sample_arrival = \<lparr>ai_identifiers = [(Claim_Id, ''A 1'')], ai_amountCents = Some 500,
     ai_invoiceNumber = Some ''9'', ai_deductionDate = Some ''2025-03-01'', ai_debtorId = None\<rparr>"

definition sample_known :: "KnownIdentifier" where
  "sample_known = \<lparr>ki_deductionId = ''d1'', ki_source = ''notice'', ki_kind = Claim_Id, ki_identifier = '' a  1''\<rparr>"

definition sample_held :: "string \<Rightarrow> KnownDeduction" where
  "sample_held k = \<lparr>kd_deductionId = k, kd_amountCents = 500, kd_invoiceNumber = Some ''9'',
     kd_deductionDate = Some ''2025-03-05'', kd_debtorId = Some ''x''\<rparr>"

theorem exact_resolution_witness:
  "(\<exists>k. Exact ''d1'' sample_known = Exact ''d1'' k) \<longleftrightarrow> exact_matches sample_arrival [sample_known] = {''d1''}"
proof (rule exact_resolution)
  have "exact_hits (ai_identifiers sample_arrival) [sample_known] = [sample_known]"
    by code_simp
  then show "resolveIdentity sample_arrival [sample_known] [] None = Inr (Exact ''d1'' sample_known)"
    by (simp add: resolveIdentity_def DEFAULT_DATE_TOLERANCE_DAYS_def resolve_exact_def sample_known_def)
qed

text \<open>A probable answer is given only when no identifier matches at all, and for one held deduction
  alone: the same amount to the cent, the same invoice number, real dates within the tolerance, and
  no two debtors that differ. Two such deductions are never a choice.\<close>

theorem probable_resolution:
  assumes "resolveIdentity arrival known deductions tol = Inr (Probable d basis)"
  shows "exact_matches arrival known = {} \<and>
    (\<exists>c n. kd_deductionId c = d \<and>
      filter (\<lambda>x. probableBasis arrival x n \<noteq> None) deductions = [c] \<and>
      ai_amountCents arrival = Some (kd_amountCents c) \<and>
      (\<exists>s t a b. ai_deductionDate arrival = Some s \<and> kd_deductionDate c = Some t \<and>
         iso_day s = Some a \<and> iso_day t = Some b \<and> \<bar>a - b\<bar> \<le> n) \<and>
      n = (case tol of None \<Rightarrow> 7 | Some (Whole v) \<Rightarrow> v | Some NotWhole \<Rightarrow> 0))"
proof -
  have none: "exact_matches arrival known = {}"
  proof (rule ccontr)
    assume "exact_matches arrival known \<noteq> {}"
    then have "resolve_exact (exact_hits (ai_identifiers arrival) known) \<noteq> None"
      by (simp add: resolve_exact_None exact_matches_hits)
    then obtain x where x: "resolve_exact (exact_hits (ai_identifiers arrival) known) = Some x" by blast
    then show False using assms resolve_exact_cases [OF x]
      by (auto simp: resolveIdentity_def split: js_number.splits if_splits option.splits)
  qed
  obtain n where n: "case tol of None \<Rightarrow> n = DEFAULT_DATE_TOLERANCE_DAYS | Some t \<Rightarrow> t = Whole n"
    and r: "resolve_probable (probable_list arrival deductions n) = Probable d basis"
    using no_exact [OF assms none] by metis
  obtain c where c: "probable_list arrival deductions n = [(c, basis)]" "kd_deductionId c = d"
    using r unfolding resolve_probable_Probable by blast
  have one: "filter (\<lambda>x. probableBasis arrival x n \<noteq> None) deductions = [c]"
    using probable_list_fst [of arrival deductions n] c(1) by simp
  then have "c \<in> set (filter (\<lambda>x. probableBasis arrival x n \<noteq> None) deductions)" by simp
  then obtain b where b: "probableBasis arrival c n = Some b" by auto
  have tn: "n = (case tol of None \<Rightarrow> 7 | Some (Whole v) \<Rightarrow> v | Some NotWhole \<Rightarrow> 0)"
    using n by (auto simp: DEFAULT_DATE_TOLERANCE_DAYS_def split: option.splits)
  show ?thesis using none c(2) one probableBasis_Some(1,3) [OF b] isoDay_real tn by blast
qed

theorem probable_resolution_witness:
  "exact_matches sample_arrival [] = {}"
proof -
  have days: "isoDay ''2025-03-01'' = Some 20148" "isoDay ''2025-03-05'' = Some 20152"
    using isoDay_day [of "''2025-03-01''" 2025 3 1] isoDay_day [of "''2025-03-05''" 2025 3 5] by (simp_all add: iso_eval)
  have "probableBasis sample_arrival (sample_held ''d7'') 7 =
      Some [''invoice_number'', ''amount_cents'', ''deduction_date'']"
    by (simp add: probableBasis_def sample_arrival_def sample_held_def days identifierMatchKey_def
        trim_no_ws collapse_ws_id is_ws_def code_unit_def)
  then have p: "probable_list sample_arrival [sample_held ''d7''] 7 =
      [(sample_held ''d7'', [''invoice_number'', ''amount_cents'', ''deduction_date''])]"
    by (simp add: probable_list_def)
  have "exact_hits (ai_identifiers sample_arrival) [] = []" by (auto simp: exact_hits_def Let_def)
  then have "resolveIdentity sample_arrival [] [sample_held ''d7''] None =
      Inr (Probable ''d7'' [''invoice_number'', ''amount_cents'', ''deduction_date''])"
    by (simp add: resolveIdentity_def DEFAULT_DATE_TOLERANCE_DAYS_def resolve_exact_def p resolve_probable_def)
      (simp add: sample_held_def)
  from probable_resolution [OF this] show ?thesis by blast
qed

end
