(* ===== verification/Triage.thy ===== *)
theory Triage
  imports Identity Short_Pay Invariants
begin

text \<open>
  Triage over short-pay candidates: \<open>packages/core-domain/src/triage.ts\<close>. Identity first, then
  the floor. The lemmas show which candidates are skipped, declined and opened, and that only an
  exact match drops one.
\<close>

datatype TriageDeclineReason = Below_Economic_Floor | Duplicate_Of_Other

datatype TriageDecision =
    Open_Case "(string \<times> string list) option"
  | Skip_Exact_Match string IdentifierKind
  | Decline TriageDeclineReason string int

text \<open>The floor: the number rounded up where it is finite and positive, else none.\<close>

definition dispute_floor :: "js_double \<Rightarrow> int" where
  "dispute_floor minDisputeCents = (case minDisputeCents of
     Finite x \<Rightarrow> if x > 0 then \<lceil>x\<rceil> else 0
   | _ \<Rightarrow> 0)"

definition triageCandidate :: "ShortPayCandidate \<Rightarrow> IdentityResolution \<Rightarrow> js_double \<Rightarrow> TriageDecision" where
  "triageCandidate candidate resolution minDisputeCents =
     (case resolution of
        Exact d matchedOn \<Rightarrow> Skip_Exact_Match d (ki_kind matchedOn)
      | Ambiguous ids basis \<Rightarrow> Decline Duplicate_Of_Other
          (''matches more than one deduction we already hold ('' @ join '', '' ids @ '') on '' @
           join '', '' basis @ ''; merging them is identity resolution's job'')
          (sc_gapCents candidate)
      | _ \<Rightarrow>
          let floor = dispute_floor minDisputeCents in
          if sc_gapCents candidate < floor then Decline Below_Economic_Floor
            (''the gap of '' @ int_text (sc_gapCents candidate) @ '' cents is below the '' @
             int_text floor @ ''-cent dispute floor'')
            (sc_gapCents candidate)
          else (case resolution of
              Probable d basis \<Rightarrow> Open_Case (Some (d, basis))
            | _ \<Rightarrow> Open_Case None))"

lemma triage_cases:
  "triageCandidate c r m = Skip_Exact_Match d k \<longleftrightarrow> (\<exists>on. r = Exact d on \<and> ki_kind on = k)"
  "triageCandidate c r m = Open_Case dup \<longleftrightarrow> dispute_floor m \<le> sc_gapCents c \<and>
     (r = No_Match \<and> dup = None \<or> (\<exists>d basis. r = Probable d basis \<and> dup = Some (d, basis)))"
  "triageCandidate c r m = Decline reason detail worth \<Longrightarrow> worth = sc_gapCents c"
  by (auto simp: triageCandidate_def Let_def split: IdentityResolution.splits if_splits)

lemma dispute_floor_le: "0 \<le> g \<Longrightarrow> dispute_floor (Finite x) \<le> g \<longleftrightarrow> x \<le> of_int g"
proof (cases "x > 0")
  case False
  assume "0 \<le> g"
  then have "x \<le> of_int g" using False by (meson linorder_not_less of_int_0_le_iff order_trans)
  then show ?thesis using False \<open>0 \<le> g\<close> by (simp add: dispute_floor_def)
qed (simp add: dispute_floor_def ceiling_le_iff)

section \<open>Properties\<close>

text \<open>Triage never drops a deduction it is not sure it holds: a candidate is skipped exactly when one
  held deduction alone carries one of its identifiers, a case is opened exactly when the resolution is
  neither exact nor ambiguous and the gap reaches the floor, and a decline records the whole gap.\<close>

theorem triage_keeps_deductions:
  assumes "resolveIdentity arrival known deductions tol = Inr r" "0 \<le> sc_gapCents c"
  shows "((\<exists>d k. triageCandidate c r (Finite x) = Skip_Exact_Match d k) \<longleftrightarrow> (\<exists>d. exact_matches arrival known = {d})) \<and>
    ((\<exists>dup. triageCandidate c r (Finite x) = Open_Case dup) \<longleftrightarrow>
       (r = No_Match \<or> (\<exists>d basis. r = Probable d basis)) \<and> x \<le> of_int (sc_gapCents c)) \<and>
    (\<forall>reason detail worth. triageCandidate c r (Finite x) = Decline reason detail worth \<longrightarrow> worth = sc_gapCents c)"
proof -
  have "(\<exists>d k. triageCandidate c r (Finite x) = Skip_Exact_Match d k) \<longleftrightarrow> (\<exists>d k. r = Exact d k)"
    by (auto simp: triage_cases(1))
  moreover have "(\<exists>dup. triageCandidate c r (Finite x) = Open_Case dup) \<longleftrightarrow>
       (r = No_Match \<or> (\<exists>d basis. r = Probable d basis)) \<and> x \<le> of_int (sc_gapCents c)"
    using dispute_floor_le [OF assms(2)] by (auto simp: triage_cases(2))
  moreover have "(\<exists>d k. r = Exact d k) \<longleftrightarrow> (\<exists>d. exact_matches arrival known = {d})"
    by (simp only: exact_iff [OF assms(1)])
  moreover have "\<forall>reason detail worth. triageCandidate c r (Finite x) = Decline reason detail worth \<longrightarrow>
      worth = sc_gapCents c" using triage_cases(3) by blast
  ultimately show ?thesis by simp
qed

definition sample_candidate :: ShortPayCandidate where
  "sample_candidate = candidate_of sample_invoice emptyTally 800000"

definition blank_arrival :: ArrivalIdentity where
  "blank_arrival = \<lparr>ai_identifiers = [], ai_amountCents = None, ai_invoiceNumber = None,
     ai_deductionDate = None, ai_debtorId = None\<rparr>"

theorem triage_keeps_deductions_witness:
  "\<exists>dup. triageCandidate sample_candidate No_Match (Finite 2500) = Open_Case dup"
proof -
  have "resolveIdentity blank_arrival [] [] None = Inr No_Match"
    by (simp add: resolveIdentity_def DEFAULT_DATE_TOLERANCE_DAYS_def exact_hits_def resolve_exact_def
        blank_arrival_def probable_list_def resolve_probable_def)
  from triage_keeps_deductions [OF this, of sample_candidate 2500] show ?thesis
    by (simp add: sample_candidate_def candidate_of_def)
qed

end
