(* ===== verification/Sizing.thy ===== *)
theory Sizing
  imports Books Dates
begin

text \<open>
  Deductions beside sales: \<open>packages/core-domain/src/sizing.ts\<close>. Every line of a profit and loss is
  joined to the chart and counted once: as sales, other income, a deduction on one side, outside
  the card, or unmatched with a reason. The lemmas show what each figure is the sum of, and that
  the rate is exact to half a basis point.
\<close>

section \<open>Rows\<close>

record ProfitAndLossLine =
  pl_accountExternalId :: "string option"
  pl_accountName :: string
  pl_section :: string
  pl_amountCents :: int

record ProfitAndLoss =
  pnl_sourceKind :: AccountingSourceKind
  pnl_window :: LedgerWindow
  pnl_basis :: "string option"
  pnl_currency :: "string option"
  pnl_lines :: "ProfitAndLossLine list"

definition SIZING_WINDOW_DAYS :: int where "SIZING_WINDOW_DAYS = 365"

definition REVENUE_CLASSIFICATION :: string where "REVENUE_CLASSIFICATION = ''Revenue''"

definition EXPENSE_CLASSIFICATION :: string where "EXPENSE_CLASSIFICATION = ''Expense''"

definition BALANCE_SHEET_CLASSIFICATIONS :: "string list" where
  "BALANCE_SHEET_CLASSIFICATIONS = [''Asset'', ''Liability'']"

definition SALES_SECTION :: string where "SALES_SECTION = ''Income''"

definition UNDEPOSITED_FUNDS_SUBTYPE :: string where "UNDEPOSITED_FUNDS_SUBTYPE = ''UndepositedFunds''"

definition sizing_dayNumber :: "string \<Rightarrow> int res" where
  "sizing_dayNumber day = (case iso_parts day of
     None \<Rightarrow> Inl (RangeError ''a sizing date is YYYY-MM-DD'')
   | Some (y, m, d) \<Rightarrow> Inr (date_utc y m d))"

definition sizingWindow :: "string \<Rightarrow> LedgerWindow res" where
  "sizingWindow today = bind_res (sizing_dayNumber today) (\<lambda>day.
     Inr \<lparr>win_from = iso_of_day (day - (SIZING_WINDOW_DAYS - 1)), win_to = today\<rparr>)"

datatype Side = Side_Revenue | Side_Expense

record SizingContribution =
  con_account :: LedgerAccount
  con_side :: Side
  con_amountCents :: int

record SizingBalance =
  bal_account :: LedgerAccount
  bal_balanceCents :: "int option"

datatype UnmatchedReason = No_Account_Id | Not_In_Chart | Not_Revenue_Or_Expense

record DeductionsSizing =
  siz_window :: LedgerWindow
  siz_basis :: "string option"
  siz_currency :: "string option"
  siz_grossSalesCents :: int
  siz_otherIncomeCents :: int
  siz_revenueDeductionsCents :: int
  siz_expenseDeductionsCents :: int
  siz_deductionsCents :: int
  siz_bps :: "int option"
  siz_contributions :: "SizingContribution list"
  siz_unmatchedLines :: "(ProfitAndLossLine \<times> UnmatchedReason) list"
  siz_receivable :: "SizingBalance list"
  siz_receivableTotalCents :: "int option"
  siz_undepositedFunds :: "SizingBalance list"
  siz_deductionBalances :: "(SizingBalance \<times> bool) list"

section \<open>Rates\<close>

definition rateBps :: "int \<Rightarrow> int \<Rightarrow> int res" where
  "rateBps part whole =
     (if whole \<le> 0 then Inl (RangeError ''a rate is taken over a positive whole'')
      else if part < 0 then Inl (RangeError ''a rate is taken of an amount that is not negative'')
      else let numerator = part * 10000; denominator = whole in
        Inr ((numerator * 2 + denominator) div (denominator * 2)))"

definition formatBps :: "int \<Rightarrow> string" where
  "formatBps value =
     (let negative = value < 0;
          magnitude = (if negative then - value else value);
          whole = magnitude div 100;
          fraction = pad_start 2 CHR ''0'' (nat_text (nat (magnitude mod 100)))
      in (if negative then ''-'' else []) @ thousands (nat whole) @ ''.'' @ fraction @ ''%'')"

section \<open>The figures\<close>

definition isReceivable :: "LedgerAccount \<Rightarrow> bool" where
  "isReceivable a \<longleftrightarrow> ga_accountType a = RECEIVABLE_ACCOUNT_TYPE"

definition isDeductions :: "LedgerAccount \<Rightarrow> bool" where
  "isDeductions a \<longleftrightarrow> \<not> isReceivable a \<and> looksLikeDeductionsAccount a"

definition abs_cents :: "int \<Rightarrow> int res" where
  "abs_cents amount = (if amount < 0 then cents_of (- amount) else Inr amount)"

record sizing_sums =
  ss_gross :: int
  ss_other :: int
  ss_revenue :: int
  ss_expense :: int
  ss_perAccount :: "(string \<times> SizingContribution) list"
  ss_unmatched :: "(ProfitAndLossLine \<times> UnmatchedReason) list"

definition account_side :: "LedgerAccount \<Rightarrow> Side option" where
  "account_side a =
     (if ga_classification a = Some REVENUE_CLASSIFICATION then Some Side_Revenue
      else if ga_classification a = Some EXPENSE_CLASSIFICATION then Some Side_Expense
      else None)"

definition chart_by_id :: "LedgerAccount list \<Rightarrow> string \<Rightarrow> LedgerAccount option" where
  "chart_by_id chart k = map_of (last_wins (map (\<lambda>a. (ga_externalId a, a)) chart)) k"

definition count_deduction ::
  "LedgerAccount \<Rightarrow> Side \<Rightarrow> ProfitAndLossLine \<Rightarrow> sizing_sums \<Rightarrow> sizing_sums res" where
  "count_deduction a side line s =
     bind_res (case side of
         Side_Revenue \<Rightarrow> bind_res (addCents (ss_revenue s) (pl_amountCents line)) (\<lambda>v. Inr (s\<lparr>ss_revenue := v\<rparr>))
       | Side_Expense \<Rightarrow> bind_res (addCents (ss_expense s) (pl_amountCents line)) (\<lambda>v. Inr (s\<lparr>ss_expense := v\<rparr>)))
       (\<lambda>s'. bind_res (addCents (case map_of (ss_perAccount s) (ga_externalId a) of
             None \<Rightarrow> 0 | Some seen \<Rightarrow> con_amountCents seen) (pl_amountCents line)) (\<lambda>v.
           Inr (s'\<lparr>ss_perAccount := AList.update (ga_externalId a)
             \<lparr>con_account = a, con_side = side, con_amountCents = v\<rparr> (ss_perAccount s)\<rparr>)))"

definition count_line :: "LedgerAccount list \<Rightarrow> sizing_sums \<Rightarrow> ProfitAndLossLine \<Rightarrow> sizing_sums res" where
  "count_line chart s line =
     (let unmatched = (\<lambda>reason. Inr (s\<lparr>ss_unmatched := ss_unmatched s @ [(line, reason)]\<rparr>)) in
      case pl_accountExternalId line of
        None \<Rightarrow> unmatched No_Account_Id
      | Some k \<Rightarrow> (case chart_by_id chart k of
          None \<Rightarrow> unmatched Not_In_Chart
        | Some a \<Rightarrow> (case account_side a of
            None \<Rightarrow> unmatched Not_Revenue_Or_Expense
          | Some side \<Rightarrow>
            if \<not> isDeductions a then
              (if side = Side_Revenue then
                 (if pl_section line = SALES_SECTION
                  then bind_res (addCents (ss_gross s) (pl_amountCents line)) (\<lambda>v. Inr (s\<lparr>ss_gross := v\<rparr>))
                  else bind_res (addCents (ss_other s) (pl_amountCents line)) (\<lambda>v. Inr (s\<lparr>ss_other := v\<rparr>)))
               else Inr s)
            else count_deduction a side line s)))"

definition compare_contributions :: "SizingContribution \<Rightarrow> SizingContribution \<Rightarrow> int" where
  "compare_contributions a b =
     or_else (if con_side a = con_side b then 0 else if con_side a = Side_Revenue then -1 else 1)
    (or_else (compare_text (ga_fullyQualifiedName (con_account a)) (ga_fullyQualifiedName (con_account b)))
       (compare_text (ga_externalId (con_account a)) (ga_externalId (con_account b))))"

definition balanceOf :: "LedgerAccount \<Rightarrow> SizingBalance" where
  "balanceOf a = \<lparr>bal_account = a, bal_balanceCents = ga_currentBalanceCents a\<rparr>"

definition receivable_total :: "SizingBalance list \<Rightarrow> int option res" where
  "receivable_total receivable =
     (if list_all (\<lambda>b. bal_balanceCents b \<noteq> None) receivable
      then bind_res (sumCents (map (\<lambda>b. case bal_balanceCents b of None \<Rightarrow> 0 | Some v \<Rightarrow> v) receivable)) (\<lambda>v.
        Inr (if receivable = [] then None else Some v))
      else Inr None)"

definition deduction_balance_account :: "string list \<Rightarrow> LedgerAccount \<Rightarrow> bool" where
  "deduction_balance_account posting a \<longleftrightarrow>
     \<not> isReceivable a \<and> ga_accountSubType a \<noteq> Some UNDEPOSITED_FUNDS_SUBTYPE \<and>
     (case ga_classification a of None \<Rightarrow> False | Some c \<Rightarrow> c \<in> set BALANCE_SHEET_CLASSIFICATIONS) \<and>
     (ga_externalId a \<in> set posting \<or> looksLikeDeductionsAccount a)"

definition no_sums :: sizing_sums where
  "no_sums = \<lparr>ss_gross = 0, ss_other = 0, ss_revenue = 0, ss_expense = 0, ss_perAccount = [], ss_unmatched = []\<rparr>"

definition deductionsSizing :: "LedgerAccount list \<Rightarrow> ProfitAndLoss \<Rightarrow> string list \<Rightarrow> DeductionsSizing res" where
  "deductionsSizing chart pnl postingAccountIds =
     bind_res (fold_res (count_line chart) no_sums (pnl_lines pnl)) (\<lambda>s.
     bind_res (abs_cents (ss_revenue s)) (\<lambda>r.
     bind_res (abs_cents (ss_expense s)) (\<lambda>e.
     bind_res (addCents r e) (\<lambda>deductions.
     let receivable = map balanceOf (filter isReceivable chart) in
     bind_res (receivable_total receivable) (\<lambda>receivableTotal.
     bind_res (if ss_gross s > 0 then map_sum id Some (rateBps deductions (ss_gross s)) else Inr None) (\<lambda>rate.
       Inr \<lparr>siz_window = pnl_window pnl, siz_basis = pnl_basis pnl, siz_currency = pnl_currency pnl,
            siz_grossSalesCents = ss_gross s, siz_otherIncomeCents = ss_other s,
            siz_revenueDeductionsCents = ss_revenue s, siz_expenseDeductionsCents = ss_expense s,
            siz_deductionsCents = deductions, siz_bps = rate,
            siz_contributions = sort_by compare_contributions (map snd (ss_perAccount s)),
            siz_unmatchedLines = ss_unmatched s,
            siz_receivable = receivable, siz_receivableTotalCents = receivableTotal,
            siz_undepositedFunds = map balanceOf
              (filter (\<lambda>a. ga_accountSubType a = Some UNDEPOSITED_FUNDS_SUBTYPE) chart),
            siz_deductionBalances = map (\<lambda>a. (balanceOf a, ga_externalId a \<in> set postingAccountIds))
              (filter (deduction_balance_account postingAccountIds) chart)\<rparr>))))))"

section \<open>What each figure is the sum of\<close>

datatype LineClass =
    Sale | Other_Income | Deduction Side string | Outside | Unmatched UnmatchedReason

definition line_class :: "LedgerAccount list \<Rightarrow> ProfitAndLossLine \<Rightarrow> LineClass" where
  "line_class chart line = (case pl_accountExternalId line of
     None \<Rightarrow> Unmatched No_Account_Id
   | Some k \<Rightarrow> (case chart_by_id chart k of
       None \<Rightarrow> Unmatched Not_In_Chart
     | Some a \<Rightarrow> (case account_side a of
         None \<Rightarrow> Unmatched Not_Revenue_Or_Expense
       | Some side \<Rightarrow>
           if isDeductions a then Deduction side (ga_externalId a)
           else if side = Side_Revenue then (if pl_section line = SALES_SECTION then Sale else Other_Income)
           else Outside)))"

definition class_sum :: "LedgerAccount list \<Rightarrow> (LineClass \<Rightarrow> bool) \<Rightarrow> ProfitAndLossLine list \<Rightarrow> int" where
  "class_sum chart P lines = (\<Sum>l\<leftarrow>lines. if P (line_class chart l) then pl_amountCents l else 0)"

definition class_unmatched :: "LedgerAccount list \<Rightarrow> ProfitAndLossLine list \<Rightarrow> (ProfitAndLossLine \<times> UnmatchedReason) list" where
  "class_unmatched chart lines = concat (map (\<lambda>l. case line_class chart l of
     Unmatched reason \<Rightarrow> [(l, reason)] | _ \<Rightarrow> []) lines)"

abbreviation per_account :: "sizing_sums \<Rightarrow> string \<Rightarrow> int" where
  "per_account s k \<equiv> (case map_of (ss_perAccount s) k of None \<Rightarrow> 0 | Some c \<Rightarrow> con_amountCents c)"

lemma count_line_effect:
  assumes "count_line chart s l = Inr t"
  shows "ss_gross t = ss_gross s + class_sum chart (\<lambda>c. c = Sale) [l]"
    "ss_other t = ss_other s + class_sum chart (\<lambda>c. c = Other_Income) [l]"
    "ss_revenue t = ss_revenue s + class_sum chart (\<lambda>c. \<exists>k. c = Deduction Side_Revenue k) [l]"
    "ss_expense t = ss_expense s + class_sum chart (\<lambda>c. \<exists>k. c = Deduction Side_Expense k) [l]"
    "per_account t k = per_account s k + class_sum chart (\<lambda>c. \<exists>side. c = Deduction side k) [l]"
    "ss_unmatched t = ss_unmatched s @ class_unmatched chart [l]"
  using assms
  by (auto simp: count_line_def Let_def line_class_def class_sum_def class_unmatched_def count_deduction_def
      bind_res_Inr_iff addCents_Inr_iff update_conv' split: option.splits if_splits Side.splits)

lemma class_sum_Cons: "class_sum chart P (l # ls) = class_sum chart P [l] + class_sum chart P ls"
  by (simp add: class_sum_def)

lemma class_unmatched_Cons: "class_unmatched chart (l # ls) = class_unmatched chart [l] @ class_unmatched chart ls"
  by (simp add: class_unmatched_def)

lemma count_lines_effect:
  assumes "fold_res (count_line chart) s ls = Inr t"
  shows "ss_gross t = ss_gross s + class_sum chart (\<lambda>c. c = Sale) ls \<and>
    ss_other t = ss_other s + class_sum chart (\<lambda>c. c = Other_Income) ls \<and>
    ss_revenue t = ss_revenue s + class_sum chart (\<lambda>c. \<exists>k. c = Deduction Side_Revenue k) ls \<and>
    ss_expense t = ss_expense s + class_sum chart (\<lambda>c. \<exists>k. c = Deduction Side_Expense k) ls \<and>
    per_account t k = per_account s k + class_sum chart (\<lambda>c. \<exists>side. c = Deduction side k) ls \<and>
    ss_unmatched t = ss_unmatched s @ class_unmatched chart ls"
  using assms
proof (induction ls arbitrary: s)
  case Nil
  then show ?case by (simp add: class_sum_def class_unmatched_def)
next
  case (Cons l ls)
  from Cons.prems obtain u where u: "count_line chart s l = Inr u" "fold_res (count_line chart) u ls = Inr t"
    by (auto simp: bind_res_Inr_iff)
  note e = count_line_effect [OF u(1)]
  show ?case
    using Cons.IH [OF u(2)]
    by (simp only: e e(5) [of k] class_sum_Cons [of chart _ l ls] class_unmatched_Cons [of chart l ls]
        add.assoc append.assoc simp_thms)
qed

lemma abs_cents_Inr: "abs_cents a = Inr b \<Longrightarrow> b = \<bar>a\<bar>"
  by (auto simp: abs_cents_def split: if_splits)

lemma rateBps_Inr:
  assumes "rateBps part whole = Inr b"
  shows "0 < whole" "0 \<le> part" "0 \<le> b" "\<bar>2 * 10000 * part - 2 * whole * b\<bar> \<le> whole"
    "divRoundHalfUp (part * 10000) whole = Inr b"
proof -
  show w: "0 < whole" and p: "0 \<le> part" using assms by (auto simp: rateBps_def split: if_splits)
  show d: "divRoundHalfUp (part * 10000) whole = Inr b"
    using assms w p by (simp add: rateBps_def divRoundHalfUp_def Let_def)
  show "0 \<le> b" using divRoundHalfUp_error(3) [OF d] p by simp
  show "\<bar>2 * 10000 * part - 2 * whole * b\<bar> \<le> whole"
    using divRoundHalfUp_error(2) [OF d] by (simp add: mult.commute mult.left_commute)
qed

lemma sizing_Inr:
  assumes "deductionsSizing chart pnl posting = Inr z"
  obtains s where "fold_res (count_line chart) no_sums (pnl_lines pnl) = Inr s"
    "siz_grossSalesCents z = ss_gross s" "siz_otherIncomeCents z = ss_other s"
    "siz_revenueDeductionsCents z = ss_revenue s" "siz_expenseDeductionsCents z = ss_expense s"
    "siz_deductionsCents z = \<bar>ss_revenue s\<bar> + \<bar>ss_expense s\<bar>" "siz_unmatchedLines z = ss_unmatched s"
    "siz_contributions z = sort_by compare_contributions (map snd (ss_perAccount s))"
    "siz_bps z = None \<longleftrightarrow> ss_gross s \<le> 0"
    "\<forall>b. siz_bps z = Some b \<longrightarrow> rateBps (siz_deductionsCents z) (siz_grossSalesCents z) = Inr b"
proof -
  from assms obtain s r e where f: "fold_res (count_line chart) no_sums (pnl_lines pnl) = Inr s"
    "abs_cents (ss_revenue s) = Inr r" "abs_cents (ss_expense s) = Inr e"
    by (auto simp: deductionsSizing_def bind_res_Inr_iff)
  note a = abs_cents_Inr [OF f(2)] abs_cents_Inr [OF f(3)]
  show ?thesis
    by (rule that [OF f(1)])
      (use assms f a in \<open>auto simp: deductionsSizing_def bind_res_Inr_iff Let_def addCents_Inr_iff
         map_sum_def split: if_splits sum.splits\<close>)
qed

lemma comparator_side:
  "comparator (\<lambda>(a :: SizingContribution) b.
     if con_side a = con_side b then 0 else if con_side a = Side_Revenue then -1 else 1)"
proof
  fix a b c :: SizingContribution
  show "(if con_side b = con_side a then 0 else if con_side b = Side_Revenue then -1 else 1 :: int) \<le> 0 \<longleftrightarrow>
      (0 :: int) \<le> (if con_side a = con_side b then 0 else if con_side a = Side_Revenue then -1 else 1)"
    by (cases "con_side a"; cases "con_side b") auto
  assume "(if con_side a = con_side b then 0 else if con_side a = Side_Revenue then -1 else 1 :: int) \<le> 0"
    "(if con_side b = con_side c then 0 else if con_side b = Side_Revenue then -1 else 1 :: int) \<le> 0"
  then show "(if con_side a = con_side c then 0 else if con_side a = Side_Revenue then -1 else 1 :: int) \<le> 0"
    by (cases "con_side a"; cases "con_side b"; cases "con_side c") auto
qed

interpretation contribution_order:
  keyed_comparator compare_contributions "\<lambda>c. ga_externalId (con_account c)"
proof -
  have "comparator compare_contributions"
    unfolding compare_contributions_def by (intro comparator_or_else comparator_side comparator_key)
  then show "keyed_comparator compare_contributions (\<lambda>c. ga_externalId (con_account c))"
    by (simp add: keyed_comparator_def keyed_comparator_axioms_def compare_contributions_def)
qed

section \<open>Properties\<close>

text \<open>Every line of the profit and loss is counted once and every figure is a sum over its class of
  lines: sales, other income, the deductions on each side; the unmatched lines are listed in order
  with their reasons, and the deductions figure is the two sides' sizes together.\<close>

theorem sizing_figures:
  assumes "deductionsSizing chart pnl posting = Inr z"
  shows "siz_grossSalesCents z = class_sum chart (\<lambda>c. c = Sale) (pnl_lines pnl) \<and>
    siz_otherIncomeCents z = class_sum chart (\<lambda>c. c = Other_Income) (pnl_lines pnl) \<and>
    siz_revenueDeductionsCents z = class_sum chart (\<lambda>c. \<exists>k. c = Deduction Side_Revenue k) (pnl_lines pnl) \<and>
    siz_expenseDeductionsCents z = class_sum chart (\<lambda>c. \<exists>k. c = Deduction Side_Expense k) (pnl_lines pnl) \<and>
    siz_deductionsCents z = \<bar>siz_revenueDeductionsCents z\<bar> + \<bar>siz_expenseDeductionsCents z\<bar> \<and>
    siz_unmatchedLines z = class_unmatched chart (pnl_lines pnl)"
proof -
  obtain s where f: "fold_res (count_line chart) no_sums (pnl_lines pnl) = Inr s"
    and "siz_grossSalesCents z = ss_gross s" "siz_otherIncomeCents z = ss_other s"
    "siz_revenueDeductionsCents z = ss_revenue s" "siz_expenseDeductionsCents z = ss_expense s"
    "siz_deductionsCents z = \<bar>ss_revenue s\<bar> + \<bar>ss_expense s\<bar>" "siz_unmatchedLines z = ss_unmatched s"
    by (rule sizing_Inr [OF assms])
  with count_lines_effect [OF f, of "[]"] show ?thesis by (simp add: no_sums_def)
qed

definition sample_pnl :: ProfitAndLoss where
  "sample_pnl = \<lparr>pnl_sourceKind = Qbo, pnl_window = \<lparr>win_from = ''2024-01-01'', win_to = ''2024-12-30''\<rparr>,
     pnl_basis = None, pnl_currency = None,
     pnl_lines = [\<lparr>pl_accountExternalId = Some ''1'', pl_accountName = ''Sales'', pl_section = ''Income'',
       pl_amountCents = 10000\<rparr>]\<rparr>"

definition sample_sales :: LedgerAccount where
  "sample_sales = \<lparr>ga_sourceKind = Qbo, ga_externalId = ''1'', ga_code = None, ga_name = ''Sales'',
     ga_fullyQualifiedName = ''Sales'', ga_accountType = ''Income'', ga_accountSubType = None,
     ga_classification = Some ''Revenue'', ga_active = True, ga_currentBalanceCents = None\<rparr>"


lemma sizing_figures_witness:
  "map_sum id siz_grossSalesCents (deductionsSizing [sample_sales] sample_pnl []) = Inr 10000 \<and>
    class_sum [sample_sales] (\<lambda>c. c = Sale) (pnl_lines sample_pnl) = 10000"
proof -
  have "\<not> isl (deductionsSizing [sample_sales] sample_pnl [])" by code_simp
  then obtain z where z: "deductionsSizing [sample_sales] sample_pnl [] = Inr z"
    by (cases "deductionsSizing [sample_sales] sample_pnl []") auto
  have "map_sum id siz_grossSalesCents (deductionsSizing [sample_sales] sample_pnl []) = Inr 10000"
    by code_simp
  with sizing_figures [OF z] z show ?thesis by simp
qed

text \<open>The rate is missing exactly when the window sold nothing, and is otherwise the deductions per
  ten thousand of gross sales, within half a basis point and never negative.\<close>

theorem sizing_rate:
  assumes "deductionsSizing chart pnl posting = Inr z"
  shows "(siz_bps z = None \<longleftrightarrow> siz_grossSalesCents z \<le> 0) \<and>
    (\<forall>b. siz_bps z = Some b \<longrightarrow> 0 \<le> b \<and>
      \<bar>2 * 10000 * siz_deductionsCents z - 2 * siz_grossSalesCents z * b\<bar> \<le> siz_grossSalesCents z)"
proof -
  obtain s :: sizing_sums where "siz_grossSalesCents z = ss_gross s"
    and "siz_bps z = None \<longleftrightarrow> ss_gross s \<le> 0"
    and rate: "\<forall>b. siz_bps z = Some b \<longrightarrow> rateBps (siz_deductionsCents z) (siz_grossSalesCents z) = Inr b"
    by (rule sizing_Inr [OF assms])
  then have "(siz_bps z = None) = (siz_grossSalesCents z \<le> 0)"
    and rate': "\<forall>b. siz_bps z = Some b \<longrightarrow> rateBps (siz_deductionsCents z) (siz_grossSalesCents z) = Inr b"
    by simp_all
  moreover have "0 \<le> b \<and> \<bar>2 * 10000 * siz_deductionsCents z - 2 * siz_grossSalesCents z * b\<bar> \<le> siz_grossSalesCents z"
    if "siz_bps z = Some b" for b
    using rateBps_Inr(3,4) [of _ _ b] rate' that by blast
  ultimately show ?thesis by blast
qed

lemma sizing_rate_witness:
  "map_sum id siz_bps (deductionsSizing [sample_sales] sample_pnl []) = Inr (Some 0)"
proof -
  have "\<not> isl (deductionsSizing [sample_sales] sample_pnl [])" by code_simp
  then obtain z where z: "deductionsSizing [sample_sales] sample_pnl [] = Inr z"
    by (cases "deductionsSizing [sample_sales] sample_pnl []") auto
  have "map_sum id (\<lambda>z. (siz_grossSalesCents z, siz_deductionsCents z)) (deductionsSizing [sample_sales] sample_pnl []) =
    Inr (10000, 0)" by code_simp
  with z have g: "siz_grossSalesCents z = 10000" "siz_deductionsCents z = 0" by simp_all
  from sizing_rate [OF z] g obtain b where b: "siz_bps z = Some b" "0 \<le> b" "2 * b \<le> 1"
    by (cases "siz_bps z") auto
  then show ?thesis using z by simp
qed

end
