(* ===== verification/Timestamps.thy ===== *)
theory Timestamps
  imports Calendar
begin

text \<open>
  \<open>Date.parse\<close> as the sources use it: an ISO day at midnight UTC, and the timestamps a store
  writes (\<open>toISOString\<close>, or an ISO text with an offset). The engine reads days 1 to 31 of any month
  and carries the excess into the next month; a text it cannot read is \<open>NaN\<close>, here
  \<^const>\<open>None\<close>. Texts whose value depends on the machine's time zone (a time with no offset) and
  the formats outside ISO that engines read as they like are not given a value.
\<close>

section \<open>Days at midnight\<close>

text \<open>\<open>Date.parse(s + 'T00:00:00Z')\<close> in days, for a text of the ISO shape.\<close>

definition utc_midnight :: "string \<Rightarrow> int option" where
  "utc_midnight s = (case iso_parts s of
     None \<Rightarrow> None
   | Some (y, m, d) \<Rightarrow> if 1 \<le> m \<and> m \<le> 12 \<and> 1 \<le> d \<and> d \<le> 31 then Some (day_of_civil y m d) else None)"

text \<open>The check that the day printed back is the text: no day is read that the calendar lacks.\<close>

definition isIsoDate :: "string \<Rightarrow> bool" where
  "isIsoDate s \<longleftrightarrow> iso_shape s \<and> (case utc_midnight s of None \<Rightarrow> False | Some at \<Rightarrow> iso_of_day at = s)"

lemma iso_day_midnight: "iso_day s = Some n \<Longrightarrow> utc_midnight s = Some n"
  by (auto simp: iso_day_def utc_midnight_def valid_civil_def month_days_def split: option.splits if_splits)

lemma iso_day_shape: "iso_day s = Some n \<Longrightarrow> iso_shape s"
  by (auto simp: iso_day_def iso_parts_def split: option.splits if_splits)

lemma isIsoDate_iff: "isIsoDate s \<longleftrightarrow> (\<exists>n. iso_day s = Some n)"
proof
  assume "isIsoDate s"
  then obtain n where n: "utc_midnight s = Some n" "iso_of_day n = s" "iso_shape s"
    by (auto simp: isIsoDate_def split: option.splits)
  obtain y m d where c: "civil_of_day n = (y, m, d)" by (metis prod_cases3)
  have v: "valid_civil y m d" by (rule valid_civil_of_day [OF c])
  have "0 \<le> y \<and> y \<le> 9999"
  proof (rule ccontr)
    assume out: "\<not> (0 \<le> y \<and> y \<le> 9999)"
    then have "hd s = CHR ''-'' \<or> hd s = CHR ''+''"
      using n(2) c by (auto simp: iso_of_day_def split: if_splits)
    moreover have "is_digit (hd s)"
      using n(3) by (cases s) (auto simp: iso_shape_def)
    ultimately show False by (auto simp: is_digit_def code_unit_def)
  qed
  then have "s = civil_text y m d" using n(2) c by (simp add: iso_of_day_def)
  then show "\<exists>n. iso_day s = Some n"
    using v \<open>0 \<le> y \<and> y \<le> 9999\<close> by (auto simp: iso_day_Some_iff)
next
  assume "\<exists>n. iso_day s = Some n"
  then obtain n where n: "iso_day s = Some n" by blast
  show "isIsoDate s"
    using iso.print_parse [OF n] iso_day_midnight [OF n] iso_day_shape [OF n] by (simp add: isIsoDate_def)
qed

section \<open>Instants\<close>

definition DAY_MS :: int where "DAY_MS = 86400000"

definition two_digits :: "string \<Rightarrow> (int \<times> string) option" where
  "two_digits s =
     (if 2 \<le> length s \<and> list_all is_digit (take 2 s) then Some (int (text_nat (take 2 s)), drop 2 s) else None)"

definition after_colon :: "string \<Rightarrow> (int \<times> string) option" where
  "after_colon s = (case s of c # t \<Rightarrow> if c = CHR '':'' then two_digits t else None | [] \<Rightarrow> None)"

text \<open>The fraction of a second, cut to milliseconds; the seconds and the fraction may be left out.\<close>

definition fraction_ms :: "string \<Rightarrow> (int \<times> string) option" where
  "fraction_ms s = (case s of
     c # t \<Rightarrow> if c = CHR ''.''
       then (let ds = takeWhile is_digit t in
         if ds = [] then None else Some (int (text_nat (take 3 (ds @ ''00''))), dropWhile is_digit t))
       else Some (0, s)
   | [] \<Rightarrow> Some (0, s))"

definition seconds_ms :: "string \<Rightarrow> (int \<times> string) option" where
  "seconds_ms s = (case after_colon s of
     None \<Rightarrow> Some (0, s)
   | Some (sec, t) \<Rightarrow> if 60 \<le> sec then None
       else map_option (\<lambda>(ms, u). (sec * 1000 + ms, u)) (fraction_ms t))"

text \<open>The offset in minutes.\<close>

definition zone_minutes :: "string \<Rightarrow> int option" where
  "zone_minutes s = (case s of
     [] \<Rightarrow> None
   | c # t \<Rightarrow> if c = CHR ''Z'' then (if t = [] then Some 0 else None)
       else if c = CHR ''+'' \<or> c = CHR ''-'' then
         (case two_digits t of None \<Rightarrow> None
          | Some (h, u) \<Rightarrow> (case after_colon u of
              Some (m, []) \<Rightarrow> if h \<le> 23 \<and> m \<le> 59
                then Some ((if c = CHR ''-'' then -1 else 1) * (h * 60 + m)) else None
            | _ \<Rightarrow> None))
       else None)"

definition date_parse :: "string \<Rightarrow> int option" where
  "date_parse s = (case utc_midnight (take 10 s) of
     None \<Rightarrow> None
   | Some day \<Rightarrow> (case drop 10 s of
       [] \<Rightarrow> Some (day * DAY_MS)
     | c # t \<Rightarrow> if c \<noteq> CHR ''T'' then None
         else (case two_digits t of None \<Rightarrow> None
           | Some (h, u) \<Rightarrow> (case after_colon u of None \<Rightarrow> None
               | Some (m, v) \<Rightarrow> (case seconds_ms v of None \<Rightarrow> None
                   | Some (ms, w) \<Rightarrow> (case zone_minutes w of None \<Rightarrow> None
                       | Some z \<Rightarrow>
                           if m \<le> 59 \<and> (h \<le> 23 \<or> h = 24 \<and> m = 0 \<and> ms = 0)
                           then Some (day * DAY_MS + (h * 60 + m - z) * 60000 + ms) else None))))))"


text \<open>\<open>toISOString\<close>, and its first ten characters.\<close>

definition iso_of_instant :: "int \<Rightarrow> string" where
  "iso_of_instant ms =
     (case civil_of_day (ms div DAY_MS) of (y, m, d) \<Rightarrow>
       let t = ms mod DAY_MS;
           year = (if 0 \<le> y \<and> y \<le> 9999 then padded 4 y else (if y < 0 then ''-'' else ''+'') @ padded 6 \<bar>y\<bar>)
       in year @ ''-'' @ padded 2 m @ ''-'' @ padded 2 d @ ''T'' @ padded 2 (t div 3600000) @ '':'' @
          padded 2 (t div 60000 mod 60) @ '':'' @ padded 2 (t div 1000 mod 60) @ ''.'' @ padded 3 (t mod 1000) @ ''Z'')"

definition utc_day_text :: "int \<Rightarrow> string" where
  "utc_day_text ms = take 10 (iso_of_instant ms)"

lemma length_civil_text: "0 \<le> y \<Longrightarrow> y \<le> 9999 \<Longrightarrow> valid_civil y m d \<Longrightarrow> length (civil_text y m d) = 10"
  using valid_civil_bounds [of y m d] by (simp add: civil_text_def padded_length)

lemma utc_day_text_iso: "four_digit_year (ms div DAY_MS) \<Longrightarrow> utc_day_text ms = iso_of_day (ms div DAY_MS)"
proof -
  assume f: "four_digit_year (ms div DAY_MS)"
  obtain y m d where c: "civil_of_day (ms div DAY_MS) = (y, m, d)" by (metis prod_cases3)
  have "0 \<le> y" "y \<le> 9999" using f c by (simp_all add: four_digit_year_def)
  moreover obtain rest where "iso_of_instant ms = civil_text y m d @ rest"
    using calculation c by (simp add: iso_of_instant_def civil_text_def Let_def)
  ultimately show ?thesis
    using c length_civil_text [OF _ _ valid_civil_of_day [OF c]] by (simp add: utc_day_text_def iso_of_day_def)
qed

end
