(* ===== verification/In_Force.thy ===== *)
theory In_Force
  imports Timestamps Reasons Money JsSort "HOL-Library.Product_Lexorder"
begin

text \<open>
  Effective-dated rows: \<open>packages/core-domain/src/payer-code-map.ts\<close> and
  \<open>dispute-windows.ts\<close>. Both keep rows with a start day and perhaps an end day, and both answer
  with the row that supersedes every other one in force on a day. The interface
  \<open>superseding\<close> states what that choice needs; the two resolvers interpret it.
\<close>

section \<open>The row that supersedes the others\<close>

text \<open>The loop \<open>if (best === undefined || supersedes(row, best)) best = row\<close>.\<close>

definition last_standing :: "('r \<Rightarrow> 'r \<Rightarrow> bool) \<Rightarrow> 'r list \<Rightarrow> 'r option" where
  "last_standing beats rows = fold (\<lambda>row best. case best of
     None \<Rightarrow> Some row | Some b \<Rightarrow> if beats row b then Some row else Some b) rows None"

text \<open>
  One row supersedes another when a rank of it is greater; \<open>good\<close> are the rows whose rank can be
  read.
\<close>

locale superseding =
  fixes beats :: "'r \<Rightarrow> 'r \<Rightarrow> bool" and rank :: "'r \<Rightarrow> 'k::linorder" and good :: "'r \<Rightarrow> bool"
  assumes beats_rank: "good a \<Longrightarrow> good b \<Longrightarrow> beats a b \<longleftrightarrow> rank b < rank a"
begin

lemma last_standing_snoc:
  "last_standing beats (rows @ [row]) = (case last_standing beats rows of
     None \<Rightarrow> Some row | Some b \<Rightarrow> if beats row b then Some row else Some b)"
  by (simp add: last_standing_def)

lemma last_standing_None: "last_standing beats rows = None \<longleftrightarrow> rows = []"
proof (cases rows rule: rev_cases)
  case Nil
  then show ?thesis by (simp add: last_standing_def)
next
  case (snoc ys y)
  then show ?thesis by (simp add: last_standing_snoc split: option.splits)
qed

lemma last_standing_in: "last_standing beats rows = Some r \<Longrightarrow> r \<in> set rows"
proof (induction rows arbitrary: r rule: rev_induct)
  case Nil
  then show ?case by (simp add: last_standing_def)
next
  case (snoc x xs)
  then show ?case by (auto simp: last_standing_snoc split: option.splits if_splits)
qed

lemma last_standing_greatest:
  "\<forall>x\<in>set rows. good x \<Longrightarrow> last_standing beats rows = Some r \<Longrightarrow> x \<in> set rows \<Longrightarrow> rank x \<le> rank r"
proof (induction rows arbitrary: r x rule: rev_induct)
  case Nil
  then show ?case by simp
next
  case (snoc y ys)
  show ?case
  proof (cases "last_standing beats ys")
    case None
    then have "ys = []" by (simp add: last_standing_None)
    then show ?thesis using snoc.prems by (auto simp: last_standing_def)
  next
    case (Some b)
    then have b: "good b" "\<And>z. z \<in> set ys \<Longrightarrow> rank z \<le> rank b"
      using snoc last_standing_in [OF Some] by auto
    have "good y" using snoc.prems by simp
    then show ?thesis using snoc.prems Some b beats_rank [of y b]
      by (fastforce simp: last_standing_snoc not_less split: if_splits)
  qed
qed

lemma choice:
  assumes "\<forall>x\<in>set rows. good x"
  shows "(last_standing beats rows = None \<longleftrightarrow> (\<forall>x. x \<notin> set rows)) \<and>
    (\<forall>r. last_standing beats rows = Some r \<longrightarrow> r \<in> set rows \<and> (\<forall>x\<in>set rows. \<not> beats x r))"
proof (intro conjI allI impI)
  show "last_standing beats rows = None \<longleftrightarrow> (\<forall>x. x \<notin> set rows)"
    unfolding last_standing_None by (cases rows) auto
  fix r assume r: "last_standing beats rows = Some r"
  then show in_rows: "r \<in> set rows" by (rule last_standing_in)
  show "\<forall>x\<in>set rows. \<not> beats x r"
    using last_standing_greatest [OF assms r] beats_rank assms in_rows by (simp add: not_less)
qed

text \<open>Over rows of different ranks the choice does not depend on the order they come in.\<close>

lemma last_standing_order:
  assumes "\<forall>x\<in>set rows. good x" "inj_on rank (set rows)" "mset rows = mset rows'"
  shows "last_standing beats rows = last_standing beats rows'"
proof (cases "last_standing beats rows")
  case None
  then have "rows' = []" using assms(3) by (simp add: last_standing_None)
  then show ?thesis using None by (simp add: last_standing_def)
next
  case (Some r)
  have sets: "set rows = set rows'" using assms(3) by (metis set_mset_mset)
  then obtain r' where r': "last_standing beats rows' = Some r'"
    using Some by (metis last_standing_in last_standing_None empty_iff list.set(1) option.exhaust)
  have in_rows: "r \<in> set rows" "r' \<in> set rows"
    using last_standing_in [OF Some] last_standing_in [OF r'] sets by auto
  have "rank r = rank r'"
    using last_standing_greatest [OF assms(1) Some in_rows(2)] last_standing_greatest [OF _ r', of r]
      assms(1) sets in_rows by (simp add: antisym)
  then show ?thesis using assms(2) in_rows Some r' by (simp add: inj_on_eq_iff)
qed

end

section \<open>Days in force\<close>

text \<open>The tests of both loops on the texts of the days, and what they say of the calendar.\<close>

definition covers_text :: "string \<Rightarrow> string \<Rightarrow> string option \<Rightarrow> bool" where
  "covers_text asOf from until \<longleftrightarrow>
     \<not> asOf < from \<and> \<not> (case until of None \<Rightarrow> False | Some t \<Rightarrow> t < asOf)"

definition covers_day :: "int \<Rightarrow> string \<Rightarrow> string option \<Rightarrow> bool" where
  "covers_day n from until \<longleftrightarrow> (\<exists>a. iso_day from = Some a \<and> a \<le> n) \<and>
     (case until of None \<Rightarrow> True | Some t \<Rightarrow> \<exists>b. iso_day t = Some b \<and> n \<le> b)"

definition real_days :: "string \<Rightarrow> string option \<Rightarrow> bool" where
  "real_days from until \<longleftrightarrow> isIsoDate from \<and> (case until of None \<Rightarrow> True | Some t \<Rightarrow> isIsoDate t)"

lemma covers_text_day:
  assumes "real_days from until" "iso_day asOf = Some n"
  shows "covers_text asOf from until \<longleftrightarrow> covers_day n from until"
proof -
  obtain a where a: "iso_day from = Some a" using assms(1) by (auto simp: real_days_def isIsoDate_iff)
  show ?thesis
  proof (cases until)
    case None
    then show ?thesis using a iso_less_iff [OF assms(2) a] by (auto simp: covers_text_def covers_day_def)
  next
    case (Some t)
    then obtain b where b: "iso_day t = Some b" using assms(1) by (auto simp: real_days_def isIsoDate_iff)
    show ?thesis using Some a b iso_less_iff [OF assms(2) a] iso_less_iff [OF b assms(2)]
      by (auto simp: covers_text_def covers_day_def)
  qed
qed

section \<open>Payer codes\<close>

datatype PayerCodeSource = Payer_Guide_Url | Customer_Confirmed | Glimpse_Guide | Operator

primrec PAYER_CODE_SOURCE_WORDS :: "PayerCodeSource \<Rightarrow> string" where
  "PAYER_CODE_SOURCE_WORDS Payer_Guide_Url = ''the payer's own guide''"
| "PAYER_CODE_SOURCE_WORDS Customer_Confirmed = ''the customer''"
| "PAYER_CODE_SOURCE_WORDS Glimpse_Guide = ''Glimpse's published guide''"
| "PAYER_CODE_SOURCE_WORDS Operator = ''a Mozart operator''"

definition PAYER_CODE_SOURCES :: "string list" where
  "PAYER_CODE_SOURCES = [''payer_guide_url'', ''customer_confirmed'', ''glimpse_guide'', ''operator'']"

datatype PayerCodeConfidence = Low | Medium | High

definition PAYER_CODE_CONFIDENCES :: "string list" where
  "PAYER_CODE_CONFIDENCES = [''low'', ''medium'', ''high'']"

definition isPayerCodeSource :: "string \<Rightarrow> bool" where
  "isPayerCodeSource s \<longleftrightarrow> s \<in> set PAYER_CODE_SOURCES"

definition isPayerCodeConfidence :: "string \<Rightarrow> bool" where
  "isPayerCodeConfidence s \<longleftrightarrow> s \<in> set PAYER_CODE_CONFIDENCES"

definition PAYER_CODE_MAX_LENGTH :: nat where "PAYER_CODE_MAX_LENGTH = 64"

definition PAYER_CODE_SOURCE_NOTE_MAX_LENGTH :: nat where "PAYER_CODE_SOURCE_NOTE_MAX_LENGTH = 500"

definition normalisePayerCode :: "string \<Rightarrow> string" where
  "normalisePayerCode printed = to_upper (collapse_ws (trim printed))"

definition isStorablePayerCode :: "string \<Rightarrow> bool" where
  "isStorablePayerCode code \<longleftrightarrow> code \<noteq> [] \<and> length code \<le> PAYER_CODE_MAX_LENGTH \<and>
     \<not> list_ex is_control code \<and> normalisePayerCode code = code"

record PayerCodeMapRow =
  pc_id :: string
  pc_orgId :: string
  pc_debtorId :: string
  pc_payerCode :: string
  pc_canonicalCode :: CanonicalReasonCode
  pc_effectiveFrom :: string
  pc_effectiveTo :: "string option"
  pc_source :: PayerCodeSource
  pc_sourceNote :: "string option"
  pc_confidence :: PayerCodeConfidence
  pc_recordedBy :: string
  pc_createdAt :: string

definition code_supersedes :: "PayerCodeMapRow \<Rightarrow> PayerCodeMapRow \<Rightarrow> bool" where
  "code_supersedes a b =
     (if pc_effectiveFrom a \<noteq> pc_effectiveFrom b then pc_effectiveFrom a > pc_effectiveFrom b
      else if pc_createdAt a \<noteq> pc_createdAt b then pc_createdAt a > pc_createdAt b
      else pc_id a > pc_id b)"

definition code_applies :: "string \<Rightarrow> string \<Rightarrow> string option \<Rightarrow> PayerCodeMapRow \<Rightarrow> bool" where
  "code_applies code asOf debtorId row \<longleftrightarrow> pc_payerCode row = code \<and>
     (case debtorId of None \<Rightarrow> True | Some d \<Rightarrow> pc_debtorId row = d) \<and>
     covers_text asOf (pc_effectiveFrom row) (pc_effectiveTo row)"

definition resolveCanonicalCode ::
  "PayerCodeMapRow list \<Rightarrow> string \<Rightarrow> string \<Rightarrow> string option \<Rightarrow> PayerCodeMapRow option res" where
  "resolveCanonicalCode maps payerCode asOf debtorId =
     (if \<not> isIsoDate asOf then Inl (RangeError ''asOf'')
      else Inr (last_standing code_supersedes
        (filter (code_applies (normalisePayerCode payerCode) asOf debtorId) maps)))"

section \<open>Dispute windows\<close>

definition DISPUTE_WINDOW_MAX_DAYS :: int where "DISPUTE_WINDOW_MAX_DAYS = 730"

datatype DisputeWindowMeasuredFrom = Deduction_Date

record DisputeWindowRow =
  dw_id :: string
  dw_debtorId :: string
  dw_windowDays :: js_number
  dw_measuredFrom :: DisputeWindowMeasuredFrom
  dw_effectiveFrom :: string
  dw_effectiveTo :: "string option"
  dw_source :: PayerCodeSource
  dw_sourceNote :: "string option"
  dw_confidence :: PayerCodeConfidence
  dw_recordedBy :: string
  dw_createdAt :: string

definition isDisputeWindowDays :: "js_number \<Rightarrow> bool" where
  "isDisputeWindowDays n = (case n of Whole v \<Rightarrow> 1 \<le> v \<and> v \<le> DISPUTE_WINDOW_MAX_DAYS | NotWhole \<Rightarrow> False)"

text \<open>\<open>NaN\<close> differs from everything and is greater than nothing.\<close>

definition window_supersedes :: "DisputeWindowRow \<Rightarrow> DisputeWindowRow \<Rightarrow> bool" where
  "window_supersedes a b =
     (if dw_effectiveFrom a \<noteq> dw_effectiveFrom b then dw_effectiveFrom a > dw_effectiveFrom b
      else case (date_parse (dw_createdAt a), date_parse (dw_createdAt b)) of
        (Some at, Some bt) \<Rightarrow> if at \<noteq> bt then at > bt else dw_id a > dw_id b
      | _ \<Rightarrow> False)"

definition window_applies :: "string \<Rightarrow> string \<Rightarrow> DisputeWindowRow \<Rightarrow> bool" where
  "window_applies debtorId asOf row \<longleftrightarrow> dw_debtorId row = debtorId \<and>
     covers_text asOf (dw_effectiveFrom row) (dw_effectiveTo row)"

definition resolveDisputeWindow :: "DisputeWindowRow list \<Rightarrow> string \<Rightarrow> string \<Rightarrow> DisputeWindowRow option res" where
  "resolveDisputeWindow rows debtorId asOf =
     (if \<not> isIsoDate asOf then Inl (RangeError ''asOf'')
      else Inr (last_standing window_supersedes (filter (window_applies debtorId asOf) rows)))"

definition deadlineFromWindow :: "string \<Rightarrow> js_number \<Rightarrow> string res" where
  "deadlineFromWindow deductionDate windowDays =
     (if \<not> isIsoDate deductionDate then Inl (RangeError ''deduction date'')
      else if \<not> isDisputeWindowDays windowDays then Inl (RangeError ''window'')
      else case (utc_midnight deductionDate, windowDays) of
        (Some start, Whole n) \<Rightarrow> Inr (iso_of_day (start + n))
      | _ \<Rightarrow> Inl (RangeError ''Invalid time value''))"

section \<open>The two choices\<close>

interpretation codes:
  superseding code_supersedes "\<lambda>r. [pc_effectiveFrom r, pc_createdAt r, pc_id r]" "\<lambda>_. True"
  by unfold_locales (auto simp: code_supersedes_def)

interpretation windows:
  superseding window_supersedes "\<lambda>r. (dw_effectiveFrom r, the (date_parse (dw_createdAt r)), dw_id r)"
    "\<lambda>r. date_parse (dw_createdAt r) \<noteq> None"
  by unfold_locales (auto simp: window_supersedes_def)

lemma to_upper_ws: "is_ws (to_upper_char c) = is_ws c"
  by (auto simp: to_upper_char_def is_ws_def is_lower_def code_unit_def of_char_of)

lemma to_upper_idem: "to_upper_char (to_upper_char c) = to_upper_char c"
  by (auto simp: to_upper_char_def is_lower_def code_unit_def of_char_of)


lemma trim_collapse_trim: "trim (collapse_ws (trim s)) = collapse_ws (trim s)"
proof (cases "trim s")
  case Nil
  then show ?thesis by (simp add: collapse_ws_def)
next
  case (Cons c t)
  have ends: "\<not> is_ws c" "\<not> is_ws (last (c # t))"
  proof -
    show "\<not> is_ws (last (c # t))" using trim_end_ends [of "trim_start s"] Cons by (simp add: trim_def)
    have "trim_start s \<noteq> []" using Cons by (auto simp: trim_def trim_end_def)
    then show "\<not> is_ws c"
      using trim_start_ends [of s] hd_trim_end [of "trim_start s"] Cons by (simp add: trim_def)
  qed
  have "collapse_ws (c # t) = c # collapse_from False t" using ends by (simp add: collapse_ws_def)
  moreover have "last (collapse_ws (c # t)) = last (c # t)"
    using collapse_ends [of "c # t" False] ends by (simp add: collapse_ws_def)
  ultimately show ?thesis using ends Cons by (intro trim_id) auto
qed

text \<open>A stored code is its own normal form, so every spelling of it finds the same rows.\<close>

lemma normalisePayerCode_idem: "normalisePayerCode (normalisePayerCode s) = normalisePayerCode s"
proof -
  have sp: "to_upper_char CHR '' '' = CHR '' ''" by (simp add: to_upper_char_def is_lower_def code_unit_def)
  have "trim (to_upper (collapse_ws (trim s))) = to_upper (collapse_ws (trim s))"
    by (simp add: trim_map [OF to_upper_ws] trim_collapse_trim)
  then show ?thesis
    by (simp add: normalisePayerCode_def collapse_ws_def collapse_map [OF to_upper_ws sp] to_upper_idem comp_def)
qed

text \<open>A row in force for a code on a day, in terms of the calendar.\<close>

definition code_in_force :: "string \<Rightarrow> int \<Rightarrow> string option \<Rightarrow> PayerCodeMapRow \<Rightarrow> bool" where
  "code_in_force code n debtorId r \<longleftrightarrow> pc_payerCode r = normalisePayerCode code \<and>
     (debtorId = None \<or> debtorId = Some (pc_debtorId r)) \<and>
     covers_day n (pc_effectiveFrom r) (pc_effectiveTo r)"

definition window_in_force :: "string \<Rightarrow> int \<Rightarrow> DisputeWindowRow \<Rightarrow> bool" where
  "window_in_force debtorId n r \<longleftrightarrow> dw_debtorId r = debtorId \<and>
     covers_day n (dw_effectiveFrom r) (dw_effectiveTo r)"

lemma code_applies_iff:
  "real_days (pc_effectiveFrom r) (pc_effectiveTo r) \<Longrightarrow> iso_day asOf = Some n \<Longrightarrow>
    code_applies (normalisePayerCode code) asOf debtorId r \<longleftrightarrow> code_in_force code n debtorId r"
  by (auto simp: code_applies_def code_in_force_def covers_text_day split: option.splits)

lemma window_applies_iff:
  "real_days (dw_effectiveFrom r) (dw_effectiveTo r) \<Longrightarrow> iso_day asOf = Some n \<Longrightarrow>
    window_applies debtorId asOf r \<longleftrightarrow> window_in_force debtorId n r"
  by (auto simp: window_applies_def window_in_force_def covers_text_day)

lemma deadlineFromWindow_Inr:
  "deadlineFromWindow d w = Inr t \<longleftrightarrow> (\<exists>k n. iso_day d = Some k \<and> w = Whole n \<and> 1 \<le> n \<and> n \<le> 730 \<and>
     t = iso_of_day (k + n))"
  using iso_day_midnight [of d]
  by (cases "iso_day d") (auto simp: deadlineFromWindow_def isIsoDate_iff isDisputeWindowDays_def
      DISPUTE_WINDOW_MAX_DAYS_def split: js_number.splits)

section \<open>Properties\<close>

text \<open>A row rules over another: it took effect on a later calendar day, or on the same day and was written
  at a later text, or was written at the same text under a greater or equal id.\<close>

definition rules_over :: "PayerCodeMapRow \<Rightarrow> PayerCodeMapRow \<Rightarrow> bool" where
  "rules_over r x \<longleftrightarrow>
     (\<exists>a b. iso_day (pc_effectiveFrom x) = Some a \<and> iso_day (pc_effectiveFrom r) = Some b \<and>
        (a < b \<or> a = b \<and> (pc_createdAt x < pc_createdAt r \<or>
           pc_createdAt x = pc_createdAt r \<and> pc_id x \<le> pc_id r)))"

lemma not_superseded:
  assumes "iso_day (pc_effectiveFrom x) = Some a" "iso_day (pc_effectiveFrom r) = Some b"
  shows "\<not> code_supersedes x r \<longleftrightarrow> rules_over r x"
proof -
  have day: "pc_effectiveFrom x < pc_effectiveFrom r \<longleftrightarrow> a < b" "pc_effectiveFrom x = pc_effectiveFrom r \<longleftrightarrow> a = b"
    "pc_effectiveFrom r < pc_effectiveFrom x \<longleftrightarrow> b < a"
    using iso_less_iff [OF assms] iso_less_iff [OF assms(2,1)] by auto
  show ?thesis using assms by (auto simp: code_supersedes_def rules_over_def day)
qed

text \<open>C13: a printed code resolves to a row exactly when one is in force for it on that calendar day, and
  then to the row that took effect on the latest day, of those the one written last and of those the
  one with the greatest id; with no two rows under one id, the same rows in any order give the same
  answer.\<close>

theorem payer_code_in_force:
  assumes "iso_day asOf = Some n" "\<forall>r\<in>set maps. real_days (pc_effectiveFrom r) (pc_effectiveTo r)"
  shows "\<exists>best. resolveCanonicalCode maps code asOf debtor = Inr best \<and>
    (best = None \<longleftrightarrow> (\<forall>r\<in>set maps. \<not> code_in_force code n debtor r)) \<and>
    (\<forall>r. best = Some r \<longrightarrow> r \<in> set maps \<and> code_in_force code n debtor r \<and>
       (\<forall>x\<in>set maps. code_in_force code n debtor x \<longrightarrow> rules_over r x)) \<and>
    (\<forall>maps'. distinct (map pc_id maps) \<and> mset maps' = mset maps \<longrightarrow>
       resolveCanonicalCode maps' code asOf debtor = Inr best)"
proof -
  define rows where "rows ms = filter (code_applies (normalisePayerCode code) asOf debtor) ms" for ms
  have in_rows: "x \<in> set (rows maps) \<longleftrightarrow> x \<in> set maps \<and> code_in_force code n debtor x" for x
    using assms by (auto simp: rows_def code_applies_iff)
  have eq: "resolveCanonicalCode ms code asOf debtor = Inr (last_standing code_supersedes (rows ms))" for ms
    using assms(1) by (auto simp: resolveCanonicalCode_def rows_def isIsoDate_iff)
  have order: "last_standing code_supersedes (rows maps') = last_standing code_supersedes (rows maps)"
    if "distinct (map pc_id maps)" "mset maps' = mset maps" for maps'
  proof (rule codes.last_standing_order [symmetric])
    show "inj_on (\<lambda>r. [pc_effectiveFrom r, pc_createdAt r, pc_id r]) (set (rows maps))"
      using that(1) by (auto simp: rows_def inj_on_def distinct_map)
    show "mset (rows maps) = mset (rows maps')" using that(2) by (simp add: rows_def)
  qed simp
  have rules: "\<not> code_supersedes x r \<longleftrightarrow> rules_over r x" if "x \<in> set (rows maps)" "r \<in> set (rows maps)" for x r
  proof -
    have "real_days (pc_effectiveFrom x) (pc_effectiveTo x)" "real_days (pc_effectiveFrom r) (pc_effectiveTo r)"
      using assms(2) that by (simp_all add: rows_def)
    then obtain a b where "iso_day (pc_effectiveFrom x) = Some a" "iso_day (pc_effectiveFrom r) = Some b"
      unfolding real_days_def isIsoDate_iff by blast
    then show ?thesis by (rule not_superseded)
  qed
  have c: "last_standing code_supersedes (rows maps) = None \<longleftrightarrow> (\<forall>x. x \<notin> set (rows maps))"
    using codes.choice [of "rows maps"] by blast
  have best: "r \<in> set (rows maps) \<and> (\<forall>x\<in>set (rows maps). rules_over r x)"
    if "last_standing code_supersedes (rows maps) = Some r" for r
  proof -
    have r: "r \<in> set (rows maps)" "\<forall>x\<in>set (rows maps). \<not> code_supersedes x r"
      using codes.choice [of "rows maps"] that by blast+
    then show ?thesis using rules [OF _ r(1)] by blast
  qed
  show ?thesis
    by (rule exI [of _ "last_standing code_supersedes (rows maps)"])
      (intro conjI, rule eq, use c in_rows in blast, use best in_rows in blast,
        unfold eq, use order in blast)
qed

definition sample_code_row :: "string \<Rightarrow> string \<Rightarrow> string \<Rightarrow> PayerCodeMapRow" where
  "sample_code_row k from written = \<lparr>pc_id = k, pc_orgId = ''o'', pc_debtorId = ''d'', pc_payerCode = ''CB 203'',
     pc_canonicalCode = Markdown_Allowance, pc_effectiveFrom = from, pc_effectiveTo = None,
     pc_source = Operator, pc_sourceNote = None, pc_confidence = High, pc_recordedBy = ''p'',
     pc_createdAt = written\<rparr>"

lemma payer_code_in_force_witness:
  "resolveCanonicalCode [sample_code_row ''1'' ''2024-01-01'' ''2025-02-01'', sample_code_row ''2'' ''2025-01-01'' ''2024-12-01'']
    '' cb  203 '' ''2025-06-30'' None = Inr (Some (sample_code_row ''2'' ''2025-01-01'' ''2024-12-01''))"
proof -
  have d: "iso_day ''2025-06-30'' = Some 20269" "iso_day ''2024-01-01'' = Some 19723"
    "iso_day ''2025-01-01'' = Some 20089" by (simp_all add: iso_eval)
  have n: "normalisePayerCode '' cb  203 '' = ''CB 203''" by code_simp
  let ?old = "sample_code_row ''1'' ''2024-01-01'' ''2025-02-01''"
  let ?new = "sample_code_row ''2'' ''2025-01-01'' ''2024-12-01''"
  have "\<forall>r\<in>set [?old, ?new]. real_days (pc_effectiveFrom r) (pc_effectiveTo r)"
    by (simp add: sample_code_row_def real_days_def isIsoDate_iff d)
  from payer_code_in_force [OF d(1) this, of "'' cb  203 ''" None]
  obtain best where best: "resolveCanonicalCode [?old, ?new] '' cb  203 '' ''2025-06-30'' None = Inr best"
    "best = None \<longleftrightarrow> (\<forall>r\<in>set [?old, ?new]. \<not> code_in_force '' cb  203 '' 20269 None r)"
    "\<forall>r. best = Some r \<longrightarrow> r \<in> set [?old, ?new] \<and> code_in_force '' cb  203 '' 20269 None r \<and>
      (\<forall>x\<in>set [?old, ?new]. code_in_force '' cb  203 '' 20269 None x \<longrightarrow> rules_over r x)" by blast
  have new: "code_in_force '' cb  203 '' 20269 None ?new"
    by (simp add: code_in_force_def n sample_code_row_def covers_day_def d)
  with best(2) obtain r where r: "best = Some r" by auto
  have "\<not> rules_over ?old ?new" by (simp add: rules_over_def sample_code_row_def d)
  with best(3) new r have "best = Some ?new" by auto
  with best(1) show ?thesis by simp
qed

text \<open>With creation times that can be read, a debtor's dispute window on a day is a row in force that
  day which no other one in force supersedes, and there is none exactly when no row is in force.\<close>

theorem dispute_window_in_force:
  assumes "iso_day asOf = Some n"
    "\<forall>r\<in>set rows. real_days (dw_effectiveFrom r) (dw_effectiveTo r) \<and> date_parse (dw_createdAt r) \<noteq> None"
  shows "\<exists>best. resolveDisputeWindow rows debtor asOf = Inr best \<and>
    (best = None \<longleftrightarrow> (\<forall>r\<in>set rows. \<not> window_in_force debtor n r)) \<and>
    (\<forall>r. best = Some r \<longrightarrow> r \<in> set rows \<and> window_in_force debtor n r \<and>
       (\<forall>x\<in>set rows. window_in_force debtor n x \<longrightarrow> \<not> window_supersedes x r)) \<and>
    (\<forall>rows'. distinct (map dw_id rows) \<and> mset rows' = mset rows \<longrightarrow>
       resolveDisputeWindow rows' debtor asOf = Inr best)"
proof -
  define on where "on rs = filter (window_applies debtor asOf) rs" for rs
  have in_on: "x \<in> set (on rows) \<longleftrightarrow> x \<in> set rows \<and> window_in_force debtor n x" for x
    using assms by (auto simp: on_def window_applies_iff)
  have eq: "resolveDisputeWindow rs debtor asOf = Inr (last_standing window_supersedes (on rs))" for rs
    using assms(1) by (auto simp: resolveDisputeWindow_def on_def isIsoDate_iff)
  have good: "\<forall>x\<in>set (on rows). date_parse (dw_createdAt x) \<noteq> None" using assms(2) by (simp add: on_def)
  have order: "last_standing window_supersedes (on rows') = last_standing window_supersedes (on rows)"
    if "distinct (map dw_id rows)" "mset rows' = mset rows" for rows'
  proof (rule windows.last_standing_order [symmetric, OF good])
    show "inj_on (\<lambda>r. (dw_effectiveFrom r, the (date_parse (dw_createdAt r)), dw_id r)) (set (on rows))"
      using that(1) by (auto simp: on_def inj_on_def distinct_map)
    show "mset (on rows) = mset (on rows')" using that(2) by (simp add: on_def)
  qed
  have c: "last_standing window_supersedes (on rows) = None \<longleftrightarrow> (\<forall>x. x \<notin> set (on rows))"
    "\<forall>r. last_standing window_supersedes (on rows) = Some r \<longrightarrow> r \<in> set (on rows) \<and>
      (\<forall>x\<in>set (on rows). \<not> window_supersedes x r)"
    using windows.choice [OF good] by simp_all
  show ?thesis
    by (rule exI [of _ "last_standing window_supersedes (on rows)"])
      (intro conjI, rule eq, use c(1) in_on in blast, use c(2) in_on in blast,
        unfold eq, use order in blast)
qed

definition sample_window :: DisputeWindowRow where
  "sample_window = \<lparr>dw_id = ''w'', dw_debtorId = ''d'', dw_windowDays = Whole 90, dw_measuredFrom = Deduction_Date,
     dw_effectiveFrom = ''2025-01-01'', dw_effectiveTo = Some ''2025-12-31'', dw_source = Operator,
     dw_sourceNote = None, dw_confidence = Low, dw_recordedBy = ''p'',
     dw_createdAt = ''2025-01-01T00:00:00.000Z''\<rparr>"

lemma dispute_window_in_force_witness:
  "\<exists>r. resolveDisputeWindow [sample_window] ''d'' ''2025-06-30'' = Inr (Some r)"
proof -
  have d: "iso_day ''2025-06-30'' = Some 20269" "iso_day ''2025-01-01'' = Some 20089"
    "iso_day ''2025-12-31'' = Some 20453" by (simp_all add: iso_eval)
  have "date_parse ''2025-01-01T00:00:00.000Z'' \<noteq> None" by code_simp
  then have "\<forall>r\<in>set [sample_window]. real_days (dw_effectiveFrom r) (dw_effectiveTo r) \<and>
      date_parse (dw_createdAt r) \<noteq> None"
    by (simp add: sample_window_def real_days_def isIsoDate_iff d)
  note t = dispute_window_in_force [OF d(1) this, of "''d''"]
  have "window_in_force ''d'' 20269 sample_window"
    by (simp add: window_in_force_def sample_window_def covers_day_def d)
  with t show ?thesis by (metis list.set_intros(1) not_Some_eq)
qed

text \<open>A deadline is given exactly for a real day and a window of 1 to 730 days, and is the day that
  many days later, which is after the deduction and reads back as that day up to the year 9999.\<close>

theorem window_deadline:
  "(isIsoDate d \<and> (\<exists>n. w = Whole n \<and> 1 \<le> n \<and> n \<le> 730) \<longleftrightarrow> (\<exists>t. deadlineFromWindow d w = Inr t)) \<and>
   (\<forall>t k n. deadlineFromWindow d w = Inr t \<and> iso_day d = Some k \<and> w = Whole n \<and> four_digit_year (k + n) \<longrightarrow>
      iso_day t = Some (k + n) \<and> d < t)"
proof (intro conjI allI impI)
  show "isIsoDate d \<and> (\<exists>n. w = Whole n \<and> 1 \<le> n \<and> n \<le> 730) \<longleftrightarrow> (\<exists>t. deadlineFromWindow d w = Inr t)"
    by (auto simp: deadlineFromWindow_Inr isIsoDate_iff)
next
  fix t k n
  assume a: "deadlineFromWindow d w = Inr t \<and> iso_day d = Some k \<and> w = Whole n \<and> four_digit_year (k + n)"
  then have t: "t = iso_of_day (k + n)" "1 \<le> n" by (auto simp: deadlineFromWindow_Inr)
  show day: "iso_day t = Some (k + n)" using a t iso.parse_print by simp
  show "d < t" using a t iso_less_iff [OF _ day] by simp
qed

lemma window_deadline_witness: "deadlineFromWindow ''2024-12-31'' (Whole 60) = Inr ''2025-03-01''"
proof -
  have d: "iso_day ''2024-12-31'' = Some 20088" "iso_day ''2025-03-01'' = Some 20148" by (simp_all add: iso_eval)
  have four: "four_digit_year 20148" by (rule iso.parse_valid [OF d(2)])
  obtain t where t: "deadlineFromWindow ''2024-12-31'' (Whole 60) = Inr t"
    using window_deadline [of "''2024-12-31''" "Whole 60"] d by (auto simp: isIsoDate_iff)
  have "iso_day t = Some 20148"
    using window_deadline [of "''2024-12-31''" "Whole 60"] t d four by fastforce
  then show ?thesis using iso.parse_inj [OF _ d(2)] t by blast
qed

end
