(* ===== verification/Json.thy ===== *)
theory Json
  imports JsText
begin

text \<open>
  \<open>JSON.stringify\<close> for the values the sources hash and store: null, booleans, integers, texts,
  arrays and objects with their keys in the order written. One writer serves the compact form and
  the indented one; \<open>emit_inj\<close> shows that in either form a value is determined by its
  text, which is what hashing a value through its text rests on.
\<close>

datatype json =
    JNull
  | JBool bool
  | JInt int
  | JStr string
  | JArr "json list"
  | JObj "(string \<times> json) list"

section \<open>Texts\<close>

definition hex_digit :: "nat \<Rightarrow> char" where
  "hex_digit d = (if d < 10 then digit_char d else char_of (87 + d))"

abbreviation backslash :: char where "backslash \<equiv> CHR 0x5C"

abbreviation quote_char :: char where "quote_char \<equiv> CHR 0x22"

definition escape_char :: "char \<Rightarrow> string" where
  "escape_char c =
     (if c = quote_char then [backslash, quote_char]
      else if c = backslash then [backslash, backslash]
      else if code_unit c = 8 then [backslash, CHR ''b'']
      else if code_unit c = 9 then [backslash, CHR ''t'']
      else if code_unit c = 10 then [backslash, CHR ''n'']
      else if code_unit c = 12 then [backslash, CHR ''f'']
      else if code_unit c = 13 then [backslash, CHR ''r'']
      else if code_unit c < 32
        then [backslash, CHR ''u'', CHR ''0'', CHR ''0'', hex_digit (code_unit c div 16), hex_digit (code_unit c mod 16)]
      else [c])"

definition quote :: "string \<Rightarrow> string" where
  "quote s = quote_char # concat (map escape_char s) @ [quote_char]"

text \<open>Reading one escaped character back.\<close>

definition hex_value :: "char \<Rightarrow> nat" where
  "hex_value c = (if is_digit c then digit_value c else code_unit c - 87)"

definition unescape :: "string \<Rightarrow> (char \<times> string) option" where
  "unescape s = (case s of
     [] \<Rightarrow> None
   | c # t \<Rightarrow> if c \<noteq> backslash then Some (c, t)
       else (case t of
         [] \<Rightarrow> None
       | d # u \<Rightarrow>
           if d = CHR ''b'' then Some (char_of (8 :: nat), u)
           else if d = CHR ''t'' then Some (char_of (9 :: nat), u)
           else if d = CHR ''n'' then Some (char_of (10 :: nat), u)
           else if d = CHR ''f'' then Some (char_of (12 :: nat), u)
           else if d = CHR ''r'' then Some (char_of (13 :: nat), u)
           else if d = CHR ''u'' then
             (case drop 2 u of a # b # v \<Rightarrow> Some (char_of (16 * hex_value a + hex_value b), v) | _ \<Rightarrow> None)
           else Some (d, u)))"

lemma hex_value_digit: "d < 16 \<Longrightarrow> hex_value (hex_digit d) = d"
  by (auto simp: hex_value_def hex_digit_def is_digit_def code_unit_def digit_char_def digit_value_def)

lemma code_unit_char: "code_unit c = n \<Longrightarrow> char_of n = c"
  by (auto simp: code_unit_def)

lemma unescape_escape [simp]: "unescape (escape_char c @ r) = Some (c, r)"
proof -
  have "16 * (code_unit c div 16) + code_unit c mod 16 = code_unit c" by simp
  moreover have "code_unit c mod 16 < 16" "code_unit c < 32 \<Longrightarrow> code_unit c div 16 < 16" by auto
  ultimately show ?thesis
    by (auto simp: escape_char_def unescape_def hex_value_digit code_unit_char)
qed

lemma escape_char_ne: "escape_char c \<noteq> []" "hd (escape_char c) \<noteq> quote_char"
  by (auto simp: escape_char_def)

lemma escape_char_head: "escape_char c @ x \<noteq> quote_char # y"
  using escape_char_ne [of c] by (cases "escape_char c") auto

lemma escaped_inj:
  "concat (map escape_char s) @ quote_char # r = concat (map escape_char t) @ quote_char # u \<Longrightarrow> s = t \<and> r = u"
proof (induction s arbitrary: t)
  case Nil
  then show ?case by (cases t) (auto dest: sym simp: escape_char_head)
next
  case (Cons c s)
  then obtain d t' where t: "t = d # t'" by (cases t) (auto simp: escape_char_head)
  have "escape_char c @ concat (map escape_char s) @ quote_char # r =
      escape_char d @ concat (map escape_char t') @ quote_char # u" using Cons.prems t by simp
  then have "c = d" "concat (map escape_char s) @ quote_char # r = concat (map escape_char t') @ quote_char # u"
    using unescape_escape [of c] unescape_escape [of d] by (metis Pair_inject option.inject)+
  with Cons.IH t show ?case by blast
qed

lemma quote_inj: "quote s @ r = quote t @ u \<Longrightarrow> s = t \<and> r = u"
  using escaped_inj [of s r t u] by (simp add: quote_def)

section \<open>Values\<close>

text \<open>The text put before an item at a depth: nothing in the compact form, a line break and the
  indentation in the indented one; and what follows a key.\<close>

record layout =
  break_at :: "nat \<Rightarrow> string"
  after_key :: string

definition compact :: layout where
  "compact = \<lparr>break_at = (\<lambda>_. []), after_key = '':''\<rparr>"

definition indented :: "nat \<Rightarrow> layout" where
  "indented width = \<lparr>break_at = (\<lambda>depth. CHR 0x0A # replicate (width * depth) CHR '' ''), after_key = '': ''\<rparr>"

text \<open>A list's closing text: another item, or the end.\<close>

fun emit :: "layout \<Rightarrow> nat \<Rightarrow> json \<Rightarrow> string"
  and emit_items :: "layout \<Rightarrow> nat \<Rightarrow> json list \<Rightarrow> string"
  and emit_fields :: "layout \<Rightarrow> nat \<Rightarrow> (string \<times> json) list \<Rightarrow> string" where
  "emit l depth JNull = ''null''"
| "emit l depth (JBool b) = (if b then ''true'' else ''false'')"
| "emit l depth (JInt n) = int_text n"
| "emit l depth (JStr s) = quote s"
| "emit l depth (JArr vs) = (case vs of [] \<Rightarrow> ''[]''
     | _ \<Rightarrow> ''['' @ emit_items l (Suc depth) vs @ break_at l depth @ '']'')"
| "emit l depth (JObj fs) = (case fs of [] \<Rightarrow> ''{}''
     | _ \<Rightarrow> ''{'' @ emit_fields l (Suc depth) fs @ break_at l depth @ ''}'')"
| "emit_items l depth [] = []"
| "emit_items l depth (v # vs) = break_at l depth @ emit l depth v @
     (if vs = [] then [] else '','' @ emit_items l depth vs)"
| "emit_fields l depth [] = []"
| "emit_fields l depth ((k, v) # fs) = break_at l depth @ quote k @ after_key l @ emit l depth v @
     (if fs = [] then [] else '','' @ emit_fields l depth fs)"

abbreviation json_text :: "json \<Rightarrow> string" where "json_text \<equiv> emit compact 0"

section \<open>A text determines its value\<close>

text \<open>What may follow a value: nothing, or a delimiter.\<close>

definition delimited :: "string \<Rightarrow> bool" where
  "delimited s \<longleftrightarrow> s = [] \<or> hd s \<in> set '',]}'' \<or> hd s = CHR 0x0A"

definition plain_layout :: "layout \<Rightarrow> bool" where
  "plain_layout l \<longleftrightarrow> (\<forall>d. break_at l d = [] \<or> hd (break_at l d) = CHR 0x0A)"

lemma plain_layouts: "plain_layout compact" "plain_layout (indented w)"
  by (simp_all add: plain_layout_def compact_def indented_def)

lemma delimited_simps [simp]:
  "delimited []" "delimited (CHR '','' # s)" "delimited (CHR '']'' # s)" "delimited (CHR ''}'' # s)"
  by (simp_all add: delimited_def)

lemma delimited_break: "plain_layout l \<Longrightarrow> delimited s \<Longrightarrow> delimited (break_at l d @ s)"
  by (auto simp: plain_layout_def delimited_def hd_append)

lemma delimited_no_digit: "delimited s \<Longrightarrow> takeWhile is_digit s = []"
  by (cases s) (auto simp: delimited_def is_digit_def code_unit_def)

lemma digits_delimited:
  assumes "\<forall>c\<in>set a. is_digit c" "\<forall>c\<in>set b. is_digit c" "delimited r" "delimited u" "a @ r = b @ u"
  shows "a = b \<and> r = u"
proof -
  have "takeWhile is_digit (a @ r) = a" "takeWhile is_digit (b @ u) = b"
    using assms(1-4) by (simp_all add: takeWhile_append2 delimited_no_digit)
  then show ?thesis using assms(5) by simp
qed

lemma nat_text_head: "is_digit (hd (nat_text n))"
  using nat_text_digits [of n] by (cases "nat_text n") auto

lemma int_text_inj_delimited:
  assumes "int_text m @ r = int_text n @ u" "delimited r" "delimited u"
  shows "m = n \<and> r = u"
proof -
  have head: "nat_text k @ x \<noteq> CHR ''-'' # y" for k x y
    using nat_text_head [of k] by (cases "nat_text k") (auto simp: is_digit_def code_unit_def)
  have eq: "a = b \<and> r = u" if "nat_text a @ r = nat_text b @ u" for a b
    using digits_delimited [OF nat_text_digits nat_text_digits assms(2,3) that] text_nat_nat_text by metis
  show ?thesis
  proof (cases "m < 0"; cases "n < 0")
    assume "m < 0" "n < 0"
    then show ?thesis using assms(1) eq [of "nat (- m)" "nat (- n)"] by (auto simp: int_text_def)
  next
    assume "\<not> m < 0" "\<not> n < 0"
    then show ?thesis using assms(1) eq [of "nat m" "nat n"] by (auto simp: int_text_def)
  qed (use assms(1) head head [symmetric] in \<open>auto simp: int_text_def\<close>)
qed

text \<open>The first character tells the kind of a value.\<close>

definition first_char :: "json \<Rightarrow> char \<Rightarrow> bool" where
  "first_char v c \<longleftrightarrow> (case v of
     JNull \<Rightarrow> c = CHR ''n'' | JBool b \<Rightarrow> c = (if b then CHR ''t'' else CHR ''f'')
   | JInt n \<Rightarrow> is_digit c \<or> c = CHR ''-'' | JStr s \<Rightarrow> c = quote_char
   | JArr vs \<Rightarrow> c = CHR ''['' | JObj fs \<Rightarrow> c = CHR ''{'')"

lemma emit_head: "emit l d v \<noteq> [] \<and> first_char v (hd (emit l d v))"
  using nat_text_head by (cases v) (auto simp: first_char_def quote_def int_text_def split: list.splits)


lemma first_char_same: "first_char v c \<Longrightarrow> first_char w c \<Longrightarrow>
    (case v of JNull \<Rightarrow> w = JNull | JBool b \<Rightarrow> w = JBool b | JInt n \<Rightarrow> (\<exists>m. w = JInt m)
     | JStr s \<Rightarrow> (\<exists>t. w = JStr t) | JArr vs \<Rightarrow> (\<exists>ws. w = JArr ws) | JObj fs \<Rightarrow> (\<exists>gs. w = JObj gs))"
  by (cases v; cases w) (auto simp: first_char_def is_digit_def code_unit_def split: if_splits)

lemma emit_same_kind: "emit l d v @ r = emit l d w @ u \<Longrightarrow>
    (case v of JNull \<Rightarrow> w = JNull | JBool b \<Rightarrow> w = JBool b | JInt n \<Rightarrow> (\<exists>m. w = JInt m)
     | JStr s \<Rightarrow> (\<exists>t. w = JStr t) | JArr vs \<Rightarrow> (\<exists>ws. w = JArr ws) | JObj fs \<Rightarrow> (\<exists>gs. w = JObj gs))"
  using first_char_same [of v "hd (emit l d v)" w] emit_head [of l d v] emit_head [of l d w]
  by (metis hd_append2)

definition closing :: "string \<Rightarrow> bool" where
  "closing s \<longleftrightarrow> delimited s \<and> (s = [] \<or> hd s \<noteq> CHR '','')"

lemma closing_delimited: "closing s \<Longrightarrow> delimited s"
  by (simp add: closing_def)

lemma closing_end: "plain_layout l \<Longrightarrow> closing (break_at l d @ CHR '']'' # r)"
    "plain_layout l \<Longrightarrow> closing (break_at l d @ CHR ''}'' # r)"
  by (auto simp: closing_def delimited_break) (auto simp: plain_layout_def hd_append split: if_splits)

lemma closing_comma: "closing (CHR '','' # s) \<Longrightarrow> P"
  by (simp add: closing_def)

lemma quote_ne_Nil [simp]: "quote s \<noteq> []"
  by (simp add: quote_def)

lemma emit_ne_end: "emit l d v @ r \<noteq> CHR '']'' # u"
  using emit_head [of l d v]
  by (cases "emit l d v"; cases v) (auto simp: first_char_def is_digit_def code_unit_def)

lemma items_not_end:
  assumes "plain_layout l"
  shows "emit_items l d (a # x) @ q \<noteq> CHR '']'' # p"
proof (cases "break_at l d")
  case Nil
  then show ?thesis using emit_ne_end [of l d a] by simp
next
  case (Cons c t)
  then have "c = CHR 0x0A" using assms by (metis list.distinct(1) list.sel(1) plain_layout_def)
  then show ?thesis using Cons by simp
qed

lemma fields_not_end:
  assumes "plain_layout l"
  shows "emit_fields l d (f # x) @ q \<noteq> CHR ''}'' # p"
proof (cases "break_at l d")
  case Nil
  then show ?thesis by (cases f) (simp add: quote_def)
next
  case (Cons c t)
  then have "c = CHR 0x0A" using assms by (metis list.distinct(1) list.sel(1) plain_layout_def)
  then show ?thesis using Cons by (cases f) simp
qed

text \<open>After an item, both texts go on with another item or both end.\<close>

lemma comma_or_end:
  assumes "closing r" "closing u"
    "(if vs = [] then [] else '','' @ f vs) @ r = (if ws = [] then [] else '','' @ f ws) @ u"
  shows "vs = [] \<longleftrightarrow> ws = []"
  using assms closing_comma by (auto split: if_splits)

lemma emit_inj_mutual:
  "plain_layout l \<Longrightarrow> delimited r \<Longrightarrow> delimited u \<Longrightarrow> emit l d v @ r = emit l d w @ u \<Longrightarrow> v = w \<and> r = u"
  "plain_layout l \<Longrightarrow> closing r \<Longrightarrow> closing u \<Longrightarrow> vs \<noteq> [] \<Longrightarrow> ws \<noteq> [] \<Longrightarrow>
    emit_items l d vs @ r = emit_items l d ws @ u \<Longrightarrow> vs = ws \<and> r = u"
  "plain_layout l \<Longrightarrow> closing r \<Longrightarrow> closing u \<Longrightarrow> fs \<noteq> [] \<Longrightarrow> gs \<noteq> [] \<Longrightarrow>
    emit_fields l d fs @ r = emit_fields l d gs @ u \<Longrightarrow> fs = gs \<and> r = u"
proof (induction l d v and l d vs and l d fs arbitrary: w r u and ws r u and gs r u rule: emit_emit_items_emit_fields.induct)
  case (1 l depth)
  then show ?case using emit_same_kind [OF "1.prems"(4)] by simp
next
  case (2 l depth b)
  then show ?case using emit_same_kind [OF "2.prems"(4)] by simp
next
  case (3 l depth n)
  then obtain m where w: "w = JInt m" using emit_same_kind [OF "3.prems"(4)] by auto
  then show ?case using int_text_inj_delimited [of n r m u] "3.prems" by simp
next
  case (4 l depth s)
  then obtain t where w: "w = JStr t" using emit_same_kind [OF "4.prems"(4)] by auto
  then show ?case using quote_inj [of s r t u] "4.prems" by simp
next
  case (5 l depth vs)
  then obtain ws where w: "w = JArr ws" using emit_same_kind [OF "5.prems"(4)] by auto
  note c = closing_end(1) [OF "5.prems"(1)]
  note no = items_not_end [OF "5.prems"(1)] items_not_end [OF "5.prems"(1), symmetric]
  show ?case
  proof (cases vs)
    case Nil
    then show ?thesis using "5.prems"(4) no w by (cases ws) simp_all
  next
    case (Cons a x)
    then obtain b y where ws: "ws = b # y" using "5.prems"(4) no w by (cases ws) simp_all
    have eq: "emit_items l (Suc depth) vs @ break_at l depth @ CHR '']'' # r =
        emit_items l (Suc depth) ws @ break_at l depth @ CHR '']'' # u"
      using "5.prems"(4) w Cons ws by simp
    have "vs = ws \<and> break_at l depth @ CHR '']'' # r = break_at l depth @ CHR '']'' # u"
      by (rule "5.IH" [OF Cons "5.prems"(1) c c _ _ eq]) (simp_all add: Cons ws)
    then show ?thesis using w by simp
  qed
next
  case (6 l depth fs)
  then obtain gs where w: "w = JObj gs" using emit_same_kind [OF "6.prems"(4)] by auto
  note c = closing_end(2) [OF "6.prems"(1)]
  note no = fields_not_end [OF "6.prems"(1)] fields_not_end [OF "6.prems"(1), symmetric]
  show ?case
  proof (cases fs)
    case Nil
    then show ?thesis using "6.prems"(4) no w by (cases gs) simp_all
  next
    case (Cons a x)
    then obtain b y where gs: "gs = b # y" using "6.prems"(4) no w by (cases gs) simp_all
    have eq: "emit_fields l (Suc depth) fs @ break_at l depth @ CHR ''}'' # r =
        emit_fields l (Suc depth) gs @ break_at l depth @ CHR ''}'' # u"
      using "6.prems"(4) w Cons gs by simp
    have "fs = gs \<and> break_at l depth @ CHR ''}'' # r = break_at l depth @ CHR ''}'' # u"
      by (rule "6.IH" [OF Cons "6.prems"(1) c c _ _ eq]) (simp_all add: Cons gs)
    then show ?thesis using w by simp
  qed
next
  case (7 l depth)
  then show ?case by simp
next
  case (8 l depth v vs)
  obtain w ws' where ws: "ws = w # ws'" using "8.prems"(5) by (cases ws) simp_all
  have eq: "emit l depth v @ (if vs = [] then [] else '','' @ emit_items l depth vs) @ r =
      emit l depth w @ (if ws' = [] then [] else '','' @ emit_items l depth ws') @ u"
    using "8.prems"(6) ws by simp
  then have both: "v = w" "(if vs = [] then [] else '','' @ emit_items l depth vs) @ r =
      (if ws' = [] then [] else '','' @ emit_items l depth ws') @ u"
    using "8.IH"(1) [OF "8.prems"(1) _ _ eq] "8.prems"(2,3) by (simp_all add: closing_delimited)
  then have "vs = [] \<longleftrightarrow> ws' = []"
    by (intro comma_or_end [OF "8.prems"(2,3)])
  then show ?case using both ws "8.IH"(2) [OF _ "8.prems"(1-3), of ws'] by (auto split: if_splits)
next
  case (9 l depth)
  then show ?case by simp
next
  case (10 l depth k v fs)
  obtain k' w gs' where gs: "gs = (k', w) # gs'" using "10.prems"(5) by (cases gs) auto
  have "quote k @ after_key l @ emit l depth v @ (if fs = [] then [] else '','' @ emit_fields l depth fs) @ r =
      quote k' @ after_key l @ emit l depth w @ (if gs' = [] then [] else '','' @ emit_fields l depth gs') @ u"
    using "10.prems"(6) gs by simp
  from quote_inj [OF this]
  have k: "k = k'" and eq: "emit l depth v @ (if fs = [] then [] else '','' @ emit_fields l depth fs) @ r =
      emit l depth w @ (if gs' = [] then [] else '','' @ emit_fields l depth gs') @ u"
    by simp_all
  then have both: "v = w" "(if fs = [] then [] else '','' @ emit_fields l depth fs) @ r =
      (if gs' = [] then [] else '','' @ emit_fields l depth gs') @ u"
    using "10.IH"(1) [OF "10.prems"(1) _ _ eq] "10.prems"(2,3) by (simp_all add: closing_delimited)
  then have "fs = [] \<longleftrightarrow> gs' = []"
    by (intro comma_or_end [OF "10.prems"(2,3)])
  then show ?case using both k gs "10.IH"(2) [OF _ "10.prems"(1-3), of gs'] by (auto split: if_splits)
qed

text \<open>In one layout, equal texts are equal values.\<close>

lemma emit_inj: "plain_layout l \<Longrightarrow> emit l d v = emit l d w \<Longrightarrow> v = w"
  using emit_inj_mutual(1) [of l "[]" "[]" d v w] by simp

lemma json_text_inj: "json_text v = json_text w \<longleftrightarrow> v = w"
  using emit_inj [OF plain_layouts(1)] by blast

text \<open>A text that may be missing, written as \<open>null\<close> then.\<close>

definition null_or_text :: "string option \<Rightarrow> json" where
  "null_or_text v = (case v of None \<Rightarrow> JNull | Some s \<Rightarrow> JStr s)"

lemma null_or_text_inj [simp]: "null_or_text a = null_or_text b \<longleftrightarrow> a = b"
  by (auto simp: null_or_text_def split: option.splits)

lemma map_JStr_inj [simp]: "map JStr xs = map JStr ys \<longleftrightarrow> xs = ys"
  by (rule inj_map_eq_map) (simp add: inj_def)

end
