(* ===== verification/Snapshot.thy ===== *)
theory Snapshot
  imports Books Json
begin

text \<open>
  A snapshot of the books and the hash chain over snapshots:
  \<open>packages/core-domain/src/ledger-snapshot.ts\<close>. SHA-256 is a parameter \<open>sha\<close>. The lemmas show
  that the canonical JSON is a value's JSON with its keys sorted, refused exactly for the values it
  does not admit, and that a chain's head determines every snapshot before it unless \<open>sha\<close>
  collides.
\<close>

section \<open>A general ledger\<close>

record GeneralLedgerAccount =
  glac_accountExternalId :: "string option"
  glac_accountName :: string
  glac_beginningBalanceCents :: "int option"
  glac_lines :: "GeneralLedgerLine list"

record GeneralLedger =
  gled_sourceKind :: AccountingSourceKind
  gled_window :: LedgerWindow
  gled_basis :: "string option"
  gled_currency :: "string option"
  gled_accounts :: "GeneralLedgerAccount list"

section \<open>Content\<close>

datatype LedgerSnapshotStatus = Snapshot_Complete | Snapshot_Refused

record SnapshotTrialBalanceLine =
  sl_account_external_id :: "string option"
  sl_account_name :: string
  sl_debit_cents :: string
  sl_credit_cents :: string

record SnapshotPostingLine = SnapshotTrialBalanceLine +
  sl_txn_date :: string
  sl_txn_type :: "string option"
  sl_transaction_external_id :: "string option"
  sl_doc_number :: "string option"

record LedgerSnapshotContent =
  sn_format :: string
  sn_org_id :: string
  sn_connection_id :: string
  sn_run_id :: string
  sn_as_of :: string
  sn_window_from :: string
  sn_window_to :: string
  sn_basis :: "string option"
  sn_currency :: "string option"
  sn_status :: LedgerSnapshotStatus
  sn_refusal_class :: "string option"
  sn_total_debit_cents :: "string option"
  sn_total_credit_cents :: "string option"
  sn_trial_balance :: "SnapshotTrialBalanceLine list"
  sn_ledger_postings :: "SnapshotPostingLine list"

definition LEDGER_SNAPSHOT_FORMAT :: string where
  "LEDGER_SNAPSHOT_FORMAT = ''recouple.ledger_snapshot.v1''"

text \<open>\<open>/^[A-Za-z_$][A-Za-z0-9_$]{0,63}$/\<close> and \<open>/^[0-9a-f]{64}$/\<close>.\<close>

definition is_class_name :: "string \<Rightarrow> bool" where
  "is_class_name s \<longleftrightarrow> s \<noteq> [] \<and> length s \<le> 64 \<and> (is_letter (hd s) \<or> hd s \<in> set ''_$'') \<and>
     list_all (\<lambda>c. is_word_char c \<or> c = CHR ''$'') s"

definition is_sha256_hex :: "string \<Rightarrow> bool" where
  "is_sha256_hex s \<longleftrightarrow> length s = 64 \<and> list_all (\<lambda>c. is_digit c \<or> CHR ''a'' \<le> c \<and> c \<le> CHR ''f'') s"

definition centsText :: "int \<Rightarrow> string res" where
  "centsText amount = (if safe_int amount then Inr (int_text amount)
     else Inl (LedgerSnapshotError ''an amount in a snapshot is a whole number of cents''))"

record SnapshotIds =
  ids_orgId :: string
  ids_connectionId :: string
  ids_runId :: string
  ids_window :: LedgerWindow

datatype snapshot_read = Read_Complete TrialBalance GeneralLedger | Read_Refused string

definition or_value :: "'a option \<Rightarrow> 'a option \<Rightarrow> 'a option" where
  "or_value a b = (case a of None \<Rightarrow> b | Some _ \<Rightarrow> a)"

definition trial_line :: "TrialBalanceLine \<Rightarrow> SnapshotTrialBalanceLine res" where
  "trial_line line =
     bind_res (centsText (tbl_debitCents line)) (\<lambda>d.
     bind_res (centsText (tbl_creditCents line)) (\<lambda>c.
       Inr \<lparr>sl_account_external_id = tbl_accountExternalId line, sl_account_name = tbl_accountName line,
            sl_debit_cents = d, sl_credit_cents = c\<rparr>))"

definition posting_line :: "GeneralLedgerAccount \<Rightarrow> GeneralLedgerLine \<Rightarrow> SnapshotPostingLine res" where
  "posting_line account line =
     (if \<not> iso_shape (gl_date line) then Inl (LedgerSnapshotError ''a posting's date is YYYY-MM-DD'')
      else bind_res (centsText (gl_debitCents line)) (\<lambda>d.
        bind_res (centsText (gl_creditCents line)) (\<lambda>c.
          Inr \<lparr>sl_account_external_id = or_value (gl_accountExternalId line) (glac_accountExternalId account),
               sl_account_name = gl_accountName line, sl_debit_cents = d, sl_credit_cents = c,
               sl_txn_date = gl_date line, sl_txn_type = gl_transactionType line,
               sl_transaction_external_id = gl_transactionExternalId line,
               sl_doc_number = gl_documentNumber line\<rparr>)))"

definition snapshot_header :: "SnapshotIds \<Rightarrow> LedgerSnapshotContent" where
  "snapshot_header i =
     \<lparr>sn_format = LEDGER_SNAPSHOT_FORMAT, sn_org_id = ids_orgId i, sn_connection_id = ids_connectionId i,
      sn_run_id = ids_runId i, sn_as_of = win_to (ids_window i), sn_window_from = win_from (ids_window i),
      sn_window_to = win_to (ids_window i), sn_basis = None, sn_currency = None, sn_status = Snapshot_Refused,
      sn_refusal_class = None, sn_total_debit_cents = None, sn_total_credit_cents = None,
      sn_trial_balance = [], sn_ledger_postings = []\<rparr>"

definition ledger_postings :: "GeneralLedger \<Rightarrow> SnapshotPostingLine list res" where
  "ledger_postings gl = bind_res (map_res (\<lambda>account. map_res (posting_line account) (glac_lines account)) (gled_accounts gl))
     (\<lambda>ls. Inr (concat ls))"

definition buildLedgerSnapshot :: "SnapshotIds \<Rightarrow> snapshot_read \<Rightarrow> LedgerSnapshotContent res" where
  "buildLedgerSnapshot i r =
     (let w = ids_window i in
      if \<not> iso_shape (win_from w) \<or> \<not> iso_shape (win_to w) \<or> win_from w > win_to w
      then Inl (LedgerSnapshotError ''a snapshot window is two YYYY-MM-DD days, in order'')
      else (case r of
        Read_Refused cls \<Rightarrow>
          if \<not> is_class_name cls
          then Inl (LedgerSnapshotError ''a refused snapshot carries a class name, never a message'')
          else Inr ((snapshot_header i)\<lparr>sn_refusal_class := Some cls\<rparr>)
      | Read_Complete tb gl \<Rightarrow>
          if tb_asOf tb \<noteq> win_to w
          then Inl (LedgerSnapshotError ''a snapshot's trial balance is as of its run's last day'')
          else if win_from (gled_window gl) \<noteq> win_from w \<or> win_to (gled_window gl) \<noteq> win_to w
          then Inl (LedgerSnapshotError ''a snapshot's general ledger covers its run's window'')
          else bind_res (map_res trial_line (tb_lines tb)) (\<lambda>trial.
            if (\<Sum>l\<leftarrow>tb_lines tb. tbl_debitCents l) \<noteq> tb_totalDebitCents tb \<or>
               (\<Sum>l\<leftarrow>tb_lines tb. tbl_creditCents l) \<noteq> tb_totalCreditCents tb
            then Inl (LedgerSnapshotError ''the trial balance's lines do not add up to its totals'')
            else bind_res (ledger_postings gl) (\<lambda>postings.
              bind_res (centsText (tb_totalDebitCents tb)) (\<lambda>d.
              bind_res (centsText (tb_totalCreditCents tb)) (\<lambda>c.
                Inr ((snapshot_header i)\<lparr>sn_basis := tb_basis tb, sn_currency := or_value (tb_currency tb) (gled_currency gl),
                  sn_status := Snapshot_Complete, sn_total_debit_cents := Some d, sn_total_credit_cents := Some c,
                  sn_trial_balance := trial, sn_ledger_postings := postings\<rparr>)))))))"

section \<open>Canonical JSON\<close>

text \<open>A JavaScript value as the function meets it: an instance of a class is not a plain object, and
  \<open>VOther\<close> is a value of another type (a function, a symbol, a \<open>bigint\<close>).\<close>

datatype js_value =
    VUndefined
  | VNull
  | VBool bool
  | VNumber js_number
  | VString string
  | VArray "js_value list"
  | VObject "(string \<times> js_value) list"
  | VInstance
  | VOther string

abbreviation by_key :: "string \<times> 'a \<Rightarrow> string \<times> 'a \<Rightarrow> int" where
  "by_key a b \<equiv> compare_text (fst a) (fst b)"

fun snapshotCanonicalJson :: "js_value \<Rightarrow> string res"
  and canonical_items :: "js_value list \<Rightarrow> string list res"
  and canonical_fields :: "(string \<times> js_value) list \<Rightarrow> (string \<times> string res) list" where
  "snapshotCanonicalJson VNull = Inr ''null''"
| "snapshotCanonicalJson (VString s) = Inr (quote s)"
| "snapshotCanonicalJson (VBool b) = Inr (if b then ''true'' else ''false'')"
| "snapshotCanonicalJson (VNumber n) = (case n of
     Whole v \<Rightarrow> if safe_int v then Inr (int_text v)
       else Inl (LedgerSnapshotError ''canonical JSON admits only safe integers as numbers'')
   | NotWhole \<Rightarrow> Inl (LedgerSnapshotError ''canonical JSON admits only safe integers as numbers''))"
| "snapshotCanonicalJson (VArray vs) =
     bind_res (canonical_items vs) (\<lambda>ts. Inr (''['' @ join '','' ts @ '']''))"
| "snapshotCanonicalJson VInstance = Inl (LedgerSnapshotError ''canonical JSON admits only plain objects'')"
| "snapshotCanonicalJson (VObject fs) =
     bind_res (map_res (\<lambda>(k, r). bind_res r (\<lambda>t. Inr (quote k @ '':'' @ t))) (sort_by by_key (canonical_fields fs)))
       (\<lambda>ts. Inr (''{'' @ join '','' ts @ ''}''))"
| "snapshotCanonicalJson VUndefined = Inl (LedgerSnapshotError ''canonical JSON does not admit a undefined'')"
| "snapshotCanonicalJson (VOther kind) = Inl (LedgerSnapshotError (''canonical JSON does not admit a '' @ kind))"
| "canonical_items [] = Inr []"
| "canonical_items (v # vs) = bind_res (snapshotCanonicalJson v) (\<lambda>t. bind_res (canonical_items vs) (\<lambda>ts. Inr (t # ts)))"
| "canonical_fields [] = []"
| "canonical_fields ((k, v) # fs) =
     (k, if v = VUndefined then Inl (LedgerSnapshotError (''canonical JSON has no undefined: '' @ k))
         else snapshotCanonicalJson v) # canonical_fields fs"

definition text_value :: "string option \<Rightarrow> js_value" where
  "text_value s = (case s of None \<Rightarrow> VNull | Some t \<Rightarrow> VString t)"

definition trial_fields :: "('a :: type) SnapshotTrialBalanceLine_scheme \<Rightarrow> (string \<times> js_value) list" where
  "trial_fields l = [(''account_external_id'', text_value (sl_account_external_id l)),
     (''account_name'', VString (sl_account_name l)), (''debit_cents'', VString (sl_debit_cents l)),
     (''credit_cents'', VString (sl_credit_cents l))]"

definition posting_fields :: "SnapshotPostingLine \<Rightarrow> (string \<times> js_value) list" where
  "posting_fields l = trial_fields l @ [(''txn_date'', VString (sl_txn_date l)), (''txn_type'', text_value (sl_txn_type l)),
     (''transaction_external_id'', text_value (sl_transaction_external_id l)),
     (''doc_number'', text_value (sl_doc_number l))]"

definition content_fields :: "LedgerSnapshotContent \<Rightarrow> (string \<times> js_value) list" where
  "content_fields c = [(''format'', VString (sn_format c)), (''org_id'', VString (sn_org_id c)),
     (''connection_id'', VString (sn_connection_id c)), (''run_id'', VString (sn_run_id c)),
     (''as_of'', VString (sn_as_of c)), (''window_from'', VString (sn_window_from c)),
     (''window_to'', VString (sn_window_to c)), (''basis'', text_value (sn_basis c)),
     (''currency'', text_value (sn_currency c)),
     (''status'', VString (case sn_status c of Snapshot_Complete \<Rightarrow> ''complete'' | Snapshot_Refused \<Rightarrow> ''refused'')),
     (''refusal_class'', text_value (sn_refusal_class c)),
     (''total_debit_cents'', text_value (sn_total_debit_cents c)),
     (''total_credit_cents'', text_value (sn_total_credit_cents c)),
     (''trial_balance'', VArray (map (\<lambda>l. VObject (trial_fields l)) (sn_trial_balance c))),
     (''ledger_postings'', VArray (map (\<lambda>l. VObject (posting_fields l)) (sn_ledger_postings c)))]"

definition snapshotSha256 :: "(string \<Rightarrow> string) \<Rightarrow> LedgerSnapshotContent \<Rightarrow> string option \<Rightarrow> string res" where
  "snapshotSha256 sha content prevSha256 =
     (if (case prevSha256 of None \<Rightarrow> False | Some p \<Rightarrow> \<not> is_sha256_hex p)
      then Inl (LedgerSnapshotError ''prev_sha256 is 64 lowercase hex, or null for the first'')
      else bind_res (snapshotCanonicalJson (VObject [(''content'', VObject (content_fields content)),
        (''prev_sha256'', text_value prevSha256)])) (\<lambda>t. Inr (sha t)))"


section \<open>What canonical JSON is\<close>

text \<open>The values it admits, and the JSON value it writes: the same with every object's keys sorted.\<close>

fun admitted :: "js_value \<Rightarrow> bool"
  and admitted_items :: "js_value list \<Rightarrow> bool"
  and admitted_fields :: "(string \<times> js_value) list \<Rightarrow> bool" where
  "admitted VNull = True"
| "admitted (VString s) = True"
| "admitted (VBool b) = True"
| "admitted (VNumber n) = (case n of Whole v \<Rightarrow> safe_int v | NotWhole \<Rightarrow> False)"
| "admitted (VArray vs) = admitted_items vs"
| "admitted (VObject fs) = admitted_fields fs"
| "admitted VUndefined = False"
| "admitted VInstance = False"
| "admitted (VOther k) = False"
| "admitted_items [] = True"
| "admitted_items (v # vs) = (admitted v \<and> admitted_items vs)"
| "admitted_fields [] = True"
| "admitted_fields ((k, v) # fs) = (admitted v \<and> admitted_fields fs)"

fun canonise :: "js_value \<Rightarrow> json"
  and canonise_items :: "js_value list \<Rightarrow> json list"
  and canonise_fields :: "(string \<times> js_value) list \<Rightarrow> (string \<times> json) list" where
  "canonise (VString s) = JStr s"
| "canonise (VBool b) = JBool b"
| "canonise (VNumber n) = (case n of Whole v \<Rightarrow> JInt v | NotWhole \<Rightarrow> JNull)"
| "canonise (VArray vs) = JArr (canonise_items vs)"
| "canonise (VObject fs) = JObj (sort_by by_key (canonise_fields fs))"
| "canonise _ = JNull"
| "canonise_items [] = []"
| "canonise_items (v # vs) = canonise v # canonise_items vs"
| "canonise_fields [] = []"
| "canonise_fields ((k, v) # fs) = (k, canonise v) # canonise_fields fs"

lemma insert_by_map:
  "(\<And>x y. cmp' (g x) (g y) = cmp x y) \<Longrightarrow> insert_by cmp' (g x) (map g xs) = map g (insert_by cmp x xs)"
  by (induction xs) auto

lemma sort_by_map:
  "(\<And>x y. cmp' (g x) (g y) = cmp x y) \<Longrightarrow> sort_by cmp' (map g xs) = map g (sort_by cmp xs)"
  by (induction xs) (auto simp: insert_by_map)

lemma compact_simps [simp]: "break_at compact d = []" "after_key compact = '':''"
  by (simp_all add: compact_def)

lemma emit_depth:
  "(\<And>d. break_at l d = []) \<Longrightarrow> emit l d v = emit l e v"
  "(\<And>d. break_at l d = []) \<Longrightarrow> emit_items l d vs = emit_items l e vs"
  "(\<And>d. break_at l d = []) \<Longrightarrow> emit_fields l d fs = emit_fields l e fs"
proof (induction l d v and l d vs and l d fs arbitrary: e and e and e rule: emit_emit_items_emit_fields.induct)
  case (5 l d vs)
  show ?case
  proof (cases vs)
    case (Cons a x)
    from "5.IH" [OF Cons "5.prems", of "Suc e"] show ?thesis
      by (simp only: emit.simps Cons list.case "5.prems")
  qed simp
next
  case (6 l d fs)
  show ?case
  proof (cases fs)
    case (Cons a x)
    from "6.IH" [OF Cons "6.prems", of "Suc e"] show ?thesis
      by (simp only: emit.simps Cons list.case "6.prems")
  qed simp
next
  case (8 l d v vs)
  from "8.IH"(1) [OF "8.prems", of e] "8.IH"(2) [OF _ "8.prems", of e] show ?case
    by (cases "vs = []") (simp_all add: "8.prems")
next
  case (10 l d k v fs)
  from "10.IH"(1) [OF "10.prems", of e] "10.IH"(2) [OF _ "10.prems", of e] show ?case
    by (cases "fs = []") (simp_all add: "10.prems")
qed simp_all

lemmas emit_compact_depth = emit_depth [where l = compact, OF compact_simps(1)]

lemma emit_items_join: "emit_items compact d vs = join '','' (map json_text vs)"
proof (induction vs)
  case (Cons v vs)
  then show ?case using emit_compact_depth(1) [of d v 0] by (cases vs) simp_all
qed simp

lemma emit_fields_join: "emit_fields compact d fs = join '','' (map (\<lambda>(k, v). quote k @ '':'' @ json_text v) fs)"
proof (induction fs)
  case (Cons f fs)
  then show ?case using emit_compact_depth(1) [of d "snd f" 0] by (cases f; cases fs) simp_all
qed simp

lemma json_text_JArr: "json_text (JArr vs) = ''['' @ join '','' (map json_text vs) @ '']''"
  by (cases vs) (simp_all only: emit.simps list.case emit_items_join, simp_all)

lemma json_text_JObj:
  "json_text (JObj fs) = ''{'' @ join '','' (map (\<lambda>(k, v). quote k @ '':'' @ json_text v) fs) @ ''}''"
  by (cases fs) (simp_all only: emit.simps list.case emit_fields_join, simp_all)

text \<open>The function writes the canonical value's text, or throws.\<close>

lemma canonical_fields_keys: "map fst (canonical_fields fs) = map fst fs"
  by (induction fs) auto

lemma canonical_text:
  "snapshotCanonicalJson v = (if admitted v then Inr (json_text (canonise v)) else snapshotCanonicalJson v) \<and>
     (\<not> admitted v \<longrightarrow> (\<exists>m. snapshotCanonicalJson v = Inl (LedgerSnapshotError m)))"
  "canonical_items vs = (if admitted_items vs then Inr (map json_text (canonise_items vs)) else canonical_items vs) \<and>
     (\<not> admitted_items vs \<longrightarrow> (\<exists>m. canonical_items vs = Inl (LedgerSnapshotError m)))"
  "(admitted_fields fs \<longrightarrow> canonical_fields fs = map (\<lambda>(k, v). (k, Inr (json_text v))) (canonise_fields fs)) \<and>
     (\<not> admitted_fields fs \<longrightarrow> (\<exists>k m. (k, Inl (LedgerSnapshotError m)) \<in> set (canonical_fields fs))) \<and>
     (\<forall>(k, r) \<in> set (canonical_fields fs). \<forall>e. r = Inl e \<longrightarrow> (\<exists>m. e = LedgerSnapshotError m))"
proof (induction v and vs and fs rule: snapshotCanonicalJson_canonical_items_canonical_fields.induct)
  case (5 vs)
  then show ?case by (cases "admitted_items vs") (auto simp: json_text_JArr simp del: emit.simps)
next
  case (7 fs)
  let ?emit = "\<lambda>(k, r). bind_res r (\<lambda>t. Inr (quote k @ '':'' @ t))"
  show ?case
  proof (cases "admitted_fields fs")
    case True
    then have f: "canonical_fields fs = map (\<lambda>(k, v). (k, Inr (json_text v))) (canonise_fields fs)"
      using "7.IH" by simp
    have "sort_by by_key (canonical_fields fs) =
        map (\<lambda>(k, v). (k, Inr (json_text v))) (sort_by by_key (canonise_fields fs))"
      unfolding f by (rule sort_by_map) (auto simp: case_prod_beta)
    moreover have "map_res ?emit (map (\<lambda>(k, v). (k, Inr (json_text v))) gs) =
        Inr (map (\<lambda>(k, v). quote k @ '':'' @ json_text v) gs)" for gs
      by (induction gs) (auto simp del: emit.simps)
    ultimately show ?thesis using True by (simp add: json_text_JObj del: emit.simps)
  next
    case False
    then obtain k m where km: "(k, Inl (LedgerSnapshotError m)) \<in> set (sort_by by_key (canonical_fields fs))"
      using "7.IH" by auto
    have all: "\<forall>(k, r) \<in> set (sort_by by_key (canonical_fields fs)). \<forall>e. r = Inl e \<longrightarrow> (\<exists>m. e = LedgerSnapshotError m)"
      using "7.IH" by simp
    have "\<exists>m'. map_res ?emit xs = Inl (LedgerSnapshotError m')"
      if "(k, Inl (LedgerSnapshotError m)) \<in> set xs"
        "\<forall>(k, r) \<in> set xs. \<forall>e. r = Inl e \<longrightarrow> (\<exists>m. e = LedgerSnapshotError m)" for xs :: "(string \<times> string res) list"
      using that
    proof (induction xs)
      case (Cons x xs)
      then show ?case by (cases x; cases "snd x") auto
    qed simp
    from this [OF km all] show ?thesis using False by auto
  qed
next
  case (4 n)
  then show ?case by (cases n) auto
next
  case (11 v vs)
  then show ?case by (cases "admitted v"; cases "admitted_items vs") auto
next
  case (13 k v fs)
  show ?case
  proof (cases "admitted v")
    case True
    then have "v \<noteq> VUndefined" by auto
    with True 13 show ?thesis by (cases "admitted_fields fs") (auto simp del: emit.simps)
  next
    case False
    then have "\<exists>m. (k, Inl (LedgerSnapshotError m)) \<in> set (canonical_fields ((k, v) # fs))"
      using 13 by (cases "v = VUndefined") auto
    moreover have "\<forall>(k, r) \<in> set (canonical_fields ((k, v) # fs)). \<forall>e. r = Inl e \<longrightarrow> (\<exists>m. e = LedgerSnapshotError m)"
      using False 13 by (cases "v = VUndefined") auto
    ultimately show ?thesis using False by (simp only: admitted_fields.simps) blast
  qed
qed simp_all


section \<open>A snapshot is determined by its canonical JSON\<close>

text \<open>Objects with the same keys in the same written order have equal sorted fields only when they are
  equal.\<close>

lemma fields_by_key:
  assumes "mset xs = mset ys" "map fst xs = map fst ys" "distinct (map fst xs)"
  shows "xs = ys"
proof (rule nth_equalityI)
  show len: "length xs = length ys" using assms(1) by (metis size_mset)
  fix i assume i: "i < length xs"
  have "xs ! i \<in> set ys" using i assms(1) by (metis nth_mem set_mset_mset)
  then obtain j where j: "j < length ys" "ys ! j = xs ! i" by (metis in_set_conv_nth)
  have "map fst ys ! j = map fst ys ! i" using j i len assms(2) by (metis nth_map)
  moreover have "distinct (map fst ys)" using assms(2,3) by simp
  ultimately have "j = i" using j(1) i len by (metis length_map nth_eq_iff_index_eq)
  then show "xs ! i = ys ! i" using j by simp
qed

lemma canonise_fields_keys [simp]: "map fst (canonise_fields fs) = map fst fs"
  by (induction fs) auto

lemma canonise_object_inj:
  assumes "canonise (VObject fs) = canonise (VObject gs)" "map fst fs = map fst gs" "distinct (map fst fs)"
  shows "canonise_fields fs = canonise_fields gs"
  by (rule fields_by_key) (use assms in \<open>simp_all, metis mset_sort_by\<close>)

lemma canonise_text_value [simp]: "canonise (text_value a) = canonise (text_value b) \<longleftrightarrow> a = b"
  by (auto simp: text_value_def split: option.splits)

lemma canonise_items_inj:
  "(\<And>x y. canonise (f x) = canonise (f y) \<Longrightarrow> x = y) \<Longrightarrow>
    canonise_items (map f xs) = canonise_items (map f ys) \<longleftrightarrow> xs = ys"
proof (induction xs arbitrary: ys)
  case Nil
  then show ?case by (cases ys) auto
next
  case (Cons x xs)
  then show ?case by (cases ys) auto
qed

lemma canonise_trial_inj: "canonise (VObject (trial_fields l)) = canonise (VObject (trial_fields k)) \<Longrightarrow> l = (k :: SnapshotTrialBalanceLine)"
  by (drule canonise_object_inj) (simp_all add: trial_fields_def)

lemma canonise_posting_inj: "canonise (VObject (posting_fields l)) = canonise (VObject (posting_fields k)) \<Longrightarrow> l = k"
  by (drule canonise_object_inj) (simp_all add: trial_fields_def posting_fields_def)

lemma trial_lines_inj:
  "canonise_items (map (\<lambda>l. VObject (trial_fields l)) xs) = canonise_items (map (\<lambda>l. VObject (trial_fields l)) ys) \<longleftrightarrow>
    xs = (ys :: SnapshotTrialBalanceLine list)"
  by (rule canonise_items_inj) (rule canonise_trial_inj)

lemma posting_lines_inj:
  "canonise_items (map (\<lambda>l. VObject (posting_fields l)) xs) = canonise_items (map (\<lambda>l. VObject (posting_fields l)) ys) \<longleftrightarrow>
    xs = ys"
  by (rule canonise_items_inj) (rule canonise_posting_inj)

lemma canonise_content_inj: "canonise (VObject (content_fields b)) = canonise (VObject (content_fields c)) \<Longrightarrow> b = c"
  by (drule canonise_object_inj)
    (auto simp: content_fields_def trial_lines_inj posting_lines_inj split: LedgerSnapshotStatus.splits)

lemma admitted_text_value [simp]: "admitted (text_value a)"
  by (cases a) (simp_all add: text_value_def)

lemma admitted_items_all: "admitted_items vs \<longleftrightarrow> (\<forall>v\<in>set vs. admitted v)"
  by (induction vs) auto

lemma admitted_content: "admitted (VObject (content_fields c))"
  by (simp add: content_fields_def admitted_items_all trial_fields_def posting_fields_def)

text \<open>What is hashed.\<close>

definition linked :: "LedgerSnapshotContent \<Rightarrow> string option \<Rightarrow> js_value" where
  "linked c prev = VObject [(''content'', VObject (content_fields c)), (''prev_sha256'', text_value prev)]"

lemma linked_inj: "canonise (linked b p) = canonise (linked c q) \<Longrightarrow> b = c \<and> p = q"
  unfolding linked_def
  by (drule canonise_object_inj) (auto dest: canonise_content_inj simp del: canonise.simps(5))

lemma linked_text: "snapshotCanonicalJson (linked c prev) = Inr (json_text (canonise (linked c prev)))"
proof -
  have "admitted (linked c prev)" using admitted_content by (simp add: linked_def)
  then show ?thesis using canonical_text(1) [of "linked c prev"] by simp
qed

lemma snapshotSha256_eq:
  "snapshotSha256 sha c prev = (if \<exists>p. prev = Some p \<and> \<not> is_sha256_hex p
     then Inl (LedgerSnapshotError ''prev_sha256 is 64 lowercase hex, or null for the first'')
     else Inr (sha (json_text (canonise (linked c prev)))))"
  using linked_text [of c prev] unfolding snapshotSha256_def linked_def by (auto split: option.splits)

text \<open>The hash of the last of a connection's snapshots, each taken over the one before.\<close>

definition chain_head :: "(string \<Rightarrow> string) \<Rightarrow> LedgerSnapshotContent list \<Rightarrow> string option res" where
  "chain_head sha contents = fold_res (\<lambda>prev c. map_sum id Some (snapshotSha256 sha c prev)) None contents"

lemma chain_head_snoc:
  "chain_head sha (cs @ [c]) = bind_res (chain_head sha cs) (\<lambda>prev. map_sum id Some (snapshotSha256 sha c prev))"
  by (simp add: chain_head_def fold_res_append bind_res_def split: sum.splits)

lemma chain_head_total:
  assumes "\<And>t. is_sha256_hex (sha t)"
  shows "\<exists>h. chain_head sha cs = Inr h \<and> (h = None \<longleftrightarrow> cs = []) \<and> (\<forall>p. h = Some p \<longrightarrow> is_sha256_hex p)"
proof (induction cs rule: rev_induct)
  case Nil
  then show ?case by (simp add: chain_head_def)
next
  case (snoc c cs)
  then show ?case using assms by (auto simp: chain_head_snoc snapshotSha256_eq)
qed

lemma chain_head_step:
  "chain_head sha cs = Inr p \<Longrightarrow> \<forall>q. p = Some q \<longrightarrow> is_sha256_hex q \<Longrightarrow>
    chain_head sha (cs @ [c]) = Inr (Some (sha (json_text (canonise (linked c p)))))"
  by (auto simp: chain_head_snoc snapshotSha256_eq)

text \<open>The texts that are hashed along the way.\<close>

definition hashed :: "(string \<Rightarrow> string) \<Rightarrow> LedgerSnapshotContent list \<Rightarrow> string set" where
  "hashed sha cs = {t. \<exists>bs b ds prev. cs = bs @ b # ds \<and> chain_head sha bs = Inr prev \<and>
     snapshotCanonicalJson (linked b prev) = Inr t}"

lemma hashed_snoc:
  assumes "chain_head sha cs = Inr prev"
  shows "hashed sha cs \<subseteq> hashed sha (cs @ [c])" "json_text (canonise (linked c prev)) \<in> hashed sha (cs @ [c])"
proof -
  show "hashed sha cs \<subseteq> hashed sha (cs @ [c])" by (fastforce simp: hashed_def)
  show "json_text (canonise (linked c prev)) \<in> hashed sha (cs @ [c])"
    using assms linked_text [of c prev] unfolding hashed_def by blast
qed

lemma chain_determined:
  assumes "\<And>t. is_sha256_hex (sha t)" "chain_head sha xs = chain_head sha ys"
  shows "xs = ys \<or> (\<exists>s\<in>hashed sha xs. \<exists>t\<in>hashed sha ys. s \<noteq> t \<and> sha s = sha t)"
  using assms(2)
proof (induction xs arbitrary: ys rule: rev_induct)
  case Nil
  then show ?case using chain_head_total [where sha = sha and cs = ys, OF assms(1)]
    by (auto simp: chain_head_def)
next
  case (snoc x xs)
  obtain p where p: "chain_head sha xs = Inr p" "\<forall>q. p = Some q \<longrightarrow> is_sha256_hex q"
    using chain_head_total [where sha = sha and cs = xs, OF assms(1)] by blast
  have head: "chain_head sha (xs @ [x]) = Inr (Some (sha (json_text (canonise (linked x p)))))"
    by (rule chain_head_step [OF p])
  then obtain ys' y where ys: "ys = ys' @ [y]"
    using snoc.prems by (cases ys rule: rev_cases) (auto simp: chain_head_def)
  obtain q where q: "chain_head sha ys' = Inr q" "\<forall>r. q = Some r \<longrightarrow> is_sha256_hex r"
    using chain_head_total [where sha = sha and cs = ys', OF assms(1)] by blast
  have same: "sha (json_text (canonise (linked x p))) = sha (json_text (canonise (linked y q)))"
    using head snoc.prems chain_head_step [OF q, of y] unfolding ys by simp
  note more = hashed_snoc [OF p(1), of x] hashed_snoc [OF q(1), of y]
  show ?case
  proof (cases "json_text (canonise (linked x p)) = json_text (canonise (linked y q))")
    case True
    then have "x = y" "p = q" using linked_inj json_text_inj by blast+
    then have "xs = ys' \<or> (\<exists>s\<in>hashed sha xs. \<exists>t\<in>hashed sha ys'. s \<noteq> t \<and> sha s = sha t)"
      using snoc.IH [of ys'] p q by simp
    with more \<open>x = y\<close> show ?thesis unfolding ys by blast
  next
    case False
    with same more show ?thesis unfolding ys by blast
  qed
qed


section \<open>Properties\<close>

text \<open>C17: every sequence of snapshots has a chain head, and one head stands for one sequence: two different
  sequences, of any lengths, have the same head only if two of the very texts hashed along them are
  different and have one digest. So no snapshot can be altered, removed or added unnoticed.\<close>

theorem snapshot_chain:
  assumes "\<And>t. is_sha256_hex (sha t)"
  shows "(\<exists>h. chain_head sha xs = Inr h) \<and>
    (chain_head sha xs = chain_head sha ys \<longrightarrow>
       xs = ys \<or> (\<exists>s\<in>hashed sha xs. \<exists>t\<in>hashed sha ys. s \<noteq> t \<and> sha s = sha t))"
proof (intro conjI impI)
  show "\<exists>h. chain_head sha xs = Inr h"
    using chain_head_total [where sha = sha and cs = xs, OF assms] by blast
  show "xs = ys \<or> (\<exists>s\<in>hashed sha xs. \<exists>t\<in>hashed sha ys. s \<noteq> t \<and> sha s = sha t)"
    if "chain_head sha xs = chain_head sha ys"
    using assms that by (rule chain_determined)
qed

definition sample_ids :: SnapshotIds where
  "sample_ids = \<lparr>ids_orgId = ''o'', ids_connectionId = ''c'', ids_runId = ''r'',
     ids_window = \<lparr>win_from = ''2025-01-01'', win_to = ''2025-01-31''\<rparr>\<rparr>"

lemma snapshot_chain_witness:
  "\<exists>h. chain_head (\<lambda>_. replicate 64 CHR ''0'') [snapshot_header sample_ids] = Inr h"
  by (rule conjunct1 [OF snapshot_chain]) (simp add: is_sha256_hex_def list_all_iff)

text \<open>A complete snapshot is kept only when the trial balance's lines add up to its totals: its totals
  are those sums, in decimal, every line is kept in order with its cents, and every posting of the
  general ledger is kept in the ledger's order with its cents and its day.\<close>

theorem snapshot_adds_up:
  assumes "buildLedgerSnapshot i (Read_Complete tb gl) = Inr c"
  shows "sn_total_debit_cents c = Some (int_text (\<Sum>l\<leftarrow>tb_lines tb. tbl_debitCents l)) \<and>
    sn_total_credit_cents c = Some (int_text (\<Sum>l\<leftarrow>tb_lines tb. tbl_creditCents l)) \<and>
    map (\<lambda>l. (sl_debit_cents l, sl_credit_cents l)) (sn_trial_balance c) =
      map (\<lambda>l. (int_text (tbl_debitCents l), int_text (tbl_creditCents l))) (tb_lines tb) \<and>
    map (\<lambda>l. (sl_txn_date l, sl_debit_cents l, sl_credit_cents l)) (sn_ledger_postings c) =
      map (\<lambda>l. (gl_date l, int_text (gl_debitCents l), int_text (gl_creditCents l)))
        (concat (map glac_lines (gled_accounts gl)))"
proof -
  from assms obtain trial postings where
    sums: "(\<Sum>l\<leftarrow>tb_lines tb. tbl_debitCents l) = tb_totalDebitCents tb"
      "(\<Sum>l\<leftarrow>tb_lines tb. tbl_creditCents l) = tb_totalCreditCents tb"
    and trial: "map_res trial_line (tb_lines tb) = Inr trial" and post: "ledger_postings gl = Inr postings"
    and c: "sn_total_debit_cents c = Some (int_text (tb_totalDebitCents tb))"
      "sn_total_credit_cents c = Some (int_text (tb_totalCreditCents tb))"
      "sn_trial_balance c = trial" "sn_ledger_postings c = postings"
    by (auto simp: buildLedgerSnapshot_def Let_def bind_res_Inr_iff centsText_def split: if_splits)
  from trial have t: "map (\<lambda>l. (sl_debit_cents l, sl_credit_cents l)) trial =
      map (\<lambda>l. (int_text (tbl_debitCents l), int_text (tbl_creditCents l))) (tb_lines tb)"
    unfolding map_res_Inr_iff
    by (induction rule: list_all2_induct) (auto simp: trial_line_def bind_res_Inr_iff centsText_def split: if_splits)
  have line: "map (\<lambda>l. (sl_txn_date l, sl_debit_cents l, sl_credit_cents l)) ps =
      map (\<lambda>l. (gl_date l, int_text (gl_debitCents l), int_text (gl_creditCents l))) ls"
    if "map_res (posting_line a) ls = Inr ps" for a ls ps
    using that unfolding map_res_Inr_iff
    by (induction rule: list_all2_induct) (auto simp: posting_line_def bind_res_Inr_iff centsText_def split: if_splits)
  from post obtain pss where pss: "map_res (\<lambda>a. map_res (posting_line a) (glac_lines a)) (gled_accounts gl) = Inr pss"
    "postings = concat pss" by (auto simp: ledger_postings_def bind_res_Inr_iff)
  from pss(1) have "map (\<lambda>l. (sl_txn_date l, sl_debit_cents l, sl_credit_cents l)) (concat pss) =
      map (\<lambda>l. (gl_date l, int_text (gl_debitCents l), int_text (gl_creditCents l)))
        (concat (map glac_lines (gled_accounts gl)))"
    unfolding map_res_Inr_iff by (induction rule: list_all2_induct) (auto dest: line [unfolded map_res_Inr_iff])
  then show ?thesis using sums c t pss(2) by simp
qed

definition sample_trial :: TrialBalance where
  "sample_trial = \<lparr>tb_sourceKind = Qbo, tb_asOf = ''2025-01-31'', tb_periodStart = None, tb_basis = None,
     tb_currency = None, tb_lines = [\<lparr>tbl_accountExternalId = None, tbl_accountName = ''AR'',
       tbl_debitCents = 250, tbl_creditCents = 0\<rparr>], tb_totalDebitCents = 250, tb_totalCreditCents = 0\<rparr>"

definition sample_ledger :: GeneralLedger where
  "sample_ledger = \<lparr>gled_sourceKind = Qbo, gled_window = ids_window sample_ids, gled_basis = None,
     gled_currency = None, gled_accounts = []\<rparr>"

lemma snapshot_adds_up_witness:
  "\<exists>c. buildLedgerSnapshot sample_ids (Read_Complete sample_trial sample_ledger) = Inr c \<and>
     sn_total_debit_cents c = Some (int_text 250)"
proof -
  have "\<not> isl (buildLedgerSnapshot sample_ids (Read_Complete sample_trial sample_ledger))" by code_simp
  then obtain c where c: "buildLedgerSnapshot sample_ids (Read_Complete sample_trial sample_ledger) = Inr c"
    by (cases "buildLedgerSnapshot sample_ids (Read_Complete sample_trial sample_ledger)") auto
  from snapshot_adds_up [OF c] c show ?thesis by (simp add: sample_trial_def)
qed

end
