(* ===== verification/Packet.thy ===== *)
theory Packet
  imports MoneyText Reasons JsSort Json
begin

text \<open>
  The dispute packet: \<open>packages/core-domain/src/packet.ts\<close>. The letter is built from the case by our
  code, and the packet's hash is taken over its decision, its documents and the letter. SHA-256 is
  a parameter. The lemmas show what every letter says, that it does not depend on the order
  invoice numbers are read in, that it fits the record, and that the hash stands for the contents.
\<close>

section \<open>Limits\<close>

definition NOT_RECORDED :: string where "NOT_RECORDED = ''(not recorded)''"

definition MAX_NARRATIVE_LENGTH :: nat where "MAX_NARRATIVE_LENGTH = 20000"

definition INVOICE_NUMBERS_BUDGETED :: nat where "INVOICE_NUMBERS_BUDGETED = 10"

definition FIXED_TEXT_BUDGET :: nat where "FIXED_TEXT_BUDGET = 340"

definition NARRATIVE_BUDGET_WITHOUT_RATIONALE :: nat where
  "NARRATIVE_BUDGET_WITHOUT_RATIONALE = FIXED_TEXT_BUDGET + 2 * 200 + 500 + 200 + INVOICE_NUMBERS_BUDGETED * 202 +
     2 * 24 + 10 + 10 + REASON_WORDS_MAX_LENGTH + 7500"

definition MAX_RATIONALE_LENGTH :: nat where
  "MAX_RATIONALE_LENGTH = MAX_NARRATIVE_LENGTH - NARRATIVE_BUDGET_WITHOUT_RATIONALE"

section \<open>What a letter is built from\<close>

datatype PacketRole = Role_Notice | Role_Evidence | Role_Remittance | Role_Context

primrec ENCLOSURE_ROLE_WORDS :: "PacketRole \<Rightarrow> string" where
  "ENCLOSURE_ROLE_WORDS Role_Notice = ''Deduction notice''"
| "ENCLOSURE_ROLE_WORDS Role_Evidence = ''Supporting document''"
| "ENCLOSURE_ROLE_WORDS Role_Remittance = ''Remittance advice''"
| "ENCLOSURE_ROLE_WORDS Role_Context = ''Reference document''"

record PacketDocument =
  pd_role :: PacketRole
  pd_filename :: string
  pd_sha256 :: "string option"
  pd_docType :: "string option"

record PacketNarrativeInput =
  pn_supplier :: string
  pn_claimId :: "string option"
  pn_payer :: "string option"
  pn_invoiceNumbers :: "string list"
  pn_deductionAmountCents :: js_number
  pn_deductionDate :: "string option"
  pn_disputeDeadline :: "string option"
  pn_reason :: string
  pn_rationale :: string
  pn_documents :: "PacketDocument list"
  pn_findings :: "(string \<times> string) list option"
  pn_payerReasonCode :: "string option"
  pn_deductionReference :: "string option"
  pn_evidenceChecklist :: "(string \<times> bool) list option"

definition sha256_hex :: "string \<Rightarrow> bool" where
  "sha256_hex s \<longleftrightarrow> length s = 64 \<and> list_all (\<lambda>c. is_digit c \<or> CHR ''a'' \<le> c \<and> c \<le> CHR ''f'') s"

definition code_of_text :: "string \<Rightarrow> CanonicalReasonCode option" where
  "code_of_text s = find_first (\<lambda>c. code_text c = s) CANONICAL_REASON_CODE_LIST"

definition assertPlainText :: "string \<Rightarrow> string \<Rightarrow> string res" where
  "assertPlainText label value =
     (let trimmed = trim value in
      if list_ex is_control trimmed then Inl (PacketError (label @ '' holds a control character'')) else Inr trimmed)"

definition letter_line :: "string \<Rightarrow> string option \<Rightarrow> string" where
  "letter_line label value = label @ '': '' @ (case value of None \<Rightarrow> NOT_RECORDED | Some v \<Rightarrow> if v = [] then NOT_RECORDED else v)"

section \<open>The letter\<close>

definition check_document :: "PacketDocument \<Rightarrow> unit res" where
  "check_document d =
     (if trim (pd_filename d) = [] then Inl (PacketError ''every enclosed document has to be named'')
      else if (case pd_sha256 d of None \<Rightarrow> False | Some h \<Rightarrow> \<not> sha256_hex h)
      then Inl (PacketError ''an enclosure's SHA-256 is 64 lower-case hex characters'')
      else Inr ())"

definition optional_plain :: "string \<Rightarrow> string option \<Rightarrow> string option res" where
  "optional_plain label value = (case value of None \<Rightarrow> Inr None
     | Some v \<Rightarrow> bind_res (assertPlainText label v) (\<lambda>t. Inr (Some t)))"

definition finding_text :: "string \<times> string \<Rightarrow> string res" where
  "finding_text f = bind_res (assertPlainText ''a finding code'' (fst f)) (\<lambda>_. assertPlainText ''a finding'' (snd f))"

definition checklist_line :: "string \<times> bool \<Rightarrow> string res" where
  "checklist_line row = bind_res (assertPlainText ''an evidence checklist label'' (fst row)) (\<lambda>t.
     Inr (''  ['' @ (if snd row then ''x'' else '' '') @ ''] '' @ t))"

definition letter_invoices :: "string list \<Rightarrow> string list" where
  "letter_invoices numbers = sort_by compare_text (dedupe (filter (\<lambda>n. trim n \<noteq> []) numbers))"

definition invoice_line :: "string list \<Rightarrow> string" where
  "invoice_line invoices =
     (if length invoices > 1 then ''Invoice numbers: '' @ join '', '' invoices
      else letter_line ''Invoice number'' (case invoices of [] \<Rightarrow> None | n # _ \<Rightarrow> Some n))"

definition enclosed_line :: "nat \<Rightarrow> PacketDocument \<Rightarrow> string" where
  "enclosed_line index d = ''  '' @ nat_text (index + 1) @ ''. '' @ ENCLOSURE_ROLE_WORDS (pd_role d) @ '': '' @
     pd_filename d @ (case pd_sha256 d of None \<Rightarrow> [] | Some h \<Rightarrow> '' (SHA-256 '' @ h @ '')'')"

definition numbered :: "string list \<Rightarrow> string list" where
  "numbered findings = map (\<lambda>(i, m). ''  '' @ nat_text (i + 1) @ ''. '' @ m) (enumerate 0 findings)"

record letter_parts =
  lt_supplier :: string
  lt_rationale :: string
  lt_amount :: string
  lt_words :: string
  lt_payerCode :: "string option"
  lt_reference :: "string option"
  lt_checklist :: "string list"

definition shown :: "string option \<Rightarrow> bool" where
  "shown v \<longleftrightarrow> v \<noteq> None \<and> v \<noteq> Some []"

definition letter_lines :: "PacketNarrativeInput \<Rightarrow> letter_parts \<Rightarrow> string list \<Rightarrow> string list" where
  "letter_lines i p findingLines =
     [''DISPUTE OF DEDUCTION'', [], ''From: '' @ lt_supplier p, letter_line ''To'' (pn_payer i), [],
      letter_line ''Claim or deduction reference'' (pn_claimId i),
      invoice_line (letter_invoices (pn_invoiceNumbers i)),
      ''Amount deducted: '' @ lt_amount p,
      letter_line ''Deduction date'' (pn_deductionDate i)] @
     (if shown (pn_disputeDeadline i) then [''Dispute deadline: '' @ the (pn_disputeDeadline i)] else []) @
     [[], lt_supplier p @ '' disputes this deduction in full and asks that '' @ lt_amount p @ '' be repaid.'', [],
      ''Reason for dispute: '' @ lt_words p] @
     (if shown (lt_payerCode p) then [letter_line ''Payer's reason code'' (lt_payerCode p)] else []) @
     (if shown (lt_reference p) then [letter_line ''Deduction reference'' (lt_reference p)] else []) @
     [[]] @
     (if findingLines = [] then [] else ''Findings:'' # findingLines @ [[]]) @
     [''Explanation:'', lt_rationale p, []] @
     (if lt_checklist p = [] then [] else ''Evidence checklist:'' # lt_checklist p @ [[]]) @
     [''Enclosures:''] @ map (\<lambda>(n, d). enclosed_line n d) (enumerate 0 (pn_documents i)) @
     [[], ''Please quote the claim or deduction reference above in any reply about this dispute.'', []]"

definition compose :: "PacketNarrativeInput \<Rightarrow> letter_parts \<Rightarrow> string list \<Rightarrow> string" where
  "compose i p findingLines = join [CHR 0x0A] (letter_lines i p findingLines)"

definition omitted :: "nat \<Rightarrow> nat \<Rightarrow> string" where
  "omitted all kept = ''  ('' @ nat_text (all - kept) @ '' further findings omitted; see the case page.)''"

text \<open>The loop that keeps fewer findings until the letter fits, or none.\<close>

fun kept_findings :: "(nat \<Rightarrow> string) \<Rightarrow> nat \<Rightarrow> nat" where
  "kept_findings letter 0 = 0"
| "kept_findings letter (Suc n) =
     (if length (letter (Suc n)) \<le> MAX_NARRATIVE_LENGTH then Suc n else kept_findings letter n)"

definition fitted :: "PacketNarrativeInput \<Rightarrow> letter_parts \<Rightarrow> string list \<Rightarrow> string" where
  "fitted i p lines =
     (let whole = compose i p lines;
          letter = (\<lambda>kept. compose i p (take kept lines @ [omitted (length lines) kept]))
      in if length whole > MAX_NARRATIVE_LENGTH \<and> lines \<noteq> []
         then letter (kept_findings letter (length lines - 1)) else whole)"

definition letter_inputs :: "PacketNarrativeInput \<Rightarrow> (letter_parts \<times> string list) res" where
  "letter_inputs i =
     (case code_of_text (pn_reason i) of
        None \<Rightarrow> Inl (PacketError (pn_reason i @ '' is not a canonical reason code''))
      | Some code \<Rightarrow>
        if trim (pn_supplier i) = [] then Inl (PacketError ''a dispute letter has to say who it is from'')
        else if trim (pn_rationale i) = [] then Inl (PacketError ''a dispute needs a rationale'')
        else if pn_documents i = [] then Inl (PacketError ''a packet with no documents is not a packet'')
        else bind_res (map_res check_document (pn_documents i)) (\<lambda>_.
          bind_res (optional_plain ''the payer's reason code'' (pn_payerReasonCode i)) (\<lambda>payerCode.
          bind_res (optional_plain ''the deduction reference'' (pn_deductionReference i)) (\<lambda>reference.
          bind_res (map_res finding_text (case pn_findings i of None \<Rightarrow> [] | Some fs \<Rightarrow> fs)) (\<lambda>findings.
          bind_res (map_res checklist_line (case pn_evidenceChecklist i of None \<Rightarrow> [] | Some rs \<Rightarrow> rs)) (\<lambda>checklist.
          bind_res (cents (pn_deductionAmountCents i)) (\<lambda>amount.
            Inr (\<lparr>lt_supplier = trim (pn_supplier i), lt_rationale = trim (pn_rationale i),
                  lt_amount = formatCents amount, lt_words = reasonInWords code, lt_payerCode = payerCode,
                  lt_reference = reference, lt_checklist = checklist\<rparr>, findings))))))))"

definition buildPacketNarrative :: "PacketNarrativeInput \<Rightarrow> string res" where
  "buildPacketNarrative i = bind_res (letter_inputs i) (\<lambda>(p, findings).
     let narrative = fitted i p (numbered findings) in
     if length narrative > MAX_NARRATIVE_LENGTH then Inl (PacketError ''narrative over the record's length'')
     else Inr narrative)"

section \<open>The hash\<close>

definition packet_json :: "string \<Rightarrow> string \<Rightarrow> string list \<Rightarrow> json" where
  "packet_json decisionId narrative documentIds =
     JObj [(''decisionId'', JStr decisionId),
       (''fileDocumentIds'', JArr (map JStr (sort_by compare_text documentIds))),
       (''narrative'', JStr narrative)]"

definition packetContentHash :: "(string \<Rightarrow> string) \<Rightarrow> string \<Rightarrow> string \<Rightarrow> string list \<Rightarrow> string" where
  "packetContentHash sha decisionId narrative documentIds = sha (json_text (packet_json decisionId narrative documentIds))"


section \<open>Lines of a letter\<close>

definition has_line :: "string \<Rightarrow> string \<Rightarrow> bool" where
  "has_line t l \<longleftrightarrow> (\<exists>a b. t = a @ l @ b \<and> (a = [] \<or> last a = CHR 0x0A) \<and> (b = [] \<or> hd b = CHR 0x0A))"

lemma join_Cons: "ls \<noteq> [] \<Longrightarrow> join sep (l # ls) = l @ sep @ join sep ls"
  by (cases ls) auto

lemma has_line_join: "l \<in> set ls \<Longrightarrow> has_line (join [CHR 0x0A] ls) l"
proof (induction ls)
  case (Cons m ls)
  show ?case
  proof (cases "ls = []")
    case True
    then show ?thesis using Cons.prems unfolding has_line_def by (intro exI [of _ "[]"]) simp
  next
    case False
    show ?thesis
    proof (cases "l = m")
      case True
      then show ?thesis unfolding has_line_def join_Cons [OF False]
        by (intro exI [of _ "[]"] exI [of _ "[CHR 0x0A] @ join [CHR 0x0A] ls"]) simp
    next
      case l: False
      then obtain a b where "join [CHR 0x0A] ls = a @ l @ b" "a = [] \<or> last a = CHR 0x0A" "b = [] \<or> hd b = CHR 0x0A"
        using Cons by (auto simp: has_line_def)
      then show ?thesis unfolding has_line_def join_Cons [OF False]
        by (intro exI [of _ "m @ [CHR 0x0A] @ a"] exI [of _ b]) auto
    qed
  qed
qed simp

lemma buildPacketNarrative_Inr:
  assumes "buildPacketNarrative i = Inr t"
  obtains p findings lines where "letter_inputs i = Inr (p, findings)" "t = compose i p lines"
    "length t \<le> MAX_NARRATIVE_LENGTH"
  using assms by (auto simp: buildPacketNarrative_def bind_res_Inr_iff Let_def fitted_def split: if_splits)

lemma cents_Inr_Whole: "cents n = Inr v \<Longrightarrow> n = Whole v"
  by (cases n) (auto split: if_splits)

lemma code_of_text_Some: "code_of_text s = Some c \<Longrightarrow> code_text c = s"
  unfolding code_of_text_def using find_first_Some by fast

lemma letter_inputs_Inr:
  assumes "letter_inputs i = Inr (p, findings)"
  shows "lt_supplier p = trim (pn_supplier i)" "lt_rationale p = trim (pn_rationale i)" "pn_documents i \<noteq> []"
    "\<exists>code. code_text code = pn_reason i \<and> lt_words p = reasonInWords code"
    "\<exists>a. pn_deductionAmountCents i = Whole a \<and> lt_amount p = formatCents a"
  using assms
  by (auto simp: letter_inputs_def bind_res_Inr_iff dest!: cents_Inr_Whole code_of_text_Some split: option.splits if_splits)

lemma letter_invoices_set: "set a = set b \<Longrightarrow> letter_invoices a = letter_invoices b"
  unfolding letter_invoices_def
  by (rule by_text.sort_by_cong_mset) (auto simp: set_eq_iff_mset_eq_distinct [symmetric])

section \<open>Properties\<close>

text \<open>C23: every letter that is built fits the record and says, each as a line of its own, who disputes,
  against which payer, which claim, the exact amount, the reason in words, the whole explanation and
  every enclosure with its number, role, name and digest, whatever findings were left out to make it
  fit; a payer or a claim that is not known is said not to be recorded.\<close>

theorem letter_says:
  assumes "buildPacketNarrative i = Inr t"
  shows "length t \<le> 20000 \<and> has_line t (''From: '' @ trim (pn_supplier i)) \<and>
    (\<forall>payer. pn_payer i = Some payer \<and> payer \<noteq> [] \<longrightarrow> has_line t (''To: '' @ payer)) \<and>
    (pn_payer i = None \<or> pn_payer i = Some [] \<longrightarrow> has_line t ''To: (not recorded)'') \<and>
    (\<forall>claim. pn_claimId i = Some claim \<and> claim \<noteq> [] \<longrightarrow>
       has_line t (''Claim or deduction reference: '' @ claim)) \<and>
    (pn_claimId i = None \<or> pn_claimId i = Some [] \<longrightarrow>
       has_line t ''Claim or deduction reference: (not recorded)'') \<and>
    (\<exists>a. pn_deductionAmountCents i = Whole a \<and> has_line t (''Amount deducted: '' @ formatCents a)) \<and>
    (\<exists>code. code_text code = pn_reason i \<and> has_line t (''Reason for dispute: '' @ reasonInWords code)) \<and>
    has_line t (trim (pn_rationale i)) \<and>
    list_all (\<lambda>(n, d). has_line t (''  '' @ nat_text (n + 1) @ ''. '' @ ENCLOSURE_ROLE_WORDS (pd_role d) @ '': '' @
        pd_filename d @ (case pd_sha256 d of None \<Rightarrow> [] | Some h \<Rightarrow> '' (SHA-256 '' @ h @ '')'')))
      (enumerate 0 (pn_documents i))"
proof -
  obtain p findings lines where i: "letter_inputs i = Inr (p, findings)" and t: "t = compose i p lines"
    and len: "length t \<le> MAX_NARRATIVE_LENGTH" by (rule buildPacketNarrative_Inr [OF assms])
  note facts = letter_inputs_Inr [OF i]
  have line: "l \<in> set (letter_lines i p lines) \<Longrightarrow> has_line t l" for l
    unfolding t compose_def by (rule has_line_join)
  have "list_all (\<lambda>(n, d). has_line t (enclosed_line n d)) (enumerate 0 (pn_documents i))"
    by (auto simp: list_all_iff letter_lines_def intro!: line)
  moreover have "has_line t (''From: '' @ lt_supplier p)" "has_line t (lt_rationale p)"
    "has_line t (letter_line ''To'' (pn_payer i))"
    "has_line t (letter_line ''Claim or deduction reference'' (pn_claimId i))"
    "has_line t (''Amount deducted: '' @ lt_amount p)" "has_line t (''Reason for dispute: '' @ lt_words p)"
    by (rule line, simp add: letter_lines_def)+
  ultimately show ?thesis using facts len
    by (auto simp: MAX_NARRATIVE_LENGTH_def letter_line_def NOT_RECORDED_def enclosed_line_def)
qed

definition sample_letter :: PacketNarrativeInput where
  "sample_letter = \<lparr>pn_supplier = '' Acme '', pn_claimId = Some ''C-9'', pn_payer = Some ''Big Mart'', pn_invoiceNumbers = [''7''],
     pn_deductionAmountCents = Whole 12345, pn_deductionDate = None, pn_disputeDeadline = None,
     pn_reason = ''shortage_quantity'', pn_rationale = ''Delivered in full.'',
     pn_documents = [\<lparr>pd_role = Role_Notice, pd_filename = ''n.pdf'', pd_sha256 = None, pd_docType = None\<rparr>],
     pn_findings = None, pn_payerReasonCode = None, pn_deductionReference = None, pn_evidenceChecklist = None\<rparr>"

lemma letter_says_witness:
  "\<exists>t. buildPacketNarrative sample_letter = Inr t \<and> has_line t (''From: '' @ trim '' Acme '') \<and>
     has_line t ''To: Big Mart'' \<and> has_line t ''Claim or deduction reference: C-9''"
proof -
  have "\<not> isl (buildPacketNarrative sample_letter)" by code_simp
  then obtain t where t: "buildPacketNarrative sample_letter = Inr t"
    by (cases "buildPacketNarrative sample_letter") auto
  from letter_says [OF t] t show ?thesis by (simp add: sample_letter_def)
qed

text \<open>The letter depends on which invoice numbers the case holds, not on their order or repeats.\<close>

theorem letter_invoice_order:
  assumes "set a = set b"
  shows "buildPacketNarrative (i\<lparr>pn_invoiceNumbers := a\<rparr>) = buildPacketNarrative (i\<lparr>pn_invoiceNumbers := b\<rparr>)"
proof -
  have "compose (i\<lparr>pn_invoiceNumbers := a\<rparr>) p ls = compose (i\<lparr>pn_invoiceNumbers := b\<rparr>) p ls" for p ls
    by (simp add: compose_def letter_lines_def letter_invoices_set [OF assms])
  moreover have "letter_inputs (i\<lparr>pn_invoiceNumbers := a\<rparr>) = letter_inputs (i\<lparr>pn_invoiceNumbers := b\<rparr>)"
    by (simp add: letter_inputs_def cong: option.case_cong if_cong)
  ultimately show ?thesis by (simp add: buildPacketNarrative_def fitted_def)
qed

lemma letter_invoice_order_witness:
  "buildPacketNarrative (sample_letter\<lparr>pn_invoiceNumbers := [''2'', ''1'', ''2'']\<rparr>) =
   buildPacketNarrative (sample_letter\<lparr>pn_invoiceNumbers := [''1'', ''2'']\<rparr>)"
  by (rule letter_invoice_order) auto

text \<open>C32: the text a packet's hash is taken over stands for its contents: two packets have one text exactly
  when decision, letter and set of documents (with repeats) agree, whatever order the documents are
  in. So packets of one hash have the same contents unless those two texts collide.\<close>

theorem packet_hash_contents:
  fixes d n ds
  defines "text \<equiv> \<lambda>d n ds. json_text (packet_json d n ds)"
  shows "(text d n ds = text d' n' ds' \<longleftrightarrow> d = d' \<and> n = n' \<and> mset ds = mset ds') \<and>
   (packetContentHash sha d n ds = packetContentHash sha d' n' ds' \<longleftrightarrow>
      d = d' \<and> n = n' \<and> mset ds = mset ds' \<or>
      text d n ds \<noteq> text d' n' ds' \<and> sha (text d n ds) = sha (text d' n' ds'))"
proof -
  have "sort_by compare_text ds = sort_by compare_text ds' \<longleftrightarrow> mset ds = mset ds'"
    unfolding sort_by_text by (metis mset_sort properties_for_sort sorted_sort)
  then have "text d n ds = text d' n' ds' \<longleftrightarrow> d = d' \<and> n = n' \<and> mset ds = mset ds'"
    unfolding text_def json_text_inj by (auto simp: packet_json_def)
  then show ?thesis by (auto simp: packetContentHash_def text_def)
qed

lemma packet_hash_contents_witness:
  "packetContentHash (\<lambda>t. t) ''d'' ''n'' [''a'', ''b''] = packetContentHash (\<lambda>t. t) ''d'' ''n'' [''b'', ''a''] \<and>
   packetContentHash (\<lambda>t. t) ''d'' ''n'' [''a'', ''b''] \<noteq> packetContentHash (\<lambda>t. t) ''d'' ''n'' [''a'', ''c'']"
  using packet_hash_contents [of "''d''" "''n''" "[''a'', ''b'']" "''d''" "''n''" "[''b'', ''a'']" "\<lambda>t. t"]
    packet_hash_contents [of "''d''" "''n''" "[''a'', ''b'']" "''d''" "''n''" "[''a'', ''c'']" "\<lambda>t. t"]
  by (simp add: add_mset_commute)

end
