(* ===== verification/Manual_Entry.thy ===== *)
theory Manual_Entry
  imports MoneyText Timestamps JsSort Json
begin

text \<open>
  A deduction a person typed in: \<open>packages/core-domain/src/manual-entry.ts\<close>. The form's texts are
  read or refused field by field, and the entry is written as a document of canonical JSON. The
  lemmas show what every accepted entry satisfies and that a document records one entry.
\<close>

section \<open>The form and the entry\<close>

definition MANUAL_ENTRY_TEXT_MAX :: nat where "MANUAL_ENTRY_TEXT_MAX = 200"

definition MANUAL_ENTRY_NOTES_MAX :: nat where "MANUAL_ENTRY_NOTES_MAX = 2000"

definition MANUAL_ENTRY_MAX_INVOICES :: nat where "MANUAL_ENTRY_MAX_INVOICES = 20"

definition MANUAL_ENTRY_FILENAME :: string where "MANUAL_ENTRY_FILENAME = ''manual-entry.json''"

record ManualEntry =
  me_debtorId :: string
  me_deductionReference :: string
  me_amountCents :: int
  me_deductionDate :: string
  me_reasonCode :: string
  me_invoiceNumbers :: "string list"
  me_poNumber :: "string option"
  me_paymentReference :: "string option"
  me_disputeAmountCents :: int
  me_endRetailerDebtorId :: "string option"
  me_notes :: "string option"
  me_assigneeId :: "string option"

record ManualEntryForm =
  mf_debtorId :: string
  mf_deductionReference :: string
  mf_amount :: string
  mf_deductionDate :: string
  mf_reasonCode :: string
  mf_invoiceNumbers :: string
  mf_poNumber :: "string option"
  mf_paymentReference :: "string option"
  mf_disputeAmount :: "string option"
  mf_endRetailerDebtorId :: "string option"
  mf_notes :: "string option"
  mf_assigneeId :: "string option"

definition or_blank :: "string option \<Rightarrow> string" where
  "or_blank v = (case v of None \<Rightarrow> [] | Some t \<Rightarrow> t)"

text \<open>The pattern \<open>UUID\<close>, any case: hexadecimal digits in groups of 8, 4, 4, 4 and 12.\<close>

definition is_hex :: "char \<Rightarrow> bool" where
  "is_hex c \<longleftrightarrow> is_digit c \<or> (CHR ''a'' \<le> c \<and> c \<le> CHR ''f'') \<or> (CHR ''A'' \<le> c \<and> c \<le> CHR ''F'')"

definition is_uuid :: "string \<Rightarrow> bool" where
  "is_uuid s \<longleftrightarrow> (case split_on CHR ''-'' s of
     [a, b, c, d, e] \<Rightarrow> map length [a, b, c, d, e] = [8, 4, 4, 4, 12] \<and> list_all (list_all is_hex) [a, b, c, d, e]
   | _ \<Rightarrow> False)"

definition notes_control :: "char \<Rightarrow> bool" where
  "notes_control c \<longleftrightarrow> is_control c \<and> code_unit c \<notin> {9, 10, 13}"

section \<open>Reading a field\<close>

definition uuid_field :: "string \<Rightarrow> string option \<Rightarrow> bool \<Rightarrow> string option res" where
  "uuid_field field value required =
     (let v = trim (or_blank value) in
      if v = [] then (if required then Inl (ManualEntryError field ''Choose one.'') else Inr None)
      else if \<not> is_uuid v then Inl (ManualEntryError field ''Not a recognised id.'')
      else Inr (Some (to_lower v)))"

definition text_field :: "string \<Rightarrow> string option \<Rightarrow> bool \<Rightarrow> string option res" where
  "text_field field value required =
     (let v = trim (or_blank value) in
      if v = [] then (if required then Inl (ManualEntryError field ''Required.'') else Inr None)
      else if length v > MANUAL_ENTRY_TEXT_MAX then Inl (ManualEntryError field ''At most 200 characters.'')
      else if list_ex is_control v then Inl (ManualEntryError field ''Contains a control character.'')
      else Inr (Some v))"

definition money_field :: "string \<Rightarrow> string \<Rightarrow> int res" where
  "money_field field value =
     (case parseMoneyToCents (trim value) of
        Inl (MoneyError m) \<Rightarrow> Inl (ManualEntryError field ''Not an amount that can be read to the cent.'')
      | Inl e \<Rightarrow> Inl e
      | Inr parsed \<Rightarrow> if parsed \<le> 0 then Inl (ManualEntryError field ''Must be more than zero.'') else Inr parsed)"

fun split_where :: "(char \<Rightarrow> bool) \<Rightarrow> string \<Rightarrow> string list" where
  "split_where P [] = [[]]"
| "split_where P (c # s) =
     (if P c then [] # split_where P s
      else (case split_where P s of [] \<Rightarrow> [[c]] | p # ps \<Rightarrow> (c # p) # ps))"

definition invoice_break :: "char \<Rightarrow> bool" where
  "invoice_break c \<longleftrightarrow> c = CHR '','' \<or> code_unit c = 13 \<or> code_unit c = 10"

definition add_invoice :: "string list \<Rightarrow> string \<Rightarrow> string list res" where
  "add_invoice known raw =
     (let v = trim raw in
      if v = [] then Inr known
      else if length v > MANUAL_ENTRY_TEXT_MAX then Inl (ManualEntryError ''invoiceNumbers'' ''Each at most 200 characters.'')
      else if list_ex is_control v then Inl (ManualEntryError ''invoiceNumbers'' ''Contains a control character.'')
      else Inr (if v \<in> set known then known else known @ [v]))"

definition invoice_numbers :: "string \<Rightarrow> string list res" where
  "invoice_numbers text =
     bind_res (fold_res add_invoice [] (split_where invoice_break text)) (\<lambda>ns.
       if ns = [] then Inl (ManualEntryError ''invoiceNumbers'' ''At least one invoice number.'')
       else if length ns > MANUAL_ENTRY_MAX_INVOICES then Inl (ManualEntryError ''invoiceNumbers'' ''At most 20 invoices.'')
       else Inr ns)"

definition deduction_date :: "string \<Rightarrow> int \<Rightarrow> string res" where
  "deduction_date text today =
     (let d = trim text in
      if \<not> isIsoDate d then Inl (ManualEntryError ''deductionDate'' ''Not a date (yyyy-mm-dd).'')
      else if d > utc_day_text today then Inl (ManualEntryError ''deductionDate'' ''Cannot be after today.'')
      else Inr d)"

definition notes_field :: "string option \<Rightarrow> string option res" where
  "notes_field value =
     (let v = trim (or_blank value) in
      if v = [] then Inr None
      else if length v > MANUAL_ENTRY_NOTES_MAX then Inl (ManualEntryError ''notes'' ''At most 2000 characters.'')
      else if list_ex notes_control v then Inl (ManualEntryError ''notes'' ''Contains a control character.'')
      else Inr (Some v))"

text \<open>The whole form; \<open>today\<close> is an instant in milliseconds.\<close>

definition manualEntryFromForm :: "ManualEntryForm \<Rightarrow> int \<Rightarrow> ManualEntry res" where
  "manualEntryFromForm form today =
     bind_res (uuid_field ''debtorId'' (Some (mf_debtorId form)) True) (\<lambda>debtorId.
     bind_res (text_field ''deductionReference'' (Some (mf_deductionReference form)) True) (\<lambda>reference.
     bind_res (if trim (mf_amount form) = [] then Inl (ManualEntryError ''amount'' ''Required.'')
               else money_field ''amount'' (mf_amount form)) (\<lambda>amount.
     bind_res (deduction_date (mf_deductionDate form) today) (\<lambda>date.
     bind_res (text_field ''reasonCode'' (Some (mf_reasonCode form)) True) (\<lambda>reason.
     bind_res (invoice_numbers (mf_invoiceNumbers form)) (\<lambda>invoices.
     bind_res (text_field ''poNumber'' (mf_poNumber form) False) (\<lambda>po.
     bind_res (text_field ''paymentReference'' (mf_paymentReference form) False) (\<lambda>payment.
     bind_res (let raw = trim (or_blank (mf_disputeAmount form)) in
               if raw = [] then Inr amount else money_field ''disputeAmount'' raw) (\<lambda>dispute.
     if dispute > amount then Inl (ManualEntryError ''disputeAmount'' ''Cannot be more than the deduction.'')
     else
     bind_res (uuid_field ''endRetailerDebtorId'' (mf_endRetailerDebtorId form) False) (\<lambda>endRetailer.
     bind_res (notes_field (mf_notes form)) (\<lambda>notes.
     bind_res (uuid_field ''assigneeId'' (mf_assigneeId form) False) (\<lambda>assignee.
       Inr \<lparr>me_debtorId = or_blank debtorId, me_deductionReference = or_blank reference, me_amountCents = amount,
            me_deductionDate = date, me_reasonCode = or_blank reason, me_invoiceNumbers = invoices,
            me_poNumber = po, me_paymentReference = payment, me_disputeAmountCents = dispute,
            me_endRetailerDebtorId = endRetailer, me_notes = notes, me_assigneeId = assignee\<rparr>))))))))))))"

section \<open>The document\<close>

record ManualEntryDocument =
  md_text :: string
  md_sha256 :: string
  md_filename :: string
  md_mimeType :: string

definition optional_key :: "string \<Rightarrow> string option \<Rightarrow> (string \<times> json) list" where
  "optional_key k v = (case v of None \<Rightarrow> [] | Some t \<Rightarrow> [(k, JStr t)])"

definition entry_fields :: "ManualEntry \<Rightarrow> string \<Rightarrow> string \<Rightarrow> (string \<times> json) list" where
  "entry_fields e enteredBy enteredAt =
     [(''amount_cents'', JInt (me_amountCents e)), (''debtor_id'', JStr (me_debtorId e)),
      (''deduction_date'', JStr (me_deductionDate e)), (''deduction_reference'', JStr (me_deductionReference e)),
      (''dispute_amount_cents'', JInt (me_disputeAmountCents e)), (''entered_at'', JStr enteredAt),
      (''entered_by'', JStr enteredBy), (''invoice_numbers'', JArr (map JStr (me_invoiceNumbers e))),
      (''kind'', JStr ''manual_entry''), (''reason_code'', JStr (me_reasonCode e)), (''version'', JInt 1)] @
     optional_key ''po_number'' (me_poNumber e) @ optional_key ''payment_reference'' (me_paymentReference e) @
     optional_key ''end_retailer_debtor_id'' (me_endRetailerDebtorId e) @ optional_key ''notes'' (me_notes e) @
     optional_key ''assignee_id'' (me_assigneeId e)"

text \<open>Keys in code-unit order, two spaces of indentation; the text's UTF-8 bytes are what is stored and
  hashed.\<close>

definition buildManualEntryDocument ::
  "(string \<Rightarrow> string) \<Rightarrow> ManualEntry \<Rightarrow> string \<Rightarrow> int \<Rightarrow> ManualEntryDocument" where
  "buildManualEntryDocument sha e enteredBy enteredAt =
     (let text = emit (indented 2) 0
        (JObj (sort_by (\<lambda>a b. compare_text (fst a) (fst b)) (entry_fields e enteredBy (iso_of_instant enteredAt))))
      in \<lparr>md_text = text, md_sha256 = sha text, md_filename = MANUAL_ENTRY_FILENAME, md_mimeType = ''application/json''\<rparr>)"


section \<open>Accepted entries\<close>

lemma text_field_Some: "text_field f v r = Inr (Some t) \<Longrightarrow>
    t = trim t \<and> t \<noteq> [] \<and> length t \<le> 200 \<and> \<not> list_ex is_control t"
  by (auto simp: text_field_def Let_def MANUAL_ENTRY_TEXT_MAX_def split: if_splits)

lemma uuid_field_Some: "uuid_field f v r = Inr (Some t) \<Longrightarrow> \<exists>u. is_uuid u \<and> t = to_lower u"
  by (auto simp: uuid_field_def Let_def split: if_splits)

lemma required_field:
  "text_field f v True = Inr v' \<Longrightarrow> \<exists>t. v' = Some t"
  "uuid_field f v True = Inr v' \<Longrightarrow> \<exists>t. v' = Some t"
  by (auto simp: text_field_def uuid_field_def Let_def split: if_splits)

lemma money_field_Inr: "money_field f v = Inr a \<Longrightarrow> 0 < a \<and> parseMoneyToCents (trim v) = Inr a"
  by (auto simp: money_field_def split: sum.splits failure.splits if_splits)

definition good_invoices :: "string list \<Rightarrow> bool" where
  "good_invoices ns \<longleftrightarrow> distinct ns \<and>
     list_all (\<lambda>n. n \<noteq> [] \<and> trim n = n \<and> length n \<le> 200 \<and> \<not> list_ex is_control n) ns"

lemma add_invoice_good: "good_invoices ns \<Longrightarrow> add_invoice ns raw = Inr ms \<Longrightarrow> good_invoices ms"
  by (auto simp: add_invoice_def good_invoices_def Let_def MANUAL_ENTRY_TEXT_MAX_def split: if_splits)

lemma invoice_numbers_Inr:
  assumes "invoice_numbers t = Inr ns"
  shows "good_invoices ns" "1 \<le> length ns" "length ns \<le> 20"
proof -
  from assms have f: "fold_res add_invoice [] (split_where invoice_break t) = Inr ns" "ns \<noteq> []"
    "length ns \<le> 20"
    by (auto simp: invoice_numbers_def bind_res_Inr_iff MANUAL_ENTRY_MAX_INVOICES_def split: if_splits)
  show "good_invoices ns"
    by (rule fold_res_invariant [OF f(1)]) (simp add: good_invoices_def, rule add_invoice_good)
  show "1 \<le> length ns" "length ns \<le> 20" using f by (cases ns; simp)+
qed

section \<open>A document records one entry\<close>

lemma distinct_entry_keys: "distinct (map fst (entry_fields e b a))"
  by (simp add: entry_fields_def optional_key_def split: option.splits)

lemma map_of_mset: "distinct (map fst xs) \<Longrightarrow> mset xs = mset ys \<Longrightarrow> map_of xs = map_of ys"
  by (metis map_of_inject_set mset_eq_imp_distinct_iff mset_map set_mset_mset)

lemma entry_lookups:
  "map_of (entry_fields e b a) ''amount_cents'' = Some (JInt (me_amountCents e))"
  "map_of (entry_fields e b a) ''debtor_id'' = Some (JStr (me_debtorId e))"
  "map_of (entry_fields e b a) ''deduction_date'' = Some (JStr (me_deductionDate e))"
  "map_of (entry_fields e b a) ''deduction_reference'' = Some (JStr (me_deductionReference e))"
  "map_of (entry_fields e b a) ''dispute_amount_cents'' = Some (JInt (me_disputeAmountCents e))"
  "map_of (entry_fields e b a) ''entered_at'' = Some (JStr a)"
  "map_of (entry_fields e b a) ''entered_by'' = Some (JStr b)"
  "map_of (entry_fields e b a) ''invoice_numbers'' = Some (JArr (map JStr (me_invoiceNumbers e)))"
  "map_of (entry_fields e b a) ''reason_code'' = Some (JStr (me_reasonCode e))"
  "map_of (entry_fields e b a) ''po_number'' = map_option JStr (me_poNumber e)"
  "map_of (entry_fields e b a) ''payment_reference'' = map_option JStr (me_paymentReference e)"
  "map_of (entry_fields e b a) ''end_retailer_debtor_id'' = map_option JStr (me_endRetailerDebtorId e)"
  "map_of (entry_fields e b a) ''notes'' = map_option JStr (me_notes e)"
  "map_of (entry_fields e b a) ''assignee_id'' = map_option JStr (me_assigneeId e)"
  by (simp_all add: entry_fields_def optional_key_def map_add_def split: option.splits)

lemma inj_JStr: "inj JStr"
  by (rule injI) simp

lemma entry_fields_inj:
  assumes "map_of (entry_fields e b a) = map_of (entry_fields e' b' a')"
  shows "e = e'" "b = b'" "a = a'"
proof -
  note at = fun_cong [OF assms]
  note keys = at [of "''amount_cents''"] at [of "''debtor_id''"] at [of "''deduction_date''"]
    at [of "''deduction_reference''"] at [of "''dispute_amount_cents''"] at [of "''invoice_numbers''"]
    at [of "''reason_code''"] at [of "''po_number''"] at [of "''payment_reference''"]
    at [of "''end_retailer_debtor_id''"] at [of "''notes''"] at [of "''assignee_id''"]
  show "e = e'"
    using keys [unfolded entry_lookups]
    by (simp add: inj_map_eq_map [OF inj_JStr] inj_eq [OF option.inj_map [OF inj_JStr]])
  show "b = b'" using at [of "''entered_by''"] unfolding entry_lookups by simp
  show "a = a'" using at [of "''entered_at''"] unfolding entry_lookups by simp
qed

section \<open>Properties\<close>

text \<open>An accepted entry is one that could have been entered: a positive amount, a dispute of no more
  than it, a real day not after today, and 1 to 20 different invoice numbers and a reference and
  reason that are trimmed, not blank, at most 200 characters and free of control characters.\<close>

theorem manual_entry_accepted:
  assumes "manualEntryFromForm form today = Inr e"
  shows "0 < me_disputeAmountCents e \<and> me_disputeAmountCents e \<le> me_amountCents e \<and>
    parseMoneyToCents (trim (mf_amount form)) = Inr (me_amountCents e) \<and>
    isIsoDate (me_deductionDate e) \<and> \<not> utc_day_text today < me_deductionDate e \<and>
    (\<exists>u. is_uuid u \<and> me_debtorId e = to_lower u) \<and>
    good_invoices (me_invoiceNumbers e) \<and> 1 \<le> length (me_invoiceNumbers e) \<and> length (me_invoiceNumbers e) \<le> 20 \<and>
    good_invoices [me_deductionReference e] \<and> good_invoices [me_reasonCode e]"
proof -
  from assms obtain debtor reference reason amount date invoices dispute where
    debtor: "uuid_field ''debtorId'' (Some (mf_debtorId form)) True = Inr debtor"
    and reference: "text_field ''deductionReference'' (Some (mf_deductionReference form)) True = Inr reference"
    and amount: "money_field ''amount'' (mf_amount form) = Inr amount"
    and date: "deduction_date (mf_deductionDate form) today = Inr date"
    and reason: "text_field ''reasonCode'' (Some (mf_reasonCode form)) True = Inr reason"
    and invoices: "invoice_numbers (mf_invoiceNumbers form) = Inr invoices"
    and dispute: "(let raw = trim (or_blank (mf_disputeAmount form)) in
        if raw = [] then Inr amount else money_field ''disputeAmount'' raw) = Inr dispute" "\<not> dispute > amount"
    and e: "me_debtorId e = or_blank debtor" "me_deductionReference e = or_blank reference"
      "me_amountCents e = amount" "me_deductionDate e = date" "me_reasonCode e = or_blank reason"
      "me_invoiceNumbers e = invoices" "me_disputeAmountCents e = dispute"
    by (auto simp: manualEntryFromForm_def bind_res_Inr_iff split: if_splits)
  note a = money_field_Inr [OF amount]
  have d: "0 < dispute" using dispute(1) a money_field_Inr by (auto simp: Let_def split: if_splits)
  have day: "isIsoDate date \<and> \<not> utc_day_text today < date"
    using date by (auto simp: deduction_date_def Let_def split: if_splits)
  obtain x y z where xyz: "debtor = Some x" "reference = Some y" "reason = Some z"
    using required_field(1) [OF reference] required_field(1) [OF reason] required_field(2) [OF debtor] by blast
  have "\<exists>u. is_uuid u \<and> x = to_lower u" using uuid_field_Some debtor xyz by blast
  moreover have "good_invoices [y]" "good_invoices [z]"
    using text_field_Some reference reason xyz by (auto simp: good_invoices_def)
  ultimately show ?thesis
    using a d day dispute(2) invoice_numbers_Inr [OF invoices] e xyz by (simp add: or_blank_def)
qed

definition sample_form :: ManualEntryForm where
  "sample_form = \<lparr>mf_debtorId = ''0A000000-0000-0000-0000-000000000001'', mf_deductionReference = '' CB-1 '',
     mf_amount = ''$1,200.50'', mf_deductionDate = ''2025-03-01'', mf_reasonCode = ''OS&D'', mf_invoiceNumbers = ''7, 8, 7'',
     mf_poNumber = None, mf_paymentReference = None, mf_disputeAmount = None, mf_endRetailerDebtorId = None,
     mf_notes = None, mf_assigneeId = None\<rparr>"

lemma manual_entry_accepted_witness:
  "\<exists>e. manualEntryFromForm sample_form (20148 * DAY_MS) = Inr e \<and> 0 < me_disputeAmountCents e"
proof -
  have d: "iso_day ''2025-03-01'' = Some 20148" by (simp add: iso_eval)
  have now: "utc_day_text (20148 * DAY_MS) = ''2025-03-01''"
    using iso.print_parse [OF d] utc_day_text_iso [of "20148 * DAY_MS"] by (simp add: DAY_MS_def)
  have date: "deduction_date ''2025-03-01'' (20148 * DAY_MS) = Inr ''2025-03-01''"
  proof -
    have "trim ''2025-03-01'' = ''2025-03-01''" by (rule trim_no_ws) (simp add: is_ws_def code_unit_def)
    moreover have "isIsoDate ''2025-03-01''" unfolding isIsoDate_iff using d by blast
    ultimately show ?thesis unfolding deduction_date_def Let_def now by simp
  qed
  have "uuid_field ''debtorId'' (Some ''0A000000-0000-0000-0000-000000000001'') True =
      Inr (Some ''0a000000-0000-0000-0000-000000000001'')"
    "text_field ''deductionReference'' (Some '' CB-1 '') True = Inr (Some ''CB-1'')"
    "trim ''$1,200.50'' = ''$1,200.50''"
    "text_field ''reasonCode'' (Some ''OS&D'') True = Inr (Some ''OS&D'')"
    "invoice_numbers ''7, 8, 7'' = Inr [''7'', ''8'']" by code_simp+
  moreover have "parseMoneyToCents ''$1,200.50'' = Inr 120050"
  proof -
    have "formatCents 120050 = ''$1,200.50''" by code_simp
    with parse_formatCents [of 120050] show ?thesis by (simp add: safe_int_def max_safe_def)
  qed
  ultimately have "\<not> isl (manualEntryFromForm sample_form (20148 * DAY_MS))"
    by (simp add: manualEntryFromForm_def sample_form_def date or_blank_def text_field_def uuid_field_def notes_field_def
        money_field_def)
  then obtain e where e: "manualEntryFromForm sample_form (20148 * DAY_MS) = Inr e"
    by (cases "manualEntryFromForm sample_form (20148 * DAY_MS)") auto
  from manual_entry_accepted [OF e] e show ?thesis by simp
qed

text \<open>A manual entry's document records one entry, made by one person at one instant: equal texts
  come from equal entries, and the stored file is named and typed the same for all.\<close>

theorem manual_document_one_entry:
  assumes "md_text (buildManualEntryDocument sha e who ms) = md_text (buildManualEntryDocument sha e' who' ms')"
  shows "e = e' \<and> who = who' \<and> iso_of_instant ms = iso_of_instant ms'"
proof -
  let ?f = "entry_fields e who (iso_of_instant ms)" and ?g = "entry_fields e' who' (iso_of_instant ms')"
  have "JObj (sort_by (\<lambda>a b. compare_text (fst a) (fst b)) ?f) = JObj (sort_by (\<lambda>a b. compare_text (fst a) (fst b)) ?g)"
    by (rule emit_inj [OF plain_layouts(2)]) (use assms in \<open>simp add: buildManualEntryDocument_def Let_def\<close>)
  then have "mset ?f = mset ?g" by (metis json.inject(5) mset_sort_by)
  then have "map_of ?f = map_of ?g" by (rule map_of_mset [OF distinct_entry_keys])
  then show ?thesis using entry_fields_inj by blast
qed

lemma manual_document_one_entry_witness:
  "\<exists>e. (\<forall>ms ms'. md_text (buildManualEntryDocument (\<lambda>_. ''0'') e ''u'' ms) =
        md_text (buildManualEntryDocument (\<lambda>_. ''0'') e ''u'' ms') \<longrightarrow> iso_of_instant ms = iso_of_instant ms') \<and>
     md_text (buildManualEntryDocument (\<lambda>_. ''0'') e ''u'' 0) \<noteq> md_text (buildManualEntryDocument (\<lambda>_. ''0'') e ''v'' 0)"
proof -
  have "md_text (buildManualEntryDocument (\<lambda>_. ''0'') e ''u'' 0) \<noteq> md_text (buildManualEntryDocument (\<lambda>_. ''0'') e ''v'' 0)" for e
    using manual_document_one_entry [of "\<lambda>_. ''0''" e "''u''" 0 e "''v''" 0] by auto
  moreover have "md_text (buildManualEntryDocument (\<lambda>_. ''0'') e ''u'' ms) = md_text (buildManualEntryDocument (\<lambda>_. ''0'') e ''u'' ms')
      \<Longrightarrow> iso_of_instant ms = iso_of_instant ms'" for e ms ms'
    by (drule manual_document_one_entry) simp
  ultimately show ?thesis by blast
qed

end
