(* ===== verification/Work_Queue.thy ===== *)
theory Work_Queue
  imports Case_State Timestamps JsSort
begin

text \<open>
  The review queue: \<open>packages/core-domain/src/work-queue.ts\<close>. The cases a person can act on now, in
  four buckets by their deadline, each with its own order. The lemmas show that the queue holds
  each of those cases once, in bucket order, whatever order the rows come in.
\<close>

section \<open>Buckets and steps\<close>

definition DUE_SOON_DAYS :: int where "DUE_SOON_DAYS = 14"

datatype QueueBucket = Due_Soon | Past_Deadline | No_Deadline | Due_Later

definition QUEUE_BUCKETS :: "QueueBucket list" where
  "QUEUE_BUCKETS = [Due_Soon, Past_Deadline, No_Deadline, Due_Later]"

datatype NextStep = Step_Decide | Step_Assemble | Step_Approve | Step_File | Step_Review

record QueueCase =
  qc_deductionId :: string
  qc_state :: CaseState
  qc_deductionAmountCents :: int
  qc_disputeDeadline :: "string option"
  qc_deductionDate :: "string option"
  qc_createdAt :: string
  qc_hasApproval :: bool

record RankedCase =
  rc_case :: QueueCase
  rc_bucket :: QueueBucket
  rc_nextStep :: NextStep
  rc_daysToDeadline :: "int option"
  rc_daysSinceShortPay :: "int option"

text \<open>A day in days since the epoch; only the first ten characters are read.\<close>

definition utcDay :: "string option \<Rightarrow> int option" where
  "utcDay value = (case value of None \<Rightarrow> None | Some v \<Rightarrow> utc_midnight (take 10 v))"

text \<open>\<open>today\<close> is an instant in milliseconds, \<^const>\<open>None\<close> for an invalid date.\<close>

definition todayUtc :: "int option \<Rightarrow> int res" where
  "todayUtc today = (case utcDay (map_option iso_of_instant today) of
     None \<Rightarrow> Inl (RangeError ''rankForReview needs a real date for today'')
   | Some day \<Rightarrow> Inr day)"

definition isQueued :: "CaseState \<Rightarrow> bool" where
  "isQueued s \<longleftrightarrow> \<not> isClosed s \<and> s \<noteq> Submitted"

definition nextStepFor :: "CaseState \<Rightarrow> bool \<Rightarrow> NextStep" where
  "nextStepFor s hasApproval = (case s of
     Classified \<Rightarrow> Step_Decide
   | Analyst_Review \<Rightarrow> Step_Assemble
   | Awaiting_Approval \<Rightarrow> if hasApproval then Step_File else Step_Approve
   | _ \<Rightarrow> Step_Review)"

definition queueBucket :: "int option \<Rightarrow> QueueBucket" where
  "queueBucket daysToDeadline = (case daysToDeadline of
     None \<Rightarrow> No_Deadline
   | Some d \<Rightarrow> if d < 0 then Past_Deadline else if d \<le> DUE_SOON_DAYS then Due_Soon else Due_Later)"

section \<open>The order\<close>

text \<open>A bucket's own key, ascending; \<^const>\<open>None\<close> is positive infinity.\<close>

record Keyed = RankedCase +
  ky_bucketIndex :: nat
  ky_key :: "int option"

definition bucket_index :: "QueueBucket \<Rightarrow> nat" where
  "bucket_index b = (case b of Due_Soon \<Rightarrow> 0 | Past_Deadline \<Rightarrow> 1 | No_Deadline \<Rightarrow> 2 | Due_Later \<Rightarrow> 3)"

definition keyed_case :: "int \<Rightarrow> QueueCase \<Rightarrow> Keyed" where
  "keyed_case now row =
     (let days = map_option (\<lambda>due. due - now) (utcDay (qc_disputeDeadline row));
          shortPaid = (case utcDay (qc_deductionDate row) of
            None \<Rightarrow> utcDay (Some (qc_createdAt row)) | Some d \<Rightarrow> Some d);
          bucket = queueBucket days
      in \<lparr>rc_case = row, rc_bucket = bucket, rc_nextStep = nextStepFor (qc_state row) (qc_hasApproval row),
          rc_daysToDeadline = days, rc_daysSinceShortPay = map_option (\<lambda>d. now - d) shortPaid,
          ky_bucketIndex = bucket_index bucket,
          ky_key = (case bucket of
             Past_Deadline \<Rightarrow> map_option (\<lambda>d. - d) days
           | No_Deadline \<Rightarrow> shortPaid
           | _ \<Rightarrow> days)\<rparr>)"

definition key_less :: "int option \<Rightarrow> int option \<Rightarrow> bool" where
  "key_less a b = (case (a, b) of (Some x, Some y) \<Rightarrow> x < y | (Some _, None) \<Rightarrow> True | _ \<Rightarrow> False)"

definition compare_keyed :: "Keyed \<Rightarrow> Keyed \<Rightarrow> int" where
  "compare_keyed a b =
     (if ky_bucketIndex a \<noteq> ky_bucketIndex b then int (ky_bucketIndex a) - int (ky_bucketIndex b)
      else if ky_key a \<noteq> ky_key b then (if key_less (ky_key a) (ky_key b) then -1 else 1)
      else if qc_deductionAmountCents (rc_case a) \<noteq> qc_deductionAmountCents (rc_case b)
        then qc_deductionAmountCents (rc_case b) - qc_deductionAmountCents (rc_case a)
      else compare_text (qc_deductionId (rc_case a)) (qc_deductionId (rc_case b)))"

definition rankForReview :: "QueueCase list \<Rightarrow> int option \<Rightarrow> RankedCase list res" where
  "rankForReview rows today = bind_res (todayUtc today) (\<lambda>now.
     Inr (map RankedCase.truncate
       (sort_by compare_keyed (map (keyed_case now) (filter (isQueued \<circ> qc_state) rows)))))"

section \<open>The order is total\<close>

definition key_rank :: "Keyed \<Rightarrow> int list" where
  "key_rank a = (case ky_key a of None \<Rightarrow> [1] | Some k \<Rightarrow> [0, k])"

lemma compare_keyed_chain:
  "compare_keyed a b =
     or_else (int (ky_bucketIndex a) - int (ky_bucketIndex b))
    (or_else (compare_text (key_rank a) (key_rank b))
    (or_else (qc_deductionAmountCents (rc_case b) - qc_deductionAmountCents (rc_case a))
       (compare_text (qc_deductionId (rc_case a)) (qc_deductionId (rc_case b)))))"
  by (auto simp: compare_keyed_def or_else_def compare_text_def key_rank_def key_less_def split: option.splits)

interpretation queue_order: keyed_comparator compare_keyed "\<lambda>k. qc_deductionId (rc_case k)"
proof -
  have "comparator compare_keyed"
    unfolding compare_keyed_chain [abs_def]
    by (intro comparator_or_else comparator_key comparator_difference comparator_descending)
  then show "keyed_comparator compare_keyed (\<lambda>k. qc_deductionId (rc_case k))"
    by (simp add: keyed_comparator_def keyed_comparator_axioms_def compare_keyed_chain)
qed

lemma todayUtc_day:
  assumes "four_digit_year (ms div DAY_MS)"
  shows "todayUtc (Some ms) = Inr (ms div DAY_MS)"
proof -
  have "iso_day (utc_day_text ms) = Some (ms div DAY_MS)"
    using iso.parse_print [OF assms] by (simp add: utc_day_text_iso [OF assms])
  then show ?thesis using iso_day_midnight by (simp add: todayUtc_def utcDay_def utc_day_text_def)
qed

text \<open>What a place in the queue means: the buckets' own orders.\<close>

definition in_order :: "RankedCase \<Rightarrow> RankedCase \<Rightarrow> bool" where
  "in_order a b \<longleftrightarrow> bucket_index (rc_bucket a) < bucket_index (rc_bucket b) \<or> rc_bucket a = rc_bucket b \<and>
     (case rc_bucket a of
        Past_Deadline \<Rightarrow> the (rc_daysToDeadline b) \<le> the (rc_daysToDeadline a)
      | No_Deadline \<Rightarrow> rc_daysSinceShortPay b = None \<or>
          (\<exists>x y. rc_daysSinceShortPay a = Some x \<and> rc_daysSinceShortPay b = Some y \<and> y \<le> x)
      | _ \<Rightarrow> the (rc_daysToDeadline a) \<le> the (rc_daysToDeadline b))"

lemma truncate_simps [simp]:
  "rc_case (RankedCase.truncate k) = rc_case k" "rc_bucket (RankedCase.truncate k) = rc_bucket k"
  "rc_daysToDeadline (RankedCase.truncate k) = rc_daysToDeadline k"
  "rc_daysSinceShortPay (RankedCase.truncate k) = rc_daysSinceShortPay k"
  by (simp_all add: RankedCase.truncate_def)

lemma bucket_index_inj: "bucket_index b = bucket_index c \<longleftrightarrow> b = c"
  by (auto simp: bucket_index_def split: QueueBucket.splits)

lemma queueBucket_None: "queueBucket None = No_Deadline" "queueBucket (Some d) \<noteq> No_Deadline"
  by (simp_all add: queueBucket_def)

lemma compare_keyed_in_order:
  "compare_keyed (keyed_case now a) (keyed_case now b) \<le> 0 \<Longrightarrow>
    in_order (RankedCase.truncate (keyed_case now a)) (RankedCase.truncate (keyed_case now b))"
  unfolding in_order_def compare_keyed_def keyed_case_def Let_def
  by (cases "utcDay (qc_disputeDeadline a)"; cases "utcDay (qc_disputeDeadline b)";
      cases "utcDay (Some (qc_createdAt b))")
    (auto simp: bucket_index_inj key_less_def queueBucket_def bucket_index_def
      split: if_splits option.splits QueueBucket.splits)

lemma keyed_ids: "map (\<lambda>k. qc_deductionId (rc_case k)) (map (keyed_case now) rs) = map qc_deductionId rs"
  by (simp add: keyed_case_def Let_def)

lemma queue_any_order:
  assumes "distinct (map qc_deductionId rows)" "mset rows' = mset rows"
  shows "rankForReview rows' today = rankForReview rows today"
proof -
  have "sort_by compare_keyed (map (keyed_case now) (filter (isQueued \<circ> qc_state) rows)) =
      sort_by compare_keyed (map (keyed_case now) (filter (isQueued \<circ> qc_state) rows'))" for now
  proof (rule queue_order.sort_by_cong_mset)
    show "mset (map (keyed_case now) (filter (isQueued \<circ> qc_state) rows)) =
        mset (map (keyed_case now) (filter (isQueued \<circ> qc_state) rows'))" using assms(2) by simp
    show "distinct (map (\<lambda>k. qc_deductionId (rc_case k)) (map (keyed_case now) (filter (isQueued \<circ> qc_state) rows)))"
      unfolding keyed_ids using assms(1) by (rule distinct_map_filter)
  qed
  then show ?thesis by (simp add: rankForReview_def)
qed

section \<open>Properties\<close>

text \<open>The queue holds exactly the cases a person can act on now, each as often as it was given, in
  order: the buckets one after another, each case in the bucket its deadline puts it in; soonest
  deadline first, most recently passed first, oldest short-pay first. Over cases of different ids it
  does not depend on the order of the rows.\<close>

theorem queue_order_total:
  assumes "rankForReview rows today = Inr q"
  shows "mset (map rc_case q) = mset (filter (\<lambda>r. \<not> isClosed (qc_state r) \<and> qc_state r \<noteq> Submitted) rows) \<and>
    sorted_wrt in_order q \<and> list_all (\<lambda>r. rc_bucket r = queueBucket (rc_daysToDeadline r)) q \<and>
    (\<forall>rows'. distinct (map qc_deductionId rows) \<and> mset rows' = mset rows \<longrightarrow> rankForReview rows' today = Inr q)"
proof -
  obtain now where q: "q = map RankedCase.truncate
      (sort_by compare_keyed (map (keyed_case now) (filter (isQueued \<circ> qc_state) rows)))"
    using assms by (auto simp: rankForReview_def bind_res_Inr_iff)
  define ks where "ks = sort_by compare_keyed (map (keyed_case now) (filter (isQueued \<circ> qc_state) rows))"
  have ks: "q = map RankedCase.truncate ks" "\<And>k. k \<in> set ks \<Longrightarrow> \<exists>r. k = keyed_case now r"
    by (auto simp: q ks_def)
  have "mset (map rc_case q) = image_mset rc_case (mset ks)"
    by (simp add: ks(1) image_mset.compositionality comp_def)
  also have "\<dots> = mset (filter (isQueued \<circ> qc_state) rows)"
    by (simp add: ks_def image_mset.compositionality comp_def keyed_case_def Let_def)
  finally have "mset (map rc_case q) = mset (filter (\<lambda>r. \<not> isClosed (qc_state r) \<and> qc_state r \<noteq> Submitted) rows)"
    by (simp add: isQueued_def comp_def)
  moreover have "sorted_wrt (\<lambda>a b. compare_keyed a b \<le> 0) ks"
    unfolding ks_def by (rule queue_order.sorted_sort_by)
  then have "sorted_wrt in_order q"
    unfolding ks(1) sorted_wrt_map
    by (rule sorted_wrt_mono_rel [rotated]) (use ks(2) compare_keyed_in_order in blast)
  moreover have "list_all (\<lambda>r. rc_bucket r = queueBucket (rc_daysToDeadline r)) q"
    using ks(2) by (fastforce simp: ks(1) list_all_iff keyed_case_def Let_def)
  moreover have "rankForReview rows' today = Inr q" if "distinct (map qc_deductionId rows)" "mset rows' = mset rows" for rows'
    using queue_any_order [OF that] assms by simp
  ultimately show ?thesis by blast
qed

definition sample_queue_case :: "string \<Rightarrow> CaseState \<Rightarrow> string option \<Rightarrow> QueueCase" where
  "sample_queue_case k s deadline = \<lparr>qc_deductionId = k, qc_state = s, qc_deductionAmountCents = 100,
     qc_disputeDeadline = deadline, qc_deductionDate = None, qc_createdAt = ''2025-02-01'', qc_hasApproval = False\<rparr>"

lemma queue_order_total_witness:
  "\<exists>q. rankForReview [sample_queue_case ''a'' Submitted None, sample_queue_case ''b'' Classified (Some ''2025-03-05'')]
     (Some (20148 * DAY_MS)) = Inr q \<and> map rc_case q = [sample_queue_case ''b'' Classified (Some ''2025-03-05'')]"
proof -
  have d: "iso_day ''2025-03-01'' = Some 20148" by (simp add: iso_eval)
  let ?rows = "[sample_queue_case ''a'' Submitted None, sample_queue_case ''b'' Classified (Some ''2025-03-05'')]"
  have "todayUtc (Some (20148 * DAY_MS)) = Inr 20148"
    using todayUtc_day [of "20148 * DAY_MS"] iso.parse_valid [OF d] by (simp add: DAY_MS_def)
  then obtain q where q: "rankForReview ?rows (Some (20148 * DAY_MS)) = Inr q" by (simp add: rankForReview_def)
  have "\<not> isClosed Classified" "isClosed Submitted = False" by code_simp+
  then have "filter (\<lambda>r. \<not> isClosed (qc_state r) \<and> qc_state r \<noteq> Submitted) ?rows =
      [sample_queue_case ''b'' Classified (Some ''2025-03-05'')]"
    by (simp add: sample_queue_case_def)
  with conjunct1 [OF queue_order_total [OF q]]
  have "mset (map rc_case q) = {#sample_queue_case ''b'' Classified (Some ''2025-03-05'')#}" by simp
  then have "map rc_case q = [sample_queue_case ''b'' Classified (Some ''2025-03-05'')]" by (rule mset_single_iff [THEN iffD1])
  with q show ?thesis by (intro exI [of _ q] conjI)
qed

end
