(* ===== verification/Retailers.thy ===== *)
theory Retailers
  imports JsText JsSort
begin

text \<open>
  Printed retailer names: \<open>packages/core-domain/src/retailers.ts\<close>. A name folds to a key two
  spellings share, and a key selects a debtor only when one answers to it. The compatibility
  decomposition of \<open>normalize('NFKD')\<close> is written out for the code units of the model.
\<close>

section \<open>The key\<close>

definition LEGAL_SUFFIXES :: "string list" where
  "LEGAL_SUFFIXES = [''inc'', ''incorporated'', ''corp'', ''corporation'', ''co'', ''company'', ''llc'', ''lc'',
     ''llp'', ''lp'', ''plc'', ''ltd'', ''limited'', ''gmbh'', ''ag'', ''nv'', ''bv'', ''sa'', ''srl'', ''pty'', ''pte'']"

text \<open>\<open>normalize('NFKD')\<close> with the combining marks then removed, one code unit at a time: an accented
  Latin-1 letter is its letter, a superscript or fraction its digits (the fraction slash is no
  letter or digit, here a space), a spacing accent a space.\<close>

definition decomposed :: "char \<Rightarrow> string" where
  "decomposed c = (let n = code_unit c in
     if n < 160 then [c]
     else if n \<in> {160, 168, 175, 180, 184} then '' ''
     else if n = 170 then ''a'' else if n = 186 then ''o''
     else if n = 178 then ''2'' else if n = 179 then ''3'' else if n = 185 then ''1''
     else if n = 188 then ''1 4'' else if n = 189 then ''1 2'' else if n = 190 then ''3 4''
     else if 192 \<le> n \<and> n \<le> 197 then ''A'' else if n = 199 then ''C''
     else if 200 \<le> n \<and> n \<le> 203 then ''E'' else if 204 \<le> n \<and> n \<le> 207 then ''I''
     else if n = 209 then ''N'' else if 210 \<le> n \<and> n \<le> 214 then ''O''
     else if 217 \<le> n \<and> n \<le> 220 then ''U'' else if n = 221 then ''Y''
     else if 224 \<le> n \<and> n \<le> 229 then ''a'' else if n = 231 then ''c''
     else if 232 \<le> n \<and> n \<le> 235 then ''e'' else if 236 \<le> n \<and> n \<le> 239 then ''i''
     else if n = 241 then ''n'' else if 242 \<le> n \<and> n \<le> 246 then ''o''
     else if 249 \<le> n \<and> n \<le> 252 then ''u'' else if n = 253 \<or> n = 255 then ''y''
     else [c])"

definition is_key_char :: "char \<Rightarrow> bool" where
  "is_key_char c \<longleftrightarrow> is_lower c \<or> is_digit c"

text \<open>\<open>replace(/[^a-z0-9]+/g, ' ')\<close>; the flag says the character before was replaced.\<close>

fun spaced_from :: "bool \<Rightarrow> string \<Rightarrow> string" where
  "spaced_from after [] = []"
| "spaced_from after (c # s) =
     (if is_key_char c then c # spaced_from False s
      else if after then spaced_from True s else CHR '' '' # spaced_from True s)"

definition folded_name :: "string \<Rightarrow> string" where
  "folded_name name = trim (spaced_from False (to_lower (concat (map decomposed name))))"

text \<open>The loop over trailing suffixes, on the words from the last; the last word standing stays.\<close>

fun drop_suffixes :: "string list \<Rightarrow> string list" where
  "drop_suffixes (w # v # ws) = (if w \<in> set LEGAL_SUFFIXES then drop_suffixes (v # ws) else w # v # ws)"
| "drop_suffixes ws = ws"

definition retailerMatchKey :: "string \<Rightarrow> string" where
  "retailerMatchKey name = (let folded = folded_name name in
     if folded = [] then [] else join '' '' (rev (drop_suffixes (rev (split_on CHR '' '' folded)))))"

section \<open>The debtor\<close>

record DebtorCandidate =
  dc_debtorId :: string
  dc_names :: "string list"

definition answers_to :: "string \<Rightarrow> DebtorCandidate \<Rightarrow> bool" where
  "answers_to key candidate \<longleftrightarrow> list_ex (\<lambda>name. retailerMatchKey name = key) (dc_names candidate)"

definition resolveDebtorId :: "string \<Rightarrow> DebtorCandidate list \<Rightarrow> string option" where
  "resolveDebtorId printedName candidates =
     (let key = retailerMatchKey printedName in
      if key = [] then None
      else (case dedupe (map dc_debtorId (filter (answers_to key) candidates)) of
          [only] \<Rightarrow> Some only
        | _ \<Rightarrow> None))"

lemma singleton_list:
  assumes "distinct xs"
  shows "set xs = {x} \<longleftrightarrow> xs = [x]"
proof
  assume s: "set xs = {x}"
  then have "length xs = 1" using distinct_card [OF assms] by simp
  then show "xs = [x]" using s by (cases xs) auto
qed simp

section \<open>Properties\<close>

text \<open>A printed name selects a debtor exactly when its key is not blank and that debtor, and no other,
  has a name with the same key; it never creates one and never picks between two.\<close>

theorem debtor_only_one:
  "resolveDebtorId name candidates = Some d \<longleftrightarrow> retailerMatchKey name \<noteq> [] \<and>
     {dc_debtorId c | c. c \<in> set candidates \<and> (\<exists>n\<in>set (dc_names c). retailerMatchKey n = retailerMatchKey name)} = {d}"
proof -
  define ids where "ids = dedupe (map dc_debtorId (filter (answers_to (retailerMatchKey name)) candidates))"
  have "{dc_debtorId c | c. c \<in> set candidates \<and> (\<exists>n\<in>set (dc_names c). retailerMatchKey n = retailerMatchKey name)} = set ids"
    by (auto simp: ids_def answers_to_def list_ex_iff)
  moreover have "resolveDebtorId name candidates = Some d \<longleftrightarrow> retailerMatchKey name \<noteq> [] \<and> ids = [d]"
    by (auto simp: resolveDebtorId_def Let_def ids_def split: list.splits)
  ultimately show ?thesis using singleton_list [of ids d] by (simp add: ids_def)
qed

end
