(* ===== verification/Document_Match.thy ===== *)
theory Document_Match
  imports Identity Retailers Case_State MoneyText Invariants
begin

text \<open>
  Which case a read document probably belongs on: \<open>packages/core-domain/src/document-match.ts\<close>. A
  suggestion is exact when one open case alone carries an identifier the document prints, ambiguous
  when several do, probable on a reference, or on payer and amount together. The lemmas decide each
  strength by the cases and show that the answer does not depend on their order.
\<close>

section \<open>What can agree\<close>

datatype DocumentMatchKind = MK_Claim_Id | MK_Invoice_Number | MK_Po_Number | MK_Bol_Number

datatype DocumentMatchBasisKind = Basis_Kind DocumentMatchKind | Basis_Reference | Basis_Payer | Basis_Amount_Cents

definition DOCUMENT_MATCH_BASIS_KINDS :: "DocumentMatchBasisKind list" where
  "DOCUMENT_MATCH_BASIS_KINDS = [Basis_Kind MK_Claim_Id, Basis_Kind MK_Invoice_Number, Basis_Kind MK_Po_Number,
     Basis_Kind MK_Bol_Number, Basis_Reference, Basis_Payer, Basis_Amount_Cents]"

datatype DocumentMatchStrength = Match_Exact | Match_Ambiguous | Match_Probable

definition DOCUMENT_MATCH_STRENGTHS :: "DocumentMatchStrength list" where
  "DOCUMENT_MATCH_STRENGTHS = [Match_Exact, Match_Ambiguous, Match_Probable]"

record DocumentMatchFields =
  mfs_identifiers :: "(string \<times> DocumentMatchKind) list"
  mfs_references :: "string list"
  mfs_payerNames :: "string list"
  mfs_amounts :: "string list"

definition NOTHING :: DocumentMatchFields where
  "NOTHING = \<lparr>mfs_identifiers = [], mfs_references = [], mfs_payerNames = [], mfs_amounts = []\<rparr>"

definition DOCUMENT_MATCH_FIELDS :: "(string \<times> DocumentMatchFields) list" where
  "DOCUMENT_MATCH_FIELDS =
    [(''deduction_notice'', NOTHING\<lparr>mfs_identifiers := [(''claim_id'', MK_Claim_Id), (''invoice_number'', MK_Invoice_Number),
        (''po_number'', MK_Po_Number)], mfs_payerNames := [''retailer_name''],
        mfs_amounts := [''deduction_total'', ''lines[].deduction_amount'']\<rparr>),
     (''remittance_advice'', NOTHING\<lparr>mfs_identifiers := [(''lines[].invoice_number'', MK_Invoice_Number)],
        mfs_payerNames := [''payer_name''], mfs_amounts := [''lines[].deduction_amount'']\<rparr>),
     (''invoice'', NOTHING\<lparr>mfs_identifiers := [(''invoice_number'', MK_Invoice_Number), (''po_number'', MK_Po_Number)],
        mfs_payerNames := [''customer_name''], mfs_amounts := [''invoice_total'', ''lines[].extended_amount'']\<rparr>),
     (''po'', NOTHING\<lparr>mfs_identifiers := [(''po_number'', MK_Po_Number)], mfs_payerNames := [''buyer_name'']\<rparr>),
     (''bol'', NOTHING\<lparr>mfs_identifiers := [(''document_number'', MK_Bol_Number), (''po_number'', MK_Po_Number)]\<rparr>),
     (''pod'', NOTHING\<lparr>mfs_identifiers := [(''document_number'', MK_Bol_Number), (''po_number'', MK_Po_Number)]\<rparr>),
     (''asn'', NOTHING\<lparr>mfs_identifiers := [(''po_number'', MK_Po_Number)]\<rparr>),
     (''correspondence'', NOTHING\<lparr>mfs_references := [''references[].value''], mfs_payerNames := [''sender_organisation'']\<rparr>),
     (''promo_agreement'', NOTHING\<lparr>mfs_payerNames := [''counterparty''], mfs_amounts := [''terms[].amount'']\<rparr>),
     (''price_agreement'', NOTHING\<lparr>mfs_payerNames := [''counterparty''], mfs_amounts := [''terms[].amount'']\<rparr>),
     (''routing_guide'', NOTHING),
     (''other'', NOTHING)]"

definition CASE_DOCUMENT_MATCH_FIELDS :: "(string \<times> DocumentMatchKind \<times> string list option) list" where
  "CASE_DOCUMENT_MATCH_FIELDS = [(''po_number'', MK_Po_Number, None),
     (''document_number'', MK_Bol_Number, Some [''bol'', ''pod''])]"

definition documentMatchKindOf :: "IdentifierKind \<Rightarrow> DocumentMatchKind option" where
  "documentMatchKindOf kind =
     (if kind = Claim_Id \<or> kind = Portal_Claim_Id then Some MK_Claim_Id
      else if kind = Invoice_Number then Some MK_Invoice_Number else None)"

section \<open>Paths\<close>

definition escapeRegExp :: "string \<Rightarrow> string" where
  "escapeRegExp text = concat (map (\<lambda>c. if c \<in> set ''.*+?^${}()|[]'' \<or> c = CHR 0x5C then [CHR 0x5C, c] else [c]) text)"

definition patternSource :: "string \<Rightarrow> string" where
  "patternSource path = join ([CHR 0x5C] @ ''['' @ [CHR 0x5C] @ ''d+'' @ [CHR 0x5C] @ '']'') (map escapeRegExp (split_text ''[]'' path))"

text \<open>The match of that pattern: the pieces in order, a bracketed number between two of them.\<close>

fun match_pieces :: "string list \<Rightarrow> string \<Rightarrow> bool" where
  "match_pieces [] path \<longleftrightarrow> path = []"
| "match_pieces [p] path \<longleftrightarrow> path = p"
| "match_pieces (p # q # ps) path \<longleftrightarrow> prefix p path \<and>
     (case drop (length p) path of
        c # t \<Rightarrow> c = CHR ''['' \<and> takeWhile is_digit t \<noteq> [] \<and>
          (case dropWhile is_digit t of d # u \<Rightarrow> d = CHR '']'' \<and> match_pieces (q # ps) u | [] \<Rightarrow> False)
      | [] \<Rightarrow> False)"

definition pathMatches :: "string \<Rightarrow> string \<Rightarrow> bool" where
  "pathMatches pattern path = match_pieces (split_text ''[]'' pattern) path"

definition listed_paths :: "DocumentMatchFields \<Rightarrow> string list" where
  "listed_paths f = map fst (mfs_identifiers f) @ mfs_references f @ mfs_payerNames f @ mfs_amounts f"

definition documentMatchPathPattern :: string where
  "documentMatchPathPattern = ''^('' @ join ''|'' (map patternSource
     (sort_by compare_text (dedupe (concat (map (listed_paths \<circ> snd) DOCUMENT_MATCH_FIELDS))))) @ '')$''"

section \<open>Documents and cases\<close>

text \<open>A stored value; \<^const>\<open>None\<close> is one that is not a text.\<close>

record DocumentMatchField =
  df_path :: string
  df_value :: "string option"

record DocumentMatchCase =
  mc_caseId :: string
  mc_state :: CaseState
  mc_amountCents :: int
  mc_debtorId :: "string option"
  mc_debtorNames :: "string list option"
  mc_retailerNameAsPrinted :: "string option"
  mc_claimId :: "string option"
  mc_identifiers :: "((IdentifierKind + DocumentMatchKind) \<times> string) list"

record DocumentMatchBasis =
  mb_kind :: DocumentMatchBasisKind
  mb_field :: string
  mb_value :: "string option"

record DocumentCaseSuggestion =
  cs_caseId :: string
  cs_strength :: DocumentMatchStrength
  cs_basis :: "DocumentMatchBasis list"

definition basisKinds :: "DocumentMatchBasis list \<Rightarrow> DocumentMatchBasisKind list" where
  "basisKinds basis = filter (\<lambda>k. k \<in> set (map mb_kind basis)) DOCUMENT_MATCH_BASIS_KINDS"

definition caseKind :: "IdentifierKind + DocumentMatchKind \<Rightarrow> DocumentMatchKind option" where
  "caseKind kind = (case kind of Inl k \<Rightarrow> documentMatchKindOf k | Inr k \<Rightarrow> Some k)"

definition printed_value :: "string option \<Rightarrow> string option" where
  "printed_value value = (case value of None \<Rightarrow> None | Some v \<Rightarrow> if trim v \<noteq> [] then Some v else None)"

definition centsOf :: "string option \<Rightarrow> int option" where
  "centsOf value = (case value of None \<Rightarrow> None
     | Some v \<Rightarrow> (case parseMoneyToCents v of Inl _ \<Rightarrow> None | Inr c \<Rightarrow> Some c))"

section \<open>What a document names\<close>

record named_identifier =
  ni_kind :: DocumentMatchKind
  ni_key :: string
  ni_field :: string
  ni_value :: string

record named_key =
  nk_key :: string
  nk_field :: string
  nk_value :: string

definition keyed_value :: "DocumentMatchField \<Rightarrow> (string \<times> string) option" where
  "keyed_value f = (case printed_value (df_value f) of None \<Rightarrow> None
     | Some v \<Rightarrow> if identifierMatchKey v = [] then None else Some (identifierMatchKey v, v))"

definition doc_identifiers :: "DocumentMatchFields \<Rightarrow> DocumentMatchField list \<Rightarrow> named_identifier list" where
  "doc_identifiers spec dfs = concat (map (\<lambda>f. concat (map (\<lambda>(path, kind).
     if \<not> pathMatches path (df_path f) then []
     else (case keyed_value f of None \<Rightarrow> []
       | Some (key, v) \<Rightarrow> [\<lparr>ni_kind = kind, ni_key = key, ni_field = df_path f, ni_value = v\<rparr>])) (mfs_identifiers spec))) dfs)"

definition on_path :: "string list \<Rightarrow> DocumentMatchField \<Rightarrow> bool" where
  "on_path paths f \<longleftrightarrow> list_ex (\<lambda>path. pathMatches path (df_path f)) paths"

definition doc_references :: "DocumentMatchFields \<Rightarrow> DocumentMatchField list \<Rightarrow> named_key list" where
  "doc_references spec dfs = concat (map (\<lambda>f.
     if \<not> on_path (mfs_references spec) f then []
     else (case keyed_value f of None \<Rightarrow> []
       | Some (key, v) \<Rightarrow> [\<lparr>nk_key = key, nk_field = df_path f, nk_value = v\<rparr>])) dfs)"

definition doc_payers :: "DocumentMatchFields \<Rightarrow> DocumentMatchField list \<Rightarrow> (string \<times> string) list" where
  "doc_payers spec dfs = concat (map (\<lambda>f.
     if \<not> on_path (mfs_payerNames spec) f then []
     else (case printed_value (df_value f) of None \<Rightarrow> []
       | Some v \<Rightarrow> if retailerMatchKey v = [] then [] else [(retailerMatchKey v, df_path f)])) dfs)"

definition doc_amounts :: "DocumentMatchFields \<Rightarrow> DocumentMatchField list \<Rightarrow> (int \<times> string) list" where
  "doc_amounts spec dfs = concat (map (\<lambda>f.
     if \<not> on_path (mfs_amounts spec) f then []
     else (case centsOf (df_value f) of None \<Rightarrow> [] | Some c \<Rightarrow> [(c, df_path f)])) dfs)"

section \<open>One case\<close>

definition carried :: "DocumentMatchCase \<Rightarrow> (DocumentMatchKind \<times> string) list" where
  "carried c = filter (\<lambda>(kind, key). key \<noteq> [])
     ((case mc_claimId c of None \<Rightarrow> [] | Some v \<Rightarrow> [(MK_Claim_Id, identifierMatchKey v)]) @
      concat (map (\<lambda>(kind, v). case caseKind kind of None \<Rightarrow> [] | Some k \<Rightarrow> [(k, identifierMatchKey v)]) (mc_identifiers c)))"

definition exact_basis :: "named_identifier list \<Rightarrow> DocumentMatchCase \<Rightarrow> DocumentMatchBasis list" where
  "exact_basis identifiers c = map (\<lambda>n. \<lparr>mb_kind = Basis_Kind (ni_kind n), mb_field = ni_field n, mb_value = Some (ni_value n)\<rparr>)
     (first_by (\<lambda>n. (ni_kind n, ni_key n)) (filter (\<lambda>n. (ni_kind n, ni_key n) \<in> set (carried c)) identifiers))"

definition case_names :: "DocumentMatchCase \<Rightarrow> string list" where
  "case_names c = filter (\<lambda>k. k \<noteq> []) (map retailerMatchKey
     ((case mc_debtorNames c of None \<Rightarrow> [] | Some ns \<Rightarrow> ns) @
      [case mc_retailerNameAsPrinted c of None \<Rightarrow> [] | Some n \<Rightarrow> n]))"

definition reference_basis :: "named_key list \<Rightarrow> DocumentMatchCase \<Rightarrow> DocumentMatchBasis list" where
  "reference_basis references c = (case find_first (\<lambda>n. nk_key n \<in> snd ` set (carried c)) references of
     None \<Rightarrow> [] | Some n \<Rightarrow> [\<lparr>mb_kind = Basis_Reference, mb_field = nk_field n, mb_value = Some (nk_value n)\<rparr>])"

definition payer_basis :: "(string \<times> string) list \<Rightarrow> (int \<times> string) list \<Rightarrow> DocumentMatchCase \<Rightarrow> DocumentMatchBasis list" where
  "payer_basis payers amounts c =
     (case (find_first (\<lambda>(k, f). k \<in> set (case_names c)) payers, find_first (\<lambda>(a, f). a = mc_amountCents c) amounts) of
        (Some (_, pf), Some (_, af)) \<Rightarrow>
          [\<lparr>mb_kind = Basis_Payer, mb_field = pf, mb_value = None\<rparr>,
           \<lparr>mb_kind = Basis_Amount_Cents, mb_field = af, mb_value = None\<rparr>]
      | _ \<Rightarrow> [])"

section \<open>The suggestions\<close>

type_synonym ranked = "string \<times> DocumentMatchBasis list"

definition compare_ranked :: "ranked \<Rightarrow> ranked \<Rightarrow> int" where
  "compare_ranked a b = or_else (int (length (snd b)) - int (length (snd a))) (compare_text (fst a) (fst b))"

definition open_candidates :: "DocumentMatchCase list \<Rightarrow> DocumentMatchCase list" where
  "open_candidates cases = first_by mc_caseId (filter (\<lambda>c. \<not> isClosed (mc_state c)) cases)"

definition exact_rows :: "named_identifier list \<Rightarrow> DocumentMatchCase list \<Rightarrow> ranked list" where
  "exact_rows identifiers cases = map (\<lambda>c. (mc_caseId c, exact_basis identifiers c))
     (filter (\<lambda>c. exact_basis identifiers c \<noteq> []) cases)"

definition loose_basis :: "DocumentMatchFields \<Rightarrow> DocumentMatchField list \<Rightarrow> DocumentMatchCase \<Rightarrow> DocumentMatchBasis list" where
  "loose_basis spec dfs c = reference_basis (doc_references spec dfs) c @
     payer_basis (doc_payers spec dfs) (doc_amounts spec dfs) c"

definition probable_rows :: "DocumentMatchFields \<Rightarrow> DocumentMatchField list \<Rightarrow> DocumentMatchCase list \<Rightarrow> ranked list" where
  "probable_rows spec dfs cases = map (\<lambda>c. (mc_caseId c, loose_basis spec dfs c))
     (filter (\<lambda>c. exact_basis (doc_identifiers spec dfs) c = [] \<and> loose_basis spec dfs c \<noteq> []) cases)"

definition suggestions :: "DocumentMatchStrength \<Rightarrow> ranked list \<Rightarrow> DocumentCaseSuggestion list" where
  "suggestions strength rows = map (\<lambda>(k, basis). \<lparr>cs_caseId = k, cs_strength = strength, cs_basis = basis\<rparr>)
     (sort_by compare_ranked rows)"

definition suggestCasesForDocument ::
  "string \<Rightarrow> DocumentMatchField list \<Rightarrow> DocumentMatchCase list \<Rightarrow> DocumentCaseSuggestion list" where
  "suggestCasesForDocument documentType dfs cases =
     (case map_of DOCUMENT_MATCH_FIELDS documentType of
        None \<Rightarrow> []
      | Some spec \<Rightarrow>
          let candidates = open_candidates cases;
              exact = exact_rows (doc_identifiers spec dfs) candidates
          in suggestions (if length exact = 1 then Match_Exact else Match_Ambiguous) exact @
             suggestions Match_Probable (probable_rows spec dfs candidates))"

section \<open>Ordering\<close>

interpretation ranked_order: keyed_comparator compare_ranked fst
proof -
  have "comparator compare_ranked"
    unfolding compare_ranked_def by (intro comparator_or_else comparator_descending comparator_key)
  then show "keyed_comparator compare_ranked fst"
    by (simp add: keyed_comparator_def keyed_comparator_axioms_def compare_ranked_def)
qed


section \<open>What a suggestion rests on\<close>

text \<open>A document identifier of a kind equal to one the case carries; or, more loosely, a reference of any
  kind, or the payer and the amount together.\<close>

definition names_case :: "DocumentMatchFields \<Rightarrow> DocumentMatchField list \<Rightarrow> DocumentMatchCase \<Rightarrow> bool" where
  "names_case spec dfs c \<longleftrightarrow> (\<exists>n\<in>set (doc_identifiers spec dfs). (ni_kind n, ni_key n) \<in> set (carried c))"

definition resembles_case :: "DocumentMatchFields \<Rightarrow> DocumentMatchField list \<Rightarrow> DocumentMatchCase \<Rightarrow> bool" where
  "resembles_case spec dfs c \<longleftrightarrow>
     (\<exists>n\<in>set (doc_references spec dfs). \<exists>kind. (kind, nk_key n) \<in> set (carried c)) \<or>
     (\<exists>p\<in>set (doc_payers spec dfs). fst p \<in> set (case_names c)) \<and>
     (\<exists>a\<in>set (doc_amounts spec dfs). fst a = mc_amountCents c)"

lemma first_by_eq_Nil [simp]: "first_by key xs = [] \<longleftrightarrow> xs = []"
  by (cases xs) auto

lemma exact_basis_iff: "exact_basis (doc_identifiers spec dfs) c \<noteq> [] \<longleftrightarrow> names_case spec dfs c"
  by (auto simp: exact_basis_def names_case_def filter_empty_conv)

lemma loose_basis_iff: "loose_basis spec dfs c \<noteq> [] \<longleftrightarrow> resembles_case spec dfs c"
proof -
  have "reference_basis rs c \<noteq> [] \<longleftrightarrow> (\<exists>n\<in>set rs. \<exists>kind. (kind, nk_key n) \<in> set (carried c))" for rs
    by (auto simp: reference_basis_def find_first_None_iff image_iff split: option.splits dest!: find_first_Some)
      (metis snd_conv)+
  moreover have "payer_basis ps as c \<noteq> [] \<longleftrightarrow>
      (\<exists>p\<in>set ps. fst p \<in> set (case_names c)) \<and> (\<exists>a\<in>set as. fst a = mc_amountCents c)" for ps as
    by (auto simp: payer_basis_def find_first_None_iff split: option.splits dest!: find_first_Some intro: bexI)
      (metis fst_conv)+
  ultimately show ?thesis by (simp add: loose_basis_def resembles_case_def)
qed

lemma set_suggestions: "set (suggestions strength rows) =
    (\<lambda>(k, basis). \<lparr>cs_caseId = k, cs_strength = strength, cs_basis = basis\<rparr>) ` set rows"
  by (simp add: suggestions_def)

lemma open_candidates_open: "c \<in> set (open_candidates cases) \<Longrightarrow> c \<in> set cases \<and> \<not> isClosed (mc_state c)"
  unfolding open_candidates_def using first_by_subset by fastforce

definition suggested :: "DocumentMatchStrength \<Rightarrow> DocumentCaseSuggestion list \<Rightarrow> string set" where
  "suggested strength out = cs_caseId ` {s \<in> set out. cs_strength s = strength}"

lemma suggested_suggestions: "suggested st (suggestions st' rows) = (if st = st' then fst ` set rows else {})"
proof -
  have "{s \<in> set (suggestions st' rows). cs_strength s = st} = (if st = st' then set (suggestions st' rows) else {})"
    by (auto simp: set_suggestions)
  moreover have "cs_caseId ` set (suggestions st' rows) = fst ` set rows"
    by (simp add: set_suggestions image_image case_prod_unfold)
  ultimately show ?thesis by (simp add: suggested_def)
qed

lemma suggested_parts:
  "suggested st (suggestions st' rows @ suggestions st'' rows') =
     (if st = st' then fst ` set rows else {}) \<union> (if st = st'' then fst ` set rows' else {})"
proof -
  have "suggested st (xs @ ys) = suggested st xs \<union> suggested st ys" for xs ys
    by (auto simp: suggested_def)
  then show ?thesis by (simp add: suggested_suggestions)
qed

lemma open_candidates_order:
  assumes "distinct (map mc_caseId cases)" "mset cases = mset cases'"
  shows "mset (open_candidates cases) = mset (open_candidates cases')"
proof -
  have id: "first_by key xs = xs" if "distinct (map key xs)" for key :: "DocumentMatchCase \<Rightarrow> string" and xs
    using that by (induction xs) (auto simp: filter_id_conv image_iff)
  have "distinct (map mc_caseId cases')" using assms by (metis mset_eq_imp_distinct_iff mset_map)
  then show ?thesis using assms by (simp add: open_candidates_def id distinct_map_filter)
qed

lemma suggestions_order:
  "distinct (map fst rows) \<Longrightarrow> mset rows = mset rows' \<Longrightarrow> suggestions st rows = suggestions st rows'"
  by (simp add: suggestions_def ranked_order.sort_by_cong_mset [of rows rows'])

lemma suggest_order:
  assumes "distinct (map mc_caseId cases)" "mset cases = mset cases'"
  shows "suggestCasesForDocument ty dfs cases = suggestCasesForDocument ty dfs cases'"
proof (cases "map_of DOCUMENT_MATCH_FIELDS ty")
  case None
  then show ?thesis by (simp add: suggestCasesForDocument_def)
next
  case (Some spec)
  note m = open_candidates_order [OF assms]
  have d: "distinct (map mc_caseId (open_candidates cases))" by (simp add: open_candidates_def)
  have ids: "map fst (map (\<lambda>c. (mc_caseId c, f c)) xs) = map mc_caseId xs" for f :: "_ \<Rightarrow> DocumentMatchBasis list" and xs
    by simp
  have e: "mset (exact_rows is (open_candidates cases)) = mset (exact_rows is (open_candidates cases'))" for "is"
    using m by (simp add: exact_rows_def)
  then have "length (exact_rows is (open_candidates cases)) = length (exact_rows is (open_candidates cases'))" for "is"
    by (metis size_mset)
  moreover have "suggestions st (exact_rows is (open_candidates cases)) = suggestions st (exact_rows is (open_candidates cases'))" for st "is"
    by (rule suggestions_order [OF _ e]) (simp only: exact_rows_def ids distinct_map_filter [OF d])
  moreover have "suggestions st (probable_rows spec dfs (open_candidates cases)) =
      suggestions st (probable_rows spec dfs (open_candidates cases'))" for st
    by (rule suggestions_order)
      (simp only: probable_rows_def ids distinct_map_filter [OF d], use m in \<open>simp add: probable_rows_def\<close>)
  ultimately show ?thesis by (simp add: suggestCasesForDocument_def Some Let_def)
qed

section \<open>Properties\<close>

text \<open>C16: a document's suggestions are decided by the open cases: the one case that carries an identifier it
  prints is exact, several are all listed as ambiguous, and a case is probable when none of its
  identifiers is printed but a reference, or payer and amount together, agree. Nothing else is ever
  suggested, a closed case never, and over cases of different ids the answer does not depend on
  their order.\<close>

theorem suggestions_decided:
  fixes ty dfs cases
  assumes "map_of DOCUMENT_MATCH_FIELDS ty = Some spec"
  defines "out \<equiv> suggestCasesForDocument ty dfs cases"
    and "named \<equiv> mc_caseId ` {c \<in> set (open_candidates cases). names_case spec dfs c}"
  shows "suggested Match_Exact out = (if card named = 1 then named else {}) \<and>
    suggested Match_Ambiguous out = (if card named = 1 then {} else named) \<and>
    suggested Match_Probable out =
      mc_caseId ` {c \<in> set (open_candidates cases). \<not> names_case spec dfs c \<and> resembles_case spec dfs c} \<and>
    (\<forall>s\<in>set out. cs_basis s \<noteq> [] \<and> (\<exists>c\<in>set cases. mc_caseId c = cs_caseId s \<and> \<not> isClosed (mc_state c))) \<and>
    (\<forall>cases'. distinct (map mc_caseId cases) \<and> mset cases = mset cases' \<longrightarrow> suggestCasesForDocument ty dfs cases' = out)"
proof -
  define ex where "ex = exact_rows (doc_identifiers spec dfs) (open_candidates cases)"
  define pr where "pr = probable_rows spec dfs (open_candidates cases)"
  have out: "out = suggestions (if length ex = 1 then Match_Exact else Match_Ambiguous) ex @ suggestions Match_Probable pr"
    by (simp add: out_def suggestCasesForDocument_def assms(1) Let_def ex_def pr_def)
  have ids: "fst ` set ex = named"
    by (auto simp: ex_def exact_rows_def exact_basis_iff named_def image_image)
  have "distinct (map fst ex)"
    by (simp add: ex_def exact_rows_def comp_def open_candidates_def distinct_map_filter)
  then have card: "card named = length ex" using distinct_card [of "map fst ex"] ids by simp
  have probable: "fst ` set pr = mc_caseId ` {c \<in> set (open_candidates cases). \<not> names_case spec dfs c \<and> resembles_case spec dfs c}"
    by (auto simp: pr_def probable_rows_def exact_basis_iff [symmetric] loose_basis_iff image_image)
  have rows: "(k, basis) \<in> set ex \<union> set pr \<Longrightarrow> basis \<noteq> [] \<and> (\<exists>c\<in>set cases. mc_caseId c = k \<and> \<not> isClosed (mc_state c))" for k basis
    by (auto simp: ex_def pr_def exact_rows_def probable_rows_def dest: open_candidates_open)
  have "\<forall>s\<in>set out. cs_basis s \<noteq> [] \<and> (\<exists>c\<in>set cases. mc_caseId c = cs_caseId s \<and> \<not> isClosed (mc_state c))"
    by (auto simp: out set_suggestions dest: rows [OF UnI1] rows [OF UnI2])
  moreover have "suggestCasesForDocument ty dfs cases' = out"
    if "distinct (map mc_caseId cases)" "mset cases = mset cases'" for cases'
    using suggest_order [OF that] by (simp add: out_def)
  ultimately show ?thesis
    unfolding card out suggested_parts ids probable by (auto simp: ids [symmetric])
qed

lemma suggested_single: "suggested st [s] = (if cs_strength s = st then {cs_caseId s} else {})"
  by (auto simp: suggested_def)

definition sample_case :: DocumentMatchCase where
  "sample_case = \<lparr>mc_caseId = ''a'', mc_state = Classified, mc_amountCents = 500, mc_debtorId = None, mc_debtorNames = None,
     mc_retailerNameAsPrinted = None, mc_claimId = None, mc_identifiers = [(Inl Invoice_Number, '' inv-7'')]\<rparr>"

lemma suggestions_decided_witness:
  "suggestCasesForDocument ''invoice'' [\<lparr>df_path = ''invoice_number'', df_value = Some ''INV-7''\<rparr>] [sample_case] =
     [\<lparr>cs_caseId = ''a'', cs_strength = Match_Exact, cs_basis = [\<lparr>mb_kind = Basis_Kind MK_Invoice_Number,
        mb_field = ''invoice_number'', mb_value = Some ''INV-7''\<rparr>]\<rparr>] \<and>
   suggested Match_Ambiguous (suggestCasesForDocument ''invoice''
     [\<lparr>df_path = ''invoice_number'', df_value = Some ''INV-7''\<rparr>] [sample_case]) = {}"
  (is "suggestCasesForDocument _ ?f ?c = _ \<and> _")
proof
  show e: "suggestCasesForDocument ''invoice'' ?f ?c =
     [\<lparr>cs_caseId = ''a'', cs_strength = Match_Exact, cs_basis = [\<lparr>mb_kind = Basis_Kind MK_Invoice_Number,
        mb_field = ''invoice_number'', mb_value = Some ''INV-7''\<rparr>]\<rparr>]"
    by code_simp
  obtain spec where spec: "map_of DOCUMENT_MATCH_FIELDS ''invoice'' = Some spec"
    by (simp add: DOCUMENT_MATCH_FIELDS_def)
  have single: "y = {}"
    if "x = (if card n = 1 then n else {}) \<and> y = (if card n = 1 then {} else n) \<and> rest" "x = {''a''}"
    for x y n :: "string set" and rest
    using that by (auto split: if_splits)
  show "suggested Match_Ambiguous (suggestCasesForDocument ''invoice'' ?f ?c) = {}"
    by (rule single [OF suggestions_decided [OF spec, where dfs = ?f and cases = ?c]]) (simp add: e suggested_single)
qed

end
