(* ===== verification/Evidence.thy ===== *)
theory Evidence
  imports In_Force
begin

text \<open>
  Which evidence a reason needs, and what a case still lacks: \<open>packages/core-domain/src/evidence.ts\<close>
  and \<open>evidence-requirements.ts\<close>. The set in force on a day is one more instance of the interface
  \<open>superseding\<close>; the lemmas say when a checklist is given and what its rows state.
\<close>

section \<open>Evidence and what a reason needs of it\<close>

datatype EvidenceType =
    Ev_Signed_Pod | Ev_Carrier_Signed_Bol | Ev_Po | Ev_Invoice | Ev_Asn |
    Ev_Packing_List | Ev_Promo_Deal_Sheet | Ev_Buyer_Approval_Email |
    Ev_Price_Agreement | Ev_Routing_Guide | Ev_Remittance_Advice

definition EVIDENCE_TYPES :: "EvidenceType list" where
  "EVIDENCE_TYPES = [Ev_Signed_Pod, Ev_Carrier_Signed_Bol, Ev_Po, Ev_Invoice, Ev_Asn, Ev_Packing_List,
     Ev_Promo_Deal_Sheet, Ev_Buyer_Approval_Email, Ev_Price_Agreement, Ev_Routing_Guide, Ev_Remittance_Advice]"

primrec EVIDENCE_TYPE_WORDS :: "EvidenceType \<Rightarrow> string" where
  "EVIDENCE_TYPE_WORDS Ev_Signed_Pod = ''Signed proof of delivery''"
| "EVIDENCE_TYPE_WORDS Ev_Carrier_Signed_Bol = ''Carrier-signed bill of lading''"
| "EVIDENCE_TYPE_WORDS Ev_Po = ''Purchase order''"
| "EVIDENCE_TYPE_WORDS Ev_Invoice = ''Invoice''"
| "EVIDENCE_TYPE_WORDS Ev_Asn = ''Advance ship notice''"
| "EVIDENCE_TYPE_WORDS Ev_Packing_List = ''Packing list''"
| "EVIDENCE_TYPE_WORDS Ev_Promo_Deal_Sheet = ''Promotion deal sheet''"
| "EVIDENCE_TYPE_WORDS Ev_Buyer_Approval_Email = ''Buyer approval''"
| "EVIDENCE_TYPE_WORDS Ev_Price_Agreement = ''Price agreement''"
| "EVIDENCE_TYPE_WORDS Ev_Routing_Guide = ''Routing guide''"
| "EVIDENCE_TYPE_WORDS Ev_Remittance_Advice = ''Remittance advice''"

record EvidenceRequirementProvenance =
  ep_kind :: string
  ep_source :: string
  ep_note :: "string option"

record EvidenceRequirement =
  er_evidenceType :: EvidenceType
  er_required :: bool
  er_why :: string

record EvidenceRequirementSet =
  es_version :: string
  es_effectiveFrom :: string
  es_provenance :: EvidenceRequirementProvenance
  es_byFamily :: "ReasonFamily \<Rightarrow> EvidenceRequirement list"
  es_byCode :: "CanonicalReasonCode \<Rightarrow> EvidenceRequirement list option"

definition required_evidence :: "EvidenceType \<Rightarrow> string \<Rightarrow> EvidenceRequirement" where
  "required_evidence t why = \<lparr>er_evidenceType = t, er_required = True, er_why = why\<rparr>"

definition optional_evidence :: "EvidenceType \<Rightarrow> string \<Rightarrow> EvidenceRequirement" where
  "optional_evidence t why = \<lparr>er_evidenceType = t, er_required = False, er_why = why\<rparr>"

definition APPOINTMENT_EVIDENCE :: "EvidenceRequirement list" where
  "APPOINTMENT_EVIDENCE =
       [required_evidence Ev_Carrier_Signed_Bol ''The signed bill of lading shows when the carrier took the load.'',
        required_evidence Ev_Signed_Pod ''The signed delivery receipt shows when the goods arrived.'',
        optional_evidence Ev_Buyer_Approval_Email ''A buyer message can show the delivery time was agreed or changed.'']"

definition ASN_EVIDENCE :: "EvidenceRequirement list" where
  "ASN_EVIDENCE =
       [required_evidence Ev_Asn ''The advance ship notice shows what was sent and when.'',
        required_evidence Ev_Invoice ''The invoice ties the shipment to the amount billed.'']"

definition family_evidence :: "ReasonFamily \<Rightarrow> EvidenceRequirement list" where
  "family_evidence family = (case family of
    Fam_Shortage \<Rightarrow> [required_evidence Ev_Signed_Pod ''A clean signed delivery receipt shows the full quantity arrived.'',
        required_evidence Ev_Carrier_Signed_Bol ''The signed bill of lading shows what the carrier took.'',
        required_evidence Ev_Invoice ''The invoice shows the quantity billed.'',
        optional_evidence Ev_Po ''The purchase order shows the quantity ordered.'',
        optional_evidence Ev_Asn ''The advance ship notice shows the quantity sent.'',
        optional_evidence Ev_Packing_List ''The packing list shows what was packed.'']
    | Fam_Pricing \<Rightarrow> [required_evidence Ev_Invoice ''The invoice shows the price billed.'',
        required_evidence Ev_Price_Agreement ''The price agreement shows the price agreed.'',
        required_evidence Ev_Po ''The purchase order shows the price the buyer ordered at.'']
    | Fam_Compliance \<Rightarrow> [required_evidence Ev_Routing_Guide ''The routing guide shows the rule the payer says was broken.'',
        required_evidence Ev_Asn ''The advance ship notice shows what was sent and when.'',
        optional_evidence Ev_Carrier_Signed_Bol ''The signed bill of lading shows how the load moved.'',
        optional_evidence Ev_Buyer_Approval_Email ''A buyer message can show an exception was agreed.'']
    | Fam_Duplicate \<Rightarrow> [required_evidence Ev_Invoice ''The invoice identifies the charge that was deducted.'',
        required_evidence Ev_Remittance_Advice ''The remittance shows the earlier deduction or payment.'']
    | Fam_Returns \<Rightarrow> [required_evidence Ev_Invoice ''The invoice shows what was sold and at what price.'',
        optional_evidence Ev_Buyer_Approval_Email ''A buyer message can show whether the return was authorised.'']
    | Fam_Promotion \<Rightarrow> [required_evidence Ev_Promo_Deal_Sheet ''The deal sheet shows the promotion agreed and its terms.'',
        required_evidence Ev_Invoice ''The invoice shows what was sold in the promotion period.'',
        optional_evidence Ev_Buyer_Approval_Email ''A buyer message can show what was agreed.'']
    | Fam_Freight \<Rightarrow> [required_evidence Ev_Carrier_Signed_Bol ''The signed bill of lading shows the carrier and freight terms.'',
        required_evidence Ev_Invoice ''The invoice shows how freight was billed.'',
        optional_evidence Ev_Routing_Guide ''The routing guide shows which carrier the payer required.'']
    | Fam_Quality \<Rightarrow> [required_evidence Ev_Signed_Pod ''A clean signed delivery receipt shows the goods arrived in good order.'',
        optional_evidence Ev_Carrier_Signed_Bol ''The signed bill of lading shows the condition at pickup.'',
        required_evidence Ev_Invoice ''The invoice shows what was sold.'']
    | Fam_Post_Audit \<Rightarrow> [required_evidence Ev_Invoice ''The invoice shows what was billed at the time.'',
        optional_evidence Ev_Price_Agreement ''The price agreement shows the price in force then.'',
        optional_evidence Ev_Promo_Deal_Sheet ''The deal sheet shows the allowance in force then.'',
        optional_evidence Ev_Remittance_Advice ''The remittance shows what was already settled.'']
    | Fam_Other \<Rightarrow> [required_evidence Ev_Invoice ''The invoice identifies the charge that was deducted.''])"

definition code_evidence :: "CanonicalReasonCode \<Rightarrow> EvidenceRequirement list option" where
  "code_evidence code = (case code of
    Compliance_Asn_Missing \<Rightarrow> Some ASN_EVIDENCE
    | Compliance_Asn_Inaccurate \<Rightarrow> Some ASN_EVIDENCE
    | Compliance_Appointment_Missed \<Rightarrow> Some APPOINTMENT_EVIDENCE
    | Compliance_Late_Delivery \<Rightarrow> Some APPOINTMENT_EVIDENCE
    | Compliance_Early_Delivery \<Rightarrow> Some APPOINTMENT_EVIDENCE
    | Promo_Not_Agreed \<Rightarrow> Some [optional_evidence Ev_Promo_Deal_Sheet ''A deal sheet, if one exists, shows what was actually agreed.'',
        optional_evidence Ev_Buyer_Approval_Email ''A buyer message can show the promotion was never agreed.'',
        required_evidence Ev_Invoice ''The invoice shows what was sold.'']
    | _ \<Rightarrow> None)"

definition CANONICAL_EVIDENCE_REQUIREMENTS :: "EvidenceRequirementSet list" where
  "CANONICAL_EVIDENCE_REQUIREMENTS = [
     \<lparr>es_version = ''2026-09-27.1'', es_effectiveFrom = ''2000-01-01'',
      es_provenance = \<lparr>ep_kind = ''named_human'', ep_source = ''ADR 0059'', ep_note = None\<rparr>,
      es_byFamily = family_evidence, es_byCode = code_evidence\<rparr>]"

definition EVIDENCE_NOT_YET_TYPED :: "string list" where
  "EVIDENCE_NOT_YET_TYPED = [''carrier ELD/telematics log'', ''timesheet / time register'', ''receiving report'',
     ''temperature / shelf-life record'']"


section \<open>The set in force\<close>

definition later_set :: "EvidenceRequirementSet \<Rightarrow> EvidenceRequirementSet \<Rightarrow> bool" where
  "later_set s found \<longleftrightarrow> es_effectiveFrom s > es_effectiveFrom found"

definition requirementSetOn :: "string \<Rightarrow> EvidenceRequirementSet list \<Rightarrow> EvidenceRequirementSet res" where
  "requirementSetOn date sets =
     (if \<not> iso_shape date \<or> utc_midnight date = None then Inl (RangeError (''not a YYYY-MM-DD date: '' @ date))
      else (case last_standing later_set (filter (\<lambda>s. es_effectiveFrom s \<le> date) sets) of
          None \<Rightarrow> Inl (NoEvidenceRequirementsError (''no evidence requirements in force on '' @ date))
        | Some found \<Rightarrow> Inr found))"

definition requirementsFor :: "CanonicalReasonCode \<Rightarrow> EvidenceRequirementSet \<Rightarrow> EvidenceRequirement list" where
  "requirementsFor code s = (case es_byCode s code of Some rs \<Rightarrow> rs | None \<Rightarrow> es_byFamily s (familyOf code))"

section \<open>The checklist\<close>

datatype ChecklistStatus = Have | Possible | Missing

datatype EvidenceStrength = Have_It | Possible_Only

record PresentEvidence =
  pe_documentId :: string
  pe_evidenceType :: EvidenceType
  pe_strength :: EvidenceStrength

record ChecklistRow =
  cr_evidenceType :: EvidenceType
  cr_required :: bool
  cr_why :: string
  cr_status :: ChecklistStatus
  cr_documentIds :: "string list"

record EvidenceChecklist =
  ec_reason :: CanonicalReasonCode
  ec_version :: string
  ec_rows :: "ChecklistRow list"
  ec_missingRequired :: nat

definition checklist_row :: "PresentEvidence list \<Rightarrow> EvidenceRequirement \<Rightarrow> ChecklistRow" where
  "checklist_row present r =
     (let matching = filter (\<lambda>p. pe_evidenceType p = er_evidenceType r) present in
      \<lparr>cr_evidenceType = er_evidenceType r, cr_required = er_required r, cr_why = er_why r,
       cr_status = (if list_ex (\<lambda>p. pe_strength p = Have_It) matching then Have
         else if length matching > 0 then Possible else Missing),
       cr_documentIds = map pe_documentId matching\<rparr>)"

definition evidenceChecklist :: "CanonicalReasonCode \<Rightarrow> string \<Rightarrow> PresentEvidence list \<Rightarrow> EvidenceChecklist res" where
  "evidenceChecklist reason onDate present =
     bind_res (requirementSetOn onDate CANONICAL_EVIDENCE_REQUIREMENTS) (\<lambda>s.
       let rows = map (checklist_row present) (requirementsFor reason s) in
       Inr \<lparr>ec_reason = reason, ec_version = es_version s, ec_rows = rows,
         ec_missingRequired = length (filter (\<lambda>r. cr_required r \<and> cr_status r \<noteq> Have) rows)\<rparr>)"

section \<open>What the choice of a set rests on\<close>

interpretation sets: superseding later_set es_effectiveFrom "\<lambda>_. True"
  by unfold_locales (simp add: later_set_def)

lemma requirement_set_in_force:
  assumes "requirementSetOn date sets = Inr s"
  shows "s \<in> set sets" "es_effectiveFrom s \<le> date"
    "x \<in> set sets \<Longrightarrow> es_effectiveFrom x \<le> date \<Longrightarrow> es_effectiveFrom x \<le> es_effectiveFrom s"
proof -
  have "last_standing later_set (filter (\<lambda>s. es_effectiveFrom s \<le> date) sets) = Some s"
    using assms by (simp add: requirementSetOn_def split: option.splits if_splits)
  then have "s \<in> set (filter (\<lambda>s. es_effectiveFrom s \<le> date) sets)"
    "\<forall>x\<in>set (filter (\<lambda>s. es_effectiveFrom s \<le> date) sets). \<not> later_set x s"
    using sets.choice [of "filter (\<lambda>s. es_effectiveFrom s \<le> date) sets"] by blast+
  then show "s \<in> set sets" "es_effectiveFrom s \<le> date"
    "x \<in> set sets \<Longrightarrow> es_effectiveFrom x \<le> date \<Longrightarrow> es_effectiveFrom x \<le> es_effectiveFrom s"
    by (simp_all add: later_set_def) (meson linorder_not_less)
qed

lemma canonical_set_on:
  "requirementSetOn date CANONICAL_EVIDENCE_REQUIREMENTS = Inr s \<longleftrightarrow>
    iso_shape date \<and> utc_midnight date \<noteq> None \<and> ''2000-01-01'' \<le> date \<and> CANONICAL_EVIDENCE_REQUIREMENTS = [s]"
  by (auto simp: requirementSetOn_def CANONICAL_EVIDENCE_REQUIREMENTS_def last_standing_def)

lemma canonical_single: "\<exists>s. CANONICAL_EVIDENCE_REQUIREMENTS = [s]"
  by (simp add: CANONICAL_EVIDENCE_REQUIREMENTS_def)

lemma canonical_types_distinct:
  assumes "CANONICAL_EVIDENCE_REQUIREMENTS = [s]"
  shows "distinct (map er_evidenceType (requirementsFor code s))"
proof -
  have s: "es_byFamily s = family_evidence" "es_byCode s = code_evidence"
    using assms by (auto simp: CANONICAL_EVIDENCE_REQUIREMENTS_def)
  have "distinct (map er_evidenceType (family_evidence f))" for f
    by (cases f) (simp_all add: family_evidence_def required_evidence_def optional_evidence_def)
  moreover have "list_all (\<lambda>code. case code_evidence code of None \<Rightarrow> True | Some rs \<Rightarrow> distinct (map er_evidenceType rs))
      CANONICAL_REASON_CODE_LIST"
    by code_simp
  then have "case code_evidence code of None \<Rightarrow> True | Some rs \<Rightarrow> distinct (map er_evidenceType rs)"
    by (simp add: list_all_iff all_codes)
  ultimately show ?thesis by (auto simp: requirementsFor_def s split: option.splits)
qed

section \<open>Properties\<close>

text \<open>A checklist is given exactly from 2000 on, for a date of the right shape with a month of the year
  and a day up to 31. It has one row per type of evidence the reason needs, and a row says have
  exactly when a document of that type is held for certain, possible when one only may be, missing
  when there is none; nothing required is missing exactly when each required type is held.\<close>

theorem checklist_decided:
  "((\<exists>c. evidenceChecklist reason date present = Inr c) \<longleftrightarrow>
     iso_shape date \<and> utc_midnight date \<noteq> None \<and> ''2000-01-01'' \<le> date) \<and>
   (\<forall>c. evidenceChecklist reason date present = Inr c \<longrightarrow>
     distinct (map cr_evidenceType (ec_rows c)) \<and>
     (\<forall>r\<in>set (ec_rows c).
        cr_documentIds r = map pe_documentId (filter (\<lambda>p. pe_evidenceType p = cr_evidenceType r) present) \<and>
        (cr_status r = Have \<longleftrightarrow> (\<exists>p\<in>set present. pe_evidenceType p = cr_evidenceType r \<and> pe_strength p = Have_It)) \<and>
        (cr_status r = Missing \<longleftrightarrow> cr_documentIds r = [])) \<and>
     (ec_missingRequired c = 0 \<longleftrightarrow> (\<forall>r\<in>set (ec_rows c). cr_required r \<longrightarrow>
        (\<exists>p\<in>set present. pe_evidenceType p = cr_evidenceType r \<and> pe_strength p = Have_It))))"
proof (intro conjI allI impI)
  show "(\<exists>c. evidenceChecklist reason date present = Inr c) \<longleftrightarrow>
     iso_shape date \<and> utc_midnight date \<noteq> None \<and> ''2000-01-01'' \<le> date"
    by (auto simp: evidenceChecklist_def bind_res_Inr_iff canonical_set_on Let_def canonical_single)
next
  fix c assume "evidenceChecklist reason date present = Inr c"
  then obtain s where s: "CANONICAL_EVIDENCE_REQUIREMENTS = [s]"
    and rows: "ec_rows c = map (checklist_row present) (requirementsFor reason s)"
    and n: "ec_missingRequired c = length (filter (\<lambda>r. cr_required r \<and> cr_status r \<noteq> Have) (ec_rows c))"
    by (auto simp: evidenceChecklist_def bind_res_Inr_iff canonical_set_on Let_def)
  have types: "map cr_evidenceType (ec_rows c) = map er_evidenceType (requirementsFor reason s)"
    by (simp add: rows checklist_row_def Let_def)
  show "distinct (map cr_evidenceType (ec_rows c))"
    unfolding types by (rule canonical_types_distinct [OF s])
  have row: "cr_documentIds r = map pe_documentId (filter (\<lambda>p. pe_evidenceType p = cr_evidenceType r) present)"
    "cr_status r = Have \<longleftrightarrow> (\<exists>p\<in>set present. pe_evidenceType p = cr_evidenceType r \<and> pe_strength p = Have_It)"
    "cr_status r = Missing \<longleftrightarrow> cr_documentIds r = []" if "r \<in> set (ec_rows c)" for r
    using that by (auto simp: rows checklist_row_def Let_def list_ex_iff filter_empty_conv split: if_splits)
  then show "\<forall>r\<in>set (ec_rows c).
        cr_documentIds r = map pe_documentId (filter (\<lambda>p. pe_evidenceType p = cr_evidenceType r) present) \<and>
        (cr_status r = Have \<longleftrightarrow> (\<exists>p\<in>set present. pe_evidenceType p = cr_evidenceType r \<and> pe_strength p = Have_It)) \<and>
        (cr_status r = Missing \<longleftrightarrow> cr_documentIds r = [])" by blast
  have "ec_missingRequired c = 0 \<longleftrightarrow> (\<forall>r\<in>set (ec_rows c). cr_required r \<longrightarrow> cr_status r = Have)"
    by (auto simp: n filter_empty_conv)
  then show "ec_missingRequired c = 0 \<longleftrightarrow> (\<forall>r\<in>set (ec_rows c). cr_required r \<longrightarrow>
        (\<exists>p\<in>set present. pe_evidenceType p = cr_evidenceType r \<and> pe_strength p = Have_It))"
    using row(2) by simp
qed

lemma checklist_decided_witness:
  "\<exists>c. evidenceChecklist Tax_Adjustment ''2025-03-01''
      [\<lparr>pe_documentId = ''d'', pe_evidenceType = Ev_Invoice, pe_strength = Possible_Only\<rparr>] = Inr c \<and>
    ec_missingRequired c = 1 \<and> map cr_status (ec_rows c) = [Possible] \<and> distinct (map cr_evidenceType (ec_rows c))"
  (is "\<exists>c. ?c = Inr c \<and> _")
proof -
  have d: "iso_shape ''2025-03-01'' \<and> utc_midnight ''2025-03-01'' \<noteq> None \<and> ''2000-01-01'' \<le> ''2025-03-01''"
    by code_simp
  obtain c where c: "?c = Inr c"
    using conjunct1 [OF checklist_decided [of Tax_Adjustment "''2025-03-01''"
      "[\<lparr>pe_documentId = ''d'', pe_evidenceType = Ev_Invoice, pe_strength = Possible_Only\<rparr>]"]] d by blast
  have "case ?c of Inr c \<Rightarrow> ec_missingRequired c = 1 \<and> map cr_status (ec_rows c) = [Possible] | Inl _ \<Rightarrow> False"
    by code_simp
  moreover have "distinct (map cr_evidenceType (ec_rows c))" using checklist_decided c by blast
  ultimately show ?thesis using c by simp
qed

end
