(* ===== verification/Payer_Terms.thy ===== *)
theory Payer_Terms
  imports Identity Json
begin

text \<open>
  What the payer's own documents say of a case's reason: \<open>packages/core-domain/src/payer-terms.ts\<close>.
  The lines of linked notices and remittances that carry the case's amount may agree, say nothing,
  or differ; only agreement is an answer. The lemmas decide the three and say what a letter prints.
\<close>

section \<open>Lines and terms\<close>

datatype PayerTermsDocType = Deduction_Notice | Remittance_Advice

text \<open>A field that is \<open>boolean | null\<close> is a \<^typ>\<open>bool option\<close>; one that may also be absent, an option of it.\<close>

record PayerTerms =
  pt_reasonCode :: "string option"
  pt_deductionReference :: "string option"
  pt_documentId :: string
  pt_fieldPath :: string
  pt_quoteVerified :: "bool option"
  pt_reasonCodeVerified :: "bool option option"
  pt_deductionReferenceVerified :: "bool option option"

datatype PayerTermsAnswer = Own | Derived PayerTerms | No_Terms | Conflicting "PayerTerms list"

record PayerTermsLine =
  pl_documentId :: string
  pl_docType :: PayerTermsDocType
  pl_index :: int
  pl_reasonCode :: "string option"
  pl_deductionReference :: "string option"
  pl_amountCents :: "int option"
  pl_invoiceNumber :: "string option"
  pl_quoteVerified :: "bool option"
  pl_reasonCodeVerified :: "bool option option"
  pl_deductionReferenceVerified :: "bool option option"

definition or_null :: "bool option option \<Rightarrow> bool option" where
  "or_null v = (case v of None \<Rightarrow> None | Some b \<Rightarrow> b)"

definition termsOf :: "PayerTermsLine \<Rightarrow> PayerTerms option" where
  "termsOf line =
     (let reference = (if pl_docType line = Deduction_Notice then pl_deductionReference line else None) in
      if pl_reasonCode line = None \<and> reference = None then None
      else Some \<lparr>pt_reasonCode = pl_reasonCode line, pt_deductionReference = reference,
        pt_documentId = pl_documentId line,
        pt_fieldPath = ''lines['' @ int_text (pl_index line) @ ''].'' @
          (if pl_reasonCode line = None then ''deduction_reference'' else ''reason_code''),
        pt_quoteVerified = pl_quoteVerified line,
        pt_reasonCodeVerified = (if pl_reasonCode line = None then None else Some (or_null (pl_reasonCodeVerified line))),
        pt_deductionReferenceVerified =
          (if reference = None then None else Some (or_null (pl_deductionReferenceVerified line)))\<rparr>)"

section \<open>The answer\<close>

definition compare_lines :: "PayerTermsLine \<Rightarrow> PayerTermsLine \<Rightarrow> int" where
  "compare_lines a b = (if pl_documentId a < pl_documentId b then -1 else if pl_documentId a > pl_documentId b then 1
     else pl_index a - pl_index b)"

definition qualifies :: "int \<Rightarrow> string list \<Rightarrow> PayerTermsLine \<Rightarrow> bool" where
  "qualifies amountCents keys line \<longleftrightarrow>
     \<not> (pl_amountCents line = None \<or> pl_amountCents line \<noteq> Some amountCents) \<and>
     \<not> (pl_docType line = Remittance_Advice \<and>
        (case pl_invoiceNumber line of None \<Rightarrow> True | Some n \<Rightarrow> identifierMatchKey n \<notin> set keys))"

text \<open>What two lines have in common when they say the same: the text \<open>JSON.stringify\<close> makes of both fields.\<close>

definition statement_key :: "PayerTerms \<Rightarrow> string" where
  "statement_key t = json_text (JArr [null_or_text (pt_reasonCode t), null_or_text (pt_deductionReference t)])"

definition qualifying_terms :: "int \<Rightarrow> string list \<Rightarrow> PayerTermsLine list \<Rightarrow> PayerTerms list" where
  "qualifying_terms amountCents invoiceKeys lines =
     concat (map (\<lambda>l. case termsOf l of None \<Rightarrow> [] | Some t \<Rightarrow> [t])
       (filter (qualifies amountCents invoiceKeys) (sort_by compare_lines lines)))"

definition payerTermsFor :: "int \<Rightarrow> string list \<Rightarrow> PayerTermsLine list \<Rightarrow> PayerTermsAnswer" where
  "payerTermsFor amountCents invoiceKeys lines =
     (let qualifying = qualifying_terms amountCents invoiceKeys lines;
          distinct_terms = first_by statement_key qualifying
      in if length qualifying = 0 then No_Terms
         else if length distinct_terms = 1 then Derived (hd qualifying)
         else Conflicting distinct_terms)"

text \<open>The payer's reason code and reference a letter may print.\<close>

definition letterPayerTerms :: "PayerTermsAnswer \<Rightarrow> string option \<times> string option" where
  "letterPayerTerms answer = (case answer of
     Derived t \<Rightarrow>
       (if pt_reasonCode t \<noteq> None \<and> pt_reasonCodeVerified t = Some (Some True) then pt_reasonCode t else None,
        if pt_deductionReference t \<noteq> None \<and> pt_deductionReferenceVerified t = Some (Some True)
        then pt_deductionReference t else None)
   | _ \<Rightarrow> (None, None))"

section \<open>What the lines say\<close>

definition statement :: "PayerTerms \<Rightarrow> string option \<times> string option" where
  "statement t = (pt_reasonCode t, pt_deductionReference t)"

definition spoken :: "int \<Rightarrow> string list \<Rightarrow> PayerTermsLine list \<Rightarrow> PayerTerms set" where
  "spoken amountCents invoiceKeys lines =
     {t. \<exists>l\<in>set lines. qualifies amountCents invoiceKeys l \<and> termsOf l = Some t}"

lemma statement_key_eq [simp]: "statement_key s = statement_key t \<longleftrightarrow> statement s = statement t"
  by (simp add: statement_key_def statement_def json_text_inj del: emit.simps)

lemma set_qualifying [simp]: "set (qualifying_terms a ks lines) = spoken a ks lines"
  by (auto simp: qualifying_terms_def spoken_def split: option.splits)

lemma statements_first_by: "distinct (map statement (first_by statement_key ts))"
    "statement ` set (first_by statement_key ts) = statement ` set ts"
proof -
  have "distinct (map statement_key (first_by statement_key ts))" by simp
  then show "distinct (map statement (first_by statement_key ts))"
    by (auto simp: distinct_map inj_on_def)
  show "statement ` set (first_by statement_key ts) = statement ` set ts"
  proof
    show "statement ` set (first_by statement_key ts) \<subseteq> statement ` set ts"
      by (rule image_mono) (rule first_by_subset)
    show "statement ` set ts \<subseteq> statement ` set (first_by statement_key ts)"
    proof
      fix s assume "s \<in> statement ` set ts"
      then obtain t where t: "s = statement t" "statement_key t \<in> statement_key ` set ts" by blast
      then obtain u where "u \<in> set (first_by statement_key ts)" "statement_key t = statement_key u"
        unfolding key_first_by [of statement_key ts, symmetric] by blast
      with t show "s \<in> statement ` set (first_by statement_key ts)" by auto
    qed
  qed
qed

lemma termsOf_letter:
  "termsOf l = Some t \<Longrightarrow> pt_reasonCode t = pl_reasonCode l \<and>
    (pt_reasonCodeVerified t = Some (Some True) \<longrightarrow> pl_reasonCodeVerified l = Some (Some True)) \<and>
    (pt_deductionReference t \<noteq> None \<longrightarrow> pl_docType l = Deduction_Notice \<and> pt_deductionReference t = pl_deductionReference l \<and>
      (pt_deductionReferenceVerified t = Some (Some True) \<longrightarrow> pl_deductionReferenceVerified l = Some (Some True)))"
  by (auto simp: termsOf_def Let_def or_null_def split: if_splits option.splits)

section \<open>Properties\<close>

text \<open>C33: The answer is decided by what the qualifying lines say: nothing said is no terms, one thing said is
  derived from a line that says it, two are a conflict that lists each once. A letter prints a code
  or a reference only when no qualifying line says anything else and the line it comes from carries
  the case's amount and has that very field verified on its page.\<close>

theorem payer_terms_decided:
  fixes amount ks lines
  defines "said \<equiv> statement ` spoken amount ks lines"
    and "answer \<equiv> payerTermsFor amount ks lines"
  shows "(answer = No_Terms \<longleftrightarrow> said = {}) \<and>
    (\<forall>t. answer = Derived t \<longrightarrow> t \<in> spoken amount ks lines \<and> said = {statement t}) \<and>
    (\<forall>ts. answer = Conflicting ts \<longrightarrow> set ts \<subseteq> spoken amount ks lines \<and> distinct (map statement ts) \<and>
       statement ` set ts = said \<and> 2 \<le> card said) \<and> answer \<noteq> Own \<and>
    (\<forall>c r. letterPayerTerms answer = (c, r) \<longrightarrow>
       (c \<noteq> None \<longrightarrow> (\<exists>l\<in>set lines. pl_amountCents l = Some amount \<and> pl_reasonCode l = c \<and>
          pl_reasonCodeVerified l = Some (Some True)) \<and> (\<forall>s\<in>said. fst s = c)) \<and>
       (r \<noteq> None \<longrightarrow> (\<exists>l\<in>set lines. pl_amountCents l = Some amount \<and> pl_docType l = Deduction_Notice \<and>
          pl_deductionReference l = r \<and> pl_deductionReferenceVerified l = Some (Some True)) \<and> (\<forall>s\<in>said. snd s = r)))"
proof -
  define q where "q = qualifying_terms amount ks lines"
  define d where "d = first_by statement_key q"
  have set_q: "set q = spoken amount ks lines" by (simp add: q_def)
  have said: "said = statement ` set d" and dist: "distinct (map statement d)"
    unfolding said_def d_def by (simp_all add: statements_first_by set_q [symmetric])
  have card: "card said = length d" using distinct_card [OF dist] by (simp add: said)
  have answer: "answer = (if q = [] then No_Terms else if length d = 1 then Derived (hd q) else Conflicting d)"
    by (simp add: answer_def payerTermsFor_def Let_def q_def d_def)
  have one: "said = {statement t}" if "length d = 1" "t \<in> set q" for t
  proof -
    have "statement t \<in> said" using that(2) by (simp add: said_def set_q)
    with card that(1) show ?thesis by (metis card_1_singletonE singletonD)
  qed
  have empty: "answer = No_Terms \<longleftrightarrow> said = {}"
    using answer set_q by (auto simp: said_def)
  have derived: "t \<in> spoken amount ks lines \<and> said = {statement t}" if "answer = Derived t" for t
  proof -
    have "t = hd q" "q \<noteq> []" "length d = 1" using that answer by (auto split: if_splits)
    then have "t \<in> set q" by simp
    with one [OF \<open>length d = 1\<close>] set_q show ?thesis by blast
  qed
  have sub: "set d \<subseteq> spoken amount ks lines" unfolding set_q [symmetric] d_def by (rule first_by_subset)
  have conflict: "set ts \<subseteq> spoken amount ks lines \<and> distinct (map statement ts) \<and> statement ` set ts = said \<and> 2 \<le> card said"
    if "answer = Conflicting ts" for ts
  proof -
    have ts: "ts = d" "length d \<noteq> 1" "q \<noteq> []" using that answer by (auto split: if_splits)
    then have "d \<noteq> []" using said said_def set_q by auto
    then have "2 \<le> length d" using ts(2) by (cases d; cases "tl d") auto
    then show ?thesis using ts sub dist said card by simp
  qed
  have letter: "(c \<noteq> None \<longrightarrow> (\<exists>l\<in>set lines. pl_amountCents l = Some amount \<and> pl_reasonCode l = c \<and>
          pl_reasonCodeVerified l = Some (Some True)) \<and> (\<forall>s\<in>said. fst s = c)) \<and>
       (r \<noteq> None \<longrightarrow> (\<exists>l\<in>set lines. pl_amountCents l = Some amount \<and> pl_docType l = Deduction_Notice \<and>
          pl_deductionReference l = r \<and> pl_deductionReferenceVerified l = Some (Some True)) \<and> (\<forall>s\<in>said. snd s = r))"
    if l: "letterPayerTerms answer = (c, r)" for c r
  proof (cases answer)
    case (Derived t)
    then obtain l where line: "l \<in> set lines" "qualifies amount ks l" "termsOf l = Some t"
      using derived [of t] by (auto simp: spoken_def)
    have amount: "pl_amountCents l = Some amount" using line(2) by (auto simp: qualifies_def)
    have "said = {statement t}" using derived Derived by blast
    then show ?thesis using l Derived line(1) amount termsOf_letter [OF line(3)]
      by (auto simp: letterPayerTerms_def statement_def split: if_splits intro!: bexI [of _ l])
  qed (use l in \<open>simp_all add: letterPayerTerms_def\<close>)
  show ?thesis using empty derived conflict letter answer by auto
qed

definition sample_line :: "string \<Rightarrow> bool \<Rightarrow> PayerTermsLine" where
  "sample_line code verified = \<lparr>pl_documentId = ''d'', pl_docType = Deduction_Notice, pl_index = 0, pl_reasonCode = Some code,
     pl_deductionReference = Some ''R1'', pl_amountCents = Some 500, pl_invoiceNumber = None, pl_quoteVerified = None,
     pl_reasonCodeVerified = Some (Some verified), pl_deductionReferenceVerified = None\<rparr>"

lemma payer_terms_decided_witness:
  "letterPayerTerms (payerTermsFor 500 [] [sample_line ''A1'' True]) = (Some ''A1'', None) \<and>
   statement ` spoken 500 [] [sample_line ''A1'' True] \<noteq> {} \<and>
   fst ` statement ` spoken 500 [] [sample_line ''A1'' True] = {Some ''A1''}"
proof -
  have l: "letterPayerTerms (payerTermsFor 500 [] [sample_line ''A1'' True]) = (Some ''A1'', None)"
    "payerTermsFor 500 [] [sample_line ''A1'' True] \<noteq> No_Terms" by code_simp+
  note decided = payer_terms_decided [of 500 "[]" "[sample_line ''A1'' True]"]
  have ne: "statement ` spoken 500 [] [sample_line ''A1'' True] \<noteq> {}" using l(2) decided by metis
  have "\<forall>s\<in>statement ` spoken 500 [] [sample_line ''A1'' True]. fst s = Some ''A1''"
    using decided [THEN conjunct2, THEN conjunct2, THEN conjunct2, THEN conjunct2, rule_format, OF l(1)] by simp
  then show ?thesis using l(1) ne by force
qed

end
