(* ===== verification/Retailer_Board.thy ===== *)
theory Retailer_Board
  imports Retailers Money
begin

text \<open>
  The case list's board: \<open>packages/core-domain/src/retailer-board.ts\<close>. The database's rows are folded
  into one group per payer and put in order; every figure is a sum. The lemmas show that folding
  neither loses nor counts a row twice and that the figures above the groups are those of the rows.
\<close>

section \<open>Figures\<close>

definition RETAILER_BOARD_CASES_PER_GROUP :: js_number where "RETAILER_BOARD_CASES_PER_GROUP = Whole 8"

datatype PayerGroupKind = Matched | Unmatched | Unknown_Payer

record PayerTotals =
  pt_openCases :: js_number
  pt_closedCases :: js_number
  pt_declinedCases :: js_number
  pt_awaitingApprovalCases :: js_number
  pt_inDisputeCents :: js_number
  pt_recoveredCents :: js_number
  pt_recoveredUnrecordedCases :: js_number
  pt_declinedCents :: js_number
  pt_atRiskCases :: js_number
  pt_atRiskCents :: js_number
  pt_oldestOpenDays :: "js_number option"
  pt_listableCases :: js_number

record 'c PlacedCase =
  pc_position :: int
  pc_case :: 'c

record 'c RawPayerGroup =
  rg_debtor :: "(string \<times> string) option"
  rg_printedName :: "string option"
  rg_caseCount :: int
  rg_totals :: PayerTotals
  rg_cases :: "'c PlacedCase list"

record 'c PayerGroup =
  pg_kind :: PayerGroupKind
  pg_key :: string
  pg_name :: "string option"
  pg_debtorId :: "string option"
  pg_printedNames :: "string list"
  pg_totals :: PayerTotals
  pg_cases :: "'c list"
  pg_moreCases :: int

text \<open>The integer of a whole number; the sums below only give whole ones.\<close>

fun whole :: "js_number \<Rightarrow> int" where
  "whole (Whole v) = v"
| "whole NotWhole = 0"

text \<open>
  The counts' loop adds doubles and tests the total once: non-negative safe integers whose exact sum
  leaves the safe range have a rounded sum that does too, so the exact sum is the model.
\<close>

fun count_value :: "js_number \<Rightarrow> int res" where
  "count_value (Whole v) = (if \<not> safe_int v \<or> v < 0
     then Inl (RetailerBoardError ''a count is a non-negative integer'') else Inr v)"
| "count_value NotWhole = Inl (RetailerBoardError ''a count is a non-negative integer'')"

definition count :: "js_number list \<Rightarrow> js_number res" where
  "count values = bind_res (map_res count_value values) (\<lambda>vs.
     if \<not> safe_int (sum_list vs) then Inl (RetailerBoardError ''a count overflowed'') else Inr (Whole (sum_list vs)))"

definition board_money :: "js_number list \<Rightarrow> js_number res" where
  "board_money values = bind_res (map_res cents values) (\<lambda>vs. bind_res (sumCents vs) (\<lambda>s. Inr (Whole s)))"

fun whole_days :: "js_number \<Rightarrow> int res" where
  "whole_days (Whole v) = (if safe_int v then Inr v else Inl (RetailerBoardError ''an age is whole days''))"
| "whole_days NotWhole = Inl (RetailerBoardError ''an age is whole days'')"

definition given :: "'a option list \<Rightarrow> 'a list" where
  "given xs = concat (map (\<lambda>x. case x of None \<Rightarrow> [] | Some v \<Rightarrow> [v]) xs)"

definition addTotals :: "PayerTotals list \<Rightarrow> PayerTotals res" where
  "addTotals rows =
     bind_res (map_res whole_days (given (map pt_oldestOpenDays rows))) (\<lambda>ages.
     bind_res (count (map pt_openCases rows)) (\<lambda>openCases.
     bind_res (count (map pt_closedCases rows)) (\<lambda>closedCases.
     bind_res (count (map pt_declinedCases rows)) (\<lambda>declinedCases.
     bind_res (count (map pt_awaitingApprovalCases rows)) (\<lambda>awaitingApprovalCases.
     bind_res (board_money (map pt_inDisputeCents rows)) (\<lambda>inDisputeCents.
     bind_res (board_money (map pt_recoveredCents rows)) (\<lambda>recoveredCents.
     bind_res (count (map pt_recoveredUnrecordedCases rows)) (\<lambda>recoveredUnrecordedCases.
     bind_res (board_money (map pt_declinedCents rows)) (\<lambda>declinedCents.
     bind_res (count (map pt_atRiskCases rows)) (\<lambda>atRiskCases.
     bind_res (board_money (map pt_atRiskCents rows)) (\<lambda>atRiskCents.
     bind_res (count (map pt_listableCases rows)) (\<lambda>listableCases.
       Inr \<lparr>pt_openCases = openCases, pt_closedCases = closedCases, pt_declinedCases = declinedCases,
         pt_awaitingApprovalCases = awaitingApprovalCases, pt_inDisputeCents = inDisputeCents,
         pt_recoveredCents = recoveredCents, pt_recoveredUnrecordedCases = recoveredUnrecordedCases,
         pt_declinedCents = declinedCents, pt_atRiskCases = atRiskCases, pt_atRiskCents = atRiskCents,
         pt_oldestOpenDays = (if ages = [] then None else Some (Whole (Max (set ages)))),
         pt_listableCases = listableCases\<rparr>))))))))))))"

section \<open>Groups\<close>

definition groupKey :: "'c RawPayerGroup \<Rightarrow> PayerGroupKind \<times> string" where
  "groupKey raw = (case rg_debtor raw of
     Some (debtorId, _) \<Rightarrow> (Matched, ''debtor:'' @ debtorId)
   | None \<Rightarrow> (case rg_printedName raw of
       None \<Rightarrow> (Unknown_Payer, ''unknown'')
     | Some name \<Rightarrow> (Unmatched, if retailerMatchKey name = [] then ''printed-exact:'' @ name
         else ''printed:'' @ retailerMatchKey name)))"

fun KIND_ORDER :: "PayerGroupKind \<Rightarrow> int" where
  "KIND_ORDER Matched = 0"
| "KIND_ORDER Unmatched = 1"
| "KIND_ORDER Unknown_Payer = 2"

type_synonym 'c gathered = "(string \<times> PayerGroupKind \<times> 'c RawPayerGroup list) list"

definition gather :: "'c gathered \<Rightarrow> 'c RawPayerGroup \<Rightarrow> 'c gathered res" where
  "gather m row = (case groupKey row of (kind, key) \<Rightarrow>
     (case map_of m key of
        None \<Rightarrow> Inr (m @ [(key, kind, [row])])
      | Some (k, rows) \<Rightarrow>
          if kind = Unmatched then Inr (AList.update key (k, rows @ [row]) m)
          else Inl (RetailerBoardError ''two rows for one payer group'')))"

definition or_empty :: "string option \<Rightarrow> string" where
  "or_empty s = (case s of None \<Rightarrow> [] | Some t \<Rightarrow> t)"

definition compare_spellings :: "'c RawPayerGroup \<Rightarrow> 'c RawPayerGroup \<Rightarrow> int" where
  "compare_spellings a b = or_else (rg_caseCount b - rg_caseCount a)
     (compare_text (or_empty (rg_printedName a)) (or_empty (rg_printedName b)))"

definition payer_group :: "nat \<Rightarrow> string \<times> PayerGroupKind \<times> 'c RawPayerGroup list \<Rightarrow> 'c PayerGroup res" where
  "payer_group casesPerGroup g = (case g of (key, kind, members) \<Rightarrow>
     let spellings = sort_by compare_spellings members;
         name = (case rg_debtor (hd spellings) of Some (_, n) \<Rightarrow> Some n | None \<Rightarrow> rg_printedName (hd spellings))
     in bind_res (addTotals (map rg_totals members)) (\<lambda>totals.
          let placed = sort_by (\<lambda>a b. pc_position a - pc_position b) (concat (map rg_cases members));
              cases = map pc_case (take casesPerGroup placed)
          in Inr \<lparr>pg_kind = kind, pg_key = key, pg_name = name,
               pg_debtorId = map_option fst (rg_debtor (hd spellings)),
               pg_printedNames = (if kind = Unmatched then map (or_empty \<circ> rg_printedName) spellings else []),
               pg_totals = totals, pg_cases = cases,
               pg_moreCases = max 0 (whole (pt_listableCases totals) - int (length cases))\<rparr>))"

definition compare_groups :: "'c PayerGroup \<Rightarrow> 'c PayerGroup \<Rightarrow> int" where
  "compare_groups a b =
     or_else (KIND_ORDER (pg_kind a) - KIND_ORDER (pg_kind b))
    (or_else (whole (pt_inDisputeCents (pg_totals b)) - whole (pt_inDisputeCents (pg_totals a)))
    (or_else (compare_text (or_empty (pg_name a)) (or_empty (pg_name b)))
      (compare_text (pg_key a) (pg_key b))))"

definition foldRetailerBoard :: "'c RawPayerGroup list \<Rightarrow> js_number \<Rightarrow> 'c PayerGroup list res" where
  "foldRetailerBoard rows casesPerGroup =
     (if casesPerGroup = NotWhole \<or> whole casesPerGroup < 0
      then Inl (RetailerBoardError ''a board lists a whole number of cases per payer'')
      else bind_res (fold_res gather [] rows) (\<lambda>gathered.
        bind_res (map_res (payer_group (nat (whole casesPerGroup))) gathered) (\<lambda>groups.
          Inr (sort_by compare_groups groups))))"

definition retailerBoardTotals :: "'c PayerGroup list \<Rightarrow> PayerTotals res" where
  "retailerBoardTotals groups = addTotals (map pg_totals groups)"

section \<open>Sums\<close>

definition figures :: "(PayerTotals \<Rightarrow> js_number) list" where
  "figures = [pt_openCases, pt_closedCases, pt_declinedCases, pt_awaitingApprovalCases, pt_inDisputeCents,
     pt_recoveredCents, pt_recoveredUnrecordedCases, pt_declinedCents, pt_atRiskCases, pt_atRiskCents, pt_listableCases]"

lemma list_all2_whole:
  "list_all2 (\<lambda>x y. f x = Inr y) xs ys \<Longrightarrow> (\<And>x y. f x = Inr y \<Longrightarrow> x = Whole y) \<Longrightarrow> ys = map whole xs"
  by (induction xs ys rule: list_all2_induct) (auto, metis whole.simps(1))

lemma count_Inr: "count vs = Inr v \<Longrightarrow> v = Whole (sum_list (map whole vs))"
proof -
  have "count_value x = Inr y \<Longrightarrow> x = Whole y" for x y by (cases x) (auto split: if_splits)
  then show "count vs = Inr v \<Longrightarrow> v = Whole (sum_list (map whole vs))"
    by (auto simp: count_def bind_res_Inr_iff map_res_Inr_iff dest!: list_all2_whole split: if_splits)
qed

lemma board_money_Inr: "board_money vs = Inr v \<Longrightarrow> v = Whole (sum_list (map whole vs))"
proof -
  have "cents x = Inr y \<Longrightarrow> x = Whole y" for x y by (cases x) (auto split: if_splits)
  then show "board_money vs = Inr v \<Longrightarrow> v = Whole (sum_list (map whole vs))"
    by (auto simp: board_money_def bind_res_Inr_iff map_res_Inr_iff sumCents_def
        dest!: list_all2_whole cents.sum_exact)
qed

lemma addTotals_sums:
  assumes "addTotals rows = Inr t" "f \<in> set figures"
  shows "whole (f t) = (\<Sum>r\<leftarrow>rows. whole (f r))"
  using assms(1) assms(2)
  by (auto simp: addTotals_def bind_res_Inr_iff figures_def comp_def dest!: count_Inr board_money_Inr)

section \<open>Gathering\<close>

lemma groupKey_kind: "groupKey a = (k, key) \<Longrightarrow> groupKey b = (k', key) \<Longrightarrow> k = k'"
  by (auto simp: groupKey_def split: option.splits if_splits)

lemma set_update_at:
  "distinct (map fst m) \<Longrightarrow> map_of m key = Some v \<Longrightarrow>
    set (AList.update key w m) = insert (key, w) (set m - {(key, v)})"
  by (induction m) (auto simp: image_iff split: if_splits)

lemma mset_update_at:
  "distinct (map fst m) \<Longrightarrow> map_of m key = Some (k, rows) \<Longrightarrow>
    mset (concat (map (snd \<circ> snd) (AList.update key (k, rows @ [row]) m))) =
    add_mset row (mset (concat (map (snd \<circ> snd) m)))"
  by (induction m) auto

text \<open>What the loop has gathered from the rows so far.\<close>

definition gathered_from :: "'c RawPayerGroup list \<Rightarrow> 'c gathered \<Rightarrow> bool" where
  "gathered_from rows m \<longleftrightarrow> distinct (map fst m) \<and> fst ` set m = (snd \<circ> groupKey) ` set rows \<and>
     mset (concat (map (snd \<circ> snd) m)) = mset rows \<and>
     (\<forall>key kind rs. (key, kind, rs) \<in> set m \<longrightarrow> rs \<noteq> [] \<and> rs = filter (\<lambda>r. groupKey r = (kind, key)) rows \<and>
        (kind \<noteq> Unmatched \<longrightarrow> length rs = 1))"

lemma gather_step:
  assumes "gathered_from rows m" "gather m row = Inr m'"
  shows "gathered_from (rows @ [row]) m'"
proof -
  obtain kind key where key: "groupKey row = (kind, key)" by (metis surj_pair)
  have m: "distinct (map fst m)" "fst ` set m = (snd \<circ> groupKey) ` set rows"
    "mset (concat (map (snd \<circ> snd) m)) = mset rows"
    "\<And>k kd rs. (k, kd, rs) \<in> set m \<Longrightarrow> rs \<noteq> [] \<and> rs = filter (\<lambda>r. groupKey r = (kd, k)) rows \<and> (kd \<noteq> Unmatched \<longrightarrow> length rs = 1)"
    using assms(1) by (simp_all add: gathered_from_def)
  show ?thesis
  proof (cases "map_of m key")
    case None
    then have m': "m' = m @ [(key, kind, [row])]" using assms(2) key by (simp add: gather_def)
    have new: "key \<notin> fst ` set m" using None by (simp add: map_of_eq_None_iff)
    then have "groupKey r \<noteq> (kind, key)" if "r \<in> set rows" for r
      using that m(2) by force
    then have "filter (\<lambda>r. groupKey r = (kind, key)) rows = []" by (simp add: filter_empty_conv)
    then show ?thesis using m new key unfolding m' gathered_from_def by (auto simp: image_iff)
  next
    case (Some v)
    obtain k rs where v: "v = (k, rs)" by (cases v)
    have at: "(key, k, rs) \<in> set m" using map_of_SomeD [OF Some] v by simp
    have same: "k = kind"
    proof -
      have rs: "rs \<noteq> []" "rs = filter (\<lambda>r. groupKey r = (k, key)) rows" using m(4) [OF at] by blast+
      have "hd rs \<in> {r \<in> set rows. groupKey r = (k, key)}"
        using hd_in_set [OF rs(1)] unfolding set_filter [symmetric] rs(2) [symmetric] .
      then have "groupKey (hd rs) = (k, key)" by simp
      then show ?thesis using key groupKey_kind by blast
    qed
    have kind: "kind = Unmatched" and m': "m' = AList.update key (k, rs @ [row]) m"
      using assms(2) key Some v by (auto simp: gather_def split: if_splits)
    have set_m': "set m' = insert (key, k, rs @ [row]) (set m - {(key, k, rs)})"
      unfolding m' by (rule set_update_at) (use m(1) Some v in simp_all)
    have other: "kd = k \<longrightarrow> ky \<noteq> key" if "(ky, kd, xs) \<in> set m - {(key, k, rs)}" for ky kd xs
      using that at eq_key_imp_eq_value [OF m(1)] by blast
    have in_keys: "key \<in> fst ` set m" using at by force
    have "fst ` set m' = fst ` set m" unfolding m' by (simp add: dom_map_of_conv_image_fst [symmetric] update_conv' insert_absorb Some domIff)
    moreover have "(snd \<circ> groupKey) ` set (rows @ [row]) = (snd \<circ> groupKey) ` set rows"
      using key in_keys m(2) by (auto simp: insert_absorb)
    moreover have "mset (concat (map (snd \<circ> snd) m')) = mset (rows @ [row])"
      unfolding m' using mset_update_at [OF m(1), of key k rs row] Some v m(3) by simp
    moreover have "distinct (map fst m')" unfolding m' using m(1) by (rule distinct_update)
    moreover have "xs \<noteq> [] \<and> xs = filter (\<lambda>r. groupKey r = (kd, ky)) (rows @ [row]) \<and> (kd \<noteq> Unmatched \<longrightarrow> length xs = 1)"
      if "(ky, kd, xs) \<in> set m'" for ky kd xs
    proof (cases "(ky, kd, xs) = (key, k, rs @ [row])")
      case True
      have "rs = filter (\<lambda>r. groupKey r = (k, key)) rows" using m(4) [OF at] by blast
      then have "filter (\<lambda>r. groupKey r = (k, key)) (rows @ [row]) = rs @ [row]" using key same by simp
      then show ?thesis using True same kind by simp
    next
      case False
      then have old: "(ky, kd, xs) \<in> set m - {(key, k, rs)}" using that unfolding set_m' by blast
      then have same_rows: "filter (\<lambda>r. groupKey r = (kd, ky)) (rows @ [row]) = filter (\<lambda>r. groupKey r = (kd, ky)) rows"
        using other [OF old] key same by auto
      show ?thesis unfolding same_rows by (rule m(4)) (use old in blast)
    qed
    ultimately show ?thesis unfolding gathered_from_def using m(2) by simp
  qed
qed

lemma gather_all: "fold_res gather [] rows = Inr m \<Longrightarrow> gathered_from rows m"
proof (induction rows arbitrary: m rule: rev_induct)
  case Nil
  then show ?case by (simp add: gathered_from_def)
next
  case (snoc row rows)
  then show ?case by (auto simp: fold_res_append bind_res_Inr_iff intro: gather_step)
qed

section \<open>The board\<close>

lemma list_all2_source: "list_all2 P xs ys \<Longrightarrow> y \<in> set ys \<Longrightarrow> \<exists>x\<in>set xs. P x y"
  by (induction xs ys rule: list_all2_induct) auto

lemma payer_group_Inr:
  "payer_group n (key, kind, members) = Inr g \<Longrightarrow> pg_key g = key \<and> pg_kind g = kind \<and>
    addTotals (map rg_totals members) = Inr (pg_totals g) \<and> length (pg_cases g) \<le> n \<and>
    pg_moreCases g = max 0 (whole (pt_listableCases (pg_totals g)) - int (length (pg_cases g)))"
  by (auto simp: payer_group_def Let_def bind_res_Inr_iff)

lemma sum_by_mset: "mset xs = mset ys \<Longrightarrow> (\<Sum>x\<leftarrow>xs. f x) = (\<Sum>x\<leftarrow>ys. (f x :: int))"
  by (metis mset_map sum_mset_sum_list)

lemma groups_sum:
  assumes "list_all2 (\<lambda>x g. payer_group n x = Inr g) m gs" "f \<in> set figures"
  shows "(\<Sum>g\<leftarrow>gs. whole (f (pg_totals g))) = (\<Sum>r\<leftarrow>concat (map (snd \<circ> snd) m). whole (f (rg_totals r)))"
  using assms(1)
proof (induction m gs rule: list_all2_induct)
  case Nil
  then show ?case by simp
next
  case (Cons x m g gs)
  obtain key kind members where x: "x = (key, kind, members)" by (metis prod_cases3)
  have "addTotals (map rg_totals members) = Inr (pg_totals g)" using Cons(1) payer_group_Inr unfolding x by blast
  then have "whole (f (pg_totals g)) = (\<Sum>r\<leftarrow>members. whole (f (rg_totals r)))"
    using addTotals_sums [OF _ assms(2)] by (fastforce simp: comp_def)
  then show ?case using Cons x by simp
qed

section \<open>Properties\<close>

text \<open>The board has one group per payer its rows name, each figure of a group is the sum over exactly that
  payer's rows, a debtor or the nameless is one row only, and each figure above the groups is the sum
  over all the rows: folding spellings neither loses money nor counts it twice. A group lists at most
  the number of cases asked for and counts the rest.\<close>

theorem board_conserves:
  assumes "foldRetailerBoard rows (Whole n) = Inr groups"
  shows "distinct (map pg_key groups) \<and> pg_key ` set groups = (snd \<circ> groupKey) ` set rows \<and>
    (\<forall>g\<in>set groups. let own = filter (\<lambda>r. groupKey r = (pg_kind g, pg_key g)) rows in
       own \<noteq> [] \<and> (pg_kind g \<noteq> Unmatched \<longrightarrow> length own = 1) \<and>
       (\<forall>f\<in>set figures. whole (f (pg_totals g)) = (\<Sum>r\<leftarrow>own. whole (f (rg_totals r)))) \<and>
       int (length (pg_cases g)) \<le> n \<and>
       pg_moreCases g = max 0 (whole (pt_listableCases (pg_totals g)) - int (length (pg_cases g)))) \<and>
    (\<forall>t. retailerBoardTotals groups = Inr t \<longrightarrow>
       (\<forall>f\<in>set figures. whole (f t) = (\<Sum>r\<leftarrow>rows. whole (f (rg_totals r)))))"
proof -
  obtain m gs where m: "fold_res gather [] rows = Inr m"
    and gs: "list_all2 (\<lambda>x g. payer_group (nat n) x = Inr g) m gs" and groups: "groups = sort_by compare_groups gs"
    and n: "0 \<le> n"
    using assms by (auto simp: foldRetailerBoard_def bind_res_Inr_iff map_res_Inr_iff split: if_splits)
  note g = gather_all [OF m]
  have keys: "map pg_key gs = map fst m"
    using gs by (induction m gs rule: list_all2_induct) (auto dest: payer_group_Inr)
  have "distinct (map pg_key groups)"
    using g keys unfolding groups gathered_from_def
    by (metis distinct_map distinct_sort_by set_sort_by)
  moreover have "pg_key ` set groups = (snd \<circ> groupKey) ` set rows"
    using g keys by (metis gathered_from_def groups list.set_map set_sort_by)
  moreover have "let own = filter (\<lambda>r. groupKey r = (pg_kind h, pg_key h)) rows in
       own \<noteq> [] \<and> (pg_kind h \<noteq> Unmatched \<longrightarrow> length own = 1) \<and>
       (\<forall>f\<in>set figures. whole (f (pg_totals h)) = (\<Sum>r\<leftarrow>own. whole (f (rg_totals r)))) \<and>
       int (length (pg_cases h)) \<le> n \<and>
       pg_moreCases h = max 0 (whole (pt_listableCases (pg_totals h)) - int (length (pg_cases h)))"
    if h: "h \<in> set groups" for h
  proof -
    have "\<exists>x\<in>set m. payer_group (nat n) x = Inr h"
      using h list_all2_source [OF gs] unfolding groups set_sort_by by blast
    then obtain key kind rs where x: "(key, kind, rs) \<in> set m" "payer_group (nat n) (key, kind, rs) = Inr h"
      by (metis prod_cases3)
    note p = payer_group_Inr [OF x(2)]
    have rs: "rs \<noteq> []" "rs = filter (\<lambda>r. groupKey r = (kind, key)) rows" "kind \<noteq> Unmatched \<longrightarrow> length rs = 1"
      using g x(1) unfolding gathered_from_def by blast+
    have "\<forall>f\<in>set figures. whole (f (pg_totals h)) = (\<Sum>r\<leftarrow>rs. whole (f (rg_totals r)))"
      using addTotals_sums p by (fastforce simp: comp_def)
    moreover have "int (length (pg_cases h)) \<le> n" using p n by linarith
    ultimately show ?thesis using p rs by (simp add: Let_def)
  qed
  moreover have "whole (f t) = (\<Sum>r\<leftarrow>rows. whole (f (rg_totals r)))"
    if t: "retailerBoardTotals groups = Inr t" and f: "f \<in> set figures" for t f
  proof -
    have "whole (f t) = (\<Sum>g\<leftarrow>groups. whole (f (pg_totals g)))"
      using addTotals_sums [OF _ f] t by (fastforce simp: retailerBoardTotals_def comp_def)
    also have "\<dots> = (\<Sum>g\<leftarrow>gs. whole (f (pg_totals g)))" by (rule sum_by_mset) (simp add: groups)
    also have "\<dots> = (\<Sum>r\<leftarrow>concat (map (snd \<circ> snd) m). whole (f (rg_totals r)))" by (rule groups_sum [OF gs f])
    also have "\<dots> = (\<Sum>r\<leftarrow>rows. whole (f (rg_totals r)))"
      using g by (intro sum_by_mset) (simp add: gathered_from_def)
    finally show ?thesis .
  qed
  ultimately show ?thesis by blast
qed

definition sample_totals :: "int \<Rightarrow> PayerTotals" where
  "sample_totals d = \<lparr>pt_openCases = Whole 1, pt_closedCases = Whole 0, pt_declinedCases = Whole 0,
     pt_awaitingApprovalCases = Whole 0, pt_inDisputeCents = Whole d, pt_recoveredCents = Whole 0,
     pt_recoveredUnrecordedCases = Whole 0, pt_declinedCents = Whole 0, pt_atRiskCases = Whole 0,
     pt_atRiskCents = Whole 0, pt_oldestOpenDays = Some (Whole 3), pt_listableCases = Whole 1\<rparr>"

definition sample_row :: "string \<Rightarrow> int \<Rightarrow> nat RawPayerGroup" where
  "sample_row name d = \<lparr>rg_debtor = None, rg_printedName = Some name, rg_caseCount = 1, rg_totals = sample_totals d,
     rg_cases = [\<lparr>pc_position = d, pc_case = nat d\<rparr>]\<rparr>"

lemma board_conserves_witness:
  "\<exists>g t. foldRetailerBoard [sample_row ''ACME Inc.'' 7, sample_row ''Acme'' 5] (Whole 8) = Inr [g] \<and>
    retailerBoardTotals [g] = Inr t \<and> pg_moreCases g = 0 \<and> whole (pt_inDisputeCents t) = 12"
proof -
  let ?rows = "[sample_row ''ACME Inc.'' 7, sample_row ''Acme'' 5]"
  have "case foldRetailerBoard ?rows (Whole 8) of
      Inr [g] \<Rightarrow> \<not> isl (retailerBoardTotals [g]) \<and> pg_moreCases g = 0 | _ \<Rightarrow> False"
    by code_simp
  then obtain g where g: "foldRetailerBoard ?rows (Whole 8) = Inr [g]" "\<not> isl (retailerBoardTotals [g])" "pg_moreCases g = 0"
    by (auto split: sum.splits list.splits)
  then obtain t where t: "retailerBoardTotals [g] = Inr t" by (cases "retailerBoardTotals [g]") auto
  have "pt_inDisputeCents \<in> set figures" by (simp add: figures_def)
  then have "whole (pt_inDisputeCents t) = (\<Sum>r\<leftarrow>?rows. whole (pt_inDisputeCents (rg_totals r)))"
    using board_conserves [OF g(1)] t by blast
  then show ?thesis using g t by (simp add: sample_row_def sample_totals_def)
qed

end
