(* ===== verification/Ledger_Extract.thy ===== *)
theory Ledger_Extract
  imports Short_Pay Json
begin

text \<open>
  A short-paid invoice rendered as a document: \<open>packages/core-domain/src/ledger-extract.ts\<close>. The
  candidate and the ledger rows behind it become one canonical JSON text; SHA-256 is a parameter.
  The lemmas show that the text does not depend on the order of the rows, that it determines what
  it was made of, and where the addition of applications in doubles is not exact.
\<close>

section \<open>The extract\<close>

text \<open>The document's text; its bytes are the text's UTF-8 encoding.\<close>

record LedgerExtract =
  le_text :: string
  le_mimeType :: string
  le_filename :: string
  le_sha256 :: string

record ExtractPayment =
  xp_appliedCents :: int
  xp_externalId :: string
  xp_memo :: "string option"
  xp_receivedOn :: string
  xp_reference :: "string option"
  xp_totalCents :: int

record ExtractCredit =
  xc_appliedCents :: int
  xc_externalId :: string
  xc_issuedOn :: string
  xc_memo :: "string option"
  xc_totalCents :: int

definition is_filename_char :: "char \<Rightarrow> bool" where
  "is_filename_char c \<longleftrightarrow> is_letter c \<or> is_digit c \<or> c \<in> {CHR ''.'', CHR ''_'', CHR ''-''}"

text \<open>\<open>replace(/[^A-Za-z0-9._-]+/g, '-')\<close>; the flag says the character before was replaced.\<close>

fun dashed_from :: "bool \<Rightarrow> string \<Rightarrow> string" where
  "dashed_from after [] = []"
| "dashed_from after (c # s) =
     (if is_filename_char c then c # dashed_from False s
      else if after then dashed_from True s else CHR ''-'' # dashed_from True s)"

definition strip_dashes :: "string \<Rightarrow> string" where
  "strip_dashes s = rev (dropWhile (\<lambda>c. c = CHR ''-'') (rev (dropWhile (\<lambda>c. c = CHR ''-'') s)))"

definition extractFilename :: "ShortPayCandidate \<Rightarrow> string" where
  "extractFilename candidate =
     (let safe = strip_dashes (dashed_from False (sc_invoiceNumber candidate))
      in ''ledger-extract-'' @ (if safe = [] then ''invoice'' else safe) @ ''.json'')"

definition exact :: "int \<Rightarrow> string \<Rightarrow> int res" where
  "exact value field = (case cents (Whole value) of
     Inl _ \<Rightarrow> Inl (LedgerExtractError (field @ '' is not integer cents'')) | Inr v \<Rightarrow> Inr v)"

definition appliedTo :: "LedgerApplication list \<Rightarrow> string \<Rightarrow> string \<Rightarrow> int res" where
  "appliedTo applications invoiceExternalId field =
     bind_res (fold_res (\<lambda>total a. if la_invoiceExternalId a \<noteq> invoiceExternalId then Inr total
         else bind_res (exact (la_amountCents a) field) (\<lambda>v. Inr (round_double (total + v)))) 0 applications)
       (\<lambda>total. exact total field)"

definition orNull :: "string option \<Rightarrow> string option" where
  "orNull value = (case value of None \<Rightarrow> None | Some v \<Rightarrow> if v = [] then None else Some v)"

definition names_invoice :: "string \<Rightarrow> LedgerApplication list \<Rightarrow> bool" where
  "names_invoice invoiceId applications \<longleftrightarrow> list_ex (\<lambda>a. la_invoiceExternalId a = invoiceId) applications"

definition extract_payment :: "string \<Rightarrow> LedgerPayment \<Rightarrow> ExtractPayment res" where
  "extract_payment invoiceId p =
     bind_res (appliedTo (lp_appliedTo p) invoiceId (''payment '' @ lp_externalId p)) (\<lambda>applied.
     bind_res (exact (lp_totalCents p) (''payment '' @ lp_externalId p @ '' total'')) (\<lambda>total.
       Inr \<lparr>xp_appliedCents = applied, xp_externalId = lp_externalId p, xp_memo = orNull (lp_memo p),
         xp_receivedOn = lp_receivedOn p, xp_reference = orNull (lp_reference p), xp_totalCents = total\<rparr>))"

definition extract_credit :: "string \<Rightarrow> LedgerCredit \<Rightarrow> ExtractCredit res" where
  "extract_credit invoiceId c =
     bind_res (appliedTo (lc_appliedTo c) invoiceId (''credit '' @ lc_externalId c)) (\<lambda>applied.
     bind_res (exact (lc_totalCents c) (''credit '' @ lc_externalId c @ '' total'')) (\<lambda>total.
       Inr \<lparr>xc_appliedCents = applied, xc_externalId = lc_externalId c, xc_issuedOn = lc_issuedOn c,
         xc_memo = orNull (lc_memo c), xc_totalCents = total\<rparr>))"

definition appliedPayments :: "string \<Rightarrow> LedgerPayment list \<Rightarrow> ExtractPayment list res" where
  "appliedPayments invoiceId payments =
     bind_res (map_res (extract_payment invoiceId) (filter (names_invoice invoiceId \<circ> lp_appliedTo) payments))
       (\<lambda>rows. Inr (sort_by (\<lambda>a b. compare_text (xp_externalId a) (xp_externalId b)) rows))"

definition appliedCredits :: "string \<Rightarrow> LedgerCredit list \<Rightarrow> ExtractCredit list res" where
  "appliedCredits invoiceId credits =
     bind_res (map_res (extract_credit invoiceId) (filter (names_invoice invoiceId \<circ> lc_appliedTo) credits))
       (\<lambda>rows. Inr (sort_by (\<lambda>a b. compare_text (xc_externalId a) (xc_externalId b)) rows))"

primrec source_text :: "AccountingSourceKind \<Rightarrow> string" where
  "source_text Qbo = ''qbo''" | "source_text Netsuite = ''netsuite''" | "source_text Xero = ''xero''"

primrec gap_text :: "GapStatus \<Rightarrow> string" where
  "gap_text Gap_Open = ''open''" | "gap_text Gap_Credited = ''credited''" | "gap_text Gap_Mixed = ''mixed''"

definition candidate_json :: "ShortPayCandidate \<Rightarrow> json" where
  "candidate_json c = JObj [(''appliedCreditsCents'', JInt (sc_appliedCreditsCents c)),
     (''appliedPaymentsCents'', JInt (sc_appliedPaymentsCents c)),
     (''creditMemos'', JArr (map JStr (sc_creditMemos c))),
     (''customerExternalId'', JStr (sc_customerExternalId c)), (''customerName'', JStr (sc_customerName c)),
     (''gapCents'', JInt (sc_gapCents c)), (''gapStatus'', JStr (gap_text (sc_gapStatus c))),
     (''invoiceExternalId'', JStr (sc_invoiceExternalId c)), (''invoiceNumber'', JStr (sc_invoiceNumber c)),
     (''invoiceTotalCents'', JInt (sc_invoiceTotalCents c)), (''lastPaymentOn'', null_or_text (sc_lastPaymentOn c)),
     (''paymentMemos'', JArr (map JStr (sc_paymentMemos c))),
     (''paymentReferences'', JArr (map JStr (sc_paymentReferences c)))]"

definition invoice_json :: "LedgerInvoice \<Rightarrow> json" where
  "invoice_json i = JObj [(''balanceCents'', JInt (li_balanceCents i)), (''currency'', JStr (li_currency i)),
     (''customerExternalId'', JStr (li_customerExternalId i)), (''customerName'', JStr (li_customerName i)),
     (''dueOn'', null_or_text (li_dueOn i)), (''externalId'', JStr (li_externalId i)),
     (''invoiceNumber'', JStr (li_invoiceNumber i)), (''issuedOn'', JStr (li_issuedOn i)),
     (''sourceKind'', JStr (source_text (li_sourceKind i))), (''totalCents'', JInt (li_totalCents i))]"

definition payment_json :: "ExtractPayment \<Rightarrow> json" where
  "payment_json p = JObj [(''appliedCents'', JInt (xp_appliedCents p)), (''externalId'', JStr (xp_externalId p)),
     (''memo'', null_or_text (xp_memo p)), (''receivedOn'', JStr (xp_receivedOn p)),
     (''reference'', null_or_text (xp_reference p)), (''totalCents'', JInt (xp_totalCents p))]"

definition credit_json :: "ExtractCredit \<Rightarrow> json" where
  "credit_json c = JObj [(''appliedCents'', JInt (xc_appliedCents c)), (''externalId'', JStr (xc_externalId c)),
     (''issuedOn'', JStr (xc_issuedOn c)), (''memo'', null_or_text (xc_memo c)), (''totalCents'', JInt (xc_totalCents c))]"

definition extract_json ::
  "ShortPayCandidate \<Rightarrow> LedgerInvoice \<Rightarrow> ExtractPayment list \<Rightarrow> ExtractCredit list \<Rightarrow> json" where
  "extract_json c i ps cs = JObj [(''kind'', JStr ''ledger_short_pay_extract''), (''version'', JInt 1),
     (''candidate'', candidate_json c), (''invoice'', invoice_json i),
     (''payments'', JArr (map payment_json ps)), (''credits'', JArr (map credit_json cs))]"

text \<open>The amounts of the candidate and the invoice that are checked, in the order they are.\<close>

definition extract_amounts :: "ShortPayCandidate \<Rightarrow> LedgerInvoice \<Rightarrow> (int \<times> string) list" where
  "extract_amounts c i = [(sc_appliedCreditsCents c, ''appliedCreditsCents''),
     (sc_appliedPaymentsCents c, ''appliedPaymentsCents''), (sc_gapCents c, ''gapCents''),
     (sc_invoiceTotalCents c, ''invoiceTotalCents''), (li_balanceCents i, ''invoice balanceCents''),
     (li_totalCents i, ''invoice totalCents'')]"

definition buildLedgerExtract ::
  "(string \<Rightarrow> string) \<Rightarrow> ShortPayCandidate \<Rightarrow> LedgerInvoice \<Rightarrow> LedgerPayment list \<Rightarrow> LedgerCredit list \<Rightarrow>
   LedgerExtract res" where
  "buildLedgerExtract sha candidate invoice payments credits =
     (if li_externalId invoice \<noteq> sc_invoiceExternalId candidate
      then Inl (LedgerExtractError (''invoice '' @ li_externalId invoice @ '' is not candidate invoice '' @
        sc_invoiceExternalId candidate))
      else bind_res (appliedPayments (sc_invoiceExternalId candidate) payments) (\<lambda>ps.
        bind_res (appliedCredits (sc_invoiceExternalId candidate) credits) (\<lambda>cs.
        bind_res (map_res (\<lambda>(v, field). exact v field) (extract_amounts candidate invoice)) (\<lambda>_.
          let text = emit (indented 2) 0 (extract_json candidate invoice ps cs) in
          Inr \<lparr>le_text = text, le_mimeType = ''application/json'', le_filename = extractFilename candidate,
            le_sha256 = sha text\<rparr>))))"

section \<open>What the text is made of\<close>

interpretation payment_order: keyed_comparator "\<lambda>a b. compare_text (xp_externalId a) (xp_externalId b)" xp_externalId
  by (intro keyed_comparator.intro comparator_key keyed_comparator_axioms.intro) simp

interpretation credit_order: keyed_comparator "\<lambda>a b. compare_text (xc_externalId a) (xc_externalId b)" xc_externalId
  by (intro keyed_comparator.intro comparator_key keyed_comparator_axioms.intro) simp

lemma gap_text_inj [simp]: "gap_text a = gap_text b \<longleftrightarrow> a = b"
  by (cases a; cases b) simp_all

lemma source_text_inj [simp]: "source_text a = source_text b \<longleftrightarrow> a = b"
  by (cases a; cases b) simp_all

lemma extract_json_inj:
  "extract_json c i ps cs = extract_json c' i' ps' cs' \<longleftrightarrow> c = c' \<and> i = i' \<and> ps = ps' \<and> cs = cs'"
proof -
  have "map payment_json ps = map payment_json ps' \<longleftrightarrow> ps = ps'"
    by (rule inj_map_eq_map) (auto simp: inj_def payment_json_def)
  moreover have "map credit_json cs = map credit_json cs' \<longleftrightarrow> cs = cs'"
    by (rule inj_map_eq_map) (auto simp: inj_def credit_json_def)
  moreover have "candidate_json c = candidate_json c' \<longleftrightarrow> c = c'"
    by (auto simp: candidate_json_def)
  moreover have "invoice_json i = invoice_json i' \<longleftrightarrow> i = i'"
    by (auto simp: invoice_json_def)
  ultimately show ?thesis by (simp add: extract_json_def)
qed

lemma extract_payment_id: "extract_payment k p = Inr r \<Longrightarrow> xp_externalId r = lp_externalId p"
  by (auto simp: extract_payment_def bind_res_Inr_iff)

lemma extract_credit_id: "extract_credit k c = Inr r \<Longrightarrow> xc_externalId r = lc_externalId c"
  by (auto simp: extract_credit_def bind_res_Inr_iff)

text \<open>Rows read in another order sort to the same list.\<close>

lemma map_res_keys:
  "map_res f xs = Inr ys \<Longrightarrow> (\<And>x y. f x = Inr y \<Longrightarrow> k' y = k x) \<Longrightarrow> map k' ys = map k xs"
  by (induction xs arbitrary: ys) (auto simp: bind_res_Inr_iff)

lemma appliedPayments_order:
  assumes "appliedPayments k ps = Inr rs" "mset ps' = mset ps" "distinct (map lp_externalId ps)"
  shows "appliedPayments k ps' = Inr rs"
proof -
  let ?P = "names_invoice k \<circ> lp_appliedTo"
  from assms(1) obtain ys where ys: "map_res (extract_payment k) (filter ?P ps) = Inr ys"
    "rs = sort_by (\<lambda>a b. compare_text (xp_externalId a) (xp_externalId b)) ys"
    by (auto simp: appliedPayments_def bind_res_Inr_iff)
  have m: "mset (filter ?P ps') = mset (filter ?P ps)" using assms(2) by simp
  obtain ys' where ys': "map_res (extract_payment k) (filter ?P ps') = Inr ys'" "mset ys' = mset ys"
    using map_res_mset [OF ys(1) m] by blast
  have "map xp_externalId ys = map lp_externalId (filter ?P ps)"
    by (rule map_res_keys [OF ys(1)]) (rule extract_payment_id)
  then have "distinct (map xp_externalId ys)" using distinct_map_filter [OF assms(3)] by simp
  then show ?thesis
    using ys ys' payment_order.sort_by_cong_mset [of ys ys'] by (simp add: appliedPayments_def)
qed

lemma appliedCredits_order:
  assumes "appliedCredits k cs = Inr rs" "mset cs' = mset cs" "distinct (map lc_externalId cs)"
  shows "appliedCredits k cs' = Inr rs"
proof -
  let ?P = "names_invoice k \<circ> lc_appliedTo"
  from assms(1) obtain ys where ys: "map_res (extract_credit k) (filter ?P cs) = Inr ys"
    "rs = sort_by (\<lambda>a b. compare_text (xc_externalId a) (xc_externalId b)) ys"
    by (auto simp: appliedCredits_def bind_res_Inr_iff)
  have m: "mset (filter ?P cs') = mset (filter ?P cs)" using assms(2) by simp
  obtain ys' where ys': "map_res (extract_credit k) (filter ?P cs') = Inr ys'" "mset ys' = mset ys"
    using map_res_mset [OF ys(1) m] by blast
  have "map xc_externalId ys = map lc_externalId (filter ?P cs)"
    by (rule map_res_keys [OF ys(1)]) (rule extract_credit_id)
  then have "distinct (map xc_externalId ys)" using distinct_map_filter [OF assms(3)] by simp
  then show ?thesis
    using ys ys' credit_order.sort_by_cong_mset [of ys ys'] by (simp add: appliedCredits_def)
qed

lemma exact_Inr [simp]: "exact v field = Inr w \<longleftrightarrow> safe_int v \<and> w = v"
  by (auto simp: exact_def split: sum.splits)

lemma buildLedgerExtract_Inr:
  "buildLedgerExtract sha c i ps cs = Inr x \<longleftrightarrow> li_externalId i = sc_invoiceExternalId c \<and>
    (\<exists>xs ys. appliedPayments (sc_invoiceExternalId c) ps = Inr xs \<and> appliedCredits (sc_invoiceExternalId c) cs = Inr ys \<and>
      (\<forall>(v, field)\<in>set (extract_amounts c i). safe_int v) \<and>
      x = \<lparr>le_text = emit (indented 2) 0 (extract_json c i xs ys), le_mimeType = ''application/json'',
        le_filename = extractFilename c, le_sha256 = sha (emit (indented 2) 0 (extract_json c i xs ys))\<rparr>)"
proof -
  have "(\<exists>vs. map_res (\<lambda>(v, field). exact v field) as = Inr vs) \<longleftrightarrow> (\<forall>(v, field)\<in>set as. safe_int v)" for as
    by (auto simp: map_res_Inr_map split: prod.splits)
  then show ?thesis by (auto simp: buildLedgerExtract_def bind_res_Inr_iff Let_def)
qed

section \<open>Properties\<close>

text \<open>The same ledger state gives the same document: payments and credits of different ids give one extract
  in whatever order they were read, and two extracts of one text have the same candidate, the same
  invoice and the same applied payments and credits.\<close>

theorem extract_same_state:
  assumes "buildLedgerExtract sha c i ps cs = Inr x"
  shows "(mset ps' = mset ps \<and> mset cs' = mset cs \<and> distinct (map lp_externalId ps) \<and> distinct (map lc_externalId cs) \<longrightarrow>
      buildLedgerExtract sha c i ps' cs' = Inr x) \<and>
    (\<forall>c' i' y. buildLedgerExtract sha c' i' ps' cs' = Inr y \<and> le_text y = le_text x \<longrightarrow>
      c' = c \<and> i' = i \<and> appliedPayments (li_externalId i) ps' = appliedPayments (li_externalId i) ps \<and>
      appliedCredits (li_externalId i) cs' = appliedCredits (li_externalId i) cs)"
proof (intro conjI impI allI)
  assume a: "mset ps' = mset ps \<and> mset cs' = mset cs \<and> distinct (map lp_externalId ps) \<and> distinct (map lc_externalId cs)"
  from assms obtain xs ys where "appliedPayments (sc_invoiceExternalId c) ps = Inr xs"
    "appliedCredits (sc_invoiceExternalId c) cs = Inr ys"
    unfolding buildLedgerExtract_Inr by blast
  then have "appliedPayments (sc_invoiceExternalId c) ps' = appliedPayments (sc_invoiceExternalId c) ps"
    "appliedCredits (sc_invoiceExternalId c) cs' = appliedCredits (sc_invoiceExternalId c) cs"
    using appliedPayments_order [where ps' = ps'] appliedCredits_order [where cs' = cs'] a by simp_all
  then show "buildLedgerExtract sha c i ps' cs' = Inr x"
    using assms unfolding buildLedgerExtract_Inr by simp
next
  fix c' i' y assume y: "buildLedgerExtract sha c' i' ps' cs' = Inr y \<and> le_text y = le_text x"
  from assms obtain xs ys where x: "appliedPayments (sc_invoiceExternalId c) ps = Inr xs"
    "appliedCredits (sc_invoiceExternalId c) cs = Inr ys" "li_externalId i = sc_invoiceExternalId c"
    "le_text x = emit (indented 2) 0 (extract_json c i xs ys)"
    unfolding buildLedgerExtract_Inr by auto
  from y obtain xs' ys' where y': "appliedPayments (sc_invoiceExternalId c') ps' = Inr xs'"
    "appliedCredits (sc_invoiceExternalId c') cs' = Inr ys'"
    "le_text y = emit (indented 2) 0 (extract_json c' i' xs' ys')"
    unfolding buildLedgerExtract_Inr by auto
  have "emit (indented 2) 0 (extract_json c' i' xs' ys') = emit (indented 2) 0 (extract_json c i xs ys)"
    using y x(4) y'(3) by metis
  then have "extract_json c' i' xs' ys' = extract_json c i xs ys" by (rule emit_inj [OF plain_layouts(2)])
  then have "c' = c" "i' = i" "xs' = xs" "ys' = ys" unfolding extract_json_inj by blast+
  then show "c' = c" "i' = i"
    "appliedPayments (li_externalId i) ps' = appliedPayments (li_externalId i) ps"
    "appliedCredits (li_externalId i) cs' = appliedCredits (li_externalId i) cs"
    using x y' by simp_all
qed

text \<open>Applications whose sum leaves the safe range and comes back are not refused, and are a cent off.\<close>

lemma applied_off_by_a_cent:
  "let apps = [\<lparr>la_invoiceExternalId = ''i'', la_amountCents = 9007199254740991\<rparr>,
      \<lparr>la_invoiceExternalId = ''i'', la_amountCents = 2\<rparr>, \<lparr>la_invoiceExternalId = ''i'', la_amountCents = - 2\<rparr>]
   in appliedTo apps ''i'' ''payment p'' = Inr 9007199254740990 \<and> (\<Sum>a\<leftarrow>apps. la_amountCents a) = 9007199254740991"
  by code_simp

definition sample_extract :: "LedgerPayment list \<Rightarrow> LedgerExtract res" where
  "sample_extract ps = buildLedgerExtract (\<lambda>t. ''0'')
     \<lparr>sc_invoiceExternalId = ''i'', sc_invoiceNumber = ''INV 7'', sc_customerExternalId = ''c'', sc_customerName = ''C'',
      sc_invoiceTotalCents = 900, sc_appliedPaymentsCents = 300, sc_appliedCreditsCents = 0, sc_gapCents = 600,
      sc_gapStatus = Gap_Open, sc_paymentReferences = [], sc_paymentMemos = [], sc_creditMemos = [],
      sc_lastPaymentOn = None\<rparr>
     \<lparr>li_sourceKind = Qbo, li_externalId = ''i'', li_invoiceNumber = ''INV 7'', li_customerExternalId = ''c'',
      li_customerName = ''C'', li_issuedOn = ''2025-01-01'', li_dueOn = None, li_totalCents = 900,
      li_balanceCents = 600, li_currency = ''USD''\<rparr> ps []"

definition sample_payment :: "string \<Rightarrow> int \<Rightarrow> LedgerPayment" where
  "sample_payment k v = \<lparr>lp_sourceKind = Qbo, lp_externalId = k, lp_customerExternalId = ''c'',
     lp_receivedOn = ''2025-02-01'', lp_totalCents = v, lp_reference = None, lp_memo = Some [],
     lp_appliedTo = [\<lparr>la_invoiceExternalId = ''i'', la_amountCents = v\<rparr>]\<rparr>"

lemma extract_same_state_witness:
  "sample_extract [sample_payment ''p'' 100, sample_payment ''q'' 200] =
     sample_extract [sample_payment ''q'' 200, sample_payment ''p'' 100] \<and>
   \<not> isl (sample_extract [sample_payment ''p'' 100, sample_payment ''q'' 200])"
proof -
  let ?ps = "[sample_payment ''p'' 100, sample_payment ''q'' 200]"
  and ?ps' = "[sample_payment ''q'' 200, sample_payment ''p'' 100]"
  have ok: "\<not> isl (sample_extract ?ps)" by code_simp
  then obtain x where x: "sample_extract ?ps = Inr x" by (cases "sample_extract ?ps") auto
  have "mset ?ps' = mset ?ps \<and> mset [] = mset [] \<and> distinct (map lp_externalId ?ps) \<and> distinct (map lc_externalId [])"
    by (simp add: sample_payment_def)
  then have "sample_extract ?ps' = Inr x"
    unfolding sample_extract_def by (rule mp [OF conjunct1 [OF extract_same_state [OF x [unfolded sample_extract_def]]]])
  with x ok show ?thesis by simp
qed

end
