(* ===== verification/Posting_Status.thy ===== *)
theory Posting_Status
  imports JsText
begin

text \<open>
  What a posting to the accounting system did, and which ledger invoice a person meant:
  \<open>packages/core-domain/src/posting-status.ts\<close>. A stated text names an invoice only when it is the
  case's own or the only one it can mean; a posting is known to have sent nothing only when every
  attempt says so.
\<close>

section \<open>The invoice a text names\<close>

definition is_stated_char :: "char \<Rightarrow> bool" where
  "is_stated_char c \<longleftrightarrow> is_letter c \<or> is_digit c \<or> c \<in> set '' ._/#-''"

definition STATED_INVOICE :: "string \<Rightarrow> bool" where
  "STATED_INVOICE s \<longleftrightarrow> (case s of [] \<Rightarrow> False
     | c # t \<Rightarrow> (is_letter c \<or> is_digit c) \<and> list_all is_stated_char t \<and> length t \<le> 20)"

definition LEDGER_INVOICE_ID :: "string \<Rightarrow> bool" where
  "LEDGER_INVOICE_ID s \<longleftrightarrow> 1 \<le> length s \<and> length s \<le> 20 \<and> list_all is_digit s"

record LedgerInvoiceRef =
  ir_id :: string
  ir_docNumber :: "string option"

record LedgerInvoiceMatches =
  im_byId :: "LedgerInvoiceRef option"
  im_byDocNumber :: "LedgerInvoiceRef list"

datatype InvoiceRefusal = Invoice_Not_Found | Invoice_Ambiguous

definition INVOICE_REFUSALS :: "InvoiceRefusal list" where
  "INVOICE_REFUSALS = [Invoice_Not_Found, Invoice_Ambiguous]"

datatype InvoiceResolution = Named LedgerInvoiceRef | Refused InvoiceRefusal

definition matches :: "LedgerInvoiceMatches \<Rightarrow> LedgerInvoiceRef list" where
  "matches found = (case im_byId found of None \<Rightarrow> [] | Some i \<Rightarrow> [i]) @ im_byDocNumber found"

definition resolveStatedInvoice ::
  "string \<Rightarrow> LedgerInvoiceMatches \<Rightarrow> string option \<Rightarrow> InvoiceResolution res" where
  "resolveStatedInvoice stated found caseLedgerInvoiceId =
     (if (case im_byId found of None \<Rightarrow> False | Some i \<Rightarrow> ir_id i \<noteq> stated)
      then Inl (RangeError ''the invoice read by id is not the one asked for'')
      else if caseLedgerInvoiceId = Some stated \<and> im_byId found \<noteq> None then Inr (Named (the (im_byId found)))
      else (case first_by ir_id (matches found) of
          [] \<Rightarrow> Inr (Refused Invoice_Not_Found)
        | only # others \<Rightarrow> if others \<noteq> [] then Inr (Refused Invoice_Ambiguous) else Inr (Named only)))"

section \<open>What was sent\<close>

definition NOTHING_SENT_REASONS :: "string list" where
  "NOTHING_SENT_REASONS =
     [''no_invoice'', ''invoice_not_found'', ''invoice_lookup_failed'', ''build_failed'', ''lines_changed'']"

definition isNothingSentReason :: "string option \<Rightarrow> bool" where
  "isNothingSentReason reason \<longleftrightarrow> (case reason of None \<Rightarrow> False | Some r \<Rightarrow> r \<in> set NOTHING_SENT_REASONS)"

definition nothingWasSent :: "string option list \<Rightarrow> bool" where
  "nothingWasSent attemptReasons \<longleftrightarrow> length attemptReasons > 0 \<and> list_all isNothingSentReason attemptReasons"

definition STUCK_PENDING_MINUTES :: int where "STUCK_PENDING_MINUTES = 5"

section \<open>Properties\<close>

lemma first_by_single: "first_by key xs = [x] \<longleftrightarrow> (\<exists>ys. xs = x # ys \<and> (\<forall>y\<in>set ys. key y = key x))"
proof (cases xs)
  case (Cons a ys)
  have "filter (\<lambda>y. key y \<noteq> key a) (first_by key ys) = [] \<longleftrightarrow> (\<forall>k\<in>key ` set (first_by key ys). k = key a)"
    by (auto simp: filter_empty_conv simp del: key_first_by)
  also have "\<dots> \<longleftrightarrow> (\<forall>k\<in>key ` set ys. k = key a)" by (simp only: key_first_by)
  finally show ?thesis using Cons by auto
qed simp

text \<open>A stated text names an invoice exactly when it is the id of the case's own invoice and the ledger
  still has that one, or when something matches it and everything that does is one invoice; several
  are ambiguous and none is not found, and an invoice named is always one the ledger holds. And a
  posting with an attempt that may have reached the ledger is never said to have sent nothing.\<close>

theorem stated_invoice_only_one:
  assumes "case im_byId found of None \<Rightarrow> True | Some i \<Rightarrow> ir_id i = stated"
  shows "(resolveStatedInvoice stated found own = Inr (Named invoice) \<longleftrightarrow>
      (if own = Some stated \<and> im_byId found \<noteq> None then im_byId found = Some invoice
       else (\<exists>rest. matches found = invoice # rest \<and> (\<forall>r\<in>set rest. ir_id r = ir_id invoice)))) \<and>
    (resolveStatedInvoice stated found own = Inr (Refused Invoice_Not_Found) \<longleftrightarrow> matches found = []) \<and>
    (resolveStatedInvoice stated found own = Inr (Named invoice) \<longrightarrow> invoice \<in> set (matches found)) \<and>
    (nothingWasSent (reasons @ r # reasons') \<longrightarrow> (\<exists>s\<in>set NOTHING_SENT_REASONS. r = Some s))"
proof -
  have one: "(case first_by ir_id ms of [] \<Rightarrow> Inr (Refused Invoice_Not_Found)
        | only # others \<Rightarrow> if others \<noteq> [] then Inr (Refused Invoice_Ambiguous) else Inr (Named only)) = (Inr (Named invoice) :: InvoiceResolution res)
      \<longleftrightarrow> first_by ir_id ms = [invoice]"
    "(case first_by ir_id ms of [] \<Rightarrow> Inr (Refused Invoice_Not_Found)
        | only # others \<Rightarrow> if others \<noteq> [] then Inr (Refused Invoice_Ambiguous) else Inr (Named only)) = (Inr (Refused Invoice_Not_Found) :: InvoiceResolution res)
      \<longleftrightarrow> ms = []" for ms
    by (cases ms; auto split: list.splits)+
  have guard: "\<not> (case im_byId found of None \<Rightarrow> False | Some i \<Rightarrow> ir_id i \<noteq> stated)"
    using assms by (simp split: option.splits)
  have named: "resolveStatedInvoice stated found own = Inr (Named invoice) \<longleftrightarrow>
      (if own = Some stated \<and> im_byId found \<noteq> None then im_byId found = Some invoice
       else (\<exists>rest. matches found = invoice # rest \<and> (\<forall>r\<in>set rest. ir_id r = ir_id invoice)))"
    using guard by (auto simp: resolveStatedInvoice_def one first_by_single)
  moreover have "resolveStatedInvoice stated found own = Inr (Refused Invoice_Not_Found) \<longleftrightarrow> matches found = []"
    using guard by (auto simp: resolveStatedInvoice_def one(2)) (simp add: matches_def)
  moreover have "invoice \<in> set (matches found)" if "resolveStatedInvoice stated found own = Inr (Named invoice)"
    using that named by (cases "im_byId found") (auto simp: matches_def split: if_splits)
  moreover have "nothingWasSent (reasons @ r # reasons') \<longrightarrow> (\<exists>s\<in>set NOTHING_SENT_REASONS. r = Some s)"
    by (auto simp: nothingWasSent_def isNothingSentReason_def split: option.splits)
  ultimately show ?thesis by blast
qed

lemma stated_invoice_only_one_witness:
  "resolveStatedInvoice ''7'' \<lparr>im_byId = Some \<lparr>ir_id = ''7'', ir_docNumber = None\<rparr>,
      im_byDocNumber = [\<lparr>ir_id = ''9'', ir_docNumber = Some ''7''\<rparr>]\<rparr> (Some ''7'') =
     Inr (Named \<lparr>ir_id = ''7'', ir_docNumber = None\<rparr>) \<and>
   resolveStatedInvoice ''7'' \<lparr>im_byId = Some \<lparr>ir_id = ''7'', ir_docNumber = None\<rparr>,
      im_byDocNumber = [\<lparr>ir_id = ''9'', ir_docNumber = Some ''7''\<rparr>]\<rparr> None \<noteq>
     Inr (Named \<lparr>ir_id = ''7'', ir_docNumber = None\<rparr>)"
  using stated_invoice_only_one [where stated = "''7''" and own = "Some ''7''" and invoice = "\<lparr>ir_id = ''7'', ir_docNumber = None\<rparr>"
      and found = "\<lparr>im_byId = Some \<lparr>ir_id = ''7'', ir_docNumber = None\<rparr>, im_byDocNumber = [\<lparr>ir_id = ''9'', ir_docNumber = Some ''7''\<rparr>]\<rparr>"]
    stated_invoice_only_one [where stated = "''7''" and own = None and invoice = "\<lparr>ir_id = ''7'', ir_docNumber = None\<rparr>"
      and found = "\<lparr>im_byId = Some \<lparr>ir_id = ''7'', ir_docNumber = None\<rparr>, im_byDocNumber = [\<lparr>ir_id = ''9'', ir_docNumber = Some ''7''\<rparr>]\<rparr>"]
  by (simp add: matches_def)

end
