(* ===== verification/Portal_Terms.thy ===== *)
theory Portal_Terms
  imports Timestamps
begin

text \<open>
  Which portals' terms let a recipe run: \<open>packages/core-domain/src/portal-terms.ts\<close>. The allowances
  are a checked list keyed by ADR, and a recipe runs only under an entry of its own portal.
\<close>

section \<open>Allowances\<close>

definition PORTAL_TERMS_ALLOWING_ANSWERS :: "string list" where
  "PORTAL_TERMS_ALLOWING_ANSWERS = [''allowed'', ''allowed_with_conditions'', ''payer_written_consent'']"

record PortalTermsAllowance =
  pa_adr :: string
  pa_portalKey :: string
  pa_answer :: string
  pa_recordedOn :: string

definition PORTAL_TERMS_ADR_PATTERN :: "string \<Rightarrow> bool" where
  "PORTAL_TERMS_ADR_PATTERN s \<longleftrightarrow> length s = 4 \<and> list_all is_digit s"

definition PORTAL_KEY :: "string \<Rightarrow> bool" where
  "PORTAL_KEY s \<longleftrightarrow> (case s of [] \<Rightarrow> False
     | c # t \<Rightarrow> is_lower c \<and> length t \<le> 62 \<and> list_all (\<lambda>d. is_lower d \<or> is_digit d \<or> d = CHR ''_'') t)"

definition isIsoDay :: "string \<Rightarrow> bool" where
  "isIsoDay value \<longleftrightarrow> iso_shape value \<and>
     (case utc_midnight value of None \<Rightarrow> False | Some day \<Rightarrow> utc_day_text (day * DAY_MS) = value)"

definition checked_allowance :: "(string \<times> PortalTermsAllowance) list \<Rightarrow> PortalTermsAllowance \<Rightarrow>
    (string \<times> PortalTermsAllowance) list res" where
  "checked_allowance byAdr allowance =
     (if \<not> PORTAL_TERMS_ADR_PATTERN (pa_adr allowance) then Inl (PortalTermsAllowanceError ''adr'')
      else if \<not> PORTAL_KEY (pa_portalKey allowance) then Inl (PortalTermsAllowanceError ''portalKey'')
      else if pa_answer allowance \<notin> set PORTAL_TERMS_ALLOWING_ANSWERS then Inl (PortalTermsAllowanceError ''answer'')
      else if \<not> isIsoDay (pa_recordedOn allowance) then Inl (PortalTermsAllowanceError ''recordedOn'')
      else if map_of byAdr (pa_adr allowance) \<noteq> None then Inl (PortalTermsAllowanceError ''adr'')
      else Inr (AList.update (pa_adr allowance) allowance byAdr))"

definition portalTermsAllowances :: "PortalTermsAllowance list \<Rightarrow> (string \<times> PortalTermsAllowance) list res" where
  "portalTermsAllowances allowances = fold_res checked_allowance [] allowances"

definition deployed_allowances :: "PortalTermsAllowance list" where
  "deployed_allowances = [\<lparr>pa_adr = ''0062'', pa_portalKey = ''sap_business_network'',
     pa_answer = ''allowed_with_conditions'', pa_recordedOn = ''2026-09-28''\<rparr>]"

definition PORTAL_TERMS_ALLOWED :: "(string \<times> PortalTermsAllowance) list res" where
  "PORTAL_TERMS_ALLOWED = portalTermsAllowances deployed_allowances"

section \<open>The verdict\<close>

datatype PortalTermsRefusal = No_Adr_Named | Not_Recorded | Other_Portal

datatype PortalTermsVerdict = Allowed PortalTermsAllowance | Terms_Refused PortalTermsRefusal

text \<open>The recipe's portal and ADR; \<^const>\<open>None\<close> is an ADR that is not a text.\<close>

definition portalTermsVerdict ::
  "string \<Rightarrow> string option \<Rightarrow> (string \<times> PortalTermsAllowance) list \<Rightarrow> PortalTermsVerdict" where
  "portalTermsVerdict portalKey portalAdr allowances =
     (case portalAdr of
        None \<Rightarrow> Terms_Refused No_Adr_Named
      | Some adr \<Rightarrow>
          if \<not> PORTAL_TERMS_ADR_PATTERN adr then Terms_Refused No_Adr_Named
          else (case map_of allowances adr of
              None \<Rightarrow> Terms_Refused Not_Recorded
            | Some allowance \<Rightarrow>
                if pa_portalKey allowance \<noteq> portalKey then Terms_Refused Other_Portal else Allowed allowance))"

section \<open>What the list holds\<close>

lemma isIsoDay_iso:
  assumes "iso_day s = Some n"
  shows "isIsoDay s"
proof -
  have "four_digit_year n" "iso_of_day n = s" using iso.parse_valid [OF assms] iso.print_parse [OF assms] by simp_all
  then have "utc_day_text (n * DAY_MS) = s" using utc_day_text_iso [of "n * DAY_MS"] by (simp add: DAY_MS_def)
  then show ?thesis using iso_day_midnight [OF assms] iso_day_shape [OF assms] by (simp add: isIsoDay_def)
qed

definition good_allowance :: "PortalTermsAllowance \<Rightarrow> bool" where
  "good_allowance a \<longleftrightarrow> PORTAL_TERMS_ADR_PATTERN (pa_adr a) \<and> PORTAL_KEY (pa_portalKey a) \<and>
     pa_answer a \<in> set PORTAL_TERMS_ALLOWING_ANSWERS \<and> isIsoDay (pa_recordedOn a)"

lemma checked_allowance_Inr:
  "checked_allowance m a = Inr m' \<longleftrightarrow> good_allowance a \<and> pa_adr a \<notin> fst ` set m \<and> m' = AList.update (pa_adr a) a m"
  by (auto simp: checked_allowance_def good_allowance_def map_of_eq_None_iff split: if_splits)

lemma update_new: "k \<notin> fst ` set m \<Longrightarrow> AList.update k v m = m @ [(k, v)]"
  by (induction m) auto

lemma allowances_Inr:
  "portalTermsAllowances as = Inr m \<longleftrightarrow> list_all good_allowance as \<and> distinct (map pa_adr as) \<and> m = map (\<lambda>a. (pa_adr a, a)) as"
proof (induction as arbitrary: m rule: rev_induct)
  case Nil
  then show ?case by (auto simp: portalTermsAllowances_def)
next
  case (snoc a as)
  have "portalTermsAllowances (as @ [a]) = bind_res (portalTermsAllowances as) (\<lambda>m. checked_allowance m a)"
    by (simp add: portalTermsAllowances_def fold_res_append bind_res_def split: sum.splits)
  then show ?case
    by (auto simp: bind_res_Inr_iff snoc.IH checked_allowance_Inr update_new image_iff)
qed

lemma deployed_good: "list_all good_allowance deployed_allowances" "distinct (map pa_adr deployed_allowances)"
proof -
  have "iso_day ''2026-09-28'' = Some 20724" by (simp add: iso_eval)
  then have "isIsoDay ''2026-09-28''" by (rule isIsoDay_iso)
  moreover have "PORTAL_TERMS_ADR_PATTERN ''0062''" "PORTAL_KEY ''sap_business_network''"
    "''allowed_with_conditions'' \<in> set PORTAL_TERMS_ALLOWING_ANSWERS" by code_simp+
  ultimately show "list_all good_allowance deployed_allowances"
    by (simp add: deployed_allowances_def good_allowance_def)
  show "distinct (map pa_adr deployed_allowances)" by (simp add: deployed_allowances_def)
qed

section \<open>Properties\<close>

lemma verdict_Allowed:
  assumes "portalTermsAllowances as = Inr m"
  shows "portalTermsVerdict portal adr m = Allowed a \<longleftrightarrow> a \<in> set as \<and> adr = Some (pa_adr a) \<and> portal = pa_portalKey a"
proof -
  have m: "list_all good_allowance as" "distinct (map pa_adr as)" "m = map (\<lambda>a. (pa_adr a, a)) as"
    using assms by (simp_all add: allowances_Inr)
  have look: "map_of m k = Some b \<longleftrightarrow> b \<in> set as \<and> pa_adr b = k" for k b
    using m(2) unfolding m(3) by (subst map_of_eq_Some_iff) (auto simp: comp_def)
  show ?thesis
  proof
    assume "portalTermsVerdict portal adr m = Allowed a"
    then obtain k where "adr = Some k" "map_of m k = Some a" "pa_portalKey a = portal"
      by (auto simp: portalTermsVerdict_def split: option.splits if_splits)
    then show "a \<in> set as \<and> adr = Some (pa_adr a) \<and> portal = pa_portalKey a" using look by auto
  next
    assume a: "a \<in> set as \<and> adr = Some (pa_adr a) \<and> portal = pa_portalKey a"
    then have "map_of m (pa_adr a) = Some a" "good_allowance a" using look m(1) by (simp_all add: list_all_iff)
    then show "portalTermsVerdict portal adr m = Allowed a"
      using a by (simp add: portalTermsVerdict_def good_allowance_def)
  qed
qed

text \<open>Over a list that was accepted, every entry is well formed and every ADR listed once, and a recipe runs
  exactly under an entry for the ADR it names and its own portal; what it runs under is that entry.
  Nothing else runs, and the deployed list lets only one portal under one ADR run.\<close>

theorem terms_allow_only_recorded:
  assumes "portalTermsAllowances as = Inr m"
  shows "(portalTermsVerdict portal adr m = Allowed a \<longleftrightarrow> a \<in> set as \<and> adr = Some (pa_adr a) \<and> portal = pa_portalKey a) \<and>
    (a \<in> set as \<longrightarrow> good_allowance a) \<and> distinct (map pa_adr as) \<and>
    (\<exists>d. PORTAL_TERMS_ALLOWED = Inr d \<and> (\<forall>b. portalTermsVerdict portal adr d = Allowed b \<longrightarrow>
       portal = ''sap_business_network'' \<and> adr = Some ''0062''))"
proof (intro conjI impI)
  show "portalTermsVerdict portal adr m = Allowed a \<longleftrightarrow> a \<in> set as \<and> adr = Some (pa_adr a) \<and> portal = pa_portalKey a"
    by (rule verdict_Allowed [OF assms])
  show "a \<in> set as \<Longrightarrow> good_allowance a" "distinct (map pa_adr as)"
    using assms by (simp_all add: allowances_Inr list_all_iff)
  obtain d where d: "portalTermsAllowances deployed_allowances = Inr d"
    unfolding allowances_Inr using deployed_good by blast
  have "portal = ''sap_business_network'' \<and> adr = Some ''0062''"
    if "portalTermsVerdict portal adr d = Allowed b" for b
    using that unfolding verdict_Allowed [OF d] by (simp add: deployed_allowances_def)
  with d show "\<exists>d. PORTAL_TERMS_ALLOWED = Inr d \<and> (\<forall>b. portalTermsVerdict portal adr d = Allowed b \<longrightarrow>
       portal = ''sap_business_network'' \<and> adr = Some ''0062'')"
    unfolding PORTAL_TERMS_ALLOWED_def by blast
qed

lemma terms_allow_only_recorded_witness:
  "\<exists>m. portalTermsAllowances deployed_allowances = Inr m \<and>
    portalTermsVerdict ''sap_business_network'' (Some ''0062'') m = Allowed (hd deployed_allowances) \<and>
    portalTermsVerdict ''unfi'' (Some ''0062'') m \<noteq> Allowed (hd deployed_allowances)"
proof -
  obtain m where m: "portalTermsAllowances deployed_allowances = Inr m"
    unfolding allowances_Inr using deployed_good by blast
  have a: "hd deployed_allowances \<in> set deployed_allowances" "pa_adr (hd deployed_allowances) = ''0062''"
    "pa_portalKey (hd deployed_allowances) = ''sap_business_network''"
    by (simp_all add: deployed_allowances_def)
  have verdict: "portalTermsVerdict portal (Some ''0062'') m = Allowed (hd deployed_allowances) \<longleftrightarrow>
      portal = ''sap_business_network''" for portal
    unfolding conjunct1 [OF terms_allow_only_recorded [OF m]] using a by simp
  show ?thesis using m verdict [of "''sap_business_network''"] verdict [of "''unfi''"] by simp
qed

end
