(* ===== verification/Number_Cell.thy ===== *)
theory Number_Cell
  imports MoneyText
begin

text \<open>
  Spreadsheet cells: \<open>numberCellToMoneyText\<close> and \<open>printsNoAmount\<close> of
  \<open>packages/core-domain/src/money.ts\<close>. A stored number is read as text, never through a float. The
  lemmas show that the text made of a cell is exactly the cell's number, and that a cell is refused
  only when its number has a fraction of a cent.
\<close>

section \<open>Fields that print no amount\<close>

text \<open>\<open>^\s*(?:\$|USD)?\s*[-...]{1,3}\s*$\<close>; of the dashes only the hyphen is below 256.\<close>

definition printsNoAmount :: "string \<Rightarrow> bool" where
  "printsNoAmount text =
     (let s = trim_start text;
          t = (if take 1 s = ''$'' then drop 1 s else if to_upper (take 3 s) = ''USD'' then drop 3 s else s);
          d = trim_end (trim_start t)
      in d \<in> {''-'', ''--'', ''---''})"

section \<open>The number of a cell\<close>

definition exponent_value :: "string \<Rightarrow> int option" where
  "exponent_value s =
     (let (neg, ds) = (case s of [] \<Rightarrow> (False, s)
        | c # t \<Rightarrow> if c = CHR ''-'' then (True, t) else if c = CHR ''+'' then (False, t) else (False, s))
      in if ds \<noteq> [] \<and> list_all is_digit ds then Some (if neg then - int (text_nat ds) else int (text_nat ds)) else None)"

text \<open>\<open>/^(-?)(\d+)(?:\.(\d*))?(?:[eE]([+-]?\d+))?$/\<close>: sign, digits, fraction digits, exponent.\<close>

definition cell_parts :: "string \<Rightarrow> (bool \<times> string \<times> string \<times> int) option" where
  "cell_parts s =
     (let neg = (take 1 s = ''-'');
          u = (if neg then drop 1 s else s);
          ds = takeWhile is_digit u;
          r = dropWhile is_digit u;
          (fs, r') = (if take 1 r = ''.'' then (takeWhile is_digit (drop 1 r), dropWhile is_digit (drop 1 r)) else ([], r))
      in if ds = [] then None
         else if r' = [] then Some (neg, ds, fs, 0)
         else if hd r' = CHR ''e'' \<or> hd r' = CHR ''E''
           then map_option (\<lambda>e. (neg, ds, fs, e)) (exponent_value (tl r'))
         else None)"

definition drop_zeros :: "string \<Rightarrow> string" where
  "drop_zeros s = (let r = dropWhile (\<lambda>c. c = CHR ''0'') s in if r = [] then drop (length s - 1) s else r)"

text \<open>The digits with the decimal point's position among them, padded so that it is inside.\<close>

definition shifted :: "string \<Rightarrow> int \<Rightarrow> string \<times> nat" where
  "shifted digits point =
     (if point < 0 then (replicate (nat (- point)) CHR ''0'' @ digits, 0)
      else if point > int (length digits) then (digits @ replicate (nat point - length digits) CHR ''0'', nat point)
      else (digits, nat point))"

definition numberCellToMoneyText :: "string \<Rightarrow> string res" where
  "numberCellToMoneyText text =
     (case cell_parts (trim text) of
        None \<Rightarrow> Inl (RangeError ''not a number cell'')
      | Some (neg, ds, fs, e) \<Rightarrow>
          if \<not> safe_int e \<or> \<bar>e\<bar> > 30 then Inl (RangeError ''exponent out of range in number cell'')
          else let
            (digits, point) = shifted (ds @ fs) (int (length ds) + e);
            whole = drop_zeros (take point digits);
            whole = (if whole = [] then ''0'' else whole);
            fraction = drop point digits
          in if length fraction > 2 \<and> \<not> list_all (\<lambda>c. c = CHR ''0'') (drop 2 fraction)
             then Inl (RangeError ''a digit past the cents that is not 0 is not rounded'')
             else let fraction = pad_end 2 CHR ''0'' (if length fraction > 2 then take 2 fraction else fraction);
                      negative = neg \<and> list_ex (\<lambda>c. CHR ''1'' \<le> c \<and> c \<le> CHR ''9'') (whole @ fraction)
                  in Inr ((if negative then ''-'' else []) @ whole @ ''.'' @ fraction))"

section \<open>Digits\<close>

lemma cell_parts_digits:
  assumes "cell_parts s = Some (neg, ds, fs, e)"
  shows "ds \<noteq> []" "\<forall>c\<in>set ds. is_digit c" "\<forall>c\<in>set fs. is_digit c"
proof -
  define u where "u = (if take 1 s = ''-'' then drop 1 s else s)"
  define r where "r = dropWhile is_digit u"
  define a where "a = (if take 1 r = ''.'' then takeWhile is_digit (drop 1 r) else [])"
  define q where "q = (if take 1 r = ''.'' then dropWhile is_digit (drop 1 r) else r)"
  have "cell_parts s = (if takeWhile is_digit u = [] then None
      else if q = [] then Some (take 1 s = ''-'', takeWhile is_digit u, a, 0)
      else if hd q = CHR ''e'' \<or> hd q = CHR ''E''
        then map_option (\<lambda>e. (take 1 s = ''-'', takeWhile is_digit u, a, e)) (exponent_value (tl q)) else None)"
    unfolding cell_parts_def Let_def u_def [symmetric] r_def [symmetric] a_def q_def by simp
  then have "ds = takeWhile is_digit u \<and> ds \<noteq> [] \<and> fs = a" using assms
    by (cases "exponent_value (tl q)") (auto split: if_splits)
  then show "ds \<noteq> []" "\<forall>c\<in>set ds. is_digit c" "\<forall>c\<in>set fs. is_digit c"
    by (auto simp: a_def dest: set_takeWhileD split: if_splits)
qed

lemma drop_zeros_value: "text_nat (drop_zeros s) = text_nat s"
proof -
  have s: "s = takeWhile (\<lambda>c. c = CHR ''0'') s @ dropWhile (\<lambda>c. c = CHR ''0'') s" by simp
  have "takeWhile (\<lambda>c. c = CHR ''0'') s = replicate (length (takeWhile (\<lambda>c. c = CHR ''0'') s)) CHR ''0''"
    by (rule replicate_length_same [symmetric]) (auto dest: set_takeWhileD)
  then have num: "text_nat s = text_nat (dropWhile (\<lambda>c. c = CHR ''0'') s)"
    by (subst s) (metis text_nat_zeros)
  show ?thesis
  proof (cases "dropWhile (\<lambda>c. c = CHR ''0'') s = []")
    case True
    then have "\<forall>c\<in>set s. c = CHR ''0''" by (simp add: dropWhile_eq_Nil_conv)
    then have "\<forall>c\<in>set (drop (length s - 1) s). c = CHR ''0''" using set_drop_subset by fast
    then have "drop (length s - 1) s = replicate (length (drop (length s - 1) s)) CHR ''0''"
      by (rule replicate_length_same [symmetric])
    then have "text_nat (drop (length s - 1) s) = 0" by (metis text_nat_zeros append_Nil2 text_nat_Nil)
    moreover have "text_nat s = 0" using num True by (metis text_nat_Nil)
    ultimately show ?thesis unfolding drop_zeros_def Let_def if_P [OF True] by simp
  next
    case False
    show ?thesis unfolding drop_zeros_def Let_def if_not_P [OF False] by (rule num [symmetric])
  qed
qed

lemma set_drop_zeros: "set (drop_zeros s) \<subseteq> set s"
  by (auto simp: drop_zeros_def Let_def dest: in_set_dropD set_dropWhileD)

lemma zero_digits: "\<forall>c\<in>set s. is_digit c \<Longrightarrow> text_nat s = 0 \<longleftrightarrow> list_all (\<lambda>c. c = CHR ''0'') s"
proof (induction s rule: rev_induct)
  case (snoc c s)
  have "digit_value c = 0 \<longleftrightarrow> c = CHR ''0''"
    using snoc.prems digit_value_inj [of c "CHR ''0''"] by (auto simp: digit_value_def code_unit_def)
  then show ?case using snoc by (simp add: text_nat_snoc)
qed simp

lemma nonzero_digits:
  assumes "\<forall>c\<in>set s. is_digit c"
  shows "list_ex (\<lambda>c. CHR ''1'' \<le> c \<and> c \<le> CHR ''9'') s \<longleftrightarrow> text_nat s \<noteq> 0"
proof -
  have "CHR ''1'' \<le> c \<and> c \<le> CHR ''9'' \<longleftrightarrow> c \<noteq> CHR ''0''" if "is_digit c" for c
  proof -
    have d: "is_digit CHR ''1''" "is_digit CHR ''9''" "digit_value CHR ''1'' = 1" "digit_value CHR ''9'' = 9"
      "digit_value CHR ''0'' = 0" by (simp_all add: is_digit_def digit_value_def code_unit_def)
    have "digit_value c < 10" using that by (rule digit_value_bound)
    then have "CHR ''1'' \<le> c \<and> c \<le> CHR ''9'' \<longleftrightarrow> digit_value c \<noteq> 0"
      using digit_less_iff [OF that d(1)] digit_less_iff [OF d(2) that] d by (simp add: not_less [symmetric])
    then show ?thesis using digit_value_inj [OF that digit_zero] d(5) by auto
  qed
  then show ?thesis using assms zero_digits [OF assms] by (auto simp: list_ex_iff list_all_iff)
qed

text \<open>Moving the point keeps the number.\<close>

lemma shifted_value:
  assumes "shifted (ds @ fs) (int (length ds) + e) = (D, p)" "\<bar>e\<bar> \<le> 30" "\<forall>c\<in>set (ds @ fs). is_digit c"
  shows "p \<le> length D" "\<forall>c\<in>set D. is_digit c"
    "text_nat D * 10 ^ (length fs + 30) = text_nat (ds @ fs) * 10 ^ nat (e + 30) * 10 ^ (length D - p)"
proof -
  show "p \<le> length D" "\<forall>c\<in>set D. is_digit c"
    using assms by (auto simp: shifted_def split: if_splits)
  consider (left) "int (length ds) + e < 0" | (inside) "0 \<le> int (length ds) + e" "e \<le> int (length fs)"
    | (right) "int (length fs) < e" by linarith
  then show "text_nat D * 10 ^ (length fs + 30) = text_nat (ds @ fs) * 10 ^ nat (e + 30) * 10 ^ (length D - p)"
  proof cases
    case left
    then have D: "text_nat D = text_nat (ds @ fs)" "p = 0" "int (length D) = int (length fs) - e"
      using assms(1) by (auto simp: shifted_def)
    then have "length fs + 30 = nat (e + 30) + (length D - p)" using assms(2) by linarith
    then show ?thesis using D(1) by (simp add: power_add)
  next
    case inside
    then have D: "D = ds @ fs" "int p = int (length ds) + e"
      using assms(1) by (auto simp: shifted_def split: if_splits)
    then have "length fs + 30 = nat (e + 30) + (length D - p)" using assms(2) inside by simp
    then show ?thesis using D(1) by (simp only: power_add mult.assoc)
  next
    case right
    define k where "k = nat e - length fs"
    have D: "D = (ds @ fs) @ replicate k CHR ''0''" "p = length D"
      using assms(1) right by (auto simp: shifted_def k_def split: if_splits)
    have "text_nat (replicate k CHR ''0'') = 0" using text_nat_zeros [of k "[]"] by simp
    then have "text_nat D = text_nat (ds @ fs) * 10 ^ k" using D(1) by (simp add: text_nat_append power_add algebra_simps)
    moreover have "k + (length fs + 30) = nat (e + 30)" using right by (simp add: k_def)
    ultimately show ?thesis using D(2) by (simp add: power_add [symmetric] mult.assoc)
  qed
qed

section \<open>Properties\<close>

lemma hundred: "2 < k \<Longrightarrow> (10 :: nat) ^ k = 100 * 10 ^ (k - 2)"
proof -
  assume "2 < k"
  then obtain j where "k = 2 + j" by (metis le_Suc_ex less_imp_le)
  then show ?thesis by (simp add: power_add)
qed

text \<open>A number cell is turned into money exactly when its number, digits times the power of ten its point
  and exponent say, is a whole number of cents; the text then reads back as exactly those cents. A
  fraction of a cent is refused, never rounded.\<close>

theorem number_cell_exact:
  fixes cell
  assumes "cell_parts (trim cell) = Some (neg, ds, fs, e)" "\<bar>e\<bar> \<le> 30"
  defines "n \<equiv> int (text_nat (ds @ fs)) * 10 ^ nat (e + 32)"
  shows "((\<exists>m. numberCellToMoneyText cell = Inr m) \<longleftrightarrow> 10 ^ (length fs + 30) dvd n) \<and>
    (\<forall>m c. numberCellToMoneyText cell = Inr m \<and> c * 10 ^ (length fs + 30) = (if neg then - n else n) \<and> safe_int c \<longrightarrow>
       parseMoneyToCents m = Inr c)"
proof -
  have digits: "\<forall>c\<in>set (ds @ fs). is_digit c" using cell_parts_digits [OF assms(1)] by auto
  have safe: "safe_int e" using assms(2) by (simp add: safe_int_def max_safe_def)
  obtain D p where D: "shifted (ds @ fs) (int (length ds) + e) = (D, p)" by (metis surj_pair)
  note sv = shifted_value [OF D assms(2) digits]
  define W where "W = (let w = drop_zeros (take p D) in if w = [] then ''0'' else w)"
  define F where "F = drop p D"
  define F2 where "F2 = pad_end 2 CHR ''0'' (if length F > 2 then take 2 F else F)"
  have digF: "\<forall>c\<in>set F. is_digit c" using sv(2) by (auto simp: F_def dest: in_set_dropD)
  have digF2: "\<forall>c\<in>set F2. is_digit c" "length F2 = 2"
    using digF by (auto simp: F2_def pad_end_def dest: in_set_takeD split: if_splits)
  have digW: "\<forall>c\<in>set W. is_digit c" "W \<noteq> []"
    using sv(2) set_drop_zeros [of "take p D"] by (auto simp: W_def Let_def dest: in_set_takeD)
  have valW: "text_nat W = text_nat (take p D)"
    using drop_zeros_value [of "take p D"] by (auto simp: W_def Let_def text_nat_def digit_value_def code_unit_def)
  have valD: "text_nat D = text_nat W * 10 ^ length F + text_nat F"
    using text_nat_append [of "take p D" "drop p D"] by (simp add: valW F_def)
  have lenF: "length F = length D - p" by (simp add: F_def)
  define k where "k = length fs + 30"
  define N where "N = text_nat (ds @ fs)"
  define M where "M = text_nat (W @ F2)"
  define zeros where "zeros = list_all (\<lambda>c. c = CHR ''0'') (drop 2 F)"
  have nonzero: "list_ex (\<lambda>c. CHR ''1'' \<le> c \<and> c \<le> CHR ''9'') (W @ F2) \<longleftrightarrow> M \<noteq> 0"
    unfolding M_def by (rule nonzero_digits) (use digW digF2 in auto)
  have result: "numberCellToMoneyText cell = (if 2 < length F \<and> \<not> zeros
      then Inl (RangeError ''a digit past the cents that is not 0 is not rounded'')
      else Inr ((if neg \<and> M \<noteq> 0 then ''-'' else []) @ W @ ''.'' @ F2))"
    using assms(2) unfolding numberCellToMoneyText_def assms(1) option.case prod.case Let_def D F_def [symmetric]
      F2_def [symmetric] W_def [symmetric, unfolded Let_def] nonzero zeros_def
    by (auto simp: safe)
  have scaled: "text_nat D * 10 ^ k = N * 10 ^ nat (e + 30) * 10 ^ length F"
    using sv(3) by (simp add: k_def N_def lenF)
  have "nat (e + 32) = nat (e + 30) + 2" using assms(2) by linarith
  then have n: "n = int (N * 10 ^ nat (e + 30) * 100)" by (simp add: n_def N_def power_add)
  have F_split: "F = take 2 F @ drop 2 F" "\<forall>c\<in>set (drop 2 F). is_digit c"
    using digF by (simp_all add: in_set_dropD)
  have zeros: "zeros \<longleftrightarrow> text_nat (drop 2 F) = 0"
    using zero_digits [OF F_split(2)] by (simp add: zeros_def)
  have exact: "M * 10 ^ k = N * 10 ^ nat (e + 30) * 100" if "\<not> (2 < length F \<and> \<not> zeros)"
  proof -
    have "M * 10 ^ length F = text_nat D * 100"
    proof (cases "2 < length F")
      case True
      then have "F2 = take 2 F" by (simp add: F2_def pad_end_def)
      moreover have "text_nat F = text_nat (take 2 F) * 10 ^ (length F - 2)"
        using that True zeros text_nat_append [of "take 2 F" "drop 2 F"] by simp
      moreover have "(10 :: nat) ^ length F = 100 * 10 ^ (length F - 2)"
        using True by (rule hundred)
      ultimately show ?thesis using valD digF2(2) by (simp add: M_def text_nat_append algebra_simps)
    next
      case False
      then have "F2 = F @ replicate (2 - length F) CHR ''0''" by (simp add: F2_def pad_end_def)
      moreover have "text_nat (replicate j CHR ''0'') = 0" for j using text_nat_zeros [of j "[]"] by simp
      moreover have "(10 :: nat) ^ (2 - length F) * 10 ^ length F = 100"
        using False power_add [of "10 :: nat" "2 - length F" "length F"] by simp
      ultimately show ?thesis using valD digF2(2) by (simp add: M_def text_nat_append algebra_simps)
    qed
    then have "M * 10 ^ length F * 10 ^ k = text_nat D * 10 ^ k * 100" by (simp only: ac_simps)
    also have "\<dots> = N * 10 ^ nat (e + 30) * 10 ^ length F * 100" by (simp only: scaled)
    finally have "(M * 10 ^ k) * 10 ^ length F = (N * 10 ^ nat (e + 30) * 100) * 10 ^ length F" by (simp only: ac_simps)
    then show ?thesis by (rule mult_right_cancel [THEN iffD1, rotated]) simp
  qed
  have kept: "\<not> (2 < length F \<and> \<not> zeros)" if "(10 :: int) ^ k dvd n"
  proof
    assume over: "2 < length F \<and> \<not> zeros"
    have "int (10 ^ k) dvd int (N * 10 ^ nat (e + 30) * 100)" using that unfolding n by simp
    then have "10 ^ k dvd N * 10 ^ nat (e + 30) * 100" by (simp only: int_dvd_int_iff)
    then obtain j where j: "N * 10 ^ nat (e + 30) * 100 = 10 ^ k * j" by (rule dvdE)
    have "10 ^ k * (j * 10 ^ length F) = N * 10 ^ nat (e + 30) * 100 * 10 ^ length F" unfolding j by (simp only: ac_simps)
    also have "\<dots> = 100 * (text_nat D * 10 ^ k)" unfolding scaled by (simp only: ac_simps)
    finally have "10 ^ k * (j * 10 ^ length F) = 10 ^ k * (100 * text_nat D)" by (simp only: ac_simps)
    then have "j * 10 ^ length F = 100 * text_nat D" by (rule mult_left_cancel [THEN iffD1, rotated]) simp
    moreover have "(10 :: nat) ^ length F = 100 * 10 ^ (length F - 2)"
      using over by (blast intro: hundred)
    ultimately have "text_nat D = j * 10 ^ (length F - 2)" by simp
    moreover have "text_nat D = (text_nat W * 100 + text_nat (take 2 F)) * 10 ^ (length F - 2) + text_nat (drop 2 F)"
      using valD text_nat_append [of "take 2 F" "drop 2 F"] \<open>(10 :: nat) ^ length F = 100 * 10 ^ (length F - 2)\<close>
      by (simp add: algebra_simps)
    ultimately have "10 ^ (length F - 2) dvd text_nat (drop 2 F)"
      by (metis dvd_add_right_iff dvd_triv_right)
    moreover have "text_nat (drop 2 F) < 10 ^ (length F - 2)" using text_nat_bound [OF F_split(2)] by simp
    ultimately have "text_nat (drop 2 F) = 0" using nat_dvd_not_less by (metis gr0I)
    with over zeros show False by blast
  qed
  have "(\<exists>m. numberCellToMoneyText cell = Inr m) \<longleftrightarrow> (10 :: int) ^ k dvd n"
  proof
    assume "\<exists>m. numberCellToMoneyText cell = Inr m"
    then have "\<not> (2 < length F \<and> \<not> zeros)" by (auto simp: result split: if_splits)
    then have "n = int (M * 10 ^ k)" unfolding n by (rule arg_cong [OF exact [symmetric]])
    then show "(10 :: int) ^ k dvd n" by simp
  qed (use kept in \<open>auto simp: result\<close>)
  moreover have "parseMoneyToCents m = Inr c"
    if m: "numberCellToMoneyText cell = Inr m" and c: "c * 10 ^ k = (if neg then - n else n)" "safe_int c" for m c
  proof -
    have ok: "\<not> (2 < length F \<and> \<not> zeros)" and printed: "m = (if neg \<and> M \<noteq> 0 then ''-'' else []) @ W @ ''.'' @ F2"
      using m by (auto simp: result split: if_splits)
    have "n = int (M * 10 ^ k)" unfolding n by (rule arg_cong [OF exact [OF ok, symmetric]])
    then have "n = int M * 10 ^ k" by simp
    then have "c * 10 ^ k = (if neg then - int M else int M) * 10 ^ k" using c(1) by simp
    then have "c = (if neg then - int M else int M)" by simp
    then have "c = (if neg \<and> M \<noteq> 0 then - int M else int M)" by simp
    then show ?thesis
      using read_plain [OF digW digF2, of "neg \<and> M \<noteq> 0"] c(2) unfolding printed M_def [symmetric] by simp
  qed
  ultimately show ?thesis unfolding k_def by blast
qed

lemma number_cell_exact_witness:
  "cell_parts (trim ''1.2345E3'') = Some (False, ''1'', ''2345'', 3) \<and>
   numberCellToMoneyText ''1.2345E3'' = Inr ''1234.50'' \<and> parseMoneyToCents ''1234.50'' = Inr 123450 \<and>
   (\<forall>m. numberCellToMoneyText ''0.125'' \<noteq> Inr m)"
proof -
  have p: "cell_parts (trim ''1.2345E3'') = Some (False, ''1'', ''2345'', 3)"
    "cell_parts (trim ''0.125'') = Some (False, ''0'', ''125'', 0)"
    "numberCellToMoneyText ''1.2345E3'' = Inr ''1234.50''" by code_simp+
  have v: "text_nat (''1'' @ ''2345'') = 12345" "text_nat (''0'' @ ''125'') = 125"
    by (simp_all add: text_nat_def digit_value_def code_unit_def)
  show ?thesis
    using p number_cell_exact [OF p(1)] number_cell_exact [OF p(2)] unfolding v
    by (auto simp: safe_int_def max_safe_def)
qed

end
