(* ===== verification/Letter_Budget.thy ===== *)
theory Letter_Budget
  imports Packet
begin

text \<open>
  The budget of \<open>NARRATIVE_BUDGET_WITHOUT_RATIONALE\<close> in \<open>packages/core-domain/src/packet.ts\<close>: whether a
  rationale of at most \<open>MAX_RATIONALE_LENGTH\<close> characters always fits the letter. It does when the
  enclosures print no digest; with digests, values within every cap make a letter that is refused.
\<close>

section \<open>Lengths\<close>

lemma length_join: "ls \<noteq> [] \<Longrightarrow> length (join sep ls) = sum_list (map length ls) + length sep * (length ls - 1)"
  by (induction sep ls rule: join.induct) auto

lemma length_group_rev: "length (group_rev s) = length s + (length s - 1) div 3"
  by (induction s rule: group_rev.induct) auto

lemma length_formatCents: "safe_int a \<Longrightarrow> length (formatCents a) \<le> 24"
proof -
  assume "safe_int a"
  then have "\<bar>a\<bar> div 100 < 10 ^ 14" by (simp add: safe_int_def max_safe_def)
  then have "nat (\<bar>a\<bar> div 100) < 10 ^ 14" by (simp add: nat_less_iff)
  then have "length (nat_text (nat (\<bar>a\<bar> div 100))) \<le> 14" by (intro length_nat_text_less) simp_all
  then have "length (thousands (nat (\<bar>a\<bar> div 100))) \<le> 18"
  proof -
    have "(l - 1) div 3 \<le> 4" if "l \<le> 14" for l :: nat
      using that div_le_mono [of "l - 1" 13 3] by simp
    then have "l + (l - 1) div 3 \<le> 18" if "l \<le> 14" for l :: nat using that by fastforce
    then show ?thesis using \<open>length (nat_text (nat (\<bar>a\<bar> div 100))) \<le> 14\<close>
      unfolding thousands_def length_rev length_group_rev by blast
  qed
  moreover have "length (pad_start 2 CHR ''0'' (nat_text (nat (\<bar>a\<bar> mod 100)))) = 2"
    by (intro length_pad_start length_nat_text_less) simp_all
  ultimately show ?thesis
    by (cases "a < 0") (simp_all add: formatCents_def Let_def abs_of_neg abs_of_nonneg)
qed

lemma length_letter_line: "(\<And>v. value = Some v \<Longrightarrow> length v \<le> n) \<Longrightarrow>
    length (letter_line label value) \<le> length label + 2 + max n 14"
  by (auto simp: letter_line_def NOT_RECORDED_def max_def split: option.splits)

lemma shown_None: "\<not> shown None"
  by (simp add: shown_def)

section \<open>The caps\<close>

definition capped :: "nat \<Rightarrow> string option \<Rightarrow> bool" where
  "capped n v \<longleftrightarrow> (case v of None \<Rightarrow> True | Some s \<Rightarrow> length s \<le> n)"

text \<open>The parts of the budget's table, with no findings, payer's terms or checklist, which it does not name.\<close>

definition within_caps :: "PacketNarrativeInput \<Rightarrow> bool" where
  "within_caps i \<longleftrightarrow> length (trim (pn_supplier i)) \<le> 200 \<and> capped 500 (pn_payer i) \<and> capped 200 (pn_claimId i) \<and>
     length (letter_invoices (pn_invoiceNumbers i)) \<le> INVOICE_NUMBERS_BUDGETED \<and>
     (\<forall>n\<in>set (pn_invoiceNumbers i). length n \<le> 200) \<and>
     capped 10 (pn_deductionDate i) \<and> capped 10 (pn_disputeDeadline i) \<and>
     length (trim (pn_rationale i)) \<le> MAX_RATIONALE_LENGTH \<and> length (pn_documents i) \<le> 25 \<and>
     (\<forall>d\<in>set (pn_documents i). length (pd_filename d) \<le> 255) \<and>
     pn_findings i = None \<and> pn_payerReasonCode i = None \<and> pn_deductionReference i = None \<and> pn_evidenceChecklist i = None"

lemma length_invoice_line:
  assumes "length (letter_invoices ns) \<le> 10" "\<forall>n\<in>set ns. length n \<le> 200"
  shows "length (invoice_line (letter_invoices ns)) \<le> 2035"
proof -
  define ms where "ms = letter_invoices ns"
  have each: "\<forall>n\<in>set ms. length n \<le> 200" using assms(2) by (auto simp: ms_def letter_invoices_def)
  then have "sum_list (map length ms) \<le> length ms * 200"
    by (induction ms) auto
  moreover have "length (invoice_line ms) \<le> 17 + max (sum_list (map length ms) + 2 * (length ms - 1)) 214"
    using each length_letter_line [of "case ms of [] \<Rightarrow> None | n # _ \<Rightarrow> Some n" 200 "''Invoice number''"]
    by (cases ms) (auto simp: invoice_line_def length_join split: option.splits)
  ultimately show ?thesis using assms(1) unfolding ms_def [symmetric] by linarith
qed

lemma length_enclosed_line:
  assumes "n < 99" "length (pd_filename d) \<le> 255" "pd_sha256 d = None"
  shows "length (enclosed_line n d) \<le> 282"
proof -
  have "length (nat_text (n + 1)) \<le> 2" using assms(1) by (intro length_nat_text_less) simp_all
  moreover have "length (ENCLOSURE_ROLE_WORDS (pd_role d)) \<le> 19" by (cases "pd_role d") simp_all
  ultimately show ?thesis using assms(2,3) by (simp add: enclosed_line_def)
qed

lemma length_enclosures:
  assumes "k + length ds \<le> 99" "\<forall>d\<in>set ds. length (pd_filename d) \<le> 255 \<and> pd_sha256 d = None"
  shows "(\<Sum>(n, d)\<leftarrow>enumerate k ds. length (enclosed_line n d)) \<le> length ds * 282"
  using assms
proof (induction ds arbitrary: k)
  case (Cons d ds)
  have "length (enclosed_line k d) \<le> 282" using Cons.prems by (intro length_enclosed_line) auto
  moreover have "(\<Sum>(n, d)\<leftarrow>enumerate (Suc k) ds. length (enclosed_line n d)) \<le> length ds * 282"
    using Cons.prems by (intro Cons.IH) auto
  ultimately show ?case by simp
qed simp

lemma letter_inputs_plain:
  assumes "letter_inputs i = Inr (p, findings)" "within_caps i"
  shows "findings = []" "lt_checklist p = []" "lt_payerCode p = None" "lt_reference p = None"
    "length (lt_words p) \<le> 100" "length (lt_amount p) \<le> 24"
proof -
  show "findings = []" "lt_checklist p = []" "lt_payerCode p = None" "lt_reference p = None"
    using assms by (auto simp: letter_inputs_def bind_res_Inr_iff within_caps_def optional_plain_def split: option.splits if_splits)
  show "length (lt_words p) \<le> 100"
    using letter_inputs_Inr(4) [OF assms(1)] reason_words_short by (auto simp: reasonInWords_def REASON_WORDS_MAX_LENGTH_def)
  show "length (lt_amount p) \<le> 24"
    using assms(1) length_formatCents
    by (auto simp: letter_inputs_def bind_res_Inr_iff split: option.splits if_splits elim!: cents.elims)
qed

section \<open>Properties\<close>

text \<open>With every value within its cap and no digests printed, a letter is never refused for its length: it is
  built whenever its inputs are accepted, with the longest rationale a store takes.\<close>

theorem letter_always_fits:
  assumes "within_caps i" "\<forall>d\<in>set (pn_documents i). pd_sha256 d = None"
  shows "(\<exists>t. buildPacketNarrative i = Inr t) \<longleftrightarrow> (\<exists>p. letter_inputs i = Inr p)"
proof
  assume "\<exists>p. letter_inputs i = Inr p"
  then obtain p findings where i: "letter_inputs i = Inr (p, findings)" by (metis surj_pair)
  note plain = letter_inputs_plain [OF i assms(1)] and facts = letter_inputs_Inr [OF i]
  have caps: "length (lt_supplier p) \<le> 200" "length (lt_rationale p) \<le> 8872" "length (pn_documents i) \<le> 25"
    using assms(1) facts by (simp_all add: within_caps_def MAX_RATIONALE_LENGTH_def MAX_NARRATIVE_LENGTH_def
        NARRATIVE_BUDGET_WITHOUT_RATIONALE_def FIXED_TEXT_BUDGET_def INVOICE_NUMBERS_BUDGETED_def REASON_WORDS_MAX_LENGTH_def)
  have invoices: "length (invoice_line (letter_invoices (pn_invoiceNumbers i))) \<le> 2035"
    using assms(1) by (intro length_invoice_line) (simp_all add: within_caps_def INVOICE_NUMBERS_BUDGETED_def)
  have lines: "length (letter_line ''To'' (pn_payer i)) \<le> 504"
    "length (letter_line ''Claim or deduction reference'' (pn_claimId i)) \<le> 230"
    "length (letter_line ''Deduction date'' (pn_deductionDate i)) \<le> 30"
    using length_letter_line [of "pn_payer i" 500 "''To''"]
      length_letter_line [of "pn_claimId i" 200 "''Claim or deduction reference''"]
      length_letter_line [of "pn_deductionDate i" 10 "''Deduction date''"] assms(1)
    by (auto simp: within_caps_def capped_def split: option.splits)
  have deadline: "shown (pn_disputeDeadline i) \<Longrightarrow> length (the (pn_disputeDeadline i)) \<le> 10"
    using assms(1) by (auto simp: within_caps_def capped_def shown_def split: option.splits)
  have enclosures: "(\<Sum>(n, d)\<leftarrow>enumerate 0 (pn_documents i). length (enclosed_line n d)) \<le> 25 * 282"
    using length_enclosures [of 0 "pn_documents i"] assms caps(3) by (simp add: within_caps_def)
  have sums: "sum_list (map (length \<circ> (\<lambda>(n, d). enclosed_line n d)) xs) = (\<Sum>(n, d)\<leftarrow>xs. length (enclosed_line n d))" for xs
    by (rule arg_cong [where f = sum_list]) (auto simp: case_prod_unfold)
  have "length (compose i p []) \<le> 20000"
    using caps plain(5,6) invoices lines deadline enclosures
    by (cases "shown (pn_disputeDeadline i)")
      (simp_all add: compose_def length_join letter_lines_def plain(1-4) sums shown_None)
  then have "length (fitted i p (numbered findings)) \<le> MAX_NARRATIVE_LENGTH"
    by (simp add: fitted_def plain(1-4) numbered_def MAX_NARRATIVE_LENGTH_def)
  then show "\<exists>t. buildPacketNarrative i = Inr t" by (simp add: buildPacketNarrative_def i Let_def)
qed (auto simp: buildPacketNarrative_def bind_res_Inr_iff)

lemma letter_always_fits_witness:
  "within_caps sample_letter \<and> (\<exists>t. buildPacketNarrative sample_letter = Inr t)"
proof -
  have "letter_invoices [''7''] = [''7'']" "trim '' Acme '' = ''Acme''" "trim ''Delivered in full.'' = ''Delivered in full.''"
    by code_simp+
  then have caps: "within_caps sample_letter"
    by (simp add: within_caps_def sample_letter_def capped_def MAX_RATIONALE_LENGTH_def MAX_NARRATIVE_LENGTH_def
        NARRATIVE_BUDGET_WITHOUT_RATIONALE_def FIXED_TEXT_BUDGET_def INVOICE_NUMBERS_BUDGETED_def REASON_WORDS_MAX_LENGTH_def)
  have "\<not> isl (letter_inputs sample_letter)" by code_simp
  then have "\<exists>p. letter_inputs sample_letter = Inr p" by (cases "letter_inputs sample_letter") auto
  then show ?thesis using letter_always_fits [OF caps] caps by (simp add: sample_letter_def)
qed

text \<open>The digests the enclosures may print are not in the budget: twenty-five enclosures with digests, and the
  other values at their caps, make a letter past the record's length.\<close>

definition long_letter :: PacketNarrativeInput where
  "long_letter = \<lparr>pn_supplier = replicate 200 CHR ''s'', pn_claimId = Some (replicate 200 CHR ''c''),
     pn_payer = Some (replicate 500 CHR ''p''),
     pn_invoiceNumbers = map (\<lambda>c. c # replicate 199 CHR ''x'') ''abcdefghij'',
     pn_deductionAmountCents = Whole 12345, pn_deductionDate = None, pn_disputeDeadline = None,
     pn_reason = ''shortage_quantity'', pn_rationale = replicate 8872 CHR ''r'',
     pn_documents = replicate 25 \<lparr>pd_role = Role_Evidence, pd_filename = replicate 255 CHR ''f'',
       pd_sha256 = Some (replicate 64 CHR ''0''), pd_docType = None\<rparr>,
     pn_findings = None, pn_payerReasonCode = None, pn_deductionReference = None, pn_evidenceChecklist = None\<rparr>"

lemma trim_replicate: "\<not> is_ws c \<Longrightarrow> trim (replicate n c) = replicate n c"
  by (rule trim_no_ws) simp

lemma letters_not_ws: "\<not> is_ws CHR ''s''" "\<not> is_ws CHR ''r''" "\<not> is_ws CHR ''f''" "\<not> is_ws CHR ''x''"
  by (simp_all add: is_ws_def code_unit_def)

lemma long_letter_invoices:
  "mset (letter_invoices (pn_invoiceNumbers long_letter)) = mset (map (\<lambda>c. c # replicate 199 CHR ''x'') ''abcdefghij'')"
proof -
  have "trim (c # replicate 199 CHR ''x'') \<noteq> []" if "c \<in> set ''abcdefghij''" for c
  proof -
    have "\<not> is_ws c" using that by (auto simp: is_ws_def code_unit_def)
    then have "trim (c # replicate 199 CHR ''x'') = c # replicate 199 CHR ''x''"
      using letters_not_ws by (intro trim_no_ws) auto
    then show ?thesis by simp
  qed
  then have "filter (\<lambda>n. trim n \<noteq> []) (map (\<lambda>c. c # replicate 199 CHR ''x'') ''abcdefghij'') =
      map (\<lambda>c. c # replicate 199 CHR ''x'') ''abcdefghij''"
    by (intro filter_True) auto
  moreover have "distinct (map (\<lambda>c. c # replicate 199 CHR ''x'') ''abcdefghij'')" by (simp add: distinct_map inj_on_def)
  ultimately show ?thesis by (simp add: letter_invoices_def long_letter_def dedupe_distinct del: list.map filter.simps)
qed

lemma long_letter_capped: "within_caps long_letter"
proof -
  have "length (letter_invoices (pn_invoiceNumbers long_letter)) = 10"
    using arg_cong [OF long_letter_invoices, of size] by simp
  then show ?thesis
    by (simp add: within_caps_def long_letter_def capped_def trim_replicate letters_not_ws MAX_RATIONALE_LENGTH_def
        MAX_NARRATIVE_LENGTH_def NARRATIVE_BUDGET_WITHOUT_RATIONALE_def FIXED_TEXT_BUDGET_def
        INVOICE_NUMBERS_BUDGETED_def REASON_WORDS_MAX_LENGTH_def)
qed

lemma long_enclosures:
  assumes "\<forall>d\<in>set ds. length (pd_filename d) = 255 \<and> (\<exists>h. pd_sha256 d = Some h \<and> length h = 64)"
  shows "length ds * 339 \<le> (\<Sum>(n, d)\<leftarrow>enumerate k ds. length (enclosed_line n d))"
  using assms
proof (induction ds arbitrary: k)
  case (Cons d ds)
  have "5 \<le> length (ENCLOSURE_ROLE_WORDS (pd_role d))" by (cases "pd_role d") simp_all
  then have "339 \<le> length (enclosed_line k d)" using Cons.prems by (auto simp: enclosed_line_def)
  moreover have "length ds * 339 \<le> (\<Sum>(n, d)\<leftarrow>enumerate (Suc k) ds. length (enclosed_line n d))"
    using Cons.prems by (intro Cons.IH) auto
  ultimately show ?case by simp
qed simp

lemma long_letter_inputs: "\<exists>p. letter_inputs long_letter = Inr (p, [])"
proof -
  have "code_of_text ''shortage_quantity'' \<noteq> None" by code_simp
  then obtain code where "code_of_text ''shortage_quantity'' = Some code" by auto
  moreover have "sha256_hex (replicate 64 CHR ''0'')" by code_simp
  then have "map_res check_document (pn_documents long_letter) = Inr (replicate 25 ())"
    by (simp add: long_letter_def map_res_Inr_iff check_document_def trim_replicate letters_not_ws list_all2_conv_all_nth)
  ultimately show ?thesis
    by (simp add: letter_inputs_def trim_replicate letters_not_ws long_letter_def optional_plain_def safe_int_def max_safe_def)
qed

lemma long_letter_invoice_line: "length (invoice_line (letter_invoices (pn_invoiceNumbers long_letter))) = 2035"
proof -
  define ms where "ms = letter_invoices (pn_invoiceNumbers long_letter)"
  have m: "mset ms = mset (map (\<lambda>c. c # replicate 199 CHR ''x'') ''abcdefghij'')"
    using long_letter_invoices by (simp add: ms_def)
  have "sum_mset (image_mset length (mset ms)) = 2000" unfolding m by simp
  then have "sum_list (map length ms) = 2000" by (simp add: sum_mset_sum_list [symmetric] del: sum_mset_sum_list)
  moreover have "length ms = 10" using arg_cong [OF m, of size] by simp
  moreover have "ms \<noteq> []" using \<open>length ms = 10\<close> by auto
  ultimately show ?thesis by (simp add: ms_def [symmetric] invoice_line_def length_join)
qed

lemma length_compose_ge:
  assumes "lt_checklist p = []" "lt_payerCode p = None" "lt_reference p = None"
  shows "2 * length (lt_supplier p) + length (letter_line ''To'' (pn_payer i)) +
      length (letter_line ''Claim or deduction reference'' (pn_claimId i)) +
      length (invoice_line (letter_invoices (pn_invoiceNumbers i))) + length (lt_rationale p) +
      (\<Sum>(n, d)\<leftarrow>enumerate 0 (pn_documents i). length (enclosed_line n d)) + 100 \<le> length (compose i p [])"
proof -
  have sums: "sum_list (map (length \<circ> (\<lambda>(n, d). enclosed_line n d)) xs) = (\<Sum>(n, d)\<leftarrow>xs. length (enclosed_line n d))" for xs
    by (rule arg_cong [where f = sum_list]) (auto simp: case_prod_unfold)
  show ?thesis by (simp add: compose_def length_join letter_lines_def assms sums shown_None)
qed

theorem letter_budget_overrun:
  "within_caps long_letter \<and> \<not> isl (letter_inputs long_letter) \<and> isl (buildPacketNarrative long_letter)"
proof -
  obtain p where i: "letter_inputs long_letter = Inr (p, [])" using long_letter_inputs by auto
  note plain = letter_inputs_plain [OF i long_letter_capped] and facts = letter_inputs_Inr [OF i]
  have sizes: "length (lt_supplier p) = 200" "length (lt_rationale p) = 8872"
    unfolding facts(1,2) by (simp_all add: long_letter_def trim_replicate letters_not_ws)
  have payer: "length (letter_line ''To'' (pn_payer long_letter)) = 504"
    by (simp add: letter_line_def long_letter_def)
  have claim: "length (letter_line ''Claim or deduction reference'' (pn_claimId long_letter)) = 230"
    by (simp add: letter_line_def long_letter_def)
  have documents: "\<forall>d\<in>set (pn_documents long_letter). length (pd_filename d) = 255 \<and>
      (\<exists>h. pd_sha256 d = Some h \<and> length h = 64)" "length (pn_documents long_letter) = 25"
    by (simp_all add: long_letter_def)
  have "25 * 339 \<le> (\<Sum>(n, d)\<leftarrow>enumerate 0 (pn_documents long_letter). length (enclosed_line n d))"
    using long_enclosures [OF documents(1), of 0] unfolding documents(2) .
  then have "20000 < length (compose long_letter p [])"
    using length_compose_ge [OF plain(2-4), of long_letter] sizes payer claim long_letter_invoice_line by linarith
  then show ?thesis using long_letter_capped
    by (simp add: i buildPacketNarrative_def fitted_def numbered_def MAX_NARRATIVE_LENGTH_def)
qed

end
