(* ===== verification/Doubles.thy ===== *)
theory Doubles
  imports Invariants Money
begin

text \<open>
  The doubles of the language, as the rationals they stand for with the special values: the rounding to
  nearest, ties to even, with 53 binary digits and the exponents of a double, and the arithmetic
  that rounds once after each operation. Zero has no sign here. The lemmas show the error of a
  rounding, that whole numbers in the safe range are exact, and that the quotient of two safe whole
  numbers has the floor of the exact one.
\<close>

section \<open>Doubles\<close>

definition half_even :: "rat \<Rightarrow> int" where
  "half_even x = (let q = \<lfloor>x\<rfloor>; r = x - of_int q in
     if r < 1 / 2 \<or> r = 1 / 2 \<and> even q then q else q + 1)"

text \<open>A positive magnitude scaled by a power of two into the range of 53-digit integers, or as far down
  as the smallest exponent.\<close>

function grown :: "rat \<Rightarrow> int \<Rightarrow> rat \<times> int" where
  "grown a e = (if a < 2 ^ 52 \<and> - 1074 < e then grown (2 * a) (e - 1) else (a, e))"
  by pat_completeness auto
termination by (relation "measure (\<lambda>(a, e). nat (e + 1074))") auto

function shrunk :: "rat \<Rightarrow> int \<Rightarrow> rat \<times> int" where
  "shrunk a e = (if 2 ^ 53 \<le> a then shrunk (a / 2) (e + 1) else (a, e))"
  by pat_completeness auto
termination
proof (relation "measure (\<lambda>(a, e). nat \<lfloor>a\<rfloor>)")
  fix a :: rat and e :: int
  assume a: "2 ^ 53 \<le> a"
  have "\<lfloor>a / 2\<rfloor> < \<lfloor>a\<rfloor>"
  proof -
    have "\<lfloor>a / 2\<rfloor> \<le> \<lfloor>a - 1\<rfloor>" using a by (intro floor_mono) simp
    then show ?thesis by simp
  qed
  moreover have "0 < \<lfloor>a\<rfloor>" using a by simp
  ultimately show "((a / 2, e + 1), (a, e)) \<in> measure (\<lambda>(a, e). nat \<lfloor>a\<rfloor>)" by simp
qed simp

declare grown.simps [simp del] shrunk.simps [simp del]

definition scale :: "int \<Rightarrow> rat" where
  "scale e = (if 0 \<le> e then 2 ^ nat e else 1 / 2 ^ nat (- e))"

definition nearest_double :: "rat \<Rightarrow> rat" where
  "nearest_double x =
     (if x = 0 then 0 else
      let (a, e) = grown \<bar>x\<bar> 0; (m, k) = shrunk a e; y = of_int (half_even m) * scale k
      in if x < 0 then - y else y)"

section \<open>Arithmetic\<close>

definition to_double :: "rat \<Rightarrow> js_double" where
  "to_double x =
     (let y = nearest_double x
      in if 2 ^ 1024 \<le> y then PosInf else if y \<le> - (2 ^ 1024) then NegInf else Finite y)"

definition inf_of :: "bool \<Rightarrow> js_double" where
  "inf_of positive = (if positive then PosInf else NegInf)"

fun js_add :: "js_double \<Rightarrow> js_double \<Rightarrow> js_double" where
  "js_add (Finite a) (Finite b) = to_double (a + b)"
| "js_add NaN y = NaN"
| "js_add x NaN = NaN"
| "js_add PosInf y = (if y = NegInf then NaN else PosInf)"
| "js_add NegInf y = (if y = PosInf then NaN else NegInf)"
| "js_add (Finite a) y = y"

fun js_mul :: "js_double \<Rightarrow> js_double \<Rightarrow> js_double" where
  "js_mul (Finite a) (Finite b) = to_double (a * b)"
| "js_mul NaN y = NaN"
| "js_mul x NaN = NaN"
| "js_mul (Finite a) y = (if a = 0 then NaN else inf_of ((y = PosInf) = (0 < a)))"
| "js_mul x (Finite b) = (if b = 0 then NaN else inf_of ((x = PosInf) = (0 < b)))"
| "js_mul x y = inf_of (x = y)"

text \<open>A division by a positive zero; a negative one gives the other infinity.\<close>

fun js_div :: "js_double \<Rightarrow> js_double \<Rightarrow> js_double" where
  "js_div (Finite a) (Finite b) =
     (if b = 0 then (if a = 0 then NaN else inf_of (0 < a)) else to_double (a / b))"
| "js_div NaN y = NaN"
| "js_div x NaN = NaN"
| "js_div (Finite a) y = Finite 0"
| "js_div x (Finite b) = inf_of ((x = PosInf) = (0 \<le> b))"
| "js_div x y = NaN"

text \<open>\<open>Math.floor\<close>, as the number a check for an integer sees: a special value is none.\<close>

fun js_floor :: "js_double \<Rightarrow> js_number" where
  "js_floor (Finite v) = Whole \<lfloor>v\<rfloor>"
| "js_floor _ = NotWhole"

section \<open>Rounding\<close>

lemma half_even_error: "\<bar>of_int (half_even x) - x\<bar> \<le> 1 / 2"
proof -
  have "of_int \<lfloor>x\<rfloor> \<le> x" "x < of_int \<lfloor>x\<rfloor> + 1" by linarith+
  then show ?thesis by (auto simp: half_even_def Let_def)
qed

lemma scale_next: "scale (e + 1) = 2 * scale e"
proof (cases "0 \<le> e")
  case True
  then show ?thesis by (simp add: scale_def nat_add_distrib)
next
  case False
  define n where "n = nat (- e - 1)"
  have n: "nat (- e) = Suc n" "nat (- (e + 1)) = n" using False by (simp_all add: n_def)
  show ?thesis
  proof (cases "e = - 1")
    case True
    then show ?thesis by (simp add: scale_def)
  next
    case not: False
    then show ?thesis using False n by (simp add: scale_def)
  qed
qed

lemma scale_prev: "scale (e - 1) = scale e / 2"
  using scale_next [of "e - 1"] by simp

lemma scale_pos [simp]: "0 < scale e"
  by (simp add: scale_def)

lemma scale_mono: "d \<le> e \<Longrightarrow> scale d \<le> scale e"
proof (induction e rule: int_ge_induct)
  case (step e)
  moreover have "scale e \<le> scale (e + 1)" using scale_pos [of e] unfolding scale_next by linarith
  ultimately show ?case by linarith
qed simp

lemma scale_small: "scale e < scale d \<Longrightarrow> scale e \<le> scale d / 2"
proof -
  assume less: "scale e < scale d"
  have "e < d"
  proof (rule ccontr)
    assume "\<not> e < d"
    then have "scale d \<le> scale e" by (intro scale_mono) simp
    then show False using less by linarith
  qed
  then show "scale e \<le> scale d / 2" using scale_mono [of e "d - 1"] scale_prev [of d] by simp
qed

lemma grown_spec:
  "grown a e = (m, k) \<Longrightarrow> 0 < a \<Longrightarrow> m * scale k = a * scale e \<and> (2 ^ 52 \<le> m \<or> k \<le> - 1074)"
proof (induction a e arbitrary: m k rule: grown.induct)
  case (1 a e)
  show ?case
  proof (cases "a < 2 ^ 52 \<and> - 1074 < e")
    case True
    then have "grown (2 * a) (e - 1) = (m, k)" using 1(2) by (subst (asm) grown.simps) simp
    then have "m * scale k = 2 * a * scale (e - 1) \<and> (2 ^ 52 \<le> m \<or> k \<le> - 1074)"
      using 1(1) [OF True, of m k] 1(3) by simp
    then show ?thesis by (simp add: scale_prev)
  next
    case False
    then show ?thesis using 1(2) by (subst (asm) grown.simps) auto
  qed
qed

lemma shrunk_spec:
  "shrunk a e = (m, k) \<Longrightarrow> m * scale k = a * scale e \<and> (2 ^ 52 \<le> a \<longrightarrow> 2 ^ 52 \<le> m) \<and> (a < 2 ^ 53 \<longrightarrow> k = e)"
proof (induction a e arbitrary: m k rule: shrunk.induct)
  case (1 a e)
  show ?case
  proof (cases "2 ^ 53 \<le> a")
    case True
    then have "shrunk (a / 2) (e + 1) = (m, k)" using 1(2) by (subst (asm) shrunk.simps) simp
    then have "m * scale k = a / 2 * scale (e + 1) \<and> 2 ^ 52 \<le> m"
      using 1(1) [OF True, of m k] True by simp
    then show ?thesis using True by (simp add: scale_next)
  next
    case False
    then show ?thesis using 1(2) by (subst (asm) shrunk.simps) auto
  qed
qed

text \<open>A rounded value is a multiple of its unit in the last place, and its error at most half of it.\<close>

lemma nearest_unit:
  assumes "x \<noteq> 0"
  obtains k j where "nearest_double x = of_int j * scale k" "\<bar>nearest_double x - x\<bar> \<le> scale k / 2"
    "2 ^ 52 * scale k \<le> \<bar>x\<bar> \<or> k \<le> - 1074"
proof -
  obtain a e where g: "grown \<bar>x\<bar> 0 = (a, e)" by fastforce
  obtain m k where s: "shrunk a e = (m, k)" by fastforce
  have ge: "a * scale e = \<bar>x\<bar>" "2 ^ 52 \<le> a \<or> e \<le> - 1074"
    using grown_spec [OF g] assms by (simp_all add: scale_def)
  have sh: "m * scale k = \<bar>x\<bar>" "2 ^ 52 \<le> a \<Longrightarrow> 2 ^ 52 \<le> m" "a < 2 ^ 53 \<Longrightarrow> k = e"
    using shrunk_spec [OF s] ge(1) by auto
  have n: "nearest_double x = (if x < 0 then - (of_int (half_even m) * scale k) else of_int (half_even m) * scale k)"
    using assms by (simp add: nearest_double_def g s)
  have "\<bar>of_int (half_even m) * scale k - \<bar>x\<bar>\<bar> = \<bar>of_int (half_even m) - m\<bar> * scale k"
    by (simp add: sh(1) [symmetric] left_diff_distrib [symmetric] abs_mult abs_of_pos [OF scale_pos])
  also have "\<dots> \<le> 1 / 2 * scale k" by (intro mult_right_mono half_even_error) (simp add: less_imp_le)
  finally have "\<bar>nearest_double x - x\<bar> \<le> scale k / 2" unfolding n by (auto simp: abs_if split: if_splits)
  moreover have "2 ^ 52 * scale k \<le> \<bar>x\<bar> \<or> k \<le> - 1074"
  proof (cases "2 ^ 52 \<le> a")
    case True
    then have "2 ^ 52 * scale k \<le> m * scale k" using sh(2) by (intro mult_right_mono) (simp_all add: less_imp_le)
    then show ?thesis using sh(1) by simp
  next
    case False
    then show ?thesis using ge(2) sh(3) by simp
  qed
  moreover have "nearest_double x = of_int (if x < 0 then - half_even m else half_even m) * scale k"
    unfolding n by simp
  ultimately show ?thesis using that by blast
qed

lemma nearest_error:
  assumes "x \<noteq> 0"
  obtains k where "\<bar>nearest_double x - x\<bar> \<le> scale k / 2" "2 ^ 52 * scale k \<le> \<bar>x\<bar> \<or> k \<le> - 1074"
  using nearest_unit [OF assms] that by metis


section \<open>Whole numbers\<close>

lemma scale_nonpos: "k \<le> 0 \<Longrightarrow> \<exists>n::int. 0 < n \<and> scale k * of_int n = 1"
  by (rule exI [of _ "2 ^ nat (- k)"]) (auto simp: scale_def)

text \<open>A unit that is at most one divides every whole number.\<close>

lemma whole_multiple:
  assumes "k \<le> 0"
  obtains i :: int where "(of_int n :: rat) = of_int i * scale k"
proof -
  obtain m :: int where "scale k * of_int m = 1" using scale_nonpos [OF assms] by blast
  then have "(of_int n :: rat) = of_int (n * m) * scale k" by (simp add: algebra_simps)
  then show ?thesis by (rule that)
qed

lemma small_unit:
  assumes "2 ^ 52 * scale k \<le> \<bar>x\<bar> \<or> k \<le> - 1074" "\<bar>x\<bar> < 2 ^ 53"
  shows "k \<le> 0"
proof (rule ccontr)
  assume k: "\<not> k \<le> 0"
  then have "scale 1 \<le> scale k" by (intro scale_mono) simp
  then have "2 \<le> scale k" by (simp add: scale_def)
  then have "2 ^ 52 * 2 \<le> 2 ^ 52 * scale k" by (intro mult_left_mono) simp_all
  also have "2 ^ 52 * scale k \<le> \<bar>x\<bar>" using assms(1) k by simp
  finally have "2 ^ 52 * 2 \<le> \<bar>x\<bar>" .
  then show False using assms(2) by simp
qed

lemma multiples_close:
  assumes "\<bar>of_int j * s - of_int i * s\<bar> \<le> s / 2" "0 < (s::rat)"
  shows "j = i"
proof (rule ccontr)
  assume "j \<noteq> i"
  then have "1 \<le> \<bar>(of_int (j - i) :: rat)\<bar>" by simp
  then have "s \<le> \<bar>of_int (j - i)\<bar> * s" using assms(2) by simp
  also have "\<dots> = \<bar>of_int j * s - of_int i * s\<bar>"
    using assms(2) by (simp add: left_diff_distrib [symmetric] abs_mult)
  finally show False using assms by linarith
qed

lemma nearest_whole:
  assumes "safe_int n"
  shows "nearest_double (of_int n) = of_int n"
proof (cases "n = 0")
  case False
  then obtain k j where n: "nearest_double (of_int n) = of_int j * scale k"
    "\<bar>nearest_double (of_int n) - of_int n\<bar> \<le> scale k / 2" "2 ^ 52 * scale k \<le> \<bar>of_int n\<bar> \<or> k \<le> - 1074"
    by (metis nearest_unit of_int_eq_0_iff)
  have "\<bar>(of_int n :: rat)\<bar> < 2 ^ 53"
  proof -
    have "\<bar>n\<bar> < 2 ^ 53" using assms by (simp add: safe_int_def max_safe_def)
    then have "(of_int \<bar>n\<bar> :: rat) < of_int (2 ^ 53)" by (simp only: of_int_less_iff)
    then show ?thesis by simp
  qed
  then have "k \<le> 0" by (rule small_unit [OF n(3)])
  then obtain i where i: "(of_int n :: rat) = of_int i * scale k" by (rule whole_multiple)
  have "j = i" using n(1,2) i by (intro multiples_close [of j "scale k" i]) simp_all
  then show ?thesis using n(1) i by simp
qed (simp add: nearest_double_def)

lemma to_double_whole:
  assumes "safe_int n"
  shows "to_double (of_int n) = Finite (of_int n)"
proof -
  have "\<bar>n\<bar> < 2 ^ 1024" using assms by (simp add: safe_int_def max_safe_def)
  then have "(of_int \<bar>n\<bar> :: rat) < of_int (2 ^ 1024)" by (simp only: of_int_less_iff)
  then have "\<bar>(of_int n :: rat)\<bar> < 2 ^ 1024" by simp
  then have "(of_int n :: rat) < 2 ^ 1024" "- (2 ^ 1024) < (of_int n :: rat)" by linarith+
  then show ?thesis unfolding to_double_def Let_def nearest_whole [OF assms] by simp
qed

text \<open>A quotient of safe whole numbers never rounds up to a whole number above it.\<close>

lemma nearest_quotient:
  assumes "0 \<le> n" "safe_int n" "0 < t" "safe_int t"
  defines "x \<equiv> of_int n / (of_int t :: rat)"
  shows "of_int (n div t) \<le> nearest_double x" "nearest_double x < of_int (n div t) + 1"
proof -
  have t: "(0::rat) < of_int t" and t1: "(1::rat) \<le> of_int t" using assms(3) by simp_all
  have "of_int n \<le> (of_int max_safe :: rat)" "of_int t \<le> (of_int max_safe :: rat)"
    using assms(1-4) by (simp_all add: safe_int_def of_int_le_iff del: of_int_numeral)
  then have nt: "(of_int n :: rat) < 2 ^ 53" "(of_int t :: rat) < 2 ^ 53" by (simp_all add: max_safe_def)
  have x: "0 \<le> x" "x \<le> of_int n" using assms(1) t t1 by (simp_all add: x_def divide_le_eq mult_le_cancel_left1)
  have "x * of_int t = of_int n" using t by (simp add: x_def)
  also have "\<dots> = of_int (n div t * t + n mod t)" by simp
  finally have e: "x * of_int t = of_int (n div t) * of_int t + of_int (n mod t)"
    by (simp only: of_int_mult of_int_add)
  have low: "of_int (n div t) \<le> x"
  proof -
    have "of_int (n div t) * of_int t \<le> x * of_int t" unfolding e using assms(3) by simp
    then show ?thesis using t by simp
  qed
  have high: "1 / of_int t \<le> of_int (n div t) + 1 - x"
  proof -
    have "n mod t \<le> t - 1" using assms(3) by (simp add: zle_diff1_eq)
    then have "(of_int (n mod t) :: rat) \<le> of_int t - 1" by (metis of_int_1 of_int_diff of_int_le_iff)
    then have "1 \<le> (of_int (n div t) + 1 - x) * of_int t" unfolding left_diff_distrib distrib_right e by simp
    then show ?thesis using t by (simp add: divide_le_eq)
  qed
  have "of_int (n div t) \<le> nearest_double x \<and> nearest_double x < of_int (n div t) + 1"
  proof (cases "x = 0")
    case True
    then have "n = 0" using t by (simp add: x_def)
    then show ?thesis by (simp add: True nearest_double_def)
  next
    case False
    then obtain k j where k: "nearest_double x = of_int j * scale k" "\<bar>nearest_double x - x\<bar> \<le> scale k / 2"
      "2 ^ 52 * scale k \<le> \<bar>x\<bar> \<or> k \<le> - 1074" by (rule nearest_unit)
    have s: "0 < scale k" by simp
    have "k \<le> 0" using small_unit [OF k(3)] x nt(1) by simp
    then obtain i where i: "(of_int (n div t) :: rat) = of_int i * scale k" by (rule whole_multiple)
    have "\<not> nearest_double x < of_int (n div t)"
    proof
      assume "nearest_double x < of_int (n div t)"
      then have "j + 1 \<le> i" using s unfolding k(1) i by simp
      then have "(of_int (j + 1) :: rat) \<le> of_int i" by (simp only: of_int_le_iff)
      then have "of_int (j + 1) * scale k \<le> of_int i * scale k" using s by (intro mult_right_mono) (simp_all add: less_imp_le)
      then have "of_int j * scale k + scale k \<le> x" using low i by (simp add: algebra_simps)
      then show False using k(1,2) s by linarith
    qed
    moreover have "scale k / 2 < 1 / of_int t"
    proof (cases "k \<le> - 1074")
      case True
      then have "scale k \<le> scale (- 53)" by (intro scale_mono) simp
      moreover have "1 / 2 ^ 53 < 1 / (of_int t :: rat)" using t nt(2) by (intro divide_strict_left_mono) simp_all
      ultimately show ?thesis using s by (simp add: scale_def)
    next
      case no: False
      then have "scale k / 2 \<le> x / 2 ^ 53" using k(3) x by simp
      also have "\<dots> < 1 / of_int t" using t nt(1) by (simp add: x_def divide_less_eq)
      finally show ?thesis .
    qed
    ultimately show ?thesis using k(2) high by linarith
  qed
  then show "of_int (n div t) \<le> nearest_double x" "nearest_double x < of_int (n div t) + 1" by blast+
qed

lemma div_le_whole: "0 \<le> (n::int) \<Longrightarrow> 0 < t \<Longrightarrow> n div t \<le> n"
  by (cases "n = 0") (simp_all add: int_div_le_self)

lemma floor_quotient:
  assumes "0 \<le> n" "safe_int n" "0 < t" "safe_int t"
  shows "js_floor (js_div (Finite (of_int n)) (Finite (of_int t))) = Whole (n div t)"
proof -
  let ?y = "nearest_double (of_int n / of_int t)"
  note q = nearest_quotient [OF assms]
  have "0 \<le> n div t" "n div t \<le> n" using assms(1,3) by (simp_all add: pos_imp_zdiv_nonneg_iff div_le_whole)
  then have "n div t + 1 < 2 ^ 1024" using assms(2) by (simp add: safe_int_def max_safe_def)
  then have "(of_int (n div t + 1) :: rat) < of_int (2 ^ 1024)" by (simp only: of_int_less_iff)
  moreover have "0 \<le> ?y" using q(1) \<open>0 \<le> n div t\<close> by (meson of_int_0_le_iff order_trans)
  ultimately have "to_double (of_int n / of_int t) = Finite ?y"
    using q(2) by (simp add: to_double_def Let_def)
  moreover have "\<lfloor>?y\<rfloor> = n div t" using q by (intro floor_unique) simp_all
  ultimately show ?thesis using assms(3) by simp
qed

end
