(* ===== verification/Qbo_Amount.thy ===== *)
theory Qbo_Amount
  imports MoneyText Doubles
begin

text \<open>
  Amounts to and from QuickBooks: \<open>packages/qbo/src/money.ts\<close>. A response carries an amount as a
  JSON number, which is a double; a request carries it as decimal text. A double is the rational it
  stands for, and a number literal is the \<open>nearest_double\<close> of its value. The lemmas show where cents survive the way through a double and where
  they do not.
\<close>

section \<open>Reading and writing\<close>

text \<open>\<open>value.toFixed(2)\<close> below \<open>1e21\<close>: the whole number of hundredths nearest to the magnitude, the
  greater of two, and its text.\<close>

definition hundredths :: "rat \<Rightarrow> int" where
  "hundredths v = \<lfloor>\<bar>v\<bar> * 100 + 1 / 2\<rfloor>"

definition two_places :: "int \<Rightarrow> string" where
  "two_places n = nat_text (nat (n div 100)) @ ''.'' @ pad_start 2 CHR ''0'' (nat_text (nat (n mod 100)))"

definition fixed_text :: "rat \<Rightarrow> string" where
  "fixed_text v = (if v < 0 then ''-'' else []) @ two_places (hundredths v)"

text \<open>\<open>Number(asText)\<close>.\<close>

definition fixed_number :: "rat \<Rightarrow> rat" where
  "fixed_number v = nearest_double (of_int ((if v < 0 then - 1 else 1) * hundredths v) / 100)"

definition qboAmountToCents :: "js_double \<Rightarrow> string \<Rightarrow> int res" where
  "qboAmountToCents amount fieldPath = (case amount of
     Finite v \<Rightarrow>
       if 10 ^ 21 \<le> \<bar>v\<bar> then Inl (QboMalformedResponse fieldPath)
       else if fixed_number v \<noteq> v then Inl (QboMalformedResponse fieldPath)
       else (case parseMoneyToCents (fixed_text v) of
           Inr c \<Rightarrow> Inr c
         | Inl e \<Rightarrow> Inl (QboMalformedResponse fieldPath))
   | _ \<Rightarrow> Inl (QboMalformedResponse fieldPath))"

definition centsToQboAmount :: "int \<Rightarrow> string res" where
  "centsToQboAmount amount =
     (if \<not> safe_int amount then Inl (RangeError ''not integer cents'')
      else let digits = pad_start 3 CHR ''0'' (nat_text (nat \<bar>amount\<bar>))
        in Inr ((if amount < 0 then ''-'' else []) @ take (length digits - 2) digits @ ''.'' @
             drop (length digits - 2) digits))"

section \<open>Rounding\<close>

lemma nearest_close:
  assumes "\<bar>x\<bar> < 2 ^ 46"
  shows "\<bar>nearest_double x - x\<bar> \<le> 1 / 256"
proof (cases "x = 0")
  case False
  then obtain k where k: "\<bar>nearest_double x - x\<bar> \<le> scale k / 2" "2 ^ 52 * scale k \<le> \<bar>x\<bar> \<or> k \<le> - 1074"
    by (rule nearest_error)
  have six: "scale (- 6) = 1 / 64" by (simp add: scale_def)
  have "scale k < scale (- 6)"
  proof (cases "k \<le> - 1074")
    case True
    then have "scale k \<le> scale (- 7)" by (intro scale_mono) simp
    then show ?thesis by (simp add: scale_def)
  next
    case no: False
    then have "2 ^ 52 * scale k < 2 ^ 46" using k(2) assms by linarith
    then show ?thesis by (simp add: six)
  qed
  then have "scale k \<le> 1 / 128" using scale_small [of k "- 6"] six by simp
  then show ?thesis using k(1) by linarith
qed (simp add: nearest_double_def)

section \<open>Texts\<close>

lemma two_places_facts:
  assumes "0 \<le> n"
  shows "\<forall>c\<in>set (nat_text (nat (n div 100))). is_digit c" "nat_text (nat (n div 100)) \<noteq> []"
    "\<forall>c\<in>set (pad_start 2 CHR ''0'' (nat_text (nat (n mod 100)))). is_digit c"
    "length (pad_start 2 CHR ''0'' (nat_text (nat (n mod 100)))) = 2"
    "int (text_nat (nat_text (nat (n div 100)) @ pad_start 2 CHR ''0'' (nat_text (nat (n mod 100))))) = n"
proof -
  show l: "length (pad_start 2 CHR ''0'' (nat_text (nat (n mod 100)))) = 2"
    by (intro length_pad_start length_nat_text_less) simp_all
  have "0 \<le> n div 100" "0 \<le> n mod 100" using assms by (simp_all add: pos_imp_zdiv_nonneg_iff)
  then show "int (text_nat (nat_text (nat (n div 100)) @ pad_start 2 CHR ''0'' (nat_text (nat (n mod 100))))) = n"
    by (simp add: text_nat_append l)
qed (auto intro: nat_text_digits [rule_format] pad2_digits [rule_format])

lemma hundredths_nonneg: "0 \<le> hundredths v"
  by (simp add: hundredths_def)

lemma parse_fixed_text:
  "parseMoneyToCents (fixed_text v) = Inr c \<longleftrightarrow> c = (if v < 0 then - 1 else 1) * hundredths v \<and> safe_int c"
  using read_plain_iff [OF two_places_facts(1-4) [OF hundredths_nonneg], where neg = "v < 0" and c = c]
    two_places_facts(5) [OF hundredths_nonneg, of v]
  by (simp add: fixed_text_def two_places_def)

text \<open>An accepted amount is the double nearest to its cents.\<close>

lemma qboAmountToCents_Inr:
  "qboAmountToCents a path = Inr c \<longleftrightarrow>
    (\<exists>v. a = Finite v \<and> \<bar>v\<bar> < 10 ^ 21 \<and> nearest_double (of_int c / 100) = v \<and>
      c = (if v < 0 then - 1 else 1) * hundredths v \<and> safe_int c)"
proof (cases a)
  case (Finite v)
  have caught: "(case m of Inr c \<Rightarrow> Inr c | Inl e \<Rightarrow> Inl (QboMalformedResponse path)) = Inr c \<longleftrightarrow> m = Inr c"
    for m :: "int res"
    by (cases m) simp_all
  show ?thesis unfolding Finite qboAmountToCents_def js_double.case
    unfolding fixed_number_def by (simp only: caught parse_fixed_text if_distrib [of "\<lambda>r. r = Inr c"]) auto
qed (simp_all add: qboAmountToCents_def)

lemma hundredths_nearest:
  assumes "\<bar>c\<bar> < 100 * 2 ^ 46"
  defines "v \<equiv> nearest_double (of_int c / 100)"
  shows "c = (if v < 0 then - 1 else 1) * hundredths v" "\<bar>v\<bar> < 10 ^ 21"
proof -
  have "\<bar>rat_of_int c\<bar> < 100 * 2 ^ 46"
  proof -
    have "rat_of_int \<bar>c\<bar> < rat_of_int (100 * 2 ^ 46)" using assms(1) by (simp only: of_int_less_iff)
    then show ?thesis by simp
  qed
  then have x: "\<bar>rat_of_int c / 100\<bar> < 2 ^ 46" by simp
  then have "\<bar>rat_of_int c / 100\<bar> < 70368744177664" by simp
  have close: "\<bar>v - of_int c / 100\<bar> \<le> 1 / 256" unfolding v_def by (rule nearest_close [OF x])
  then have "\<bar>v\<bar> < 70368744177665" using \<open>\<bar>rat_of_int c / 100\<bar> < 70368744177664\<close> by linarith
  then show "\<bar>v\<bar> < 10 ^ 21" by simp
  show "c = (if v < 0 then - 1 else 1) * hundredths v"
  proof (cases c "0 :: int" rule: linorder_cases)
    case less
    then have "rat_of_int c \<le> - 1" by simp
    then have "v < 0" using close by linarith
    moreover have "hundredths v = - c"
      unfolding hundredths_def abs_of_neg [OF \<open>v < 0\<close>]
    proof (rule floor_unique)
      show "of_int (- c) \<le> - v * 100 + 1 / 2" "- v * 100 + 1 / 2 < of_int (- c) + 1" using close by linarith+
    qed
    ultimately show ?thesis by simp
  next
    case equal
    then have "v = 0" by (simp add: v_def nearest_double_def)
    then show ?thesis by (simp add: equal hundredths_def floor_eq_iff)
  next
    case greater
    then have "1 \<le> rat_of_int c" by simp
    then have "0 < v" using close by linarith
    moreover have "hundredths v = c"
      unfolding hundredths_def abs_of_pos [OF \<open>0 < v\<close>]
    proof (rule floor_unique)
      show "of_int c \<le> v * 100 + 1 / 2" "v * 100 + 1 / 2 < of_int c + 1" using close by linarith+
    qed
    ultimately show ?thesis by simp
  qed
qed

lemma centsToQboAmount_parse:
  assumes "safe_int c"
  shows "\<exists>t. centsToQboAmount c = Inr t \<and> parseMoneyToCents t = Inr c"
proof -
  define d where "d = pad_start 3 CHR ''0'' (nat_text (nat \<bar>c\<bar>))"
  define W where "W = take (length d - 2) d"
  define F where "F = drop (length d - 2) d"
  have len: "3 \<le> length d" by (simp add: d_def pad_start_def)
  have dig: "\<forall>x\<in>set d. is_digit x" unfolding d_def by (rule pad_start_digits [OF nat_text_digits])
  have "W @ F = d" by (simp add: W_def F_def)
  then have v: "int (text_nat (W @ F)) = \<bar>c\<bar>" by (simp add: d_def)
  have "parseMoneyToCents ((if c < 0 then ''-'' else []) @ W @ ''.'' @ F) = Inr c"
  proof -
    have "\<forall>x\<in>set W. is_digit x" "\<forall>x\<in>set F. is_digit x"
      using dig by (auto simp: W_def F_def dest: in_set_takeD in_set_dropD)
    moreover have "W \<noteq> []" "length F = 2" using len by (auto simp: W_def F_def)
    ultimately show ?thesis
      using read_plain_iff [of W F "c < 0" c] v assms by simp
  qed
  then show ?thesis using assms by (simp add: centsToQboAmount_def Let_def d_def W_def F_def)
qed

section \<open>Properties\<close>

text \<open>C26: An amount below 2 to the power 46 dollars, sent as decimal text or as the nearest double, is read
  back as the same cents; and a double that is accepted is the one nearest to its cents.\<close>

theorem qbo_amount_round_trip:
  assumes "\<bar>c\<bar> < 100 * 2 ^ 46"
  shows "qboAmountToCents (Finite (nearest_double (of_int c / 100))) path = Inr c \<and>
    (\<exists>t. centsToQboAmount c = Inr t \<and> parseMoneyToCents t = Inr c) \<and>
    (qboAmountToCents a path = Inr d \<longrightarrow> a = Finite (nearest_double (of_int d / 100)) \<and> safe_int d)"
proof -
  have safe: "safe_int c" using assms by (simp add: safe_int_def max_safe_def)
  have "qboAmountToCents (Finite (nearest_double (of_int c / 100))) path = Inr c"
    unfolding qboAmountToCents_Inr using hundredths_nearest [OF assms] safe by blast
  then show ?thesis using centsToQboAmount_parse [OF safe] by (auto simp: qboAmountToCents_Inr)
qed


lemma doubles:
  "nearest_double (2469 / 2) = 2469 / 2"
  "nearest_double (7036874417766401 / 100) = 4503599627370497 / 64"
  "nearest_double (3518437208883201 / 50) = 4503599627370497 / 64"
  by code_simp+

lemma qbo_amount_round_trip_witness:
  "qboAmountToCents (Finite (2469 / 2)) ''TotalAmt'' = Inr 123450 \<and>
   (\<exists>t. centsToQboAmount 123450 = Inr t \<and> parseMoneyToCents t = Inr 123450)"
  using qbo_amount_round_trip [of 123450 "''TotalAmt''" "Finite (2469 / 2)" 123450] doubles(1) by simp

text \<open>Past that bound two amounts a cent apart are one double, and the reader takes the wrong one.\<close>

lemma qbo_amount_off_by_a_cent:
  "qboAmountToCents (Finite (nearest_double (7036874417766401 / 100))) path = Inr 7036874417766402"
proof -
  have "hundredths (4503599627370497 / 64) = 7036874417766402" by (simp add: hundredths_def floor_eq_iff)
  then show ?thesis unfolding qboAmountToCents_Inr
    by (intro exI [of _ "4503599627370497 / 64"]) (simp add: doubles safe_int_def max_safe_def)
qed

end
