(* ===== verification/Qbo_Reader.thy ===== *)
theory Qbo_Reader
  imports Qbo_Amount Dates Calendar
begin

text \<open>
  Reading a QuickBooks response without trusting its shape: \<open>packages/qbo/src/reader.ts\<close> and
  \<open>ids.ts\<close>. A response is JSON, its numbers doubles; an object is its keys and values, each key once,
  and reading a key it lacks gives \<open>undefined\<close>, here \<^const>\<open>None\<close>. A refusal is
  \<^const>\<open>QboMalformedResponse\<close> with the path of the field that was refused.
\<close>

datatype response =
    R_Null
  | R_Bool bool
  | R_Num js_double
  | R_Str string
  | R_Arr "response list"
  | R_Obj "(string \<times> response) list"

type_synonym JsonObject = "(string \<times> response) list"

definition key_of :: "JsonObject \<Rightarrow> string \<Rightarrow> response option" where
  "key_of row key = map_of row key"

definition dotted :: "string \<Rightarrow> string \<Rightarrow> string" where
  "dotted path key = path @ ''.'' @ key"

definition indexed :: "string \<Rightarrow> nat \<Rightarrow> string" where
  "indexed path i = path @ ''['' @ nat_text i @ '']''"

definition isJsonObject :: "response option \<Rightarrow> bool" where
  "isJsonObject v \<longleftrightarrow> (case v of Some (R_Obj _) \<Rightarrow> True | _ \<Rightarrow> False)"

definition readObject :: "response option \<Rightarrow> string \<Rightarrow> JsonObject res" where
  "readObject v path = (case v of Some (R_Obj row) \<Rightarrow> Inr row | _ \<Rightarrow> Inl (QboMalformedResponse path))"

definition readArray :: "response option \<Rightarrow> string \<Rightarrow> response list res" where
  "readArray v path = (case v of None \<Rightarrow> Inr [] | Some (R_Arr xs) \<Rightarrow> Inr xs | _ \<Rightarrow> Inl (QboMalformedResponse path))"

definition readString :: "JsonObject \<Rightarrow> string \<Rightarrow> string \<Rightarrow> string res" where
  "readString row key path = (case key_of row key of
     Some (R_Str s) \<Rightarrow> if trim s = [] then Inl (QboMalformedResponse (dotted path key)) else Inr s
   | _ \<Rightarrow> Inl (QboMalformedResponse (dotted path key)))"

definition absent :: "response option \<Rightarrow> bool" where
  "absent v \<longleftrightarrow> v = None \<or> v = Some R_Null \<or> v = Some (R_Str [])"

definition readOptionalString :: "JsonObject \<Rightarrow> string \<Rightarrow> string \<Rightarrow> string option res" where
  "readOptionalString row key path =
     (if absent (key_of row key) then Inr None
      else case key_of row key of
        Some (R_Str s) \<Rightarrow> Inr (Some s)
      | _ \<Rightarrow> Inl (QboMalformedResponse (dotted path key)))"

definition readIsoDate :: "JsonObject \<Rightarrow> string \<Rightarrow> string \<Rightarrow> string res" where
  "readIsoDate row key path = bind_res (readString row key path) (\<lambda>s.
     if \<not> iso_shape s then Inl (QboMalformedResponse (dotted path key))
     else case parsePrintedDate s mdy of
       Inr day \<Rightarrow> Inr day
     | Inl e \<Rightarrow> Inl (QboMalformedResponse (dotted path key)))"

definition readOptionalIsoDate :: "JsonObject \<Rightarrow> string \<Rightarrow> string \<Rightarrow> string option res" where
  "readOptionalIsoDate row key path =
     (if absent (key_of row key) then Inr None
      else bind_res (readIsoDate row key path) (\<lambda>day. Inr (Some day)))"

definition readRef :: "JsonObject \<Rightarrow> string \<Rightarrow> string \<Rightarrow> JsonObject res" where
  "readRef row key path = (case key_of row key of
     None \<Rightarrow> Inl (QboMalformedResponse (dotted path key))
   | v \<Rightarrow> readObject v (dotted path key))"

text \<open>An id: one to twenty decimal digits.\<close>

definition assertQboId :: "string \<Rightarrow> string res" where
  "assertQboId s =
     (if 1 \<le> length s \<and> length s \<le> 20 \<and> list_all is_digit s then Inr s else Inl (QboInvalidId s))"

definition amount_at :: "JsonObject \<Rightarrow> string \<Rightarrow> string \<Rightarrow> int res" where
  "amount_at row key path = (case key_of row key of
     Some (R_Num n) \<Rightarrow> qboAmountToCents n (dotted path key)
   | _ \<Rightarrow> Inl (QboMalformedResponse (dotted path key)))"

lemma assertQboId_Inr: "assertQboId s = Inr t \<Longrightarrow> t = s"
  by (simp add: assertQboId_def split: if_splits)

lemma readString_Inr: "readString row key path = Inr s \<longleftrightarrow> key_of row key = Some (R_Str s) \<and> trim s \<noteq> []"
  by (auto simp: readString_def split: option.splits response.splits if_splits)

lemma readObject_Inr: "readObject v path = Inr row \<longleftrightarrow> v = Some (R_Obj row)"
  by (auto simp: readObject_def split: option.splits response.splits)

lemma readArray_Inr: "readArray v path = Inr xs \<longleftrightarrow> v = Some (R_Arr xs) \<or> v = None \<and> xs = []"
  by (auto simp: readArray_def split: option.splits response.splits)

lemma amount_at_Inr: "amount_at row key path = Inr c \<longleftrightarrow>
    (\<exists>n. key_of row key = Some (R_Num n) \<and> qboAmountToCents n (dotted path key) = Inr c)"
  by (auto simp: amount_at_def split: option.splits response.splits)

text \<open>Which amount a number is does not depend on where it was read.\<close>

lemma qboAmountToCents_path: "qboAmountToCents a path = Inr c \<longleftrightarrow> qboAmountToCents a path' = Inr c"
  by (simp add: qboAmountToCents_Inr)

end
