(* ===== verification/Qbo_Map.thy ===== *)
theory Qbo_Map
  imports Qbo_Reader Ledger
begin

text \<open>
  QuickBooks rows into the ledger's rows: \<open>packages/qbo/src/map.ts\<close>. A payment's lines are split into
  the cash it carried and the credits it applied, and a split that is not forced is refused. The
  lemmas show that the split neither makes nor loses a cent and that cash never exceeds the payment.
\<close>

section \<open>Invoices\<close>

definition toLedgerInvoice :: "JsonObject \<Rightarrow> string \<Rightarrow> LedgerInvoice res" where
  "toLedgerInvoice row path =
     bind_res (readRef row ''CustomerRef'' path) (\<lambda>customer.
     bind_res (readRef row ''CurrencyRef'' path) (\<lambda>currency.
     bind_res (readOptionalIsoDate row ''DueDate'' path) (\<lambda>dueOn.
     bind_res (readString row ''Id'' path) (\<lambda>externalId.
     bind_res (readString row ''DocNumber'' path) (\<lambda>invoiceNumber.
     bind_res (readString customer ''value'' (dotted path ''CustomerRef'')) (\<lambda>customerId.
     bind_res (readString customer ''name'' (dotted path ''CustomerRef'')) (\<lambda>customerName.
     bind_res (readIsoDate row ''TxnDate'' path) (\<lambda>issuedOn.
     bind_res (amount_at row ''TotalAmt'' path) (\<lambda>total.
     bind_res (amount_at row ''Balance'' path) (\<lambda>balance.
     bind_res (readString currency ''value'' (dotted path ''CurrencyRef'')) (\<lambda>code.
       Inr \<lparr>li_sourceKind = Qbo, li_externalId = externalId, li_invoiceNumber = invoiceNumber,
         li_customerExternalId = customerId, li_customerName = customerName, li_issuedOn = issuedOn,
         li_dueOn = dueOn, li_totalCents = total, li_balanceCents = balance, li_currency = code\<rparr>)))))))))))"

section \<open>The lines of a payment\<close>

record PaymentLine =
  ml_path :: string
  ml_amountCents :: int
  ml_invoiceId :: "string option"
  ml_creditMemoId :: "string option"
  ml_journalEntryId :: "string option"

text \<open>The transactions a line links that are read, by type, in order.\<close>

definition read_link :: "response \<Rightarrow> string \<Rightarrow> (string \<times> string) list res" where
  "read_link raw path =
     bind_res (readObject (Some raw) path) (\<lambda>link.
     bind_res (readString link ''TxnType'' path) (\<lambda>txnType.
       if txnType \<in> set [''Invoice'', ''CreditMemo'', ''JournalEntry'']
       then bind_res (readString link ''TxnId'' path) (\<lambda>txnId. Inr [(txnType, txnId)]) else Inr []))"

definition ids_of_type :: "string \<Rightarrow> (string \<times> string) list \<Rightarrow> string list" where
  "ids_of_type txnType links = map snd (filter (\<lambda>l. fst l = txnType) links)"

definition first_id :: "string list \<Rightarrow> string option" where
  "first_id ids = (case ids of [] \<Rightarrow> None | i # _ \<Rightarrow> Some i)"

definition refuseTwo :: "string list \<Rightarrow> string \<Rightarrow> unit res" where
  "refuseTwo ids linePath =
     (if length ids > 1 then Inl (QboMalformedResponse (dotted linePath ''LinkedTxn'')) else Inr ())"

definition read_payment_line :: "response \<Rightarrow> string \<Rightarrow> PaymentLine res" where
  "read_payment_line raw linePath =
     bind_res (readObject (Some raw) linePath) (\<lambda>line.
     bind_res (amount_at line ''Amount'' linePath) (\<lambda>amount.
     bind_res (readArray (key_of line ''LinkedTxn'') (dotted linePath ''LinkedTxn'')) (\<lambda>raws.
     bind_res (map_res (\<lambda>(i, r). read_link r (indexed (dotted linePath ''LinkedTxn'') i)) (enumerate 0 raws)) (\<lambda>found.
       let links = concat found; invoices = ids_of_type ''Invoice'' links;
         memos = ids_of_type ''CreditMemo'' links; entries = ids_of_type ''JournalEntry'' links in
       bind_res (refuseTwo invoices linePath) (\<lambda>_.
       bind_res (refuseTwo memos linePath) (\<lambda>_.
       bind_res (refuseTwo (memos @ entries) linePath) (\<lambda>_.
         Inr \<lparr>ml_path = linePath, ml_amountCents = amount, ml_invoiceId = first_id invoices,
           ml_creditMemoId = first_id memos, ml_journalEntryId = first_id entries\<rparr>)))))))"

definition readPaymentLines :: "JsonObject \<Rightarrow> string \<Rightarrow> PaymentLine list res" where
  "readPaymentLines row path =
     bind_res (readArray (key_of row ''Line'') (dotted path ''Line'')) (\<lambda>raws.
       map_res (\<lambda>(i, r). read_payment_line r (indexed (dotted path ''Line'') i)) (enumerate 0 raws))"

section \<open>Cash and credits\<close>

type_synonym credit_map = "(string \<times> LedgerApplication list) list"

record PaymentApplications =
  pa_totalCents :: int
  pa_cash :: "LedgerApplication list"
  pa_credits :: credit_map

definition credited :: "credit_map \<Rightarrow> string \<Rightarrow> LedgerApplication list" where
  "credited credits memo = (case map_of credits memo of None \<Rightarrow> [] | Some as \<Rightarrow> as)"

definition apply_credits :: "string option \<Rightarrow> LedgerApplication list \<Rightarrow> credit_map \<Rightarrow> credit_map" where
  "apply_credits memo as credits = (case memo of None \<Rightarrow> credits
     | Some m \<Rightarrow> AList.update m (credited credits m @ as) credits)"

definition application :: "string \<Rightarrow> int \<Rightarrow> LedgerApplication" where
  "application invoice amount = \<lparr>la_invoiceExternalId = invoice, la_amountCents = amount\<rparr>"

text \<open>The loop over the lines: a line that settles an invoice with a journal entry is nothing, one
  that names an invoice and a memo is the memo's application, the rest are invoice lines or credit
  lines.\<close>

record sorted_lines =
  so_credits :: credit_map
  so_invoices :: "(PaymentLine \<times> string) list"
  so_fundings :: "(PaymentLine \<times> string option) list"

definition sort_line :: "PaymentLine \<Rightarrow> sorted_lines \<Rightarrow> sorted_lines" where
  "sort_line l s =
     (case (ml_invoiceId l, ml_creditMemoId l, ml_journalEntryId l) of
        (Some i, _, Some j) \<Rightarrow> s
      | (None, _, Some j) \<Rightarrow> s\<lparr>so_fundings := so_fundings s @ [(l, None)]\<rparr>
      | (Some i, Some m, None) \<Rightarrow> s\<lparr>so_credits := apply_credits (Some m) [application i (ml_amountCents l)] (so_credits s)\<rparr>
      | (Some i, None, None) \<Rightarrow> s\<lparr>so_invoices := so_invoices s @ [(l, i)]\<rparr>
      | (None, Some m, None) \<Rightarrow> s\<lparr>so_fundings := so_fundings s @ [(l, Some m)]\<rparr>
      | (None, None, None) \<Rightarrow> s)"

definition sort_lines :: "PaymentLine list \<Rightarrow> sorted_lines" where
  "sort_lines ls = fold sort_line ls \<lparr>so_credits = [], so_invoices = [], so_fundings = []\<rparr>"

definition cash_line :: "PaymentLine \<times> string \<Rightarrow> LedgerApplication" where
  "cash_line li = application (snd li) (ml_amountCents (fst li))"

text \<open>One invoice line: each credit line goes to it, and what is left of it is cash.\<close>

definition fund_one ::
  "PaymentLine \<times> string \<Rightarrow> sorted_lines \<Rightarrow> string \<Rightarrow> (LedgerApplication list \<times> credit_map) res" where
  "fund_one only s path =
     bind_res (sumCents (map (ml_amountCents \<circ> fst) (so_fundings s))) (\<lambda>funded.
       let credits = fold (\<lambda>(l, memo). apply_credits memo [application (snd only) (ml_amountCents l)])
             (so_fundings s) (so_credits s) in
       bind_res (subCents (ml_amountCents (fst only)) funded) (\<lambda>cash.
         if cash < 0 then Inl (QboMalformedResponse (dotted path ''Line''))
         else Inr (if cash > 0 then [application (snd only) cash] else [], credits)))"

text \<open>Several: each credit line claims the one unclaimed invoice line of its amount.\<close>

definition claim_line ::
  "(PaymentLine \<times> string) list \<Rightarrow> nat list \<times> credit_map \<Rightarrow> PaymentLine \<times> string option \<Rightarrow>
   (nat list \<times> credit_map) res" where
  "claim_line invoices state funding =
     (case filter (\<lambda>(i, l, _). i \<notin> set (fst state) \<and> ml_amountCents l = ml_amountCents (fst funding)) (enumerate 0 invoices) of
        [(i, _, invoice)] \<Rightarrow>
          Inr (i # fst state, apply_credits (snd funding) [application invoice (ml_amountCents (fst funding))] (snd state))
      | _ \<Rightarrow> Inl (QboMalformedResponse (dotted (ml_path (fst funding)) ''LinkedTxn'')))"

definition unclaimed :: "nat list \<Rightarrow> (PaymentLine \<times> string) list \<Rightarrow> (PaymentLine \<times> string) list" where
  "unclaimed claimed invoices = map snd (filter (\<lambda>(i, _). i \<notin> set claimed) (enumerate 0 invoices))"

definition split_lines :: "sorted_lines \<Rightarrow> string \<Rightarrow> (LedgerApplication list \<times> credit_map) res" where
  "split_lines s path =
     (if so_fundings s = [] then Inr (map cash_line (so_invoices s), so_credits s)
      else case so_invoices s of
        [only] \<Rightarrow> fund_one only s path
      | invoices \<Rightarrow> bind_res (fold_res (claim_line invoices) ([], so_credits s) (so_fundings s)) (\<lambda>(claimed, credits).
          Inr (map cash_line (unclaimed claimed invoices), credits)))"

definition readPaymentApplications :: "JsonObject \<Rightarrow> string \<Rightarrow> PaymentApplications res" where
  "readPaymentApplications row path =
     bind_res (amount_at row ''TotalAmt'' path) (\<lambda>total.
     bind_res (readPaymentLines row path) (\<lambda>ls.
     bind_res (split_lines (sort_lines ls) path) (\<lambda>(cash, credits).
     bind_res (sumCents (map la_amountCents cash)) (\<lambda>cashCents.
       if cashCents > total then Inl (QboMalformedResponse (dotted path ''Line''))
       else Inr \<lparr>pa_totalCents = total, pa_cash = cash, pa_credits = credits\<rparr>))))"

section \<open>Payments and credits\<close>

definition toLedgerPayment :: "JsonObject \<Rightarrow> string \<Rightarrow> LedgerPayment res" where
  "toLedgerPayment row path =
     bind_res (readRef row ''CustomerRef'' path) (\<lambda>customer.
     bind_res (readOptionalString row ''PaymentRefNum'' path) (\<lambda>reference.
     bind_res (readOptionalString row ''PrivateNote'' path) (\<lambda>memo.
     bind_res (readPaymentApplications row path) (\<lambda>split.
     bind_res (readString row ''Id'' path) (\<lambda>externalId.
     bind_res (readString customer ''value'' (dotted path ''CustomerRef'')) (\<lambda>customerId.
     bind_res (readIsoDate row ''TxnDate'' path) (\<lambda>receivedOn.
       Inr \<lparr>lp_sourceKind = Qbo, lp_externalId = externalId, lp_customerExternalId = customerId,
         lp_receivedOn = receivedOn, lp_totalCents = pa_totalCents split, lp_reference = reference,
         lp_memo = memo, lp_appliedTo = pa_cash split\<rparr>)))))))"

definition toLedgerCredit :: "JsonObject \<Rightarrow> string \<Rightarrow> credit_map \<Rightarrow> LedgerCredit res" where
  "toLedgerCredit row path applications =
     bind_res (readRef row ''CustomerRef'' path) (\<lambda>customer.
     bind_res (readOptionalString row ''PrivateNote'' path) (\<lambda>memo.
     bind_res (readString row ''Id'' path) (\<lambda>externalId.
     bind_res (readString customer ''value'' (dotted path ''CustomerRef'')) (\<lambda>customerId.
     bind_res (readIsoDate row ''TxnDate'' path) (\<lambda>issuedOn.
     bind_res (amount_at row ''TotalAmt'' path) (\<lambda>total.
       Inr \<lparr>lc_sourceKind = Qbo, lc_externalId = externalId, lc_customerExternalId = customerId,
         lc_issuedOn = issuedOn, lc_totalCents = total, lc_memo = memo,
         lc_appliedTo = credited applications externalId\<rparr>))))))"

definition resolveCreditApplications :: "JsonObject list \<Rightarrow> (nat \<Rightarrow> string) \<Rightarrow> credit_map res" where
  "resolveCreditApplications rows pathFor =
     fold_res (\<lambda>byCredit (i, row). bind_res (readPaymentApplications row (pathFor i)) (\<lambda>split.
       Inr (fold (\<lambda>(memo, as). apply_credits (Some memo) as) (pa_credits split) byCredit))) [] (enumerate 0 rows)"

definition linkedTxnIds :: "JsonObject \<Rightarrow> string \<Rightarrow> string \<Rightarrow> string list res" where
  "linkedTxnIds row txnType path =
     bind_res (readArray (key_of row ''LinkedTxn'') (dotted path ''LinkedTxn'')) (\<lambda>raws.
     bind_res (map_res (\<lambda>(i, raw). let linkPath = indexed (dotted path ''LinkedTxn'') i in
         bind_res (readObject (Some raw) linkPath) (\<lambda>link.
         bind_res (readString link ''TxnType'' linkPath) (\<lambda>found.
           if found = txnType then bind_res (readString link ''TxnId'' linkPath) (\<lambda>txnId. Inr [txnId]) else Inr [])))
         (enumerate 0 raws)) (\<lambda>ids. Inr (concat ids)))"


section \<open>Where the cents go\<close>

definition paid :: "LedgerApplication list \<Rightarrow> int" where
  "paid as = sum_list (map la_amountCents as)"

definition amounts :: "(PaymentLine \<Rightarrow> bool) \<Rightarrow> PaymentLine list \<Rightarrow> int" where
  "amounts P ls = (\<Sum>l\<leftarrow>filter P ls. ml_amountCents l)"

definition pure_invoice :: "PaymentLine \<Rightarrow> bool" where
  "pure_invoice l \<longleftrightarrow> ml_invoiceId l \<noteq> None \<and> ml_creditMemoId l = None \<and> ml_journalEntryId l = None"

definition funding :: "PaymentLine \<Rightarrow> bool" where
  "funding l \<longleftrightarrow> ml_invoiceId l = None \<and> (ml_creditMemoId l \<noteq> None \<or> ml_journalEntryId l \<noteq> None)"

text \<open>A line whose amount its memo applied: a credit line of the memo, or one that names the invoice too.\<close>

definition of_memo :: "string \<Rightarrow> PaymentLine \<Rightarrow> bool" where
  "of_memo m l \<longleftrightarrow> ml_creditMemoId l = Some m \<and> ml_journalEntryId l = None"

lemma paid_simps [simp]: "paid [] = 0" "paid (as @ bs) = paid as + paid bs" "paid (application i c # as) = c + paid as"
  by (simp_all add: paid_def application_def)

lemma amounts_simps [simp]:
  "amounts P [] = 0" "amounts P (xs @ ys) = amounts P xs + amounts P ys"
  "amounts P (l # ls) = (if P l then ml_amountCents l else 0) + amounts P ls"
  by (simp_all add: amounts_def)

lemma credited_apply [simp]:
  "paid (credited (apply_credits memo as cs) m) = paid (credited cs m) + (if memo = Some m then paid as else 0)"
  by (cases memo) (auto simp: apply_credits_def credited_def update_conv')

lemma sort_lines_snoc: "sort_lines (ls @ [l]) = sort_line l (sort_lines ls)"
  by (simp add: sort_lines_def)

lemma sort_lines_Nil: "sort_lines [] = \<lparr>so_credits = [], so_invoices = [], so_fundings = []\<rparr>"
  by (simp add: sort_lines_def)

definition invoices_paid :: "(PaymentLine \<times> string) list \<Rightarrow> int" where
  "invoices_paid ls = (\<Sum>l\<leftarrow>ls. ml_amountCents (fst l))"

definition funded_by :: "(PaymentLine \<times> string option) list \<Rightarrow> int" where
  "funded_by ls = (\<Sum>l\<leftarrow>ls. ml_amountCents (fst l))"

definition memo_amounts :: "string \<Rightarrow> (PaymentLine \<times> string option) list \<Rightarrow> int" where
  "memo_amounts m ls = (\<Sum>l\<leftarrow>ls. if snd l = Some m then ml_amountCents (fst l) else 0)"

lemma sort_lines_amounts:
  "invoices_paid (so_invoices (sort_lines ls)) = amounts pure_invoice ls"
  "funded_by (so_fundings (sort_lines ls)) = amounts funding ls"
  "paid (credited (so_credits (sort_lines ls)) m) + memo_amounts m (so_fundings (sort_lines ls)) = amounts (of_memo m) ls"
proof (induction ls rule: rev_induct)
  case Nil
  {
    case 1 show ?case by (simp add: sort_lines_Nil invoices_paid_def)
  next
    case 2 show ?case by (simp add: sort_lines_Nil funded_by_def)
  next
    case 3 show ?case by (simp add: sort_lines_Nil credited_def memo_amounts_def)
  }
next
  case (snoc l ls)
  {
    case 1 show ?case using snoc(1)
      by (auto simp: sort_lines_snoc sort_line_def invoices_paid_def pure_invoice_def split: option.splits)
  next
    case 2 show ?case using snoc(2)
      by (auto simp: sort_lines_snoc sort_line_def funded_by_def funding_def split: option.splits)
  next
    case 3 show ?case using snoc(3)
      by (auto simp: sort_lines_snoc sort_line_def memo_amounts_def of_memo_def split: option.splits)
  }
qed

lemma paid_cash_lines [simp]: "paid (map cash_line ls) = invoices_paid ls"
  by (induction ls) (auto simp: cash_line_def invoices_paid_def application_def paid_def)

lemma fund_one_amounts:
  assumes "fund_one only s path = Inr (cash, credits)"
  shows "paid cash = ml_amountCents (fst only) - funded_by (so_fundings s)"
    "paid (credited credits m) = paid (credited (so_credits s) m) + memo_amounts m (so_fundings s)"
proof -
  have all: "paid (credited (fold (\<lambda>(l, memo). apply_credits memo [application i (ml_amountCents l)]) fs cs) m) =
      paid (credited cs m) + memo_amounts m fs" for i fs cs
    by (induction fs arbitrary: cs) (auto simp: memo_amounts_def)
  show "paid cash = ml_amountCents (fst only) - funded_by (so_fundings s)"
    using assms
    by (auto simp: fund_one_def bind_res_Inr_iff subCents_Inr_iff funded_by_def comp_def dest!: sumCents_Inr split: if_splits)
  show "paid (credited credits m) = paid (credited (so_credits s) m) + memo_amounts m (so_fundings s)"
    using assms all by (auto simp: fund_one_def bind_res_Inr_iff split: if_splits)
qed


definition claimed_sum :: "(PaymentLine \<times> string) list \<Rightarrow> nat list \<Rightarrow> int" where
  "claimed_sum invoices claimed = (\<Sum>i\<leftarrow>claimed. ml_amountCents (fst (invoices ! i)))"

lemma claim_line_Inr:
  assumes "claim_line invoices (claimed, credits) f = Inr (claimed', credits')"
  obtains i where "claimed' = i # claimed" "i \<notin> set claimed" "i < length invoices"
    "ml_amountCents (fst (invoices ! i)) = ml_amountCents (fst f)"
    "credits' = apply_credits (snd f) [application (snd (invoices ! i)) (ml_amountCents (fst f))] credits"
proof -
  define P where "P = (\<lambda>(i, l :: PaymentLine, _ :: string). i \<notin> set claimed \<and> ml_amountCents l = ml_amountCents (fst f))"
  obtain i l invoice where one: "filter P (enumerate 0 invoices) = [(i, l, invoice)]"
    and out: "claimed' = i # claimed" "credits' = apply_credits (snd f) [application invoice (ml_amountCents (fst f))] credits"
    using assms by (auto simp: claim_line_def P_def split: list.splits prod.splits)
  have "(i, l, invoice) \<in> set (filter P (enumerate 0 invoices))" by (simp add: one)
  then have "i < length invoices" "invoices ! i = (l, invoice)" "P (i, l, invoice)"
    by (auto simp: in_set_enumerate_eq)
  then show ?thesis using that [of i] out by (auto simp: P_def)
qed

lemma claim_lines:
  assumes "fold_res (claim_line invoices) (claimed, credits) fs = Inr (claimed', credits')"
    "distinct claimed" "set claimed \<subseteq> {..<length invoices}"
  shows "distinct claimed' \<and> set claimed' \<subseteq> {..<length invoices} \<and>
    claimed_sum invoices claimed' = claimed_sum invoices claimed + funded_by fs \<and>
    paid (credited credits' m) = paid (credited credits m) + memo_amounts m fs"
  using assms
proof (induction fs arbitrary: claimed credits)
  case Nil
  then show ?case by (simp add: funded_by_def memo_amounts_def)
next
  case (Cons f fs)
  then obtain c1 k1 where step: "claim_line invoices (claimed, credits) f = Inr (c1, k1)"
    and rest: "fold_res (claim_line invoices) (c1, k1) fs = Inr (claimed', credits')"
    by (auto simp: bind_res_Inr_iff)
  from claim_line_Inr [OF step] obtain i where i: "c1 = i # claimed" "i \<notin> set claimed" "i < length invoices"
    "ml_amountCents (fst (invoices ! i)) = ml_amountCents (fst f)"
    "k1 = apply_credits (snd f) [application (snd (invoices ! i)) (ml_amountCents (fst f))] credits" .
  have "distinct c1" "set c1 \<subseteq> {..<length invoices}" using i Cons.prems(2,3) by auto
  from Cons.IH [OF rest this] show ?case
    by (simp add: i claimed_sum_def funded_by_def memo_amounts_def)
qed

lemma unclaimed_sum:
  assumes "distinct claimed" "set claimed \<subseteq> {..<length invoices}"
  shows "invoices_paid (unclaimed claimed invoices) = invoices_paid invoices - claimed_sum invoices claimed"
proof -
  let ?a = "\<lambda>i. ml_amountCents (fst (invoices ! i))"
  have kept: "invoices_paid (map snd (filter (\<lambda>(i, _). i \<notin> S) (enumerate 0 xs))) =
      (\<Sum>i | i < length xs \<and> i \<notin> S. ml_amountCents (fst (xs ! i)))" for S and xs :: "(PaymentLine \<times> string) list"
  proof (induction xs rule: rev_induct)
    case Nil
    then show ?case by (simp add: invoices_paid_def)
  next
    case (snoc x xs)
    have "{i. i < length (xs @ [x]) \<and> i \<notin> S} =
        {i. i < length xs \<and> i \<notin> S} \<union> (if length xs \<in> S then {} else {length xs})" by (auto simp: less_Suc_eq)
    moreover have "(\<Sum>i | i < length xs \<and> i \<notin> S. ml_amountCents (fst ((xs @ [x]) ! i))) =
        (\<Sum>i | i < length xs \<and> i \<notin> S. ml_amountCents (fst (xs ! i)))" by (intro sum.cong) (auto simp: nth_append)
    ultimately show ?case using snoc by (auto simp: invoices_paid_def enumerate_append_eq sum.insert_if)
  qed
  have "invoices_paid (unclaimed claimed invoices) = sum ?a ({..<length invoices} - set claimed)"
    unfolding unclaimed_def kept by (rule sum.cong) auto
  also have "\<dots> = sum ?a {..<length invoices} - sum ?a (set claimed)"
    using assms(2) by (simp add: sum_diff)
  also have "sum ?a (set claimed) = claimed_sum invoices claimed"
    using assms(1) by (simp add: claimed_sum_def sum_list_distinct_conv_sum_set)
  also have "sum ?a {..<length invoices} = invoices_paid invoices"
    by (simp add: invoices_paid_def sum_list_sum_nth atLeast0LessThan)
  finally show ?thesis .
qed

lemma split_lines_amounts:
  assumes "split_lines s path = Inr (cash, credits)"
  shows "paid cash = invoices_paid (so_invoices s) - funded_by (so_fundings s) \<and>
    paid (credited credits m) = paid (credited (so_credits s) m) + memo_amounts m (so_fundings s)"
proof (cases "so_fundings s = []")
  case True
  then show ?thesis using assms by (auto simp: split_lines_def funded_by_def memo_amounts_def)
next
  case False
  have several: ?thesis
    if "fold_res (claim_line (so_invoices s)) ([], so_credits s) (so_fundings s) = Inr (claimed, credits)"
      "cash = map cash_line (unclaimed claimed (so_invoices s))" for claimed
    using claim_lines [OF that(1), of m] unclaimed_sum [of claimed "so_invoices s"] that(2)
    by (simp add: claimed_sum_def)
  show ?thesis
  proof (cases "\<exists>only. so_invoices s = [only]")
    case True
    then obtain only where "so_invoices s = [only]" by blast
    moreover from this have "fund_one only s path = Inr (cash, credits)" using assms False by (simp add: split_lines_def)
    ultimately show ?thesis using fund_one_amounts [of only s path cash credits] by (simp add: invoices_paid_def)
  next
    case no: False
    then have both: "split_lines s path = bind_res (fold_res (claim_line (so_invoices s)) ([], so_credits s) (so_fundings s))
        (\<lambda>(claimed, credits). Inr (map cash_line (unclaimed claimed (so_invoices s)), credits))"
      using False by (auto simp: split_lines_def split: list.splits)
    obtain claimed where
      "fold_res (claim_line (so_invoices s)) ([], so_credits s) (so_fundings s) = Inr (claimed, credits)"
      "cash = map cash_line (unclaimed claimed (so_invoices s))"
      using trans [OF both [symmetric] assms] by (auto simp: bind_res_Inr_iff)
    then show ?thesis by (rule several)
  qed
qed

section \<open>Properties\<close>

text \<open>C15: A payment that is read is split exactly: its cash is what its invoice lines hold less what its credit
  lines fund, never more than the payment carried, and each credit memo is applied for exactly the
  amounts of the lines that name it.\<close>

theorem payment_split_exact:
  assumes "readPaymentApplications row path = Inr p"
  shows "\<exists>ls. readPaymentLines row path = Inr ls \<and> amount_at row ''TotalAmt'' path = Inr (pa_totalCents p) \<and>
    paid (pa_cash p) = amounts pure_invoice ls - amounts funding ls \<and> paid (pa_cash p) \<le> pa_totalCents p \<and>
    (\<forall>m. paid (credited (pa_credits p) m) = amounts (of_memo m) ls)"
proof -
  obtain ls cash credits where ls: "readPaymentLines row path = Inr ls"
    and total: "amount_at row ''TotalAmt'' path = Inr (pa_totalCents p)"
    and split: "split_lines (sort_lines ls) path = Inr (cash, credits)"
    and p: "pa_cash p = cash" "pa_credits p = credits" "paid cash \<le> pa_totalCents p"
    using assms by (auto simp: readPaymentApplications_def bind_res_Inr_iff paid_def dest!: sumCents_Inr split: if_splits prod.splits)
  have "paid cash = amounts pure_invoice ls - amounts funding ls"
    using split_lines_amounts [OF split] by (simp add: sort_lines_amounts(1,2))
  moreover have "paid (credited credits m) = amounts (of_memo m) ls" for m
    using split_lines_amounts [OF split, of m] sort_lines_amounts(3) [where ls = ls and m = m] by simp
  ultimately show ?thesis using ls total p by auto
qed


definition sample_payment :: JsonObject where
  "sample_payment = [(''TotalAmt'', R_Num (Finite 50)), (''Line'', R_Arr [
     R_Obj [(''Amount'', R_Num (Finite 150)), (''LinkedTxn'', R_Arr [R_Obj [(''TxnId'', R_Str ''71''), (''TxnType'', R_Str ''Invoice'')]])],
     R_Obj [(''Amount'', R_Num (Finite 100)), (''LinkedTxn'', R_Arr [R_Obj [(''TxnId'', R_Str ''73''), (''TxnType'', R_Str ''CreditMemo'')]])]])]"

lemma sample_doubles: "nearest_double 50 = 50" "nearest_double 100 = 100" "nearest_double 150 = 150"
  by code_simp+

lemma sample_amounts:
  "qboAmountToCents (Finite 50) p = Inr 5000" "qboAmountToCents (Finite 100) p = Inr 10000"
  "qboAmountToCents (Finite 150) p = Inr 15000"
  by (simp_all add: qboAmountToCents_Inr sample_doubles hundredths_def floor_eq_iff safe_int_def max_safe_def)

lemma sample_payment_read: "readPaymentApplications sample_payment ''Payment[0]'' =
    Inr \<lparr>pa_totalCents = 5000, pa_cash = [application ''71'' 5000], pa_credits = [(''73'', [application ''71'' 10000])]\<rparr>"
proof -
  have "trim ''71'' = ''71''" "trim ''73'' = ''73''" "trim ''Invoice'' = ''Invoice''" "trim ''CreditMemo'' = ''CreditMemo''"
    by code_simp+
  then show ?thesis
    by (simp add: readPaymentApplications_def readPaymentLines_def read_payment_line_def read_link_def amount_at_def
        sample_payment_def key_of_def sample_amounts readArray_def readObject_def readString_def Let_def ids_of_type_def
        refuseTwo_def first_id_def sort_lines_def sort_line_def split_lines_def fund_one_def sumCents_def addCents_def
        subCents_def safe_int_def max_safe_def apply_credits_def credited_def application_def)
qed

lemma payment_split_exact_witness:
  "\<exists>ls. readPaymentLines sample_payment ''Payment[0]'' = Inr ls \<and> amounts pure_invoice ls - amounts funding ls = 5000"
  using payment_split_exact [OF sample_payment_read] by (auto simp: paid_def application_def)

end
