(* ===== verification/Qbo_Posting.thy ===== *)
theory Qbo_Posting
  imports Qbo_Reader Journal Json Timestamps
begin

text \<open>
  What a write-back sends to QuickBooks and how its read-back is checked:
  \<open>packages/qbo/src/posting.ts\<close>. An entry is made of draft entries and the tenant's account map, or of
  the lines a person approved; it balances or is refused. The read-back is compared with what was
  sent, field by field.
\<close>

section \<open>Postings\<close>

record LedgerAccountMap =
  lm_arAccountId :: string
  lm_deductionsReceivableAccountId :: string
  lm_writeoffByFamily :: "ReasonFamily \<Rightarrow> string"
  lm_unclassifiedWriteoff :: string

datatype PostingSide = Debit | Credit

record PostingLine =
  po_accountId :: string
  po_side :: PostingSide
  po_amountCents :: int

record StoredPostingLine =
  st_line :: PostingLine
  st_memo :: "string option"

record JournalEntryPosting =
  je_customerId :: string
  je_txnDate :: string
  je_reference :: string
  je_memo :: string
  je_lines :: "PostingLine list"
  je_body :: json

record ZeroPaymentPosting =
  zp_customerId :: string
  zp_txnDate :: string
  zp_reference :: string
  zp_invoiceId :: string
  zp_journalEntryId :: string
  zp_amountCents :: int
  zp_body :: json

datatype Posting = Entry_Posting JournalEntryPosting | Payment_Posting ZeroPaymentPosting

record Common =
  cm_caseId :: string
  cm_family :: "ReasonFamily option"
  cm_writebackId :: string
  cm_approvedOn :: string
  cm_customerId :: string

section \<open>References and days\<close>

definition is_hex_digit :: "char \<Rightarrow> bool" where
  "is_hex_digit c \<longleftrightarrow> is_digit c \<or> c \<in> set ''abcdef''"

definition postingReference :: "string \<Rightarrow> string res" where
  "postingReference writebackId =
     (let hex = filter (\<lambda>c. c \<noteq> CHR ''-'') (to_lower writebackId) in
      if length hex = 32 \<and> list_all is_hex_digit hex then Inr (''RC'' @ take 19 hex)
      else Inl (PostingInputError ''a writeback id must be a UUID''))"

definition postingMemo :: "string \<Rightarrow> ReasonFamily option \<Rightarrow> string \<Rightarrow> string" where
  "postingMemo caseId family reference = ''Case '' @ caseId @ '' | '' @
     (case family of None \<Rightarrow> ''unclassified'' | Some f \<Rightarrow> family_text f) @ '' | '' @ reference"

definition assertDay :: "string \<Rightarrow> string res" where
  "assertDay day = (if iso_shape day \<and> utc_midnight day \<noteq> None then Inr day
     else Inl (PostingInputError ''the approval day must be YYYY-MM-DD''))"

section \<open>Entries\<close>

definition posting_account :: "AccountRole \<Rightarrow> ReasonFamily option \<Rightarrow> LedgerAccountMap \<Rightarrow> string res" where
  "posting_account role family accounts = assertQboId (case role of
     Accounts_Receivable \<Rightarrow> lm_arAccountId accounts
   | Cash \<Rightarrow> lm_arAccountId accounts
   | Deductions_Receivable \<Rightarrow> lm_deductionsReceivableAccountId accounts
   | Writeoff_Expense \<Rightarrow> (case family of None \<Rightarrow> lm_unclassifiedWriteoff accounts
       | Some f \<Rightarrow> lm_writeoffByFamily accounts f))"

definition side_cents :: "PostingSide \<Rightarrow> PostingLine list \<Rightarrow> int list" where
  "side_cents side ls = map po_amountCents (filter (\<lambda>l. po_side l = side) ls)"

definition assertBalanced :: "PostingLine list \<Rightarrow> unit res" where
  "assertBalanced ls =
     bind_res (sumCents (side_cents Debit ls)) (\<lambda>debits.
     bind_res (sumCents (side_cents Credit ls)) (\<lambda>credits.
       if debits \<noteq> credits then Inl (PostingInputError ''the entry does not balance'') else Inr ()))"

definition posted_line :: "ReasonFamily option \<Rightarrow> LedgerAccountMap \<Rightarrow> JournalLine \<Rightarrow> PostingLine list res" where
  "posted_line tag accounts l = bind_res (posting_account (line_role l) tag accounts) (\<lambda>account. Inr (
     (if line_debit l > 0 then [\<lparr>po_accountId = account, po_side = Debit, po_amountCents = line_debit l\<rparr>] else []) @
     (if line_credit l > 0 then [\<lparr>po_accountId = account, po_side = Credit, po_amountCents = line_credit l\<rparr>] else [])))"

definition entryLines :: "DraftEntry list \<Rightarrow> LedgerAccountMap \<Rightarrow> JournalStage list \<Rightarrow> PostingLine list res" where
  "entryLines entries accounts stages =
     bind_res (map_res (\<lambda>e. bind_res (map_res (posted_line (entry_tag e) accounts) (entry_lines e)) (\<lambda>ls. Inr (concat ls)))
       (filter (\<lambda>e. entry_stage e \<in> set stages) entries)) (\<lambda>found.
     let ls = concat found in
       if ls = [] then Inl (PostingInputError ''no draft lines'')
       else bind_res (assertBalanced ls) (\<lambda>_. Inr ls))"

definition settlementStages :: "bool \<Rightarrow> JournalStage list" where
  "settlementStages includeFound =
     (if includeFound then [Found, Recovered, Written_Off_Stage] else [Recovered, Written_Off_Stage])"

primrec side_text :: "PostingSide \<Rightarrow> string" where
  "side_text Debit = ''Debit''"
| "side_text Credit = ''Credit''"

definition entry_line_json :: "string \<Rightarrow> string \<Rightarrow> PostingLine \<Rightarrow> string option \<Rightarrow> json res" where
  "entry_line_json customerId memo l own =
     bind_res (centsToQboAmount (po_amountCents l)) (\<lambda>amount. Inr (JObj [
       (''Amount'', JStr amount), (''Description'', JStr (case own of None \<Rightarrow> memo | Some m \<Rightarrow> m)),
       (''DetailType'', JStr ''JournalEntryLineDetail''),
       (''JournalEntryLineDetail'', JObj [
          (''PostingType'', JStr (side_text (po_side l))),
          (''AccountRef'', JObj [(''value'', JStr (po_accountId l))]),
          (''Entity'', JObj [(''Type'', JStr ''Customer''), (''EntityRef'', JObj [(''value'', JStr customerId)])])])]))"

text \<open>\<open>memos[i]\<close> past the memos given is \<open>undefined\<close>.\<close>

definition journalEntry :: "Common \<Rightarrow> PostingLine list \<Rightarrow> string option list \<Rightarrow> JournalEntryPosting res" where
  "journalEntry input ls memos =
     bind_res (assertQboId (cm_customerId input)) (\<lambda>customerId.
     bind_res (assertDay (cm_approvedOn input)) (\<lambda>txnDate.
     bind_res (postingReference (cm_writebackId input)) (\<lambda>reference.
       let memo = postingMemo (cm_caseId input) (cm_family input) reference in
       bind_res (map_res (\<lambda>(i, l). entry_line_json customerId memo l (if i < length memos then memos ! i else None))
         (enumerate 0 ls)) (\<lambda>line_jsons.
       Inr \<lparr>je_customerId = customerId, je_txnDate = txnDate, je_reference = reference, je_memo = memo, je_lines = ls,
         je_body = JObj [(''TxnDate'', JStr txnDate), (''DocNumber'', JStr reference), (''PrivateNote'', JStr memo),
           (''Line'', JArr line_jsons)]\<rparr>))))"

definition buildEntry :: "Common \<Rightarrow> DraftEntry list \<Rightarrow> LedgerAccountMap \<Rightarrow> JournalStage list \<Rightarrow> JournalEntryPosting res" where
  "buildEntry input entries accounts stages =
     bind_res (entryLines entries accounts stages) (\<lambda>ls. journalEntry input ls [])"

definition buildFoundEntry :: "Common \<Rightarrow> DraftEntry list \<Rightarrow> LedgerAccountMap \<Rightarrow> JournalEntryPosting res" where
  "buildFoundEntry input entries accounts = buildEntry input entries accounts [Found]"

definition buildSettlementEntry ::
  "Common \<Rightarrow> DraftEntry list \<Rightarrow> LedgerAccountMap \<Rightarrow> bool \<Rightarrow> JournalEntryPosting res" where
  "buildSettlementEntry input entries accounts includeFound =
     buildEntry input entries accounts (settlementStages includeFound)"

definition stored_line :: "StoredPostingLine \<Rightarrow> (PostingLine \<times> string option) res" where
  "stored_line s =
     (if \<not> safe_int (po_amountCents (st_line s)) \<or> po_amountCents (st_line s) \<le> 0
      then Inl (PostingInputError ''a stored line posts positive integer cents'')
      else bind_res (assertQboId (po_accountId (st_line s))) (\<lambda>account.
        Inr ((st_line s)\<lparr>po_accountId := account\<rparr>,
          case st_memo s of None \<Rightarrow> None | Some m \<Rightarrow> if m = [] then None else Some m)))"

definition buildStoredSettlementEntry :: "Common \<Rightarrow> StoredPostingLine list \<Rightarrow> JournalEntryPosting res" where
  "buildStoredSettlementEntry input stored =
     (if length stored < 2 then Inl (PostingInputError ''a stored settlement entry has at least two lines'')
      else bind_res (map_res stored_line stored) (\<lambda>rows.
        bind_res (assertBalanced (map fst rows)) (\<lambda>_. journalEntry input (map fst rows) (map snd rows))))"

section \<open>The zero payment\<close>

definition link_json :: "string \<Rightarrow> string \<Rightarrow> string \<Rightarrow> json" where
  "link_json amount txnId txnType = JObj [(''Amount'', JStr amount),
     (''LinkedTxn'', JArr [JObj [(''TxnId'', JStr txnId), (''TxnType'', JStr txnType)]])]"

definition buildZeroPayment :: "Common \<Rightarrow> string \<Rightarrow> string \<Rightarrow> int \<Rightarrow> ZeroPaymentPosting res" where
  "buildZeroPayment input invoice entry amountCents =
     bind_res (assertQboId invoice) (\<lambda>invoiceId.
     bind_res (assertQboId entry) (\<lambda>journalEntryId.
     bind_res (assertQboId (cm_customerId input)) (\<lambda>customerId.
     bind_res (assertDay (cm_approvedOn input)) (\<lambda>txnDate.
       if \<not> safe_int amountCents \<or> amountCents \<le> 0
       then Inl (PostingInputError ''a zero payment applies a positive amount'')
       else bind_res (postingReference (cm_writebackId input)) (\<lambda>reference.
         bind_res (centsToQboAmount amountCents) (\<lambda>amount.
         bind_res (centsToQboAmount 0) (\<lambda>zero.
           Inr \<lparr>zp_customerId = customerId, zp_txnDate = txnDate, zp_reference = reference, zp_invoiceId = invoiceId,
             zp_journalEntryId = journalEntryId, zp_amountCents = amountCents,
             zp_body = JObj [(''CustomerRef'', JObj [(''value'', JStr customerId)]), (''TotalAmt'', JStr zero),
               (''TxnDate'', JStr txnDate), (''PaymentRefNum'', JStr reference),
               (''PrivateNote'', JStr (postingMemo (cm_caseId input) (cm_family input) reference)),
               (''Line'', JArr [link_json amount invoiceId ''Invoice'', link_json amount journalEntryId ''JournalEntry''])]\<rparr>)))))))"

section \<open>The read-back\<close>

text \<open>A check that was made, or the path of a field that could not be read, which ends the checks.\<close>

type_synonym check = "(string \<times> bool) res"

fun mismatches :: "check list \<Rightarrow> string list" where
  "mismatches [] = []"
| "mismatches (Inr (what, ok) # cs) = (if ok then [] else [what]) @ mismatches cs"
| "mismatches (Inl (QboMalformedResponse path) # cs) = [''malformed:'' @ path]"
| "mismatches (Inl e # cs) = [''malformed:'']"

definition check_that :: "string \<Rightarrow> 'a res \<Rightarrow> ('a \<Rightarrow> bool) \<Rightarrow> check" where
  "check_that what r ok = bind_res r (\<lambda>v. Inr (what, ok v))"

definition str_is :: "JsonObject \<Rightarrow> string \<Rightarrow> string \<Rightarrow> bool" where
  "str_is row key s \<longleftrightarrow> key_of row key = Some (R_Str s)"

definition check_entry_line :: "string \<Rightarrow> PostingLine \<Rightarrow> response \<Rightarrow> string \<Rightarrow> check list" where
  "check_entry_line customerId want raw path =
     (case bind_res (readObject (Some raw) path) (\<lambda>line.
        bind_res (readObject (key_of line ''JournalEntryLineDetail'') (dotted path ''JournalEntryLineDetail'')) (\<lambda>detail.
        bind_res (readObject (key_of detail ''AccountRef'') (dotted path ''AccountRef'')) (\<lambda>account.
        bind_res (readObject (key_of detail ''Entity'') (dotted path ''Entity'')) (\<lambda>entity.
        bind_res (readObject (key_of entity ''EntityRef'') (dotted path ''Entity.EntityRef'')) (\<lambda>ref.
          Inr (line, detail, account, ref)))))) of
        Inl e \<Rightarrow> [Inl e]
      | Inr (line, detail, account, ref) \<Rightarrow>
          [check_that (dotted path ''AccountRef'') (readString account ''value'' path) (\<lambda>s. s = po_accountId want),
           Inr (dotted path ''PostingType'', str_is detail ''PostingType'' (side_text (po_side want))),
           check_that (dotted path ''Amount'') (amount_at line ''Amount'' path) (\<lambda>c. c = po_amountCents want),
           check_that (dotted path ''Entity'') (readString ref ''value'' path) (\<lambda>s. s = customerId)])"

definition entry_checks :: "JournalEntryPosting \<Rightarrow> JsonObject \<Rightarrow> check list" where
  "entry_checks sent got =
     Inr (''TxnDate'', str_is got ''TxnDate'' (je_txnDate sent)) #
     (case readArray (key_of got ''Line'') ''Line'' of
        Inl e \<Rightarrow> [Inl e]
      | Inr raws \<Rightarrow> Inr (''Line.length'', length raws = length (je_lines sent)) #
          concat (map (\<lambda>(i, want, raw). check_entry_line (je_customerId sent) want raw (indexed ''Line'' i))
            (enumerate 0 (zip (je_lines sent) raws))))"

text \<open>\<open>lines.some(...)\<close>: the first line that is linked ends the search, a line that cannot be read
  ends the checks.\<close>

fun some_res :: "('a \<Rightarrow> bool res) \<Rightarrow> 'a list \<Rightarrow> bool res" where
  "some_res p [] = Inr False"
| "some_res p (x # xs) = bind_res (p x) (\<lambda>b. if b then Inr True else some_res p xs)"

definition line_linked :: "string \<Rightarrow> string \<Rightarrow> int \<Rightarrow> nat \<times> JsonObject \<Rightarrow> bool res" where
  "line_linked txnType txnId amountCents numbered = (case numbered of (i, line) \<Rightarrow>
     let path = indexed ''Line'' i in
     bind_res (readArray (key_of line ''LinkedTxn'') (dotted path ''LinkedTxn'')) (\<lambda>raws.
     bind_res (map_res (\<lambda>raw. readObject (Some raw) (dotted path ''LinkedTxn'')) raws) (\<lambda>links.
       case links of
         [link] \<Rightarrow> if str_is link ''TxnType'' txnType \<and> str_is link ''TxnId'' txnId
           then bind_res (amount_at line ''Amount'' path) (\<lambda>c. Inr (c = amountCents)) else Inr False
       | _ \<Rightarrow> Inr False)))"

definition payment_checks :: "ZeroPaymentPosting \<Rightarrow> JsonObject \<Rightarrow> check list" where
  "payment_checks sent got =
     [Inr (''TxnDate'', str_is got ''TxnDate'' (zp_txnDate sent)),
      check_that ''CustomerRef'' (bind_res (readObject (key_of got ''CustomerRef'') ''CustomerRef'') (\<lambda>customer.
        readString customer ''value'' ''CustomerRef'')) (\<lambda>s. s = zp_customerId sent),
      check_that ''TotalAmt'' (case key_of got ''TotalAmt'' of Some (R_Num n) \<Rightarrow> qboAmountToCents n ''TotalAmt''
        | _ \<Rightarrow> Inl (QboMalformedResponse ''TotalAmt'')) (\<lambda>c. c = 0)] @
     (case bind_res (readArray (key_of got ''Line'') ''Line'') (\<lambda>raws.
        map_res (\<lambda>(i, raw). readObject (Some raw) (indexed ''Line'' i)) (enumerate 0 raws)) of
        Inl e \<Rightarrow> [Inl e]
      | Inr ls \<Rightarrow>
          [Inr (''Line.length'', length ls = 2),
           check_that ''Line.Invoice'' (some_res (line_linked ''Invoice'' (zp_invoiceId sent) (zp_amountCents sent)) (enumerate 0 ls)) (\<lambda>b. b),
           check_that ''Line.JournalEntry'' (some_res (line_linked ''JournalEntry'' (zp_journalEntryId sent) (zp_amountCents sent)) (enumerate 0 ls)) (\<lambda>b. b)])"

text \<open>The mismatches found: none is \<open>'match'\<close>.\<close>

definition verifyReadBack :: "Posting \<Rightarrow> JsonObject \<Rightarrow> string list" where
  "verifyReadBack sent got = mismatches (case sent of
     Entry_Posting e \<Rightarrow> entry_checks e got | Payment_Posting p \<Rightarrow> payment_checks p got)"


section \<open>What a match says\<close>

lemma mismatches_Nil: "mismatches cs = [] \<longleftrightarrow> (\<forall>c\<in>set cs. \<exists>what. c = Inr (what, True))"
  by (induction cs rule: mismatches.induct) auto

lemma check_that_True: "check_that what r ok = Inr (w, True) \<longleftrightarrow> w = what \<and> (\<exists>v. r = Inr v \<and> ok v)"
  by (cases r) (auto simp: check_that_def)

text \<open>An entry's line as the ledger states it: account, side, cents, customer.\<close>

definition text_at :: "JsonObject \<Rightarrow> string \<Rightarrow> string option" where
  "text_at row key = (case key_of row key of Some (R_Str s) \<Rightarrow> if trim s = [] then None else Some s | _ \<Rightarrow> None)"

definition object_at :: "JsonObject \<Rightarrow> string \<Rightarrow> JsonObject option" where
  "object_at row key = (case key_of row key of Some (R_Obj o') \<Rightarrow> Some o' | _ \<Rightarrow> None)"

definition cents_at :: "JsonObject \<Rightarrow> string \<Rightarrow> int option" where
  "cents_at row key = (case amount_at row key [] of Inr c \<Rightarrow> Some c | Inl _ \<Rightarrow> None)"

definition side_at :: "JsonObject \<Rightarrow> PostingSide option" where
  "side_at detail = find_first (\<lambda>s. str_is detail ''PostingType'' (side_text s)) [Debit, Credit]"

definition ledger_line :: "response \<Rightarrow> (PostingLine \<times> string) option" where
  "ledger_line raw = (case raw of
     R_Obj line \<Rightarrow> Option.bind (object_at line ''JournalEntryLineDetail'') (\<lambda>detail.
       Option.bind (object_at detail ''AccountRef'') (\<lambda>account.
       Option.bind (object_at detail ''Entity'') (\<lambda>entity.
       Option.bind (object_at entity ''EntityRef'') (\<lambda>ref.
       Option.bind (text_at account ''value'') (\<lambda>accountId.
       Option.bind (side_at detail) (\<lambda>side.
       Option.bind (cents_at line ''Amount'') (\<lambda>amount.
       Option.bind (text_at ref ''value'') (\<lambda>customer.
         Some (\<lparr>po_accountId = accountId, po_side = side, po_amountCents = amount\<rparr>, customer)))))))))
   | _ \<Rightarrow> None)"

lemma readObject_at: "readObject (key_of row key) path =
    (case object_at row key of Some v \<Rightarrow> Inr v | None \<Rightarrow> Inl (QboMalformedResponse path))"
  by (auto simp: readObject_def object_at_def split: option.splits response.splits)

lemma readString_at: "readString row key path = Inr v \<longleftrightarrow> text_at row key = Some v"
  by (auto simp: readString_Inr text_at_def split: option.splits response.splits)

lemma amount_at_path: "amount_at row key path = Inr c \<longleftrightarrow> cents_at row key = Some c"
proof -
  have "amount_at row key path = Inr c \<longleftrightarrow> amount_at row key [] = Inr c"
    unfolding amount_at_Inr by (simp add: qboAmountToCents_Inr)
  then show ?thesis by (auto simp: cents_at_def split: sum.splits)
qed

lemma side_at_iff: "side_at detail = Some side \<longleftrightarrow> str_is detail ''PostingType'' (side_text side)"
  by (cases side) (auto simp: side_at_def str_is_def)

lemma entry_line_match:
  "mismatches (check_entry_line customer want raw path) = [] \<longleftrightarrow> ledger_line raw = Some (want, customer)"
proof -
  obtain a sd c where want: "want = \<lparr>po_accountId = a, po_side = sd, po_amountCents = c\<rparr>" by (cases want)
  show ?thesis
  proof (cases raw)
    case (R_Obj line)
    have obj: "readObject (Some raw) path = Inr line" by (simp add: R_Obj readObject_def)
    show ?thesis unfolding want
      by (cases "object_at line ''JournalEntryLineDetail''"; cases "object_at (the (object_at line ''JournalEntryLineDetail'')) ''AccountRef''")
        (auto simp: check_entry_line_def R_Obj ledger_line_def mismatches_Nil check_that_True bind_eq_Some_conv
          readString_at amount_at_path side_at_iff bind_res_Inr_iff readObject_at obj [unfolded R_Obj]
          split: option.splits)
  qed (simp_all add: check_entry_line_def ledger_line_def readObject_def)
qed


definition ledger_lines :: "JsonObject \<Rightarrow> (PostingLine \<times> string) option list option" where
  "ledger_lines got = (case key_of got ''Line'' of
     None \<Rightarrow> Some [] | Some (R_Arr raws) \<Rightarrow> Some (map ledger_line raws) | _ \<Rightarrow> None)"

lemma lines_match:
  "length raws = length wants \<Longrightarrow>
    (\<forall>c\<in>set (concat (map (\<lambda>(i, want, raw). check_entry_line customer want raw (indexed p i)) (enumerate k (zip wants raws)))).
      \<exists>what. c = Inr (what, True)) \<longleftrightarrow> map ledger_line raws = map (\<lambda>w. Some (w, customer)) wants"
proof (induction raws wants arbitrary: k rule: list_induct2)
  case (Cons raw raws want wants)
  have "(\<forall>c\<in>set (check_entry_line customer want raw (indexed p k)). \<exists>what. c = Inr (what, True)) \<longleftrightarrow>
      ledger_line raw = Some (want, customer)"
    using entry_line_match unfolding mismatches_Nil .
  then show ?case using Cons.IH [of "Suc k"] by (simp add: ball_Un)
qed simp

lemma readArray_key: "readArray (key_of row key) path = (case key_of row key of
    None \<Rightarrow> Inr [] | Some (R_Arr raws) \<Rightarrow> Inr raws | _ \<Rightarrow> Inl (QboMalformedResponse path))"
  by (simp add: readArray_def)

lemma entry_match:
  "mismatches (entry_checks e got) = [] \<longleftrightarrow> str_is got ''TxnDate'' (je_txnDate e) \<and>
    ledger_lines got = Some (map (\<lambda>l. Some (l, je_customerId e)) (je_lines e))"
proof -
  define rest where "rest = (\<lambda>raws. Inr (''Line.length'', length raws = length (je_lines e)) #
        concat (map (\<lambda>(i, want, raw). check_entry_line (je_customerId e) want raw (indexed ''Line'' i))
          (enumerate 0 (zip (je_lines e) raws))))"
  have lines: "(\<forall>c\<in>set (rest raws). \<exists>what. c = Inr (what, True)) \<longleftrightarrow>
      map ledger_line raws = map (\<lambda>l. Some (l, je_customerId e)) (je_lines e)" for raws
  proof (cases "length raws = length (je_lines e)")
    case True
    then show ?thesis using lines_match [OF True, of "je_customerId e" "''Line''" 0] by (simp add: rest_def)
  next
    case False
    then show ?thesis by (auto simp: rest_def dest: map_eq_imp_length_eq)
  qed
  have "mismatches (entry_checks e got) = [] \<longleftrightarrow> str_is got ''TxnDate'' (je_txnDate e) \<and>
      (case readArray (key_of got ''Line'') ''Line'' of Inl _ \<Rightarrow> False
       | Inr raws \<Rightarrow> \<forall>c\<in>set (rest raws). \<exists>what. c = Inr (what, True))"
    unfolding entry_checks_def mismatches_Nil rest_def by (simp split: sum.split)
  then show ?thesis unfolding lines readArray_key ledger_lines_def by (auto split: option.splits response.splits)
qed

definition links_only :: "JsonObject \<Rightarrow> string \<Rightarrow> string \<Rightarrow> int \<Rightarrow> bool" where
  "links_only line txnType txnId c \<longleftrightarrow> (\<exists>link. key_of line ''LinkedTxn'' = Some (R_Arr [R_Obj link]) \<and>
     str_is link ''TxnType'' txnType \<and> str_is link ''TxnId'' txnId) \<and> cents_at line ''Amount'' = Some c"

lemma line_linked_True:
  assumes "line_linked txnType txnId c (i, line) = Inr True"
  shows "links_only line txnType txnId c"
proof -
  let ?path = "dotted (indexed ''Line'' i) ''LinkedTxn''"
  obtain raws links where raws: "readArray (key_of line ''LinkedTxn'') ?path = Inr raws"
    and links: "map_res (\<lambda>raw. readObject (Some raw) ?path) raws = Inr links"
    and found: "(case links of
         [link] \<Rightarrow> if str_is link ''TxnType'' txnType \<and> str_is link ''TxnId'' txnId
           then bind_res (amount_at line ''Amount'' (indexed ''Line'' i)) (\<lambda>a. Inr (a = c)) else Inr False
       | _ \<Rightarrow> Inr False) = Inr True"
    using assms by (auto simp: line_linked_def Let_def bind_res_Inr_iff)
  obtain link where link: "links = [link]" using found by (auto split: list.splits)
  then have "raws = [R_Obj link]"
    using links by (auto simp: map_res_Inr_iff list_all2_Cons2 readObject_Inr)
  then show ?thesis using raws found link
    by (auto simp: readArray_Inr links_only_def bind_res_Inr_iff amount_at_path split: if_splits)
qed

lemma some_res_True: "some_res p xs = Inr True \<Longrightarrow> \<exists>x\<in>set xs. p x = Inr True"
  by (induction xs) (auto simp: bind_res_Inr_iff split: if_splits)

lemma linked_line:
  assumes "some_res (line_linked txnType txnId c) (enumerate 0 ls) = Inr True"
  shows "\<exists>l\<in>set ls. links_only l txnType txnId c"
  using some_res_True [OF assms] by (auto simp: in_set_enumerate_eq dest!: line_linked_True)

lemma links_one: "links_only l t a c \<Longrightarrow> links_only l t' a' c' \<Longrightarrow> t = t'"
  by (auto simp: links_only_def str_is_def)

lemma total_at: "(case key_of got key of Some (R_Num n) \<Rightarrow> qboAmountToCents n path
        | _ \<Rightarrow> Inl (QboMalformedResponse path)) = Inr c \<longleftrightarrow> cents_at got key = Some c"
  unfolding amount_at_path [symmetric, where path = "[]"] amount_at_Inr
  by (auto simp: qboAmountToCents_Inr split: option.splits response.splits)

lemma payment_match:
  assumes "mismatches (payment_checks p got) = []"
  shows "str_is got ''TxnDate'' (zp_txnDate p) \<and>
    (\<exists>customer. object_at got ''CustomerRef'' = Some customer \<and> text_at customer ''value'' = Some (zp_customerId p)) \<and>
    cents_at got ''TotalAmt'' = Some 0 \<and>
    (\<exists>a b. key_of got ''Line'' \<in> {Some (R_Arr [R_Obj a, R_Obj b]), Some (R_Arr [R_Obj b, R_Obj a])} \<and>
       links_only a ''Invoice'' (zp_invoiceId p) (zp_amountCents p) \<and>
       links_only b ''JournalEntry'' (zp_journalEntryId p) (zp_amountCents p))"
proof -
  note checks = assms [unfolded mismatches_Nil payment_checks_def]
  have head: "str_is got ''TxnDate'' (zp_txnDate p)"
    "\<exists>customer. object_at got ''CustomerRef'' = Some customer \<and> text_at customer ''value'' = Some (zp_customerId p)"
    "cents_at got ''TotalAmt'' = Some 0"
    using checks by (auto simp: check_that_True total_at bind_res_Inr_iff readObject_at readString_at split: option.splits)
  obtain ls where ls: "bind_res (readArray (key_of got ''Line'') ''Line'') (\<lambda>raws.
        map_res (\<lambda>(i, raw). readObject (Some raw) (indexed ''Line'' i)) (enumerate 0 raws)) = Inr ls"
    using checks by (auto split: sum.splits)
  have two: "length ls = 2"
    and inv: "\<exists>l\<in>set ls. links_only l ''Invoice'' (zp_invoiceId p) (zp_amountCents p)"
    and ent: "\<exists>l\<in>set ls. links_only l ''JournalEntry'' (zp_journalEntryId p) (zp_amountCents p)"
    using checks by (auto simp: ls check_that_True intro: linked_line)
  obtain a b where ab: "ls = [a, b]" using two by (auto simp: length_Suc_conv numeral_2_eq_2)
  have line: "key_of got ''Line'' = Some (R_Arr [R_Obj a, R_Obj b])"
  proof -
    obtain raws where raws: "readArray (key_of got ''Line'') ''Line'' = Inr raws"
      "map_res (\<lambda>(i, raw). readObject (Some raw) (indexed ''Line'' i)) (enumerate 0 raws) = Inr [a, b]"
      using ls unfolding ab by (auto simp: bind_res_Inr_iff)
    then have "length raws = 2" by (auto simp: map_res_Inr_iff dest: list_all2_lengthD)
    then obtain r q where "raws = [r, q]" by (auto simp: length_Suc_conv numeral_2_eq_2)
    then show ?thesis using raws by (auto simp: readArray_Inr bind_res_Inr_iff readObject_Inr)
  qed
  have not_both: False if "links_only l ''Invoice'' i c" "links_only l ''JournalEntry'' e c'" for l i e c c'
    using links_one [OF that] by simp
  let ?i = "\<lambda>l. links_only l ''Invoice'' (zp_invoiceId p) (zp_amountCents p)"
  let ?e = "\<lambda>l. links_only l ''JournalEntry'' (zp_journalEntryId p) (zp_amountCents p)"
  have "?i a \<or> ?i b" "?e a \<or> ?e b" using inv ent ab by auto
  then have "?i a \<and> ?e b \<or> ?i b \<and> ?e a" using not_both by metis
  then have "\<exists>a b. key_of got ''Line'' \<in> {Some (R_Arr [R_Obj a, R_Obj b]), Some (R_Arr [R_Obj b, R_Obj a])} \<and> ?i a \<and> ?e b"
    using line by (metis insertCI)
  then show ?thesis using head by (intro conjI)
qed


section \<open>What an entry holds\<close>

definition account_named :: "AccountRole \<Rightarrow> ReasonFamily option \<Rightarrow> LedgerAccountMap \<Rightarrow> string" where
  "account_named role family accounts = (case role of
     Accounts_Receivable \<Rightarrow> lm_arAccountId accounts
   | Cash \<Rightarrow> lm_arAccountId accounts
   | Deductions_Receivable \<Rightarrow> lm_deductionsReceivableAccountId accounts
   | Writeoff_Expense \<Rightarrow> (case family of None \<Rightarrow> lm_unclassifiedWriteoff accounts
       | Some f \<Rightarrow> lm_writeoffByFamily accounts f))"

text \<open>The draft's lines in some stages, on the accounts of the map: a debit, a credit, or both.\<close>

definition draft_sides :: "LedgerAccountMap \<Rightarrow> ReasonFamily option \<Rightarrow> JournalLine \<Rightarrow> PostingLine list" where
  "draft_sides accounts tag l = filter (\<lambda>p. po_amountCents p > 0)
     [\<lparr>po_accountId = account_named (line_role l) tag accounts, po_side = Debit, po_amountCents = line_debit l\<rparr>,
      \<lparr>po_accountId = account_named (line_role l) tag accounts, po_side = Credit, po_amountCents = line_credit l\<rparr>]"

definition drafted :: "LedgerAccountMap \<Rightarrow> JournalStage list \<Rightarrow> DraftEntry list \<Rightarrow> PostingLine list" where
  "drafted accounts stages entries =
     concat (map (\<lambda>e. concat (map (draft_sides accounts (entry_tag e)) (entry_lines e)))
       (filter (\<lambda>e. entry_stage e \<in> set stages) entries))"

definition balanced :: "PostingLine list \<Rightarrow> bool" where
  "balanced ls \<longleftrightarrow> sum_list (side_cents Debit ls) = sum_list (side_cents Credit ls)"

definition digits_id :: "string \<Rightarrow> bool" where
  "digits_id s \<longleftrightarrow> 1 \<le> length s \<and> length s \<le> 20 \<and> list_all is_digit s"

lemma assertQboId_iff: "assertQboId s = Inr t \<longleftrightarrow> t = s \<and> digits_id s"
  by (auto simp: assertQboId_def digits_id_def)

lemma assertBalanced_balanced: "assertBalanced ls = Inr u \<Longrightarrow> balanced ls"
  by (auto simp: assertBalanced_def bind_res_Inr_iff balanced_def dest!: sumCents_Inr split: if_splits)

lemma draft_sides_pos: "p \<in> set (draft_sides accounts tag l) \<Longrightarrow> 0 < po_amountCents p"
  unfolding draft_sides_def set_filter by simp

lemma posted_line_Inr:
  "posted_line tag accounts l = Inr ps \<Longrightarrow> ps = draft_sides accounts tag l \<and> (\<forall>p\<in>set ps. digits_id (po_accountId p))"
  by (auto simp: posted_line_def bind_res_Inr_iff posting_account_def assertQboId_iff draft_sides_def account_named_def
      split: AccountRole.splits option.splits)

lemma map_res_known:
  assumes "map_res f xs = Inr ys" "\<And>x y. x \<in> set xs \<Longrightarrow> f x = Inr y \<Longrightarrow> y = g x \<and> P y"
  shows "ys = map g xs \<and> (\<forall>y\<in>set ys. P y)"
proof -
  have "list_all2 (\<lambda>x y. f x = Inr y) xs ys" using assms(1) by (simp add: map_res_Inr_iff)
  then have "ys = map g xs \<and> (\<forall>y\<in>set ys. P y)" using assms(2)
    by (induction rule: list_all2_induct) auto
  then show ?thesis .
qed

lemma entryLines_Inr:
  assumes "entryLines entries accounts stages = Inr ls"
  shows "ls = drafted accounts stages entries \<and> balanced ls \<and> ls \<noteq> [] \<and> (\<forall>l\<in>set ls. digits_id (po_accountId l))"
proof -
  let ?f = "\<lambda>e. bind_res (map_res (posted_line (entry_tag e) accounts) (entry_lines e)) (\<lambda>ls. Inr (concat ls))"
  let ?g = "\<lambda>e. concat (map (draft_sides accounts (entry_tag e)) (entry_lines e))"
  let ?P = "\<lambda>ps. \<forall>p\<in>set ps. digits_id (po_accountId p)"
  obtain found where found: "map_res ?f (filter (\<lambda>e. entry_stage e \<in> set stages) entries) = Inr found"
    and ls: "ls = concat found" "ls \<noteq> []" "assertBalanced ls = Inr ()"
    using assms by (auto simp: entryLines_def bind_res_Inr_iff Let_def split: if_splits)
  have one: "y = ?g e \<and> ?P y" if "?f e = Inr y" for e y
  proof -
    obtain parts where parts: "map_res (posted_line (entry_tag e) accounts) (entry_lines e) = Inr parts" "y = concat parts"
      using \<open>?f e = Inr y\<close> by (auto simp: bind_res_Inr_iff)
    have "parts = map (draft_sides accounts (entry_tag e)) (entry_lines e) \<and> (\<forall>p\<in>set parts. ?P p)"
      by (rule map_res_known [OF parts(1)]) (rule posted_line_Inr)
    then show ?thesis using parts(2) by auto
  qed
  have "found = map ?g (filter (\<lambda>e. entry_stage e \<in> set stages) entries) \<and> (\<forall>y\<in>set found. ?P y)"
    by (rule map_res_known [OF found]) (rule one)
  then show ?thesis using ls assertBalanced_balanced by (auto simp: drafted_def)
qed

text \<open>What a receiver reads of a body, by the names of its fields: the text or the list at a path; and of
  each line its account, side, cents and customer.\<close>

fun json_path :: "string list \<Rightarrow> json \<Rightarrow> json option" where
  "json_path [] j = Some j"
| "json_path (key # path) (JObj entries) =
     (case map_of entries key of None \<Rightarrow> None | Some j \<Rightarrow> json_path path j)"
| "json_path (key # path) _ = None"

definition body_line :: "json \<Rightarrow> (string \<times> string \<times> int \<times> string) option" where
  "body_line j =
     (case (json_path [''Amount''] j, json_path [''JournalEntryLineDetail'', ''AccountRef'', ''value''] j,
            json_path [''JournalEntryLineDetail'', ''PostingType''] j,
            json_path [''JournalEntryLineDetail'', ''Entity'', ''EntityRef'', ''value''] j) of
        (Some (JStr amount), Some (JStr account), Some (JStr side), Some (JStr customer)) \<Rightarrow>
          (case parseMoneyToCents amount of Inr c \<Rightarrow> Some (account, side, c, customer) | Inl _ \<Rightarrow> None)
      | _ \<Rightarrow> None)"

definition body_lines :: "json \<Rightarrow> (string \<times> string \<times> int \<times> string) option list" where
  "body_lines j = (case json_path [''Line''] j of Some (JArr ls) \<Rightarrow> map body_line ls | _ \<Rightarrow> [])"

definition stated_line :: "string \<Rightarrow> PostingLine \<Rightarrow> (string \<times> string \<times> int \<times> string) option" where
  "stated_line customer l = Some (po_accountId l, side_text (po_side l), po_amountCents l, customer)"

lemma body_line_entry: "entry_line_json customer memo l own = Inr j \<Longrightarrow> body_line j = stated_line customer l"
  using centsToQboAmount_parse [of "po_amountCents l"]
  by (auto simp: entry_line_json_def bind_res_Inr_iff body_line_def stated_line_def centsToQboAmount_def split: if_splits)

lemma journalEntry_Inr:
  assumes "journalEntry input ls memos = Inr e"
  shows "je_lines e = ls" "je_customerId e = cm_customerId input" "je_txnDate e = cm_approvedOn input"
    "postingReference (cm_writebackId input) = Inr (je_reference e)"
    "body_lines (je_body e) = map (stated_line (cm_customerId input)) ls"
    "json_path [''DocNumber''] (je_body e) = Some (JStr (je_reference e))"
    "json_path [''TxnDate''] (je_body e) = Some (JStr (cm_approvedOn input))"
proof -
  obtain memo line_jsons where jsons:
      "map_res (\<lambda>(i, l). entry_line_json (cm_customerId input) memo l (if i < length memos then memos ! i else None))
        (enumerate 0 ls) = Inr line_jsons"
    and body: "je_body e = JObj [(''TxnDate'', JStr (cm_approvedOn input)), (''DocNumber'', JStr (je_reference e)),
        (''PrivateNote'', JStr memo), (''Line'', JArr line_jsons)]"
    and e: "je_lines e = ls" "je_customerId e = cm_customerId input" "je_txnDate e = cm_approvedOn input"
      "postingReference (cm_writebackId input) = Inr (je_reference e)"
    using assms by (auto simp: journalEntry_def bind_res_Inr_iff Let_def assertQboId_iff assertDay_def split: if_splits)
  show "je_lines e = ls" "je_customerId e = cm_customerId input" "je_txnDate e = cm_approvedOn input"
    "postingReference (cm_writebackId input) = Inr (je_reference e)" by (fact e)+
  show "json_path [''DocNumber''] (je_body e) = Some (JStr (je_reference e))"
    "json_path [''TxnDate''] (je_body e) = Some (JStr (cm_approvedOn input))" by (simp_all add: body)
  have "list_all2 (\<lambda>(i, l) j. body_line j = stated_line (cm_customerId input) l) (enumerate 0 ls) line_jsons"
    using jsons unfolding map_res_Inr_iff by (rule list_all2_mono) (auto dest: body_line_entry)
  then have "map body_line line_jsons = map (\<lambda>(i, l). stated_line (cm_customerId input) l) (enumerate 0 ls)"
    by (induction rule: list_all2_induct) auto
  also have "\<dots> = map (stated_line (cm_customerId input)) (map snd (enumerate 0 ls))"
    by (simp only: map_map comp_def case_prod_unfold)
  finally show "body_lines (je_body e) = map (stated_line (cm_customerId input)) ls"
    by (simp add: body_lines_def body)
qed


lemma buildStored_Inr:
  assumes "buildStoredSettlementEntry input stored = Inr e"
  shows "je_lines e = map st_line stored \<and> balanced (je_lines e) \<and> 2 \<le> length stored \<and>
    (\<forall>l\<in>set (je_lines e). digits_id (po_accountId l) \<and> 0 < po_amountCents l)"
    "\<exists>memos. journalEntry input (je_lines e) memos = Inr e"
proof -
  obtain rows where rows: "map_res stored_line stored = Inr rows" "assertBalanced (map fst rows) = Inr ()"
    and e: "journalEntry input (map fst rows) (map snd rows) = Inr e" and two: "2 \<le> length stored"
    using assms by (auto simp: buildStoredSettlementEntry_def bind_res_Inr_iff not_less split: if_splits)
  let ?memo = "\<lambda>s. case st_memo s of None \<Rightarrow> None | Some m \<Rightarrow> if m = [] then None else Some m"
  have "rows = map (\<lambda>s. (st_line s, ?memo s)) stored \<and>
      (\<forall>r\<in>set rows. digits_id (po_accountId (fst r)) \<and> 0 < po_amountCents (fst r))"
    by (rule map_res_known [OF rows(1)]) (auto simp: stored_line_def bind_res_Inr_iff assertQboId_iff split: if_splits)
  then have "map fst rows = map st_line stored \<and>
      (\<forall>l\<in>set (map fst rows). digits_id (po_accountId l) \<and> 0 < po_amountCents l)" by auto
  then show "je_lines e = map st_line stored \<and> balanced (je_lines e) \<and> 2 \<le> length stored \<and>
    (\<forall>l\<in>set (je_lines e). digits_id (po_accountId l) \<and> 0 < po_amountCents l)"
    using assertBalanced_balanced [OF rows(2)] two unfolding journalEntry_Inr(1) [OF e] by metis
  show "\<exists>memos. journalEntry input (je_lines e) memos = Inr e" using e journalEntry_Inr(1) [OF e] by auto
qed

section \<open>Properties\<close>

text \<open>C22: An entry that is built posts exactly the draft's lines of its stages on the accounts of the map, or
  exactly the lines that were approved; it balances, every account is an id of digits, and the body,
  read by the names of its fields, states each line's account, side, cents and customer in order, on
  the day of approval, with the row's own reference as its document number.\<close>

theorem entry_posts_approved:
  assumes "buildEntry input entries accounts stages = Inr e \<and> wanted = drafted accounts stages entries \<or>
    buildStoredSettlementEntry input stored = Inr e \<and> wanted = map st_line stored"
  shows "je_lines e = wanted \<and> balanced wanted \<and> (\<forall>l\<in>set wanted. digits_id (po_accountId l) \<and> 0 < po_amountCents l) \<and>
    body_lines (je_body e) =
      map (\<lambda>l. Some (po_accountId l, side_text (po_side l), po_amountCents l, cm_customerId input)) wanted \<and>
    json_path [''TxnDate''] (je_body e) = Some (JStr (cm_approvedOn input)) \<and>
    postingReference (cm_writebackId input) = Inr (je_reference e) \<and>
    json_path [''DocNumber''] (je_body e) = Some (JStr (je_reference e))"
  using assms
proof
  assume a: "buildEntry input entries accounts stages = Inr e \<and> wanted = drafted accounts stages entries"
  then obtain ls where ls: "entryLines entries accounts stages = Inr ls" "journalEntry input ls [] = Inr e"
    by (auto simp: buildEntry_def bind_res_Inr_iff)
  have "\<forall>l\<in>set wanted. 0 < po_amountCents l" using a by (auto simp: drafted_def dest: draft_sides_pos)
  then show ?thesis using entryLines_Inr [OF ls(1)] journalEntry_Inr [OF ls(2)] a by (auto simp: stated_line_def)
next
  assume a: "buildStoredSettlementEntry input stored = Inr e \<and> wanted = map st_line stored"
  then obtain memos where e: "journalEntry input (je_lines e) memos = Inr e" using buildStored_Inr(2) by blast
  have built: "buildStoredSettlementEntry input stored = Inr e" and w: "map st_line stored = wanted" using a by simp_all
  then show ?thesis using buildStored_Inr(1) [OF built, unfolded w] journalEntry_Inr(4-7) [OF e]
    by (auto simp: stated_line_def)
qed

text \<open>C21: A read-back is a match exactly when it carries the posting's date and its lines are, in order, the
  accounts, sides and cents that were sent, each for the customer it was sent for.\<close>

theorem read_back_exact:
  "verifyReadBack (Entry_Posting e) got = [] \<longleftrightarrow> str_is got ''TxnDate'' (je_txnDate e) \<and>
    ledger_lines got = Some (map (\<lambda>l. Some (l, je_customerId e)) (je_lines e))"
  by (simp add: verifyReadBack_def entry_match)

definition sample_common :: Common where
  "sample_common = \<lparr>cm_caseId = ''c'', cm_family = Some Fam_Shortage,
     cm_writebackId = ''00000000-0000-4000-8000-000000000001'', cm_approvedOn = ''2026-10-05'', cm_customerId = ''7''\<rparr>"

definition sample_lines :: "StoredPostingLine list" where
  "sample_lines = [\<lparr>st_line = \<lparr>po_accountId = ''90'', po_side = Debit, po_amountCents = 5000\<rparr>, st_memo = Some ''shortage''\<rparr>,
     \<lparr>st_line = \<lparr>po_accountId = ''84'', po_side = Credit, po_amountCents = 5000\<rparr>, st_memo = None\<rparr>]"

lemma sample_built: "\<exists>e. buildStoredSettlementEntry sample_common sample_lines = Inr e"
proof -
  have d: "assertQboId ''90'' = Inr ''90''" "assertQboId ''84'' = Inr ''84''" "assertQboId ''7'' = Inr ''7''" by code_simp+
  have "\<not> isl (postingReference ''00000000-0000-4000-8000-000000000001'')" by code_simp
  then obtain r where r: "postingReference ''00000000-0000-4000-8000-000000000001'' = Inr r"
    by (cases "postingReference ''00000000-0000-4000-8000-000000000001''") auto
  have "iso_shape ''2026-10-05''" "utc_midnight ''2026-10-05'' \<noteq> None" by code_simp+
  then have day: "assertDay ''2026-10-05'' = Inr ''2026-10-05''" by (simp add: assertDay_def)
  show ?thesis
    by (simp add: buildStoredSettlementEntry_def sample_lines_def sample_common_def stored_line_def d day r
        assertBalanced_def side_cents_def sumCents_def addCents_def journalEntry_def entry_line_json_def
        centsToQboAmount_def Let_def safe_int_def max_safe_def)
qed

lemma entry_posts_approved_witness:
  "\<exists>e. buildStoredSettlementEntry sample_common sample_lines = Inr e \<and> je_lines e = map st_line sample_lines \<and>
    balanced (je_lines e)"
  using sample_built entry_posts_approved [where input = sample_common and stored = sample_lines and wanted = "map st_line sample_lines"]
  by fastforce

end
