(* ===== verification/Posting_Job.thy ===== *)
theory Posting_Job
  imports Qbo_Posting Posting_Status
begin

text \<open>
  The job that posts one approved write-back to QuickBooks: \<open>packages/pipeline/src/posting-job.ts\<close>.
  The store's answers are arguments and the ledger is a client whose calls read or change a state
  \<open>'w\<close> of the ledger, or fail; a call that fails may still have changed it. A run makes at most one
  write request and records at most one attempt, and both are part of its result.
\<close>

section \<open>Rows, clients and results\<close>

datatype schemaId = Schema_B | Schema_S

datatype WritebackMethod = Journal_Entry | Payment_Application

datatype WritebackStatus = Pending | Succeeded | Failed

datatype QboWriteEntity = Entity_JournalEntry | Entity_Payment

record PostingWriteback =
  pw_writebackId :: string
  pw_deductionId :: string
  pw_decisionId :: string
  pw_schemaId :: schemaId
  pw_method :: WritebackMethod
  pw_status :: WritebackStatus
  pw_qboTxnId :: "string option"
  pw_connectionId :: string
  pw_realmId :: string
  pw_postingEnabled :: bool
  pw_amountCents :: int
  pw_lines :: "PostingLine list option"
  pw_settlementLines :: "StoredPostingLine list option"
  pw_caseAmountCents :: int
  pw_family :: "ReasonFamily option"
  pw_outcome :: "JournalOutcome option"
  pw_recoveredCents :: "int option"
  pw_invoiceId :: "string option"
  pw_approvedOn :: string
  pw_map :: LedgerAccountMap
  pw_journalEntryId :: "string option"
  pw_voided :: bool

record PostingAttempt =
  at_writebackId :: string
  at_status :: WritebackStatus
  at_qboTxnId :: "string option"
  at_reason :: "string option"
  at_httpStatus :: "int option"
  at_faultCode :: "string option"
  at_mismatch :: "string list option"

datatype call_failure = QboRequestFailed int "response option" | Other_Failure

record 'w PostingLedgerClient =
  cl_invoiceCustomer :: "'w \<Rightarrow> string \<Rightarrow> call_failure + string option"
  cl_findByReference :: "'w \<Rightarrow> QboWriteEntity \<Rightarrow> string \<Rightarrow> call_failure + JsonObject list"
  cl_post :: "'w \<Rightarrow> QboWriteEntity \<Rightarrow> json \<Rightarrow> string \<Rightarrow> 'w \<times> (call_failure + JsonObject)"
  cl_getById :: "'w \<Rightarrow> QboWriteEntity \<Rightarrow> string \<Rightarrow> call_failure + JsonObject"

datatype PostingRefusal =
    Not_Configured | Member_May_Not_Write | Not_Found | Posting_Disabled | Not_Pending | No_Client
  | Entry_Not_Verified | Voided

datatype PostingJobResult =
    Job_Succeeded string
  | Job_Already_Succeeded "string option"
  | PostingRefusedError PostingRefusal
  | WritebackNotSentError string
  | WritebackFailedError string

record 'w PostingJobDeps =
  dp_postingAllowed :: bool
  dp_memberMayWrite :: bool
  dp_writebackForPosting :: "string \<Rightarrow> PostingWriteback option"
  dp_clientFor :: "string \<times> string \<Rightarrow> 'w PostingLedgerClient option"

text \<open>A run: the ledger after it, the write request it made, the attempt it recorded, its result.\<close>

record 'w job_run =
  jr_ledger :: 'w
  jr_sent :: "(QboWriteEntity \<times> json \<times> string) option"
  jr_attempt :: "PostingAttempt option"
  jr_result :: PostingJobResult

section \<open>Failures\<close>

definition is_fault_char :: "char \<Rightarrow> bool" where
  "is_fault_char c \<longleftrightarrow> is_letter c \<or> is_digit c \<or> c = CHR ''_'' \<or> c = CHR ''-''"

definition fault_code :: "response option \<Rightarrow> string option" where
  "fault_code fault =
     (case fault of Some (R_Obj f) \<Rightarrow>
        (case key_of f ''Error'' of
           Some (R_Arr (R_Obj e # _)) \<Rightarrow>
             (case key_of e ''code'' of
                Some (R_Str code) \<Rightarrow>
                  if 1 \<le> length code \<and> length code \<le> 32 \<and> list_all is_fault_char code then Some code else None
              | _ \<Rightarrow> None)
         | _ \<Rightarrow> None)
      | _ \<Rightarrow> None)"

definition failureOf :: "call_failure option \<Rightarrow> int option \<times> string option" where
  "failureOf error = (case error of
     Some (QboRequestFailed status fault) \<Rightarrow> (if status > 0 then Some status else None, fault_code fault)
   | _ \<Rightarrow> (None, None))"

definition failed_attempt :: "string \<Rightarrow> string \<Rightarrow> call_failure option \<Rightarrow> PostingAttempt" where
  "failed_attempt writebackId reason error = \<lparr>at_writebackId = writebackId, at_status = Failed, at_qboTxnId = None,
     at_reason = Some reason, at_httpStatus = fst (failureOf error), at_faultCode = snd (failureOf error), at_mismatch = None\<rparr>"

definition succeeded_attempt :: "string \<Rightarrow> string \<Rightarrow> string \<Rightarrow> PostingAttempt" where
  "succeeded_attempt writebackId txnId reason = \<lparr>at_writebackId = writebackId, at_status = Succeeded,
     at_qboTxnId = Some txnId, at_reason = Some reason, at_httpStatus = None, at_faultCode = None, at_mismatch = None\<rparr>"

section \<open>Building\<close>

definition row_common :: "PostingWriteback \<Rightarrow> string \<Rightarrow> Common" where
  "row_common row customerId = \<lparr>cm_caseId = pw_deductionId row, cm_family = pw_family row,
     cm_writebackId = pw_writebackId row, cm_approvedOn = pw_approvedOn row, cm_customerId = customerId\<rparr>"

definition row_drafts :: "PostingWriteback \<Rightarrow> DraftEntry list res" where
  "row_drafts row = draftEntries \<lparr>in_amount = Whole (pw_caseAmountCents row),
     in_recovered = map_option Whole (pw_recoveredCents row), in_outcome = pw_outcome row, in_family = pw_family row,
     in_printedReasonCode = None, in_map = None\<rparr>"

definition buildPosting :: "PostingWriteback \<Rightarrow> string \<Rightarrow> string \<Rightarrow> Posting res" where
  "buildPosting row invoiceId customerId =
     (let common = row_common row customerId in
      if pw_method row = Payment_Application
      then bind_res (buildZeroPayment common invoiceId (case pw_journalEntryId row of None \<Rightarrow> [] | Some j \<Rightarrow> j) (pw_amountCents row))
        (\<lambda>p. Inr (Payment_Posting p))
      else case (pw_schemaId row, pw_settlementLines row) of
        (Schema_S, Some ls) \<Rightarrow> bind_res (buildStoredSettlementEntry common ls) (\<lambda>e. Inr (Entry_Posting e))
      | (schema, _) \<Rightarrow> bind_res (row_drafts row) (\<lambda>entries.
          bind_res (case schema of
              Schema_B \<Rightarrow> buildFoundEntry common entries (pw_map row)
            | Schema_S \<Rightarrow> buildSettlementEntry common entries (pw_map row) (pw_outcome row = Some Outcome_Declined))
            (\<lambda>e. Inr (Entry_Posting e))))"

definition sameLines :: "PostingLine list \<Rightarrow> PostingLine list option \<Rightarrow> bool" where
  "sameLines built stored = (case stored of None \<Rightarrow> False
     | Some ls \<Rightarrow> length ls = length built \<and>
         list_all2 (\<lambda>l s. po_accountId s = po_accountId l \<and> po_side s = po_side l \<and> po_amountCents s = po_amountCents l) built ls)"

primrec posting_entity :: "Posting \<Rightarrow> QboWriteEntity" where
  "posting_entity (Entry_Posting e) = Entity_JournalEntry"
| "posting_entity (Payment_Posting p) = Entity_Payment"

primrec posting_body :: "Posting \<Rightarrow> json" where
  "posting_body (Entry_Posting e) = je_body e"
| "posting_body (Payment_Posting p) = zp_body p"

definition lines_kept :: "PostingWriteback \<Rightarrow> Posting \<Rightarrow> bool" where
  "lines_kept row posting = (case posting of Entry_Posting e \<Rightarrow> sameLines (je_lines e) (pw_lines row) | _ \<Rightarrow> True)"

section \<open>The run\<close>

text \<open>The refusals before anything is read from the ledger, in the order they are made.\<close>

definition job_guard :: "'w PostingJobDeps \<Rightarrow> string \<Rightarrow> PostingJobResult + PostingWriteback \<times> 'w PostingLedgerClient" where
  "job_guard deps writebackId =
     (if \<not> dp_postingAllowed deps then Inl (PostingRefusedError Not_Configured)
      else if \<not> dp_memberMayWrite deps then Inl (PostingRefusedError Member_May_Not_Write)
      else case dp_writebackForPosting deps writebackId of
        None \<Rightarrow> Inl (PostingRefusedError Not_Found)
      | Some row \<Rightarrow>
          if pw_status row = Succeeded then Inl (Job_Already_Succeeded (pw_qboTxnId row))
          else if \<not> pw_postingEnabled row then Inl (PostingRefusedError Posting_Disabled)
          else if pw_voided row then Inl (PostingRefusedError Voided)
          else if pw_status row \<noteq> Pending then Inl (PostingRefusedError Not_Pending)
          else if pw_method row = Payment_Application \<and> pw_journalEntryId row = None
            then Inl (PostingRefusedError Entry_Not_Verified)
          else case dp_clientFor deps (pw_connectionId row, pw_realmId row) of
            None \<Rightarrow> Inl (PostingRefusedError No_Client)
          | Some client \<Rightarrow> Inr (row, client))"

text \<open>What is sent, or the reason nothing is and the failure that came with it.\<close>

definition prepare :: "PostingWriteback \<Rightarrow> 'w PostingLedgerClient \<Rightarrow> 'w \<Rightarrow> string \<times> call_failure option + Posting" where
  "prepare row client w = (case pw_invoiceId row of
     None \<Rightarrow> Inl (''no_invoice'', None)
   | Some invoiceId \<Rightarrow> (case cl_invoiceCustomer client w invoiceId of
        Inl error \<Rightarrow> Inl (''invoice_lookup_failed'', Some error)
      | Inr None \<Rightarrow> Inl (''invoice_not_found'', None)
      | Inr (Some customerId) \<Rightarrow> (case buildPosting row invoiceId customerId of
            Inl _ \<Rightarrow> Inl (''build_failed'', None)
          | Inr posting \<Rightarrow> if lines_kept row posting then Inr posting else Inl (''lines_changed'', None))))"

text \<open>A person's retry reads the ledger by reference first: nothing there lets the send go on.\<close>

definition check_retry ::
  "string \<Rightarrow> Posting \<Rightarrow> 'w PostingLedgerClient \<Rightarrow> 'w \<Rightarrow> (PostingAttempt \<times> PostingJobResult) option" where
  "check_retry writebackId posting client w =
     (case (case postingReference writebackId of Inl _ \<Rightarrow> Inl Other_Failure
            | Inr ref \<Rightarrow> cl_findByReference client w (posting_entity posting) ref) of
        Inl error \<Rightarrow> Some (failed_attempt writebackId ''readback_failed'' (Some error), WritebackFailedError ''readback_failed'')
      | Inr existing \<Rightarrow>
          if length existing > 1
          then Some (failed_attempt writebackId ''ambiguous_reference'' None, WritebackFailedError ''ambiguous_reference'')
          else case existing of [] \<Rightarrow> None
            | already # _ \<Rightarrow>
                let verdict = verifyReadBack posting already in
                (case key_of already ''Id'' of
                   Some (R_Str foundId) \<Rightarrow>
                     if verdict = [] then Some (succeeded_attempt writebackId foundId ''found_on_retry'', Job_Succeeded foundId)
                     else Some ((failed_attempt writebackId ''readback_mismatch'' None)\<lparr>at_mismatch := Some verdict\<rparr>,
                       WritebackFailedError ''readback_mismatch'')
                 | _ \<Rightarrow> Some ((failed_attempt writebackId ''readback_mismatch'' None)
                       \<lparr>at_mismatch := if verdict = [] then None else Some verdict\<rparr>, WritebackFailedError ''readback_mismatch'')))"

definition send_reason :: "call_failure \<Rightarrow> string" where
  "send_reason error = (case fst (failureOf (Some error)) of
     Some s \<Rightarrow> if s \<ge> 400 \<and> s < 500 then ''send_failed'' else ''unknown_outcome''
   | None \<Rightarrow> ''unknown_outcome'')"

text \<open>After the send: the entity is read back by its id and compared.\<close>

definition read_back ::
  "string \<Rightarrow> Posting \<Rightarrow> 'w PostingLedgerClient \<Rightarrow> 'w \<Rightarrow> JsonObject \<Rightarrow> PostingAttempt \<times> PostingJobResult" where
  "read_back writebackId posting client w created =
     (case key_of created ''Id'' of
        Some (R_Str txnId) \<Rightarrow>
          (case cl_getById client w (posting_entity posting) txnId of
             Inl error \<Rightarrow> (failed_attempt writebackId ''readback_failed'' (Some error), WritebackFailedError ''readback_failed'')
           | Inr got \<Rightarrow>
               let verdict = verifyReadBack posting got in
               if verdict = [] then (succeeded_attempt writebackId txnId ''sent'', Job_Succeeded txnId)
               else ((failed_attempt writebackId ''readback_mismatch'' None)\<lparr>at_mismatch := Some verdict\<rparr>,
                 WritebackFailedError ''readback_mismatch''))
      | _ \<Rightarrow> (failed_attempt writebackId ''readback_failed'' None, WritebackFailedError ''readback_failed''))"

definition send :: "string \<Rightarrow> Posting \<Rightarrow> 'w PostingLedgerClient \<Rightarrow> 'w \<Rightarrow> 'w job_run" where
  "send writebackId posting client w =
     (let request = (posting_entity posting, posting_body posting, writebackId) in
      case cl_post client w (posting_entity posting) (posting_body posting) writebackId of
        (w', Inl error) \<Rightarrow> \<lparr>jr_ledger = w', jr_sent = Some request,
           jr_attempt = Some (failed_attempt writebackId (send_reason error) (Some error)),
           jr_result = WritebackFailedError (send_reason error)\<rparr>
      | (w', Inr created) \<Rightarrow> (let (attempt, result) = read_back writebackId posting client w' created in
          \<lparr>jr_ledger = w', jr_sent = Some request, jr_attempt = Some attempt, jr_result = result\<rparr>))"

definition postWritebackJob :: "'w PostingJobDeps \<Rightarrow> string \<Rightarrow> bool \<Rightarrow> 'w \<Rightarrow> 'w job_run" where
  "postWritebackJob deps writebackId retry w =
     (case job_guard deps writebackId of
        Inl result \<Rightarrow> \<lparr>jr_ledger = w, jr_sent = None, jr_attempt = None, jr_result = result\<rparr>
      | Inr (row, client) \<Rightarrow> (case prepare row client w of
          Inl (reason, error) \<Rightarrow> \<lparr>jr_ledger = w, jr_sent = None,
             jr_attempt = Some (failed_attempt writebackId reason error), jr_result = WritebackNotSentError reason\<rparr>
        | Inr posting \<Rightarrow> (case (if retry then check_retry writebackId posting client w else None) of
            Some (attempt, result) \<Rightarrow>
              \<lparr>jr_ledger = w, jr_sent = None, jr_attempt = Some attempt, jr_result = result\<rparr>
          | None \<Rightarrow> send writebackId posting client w)))"


section \<open>The parts of a run\<close>

lemma job_guard_Inr:
  assumes "job_guard deps writebackId = Inr (row, client)"
  shows "dp_postingAllowed deps" "dp_memberMayWrite deps" "dp_writebackForPosting deps writebackId = Some row"
    "pw_status row = Pending" "pw_postingEnabled row" "\<not> pw_voided row"
    "pw_method row = Payment_Application \<Longrightarrow> pw_journalEntryId row \<noteq> None"
    "dp_clientFor deps (pw_connectionId row, pw_realmId row) = Some client"
  using assms by (auto simp: job_guard_def split: if_splits option.splits)

lemma job_guard_Inl: "job_guard deps writebackId = Inl result \<Longrightarrow>
    (\<exists>r. result = PostingRefusedError r) \<or>
    (\<exists>row. dp_writebackForPosting deps writebackId = Some row \<and> pw_status row = Succeeded \<and> result = Job_Already_Succeeded (pw_qboTxnId row))"
  by (auto simp: job_guard_def split: if_splits option.splits)

lemma prepare_Inr:
  assumes "prepare row client w = Inr posting"
  obtains invoiceId customerId where "pw_invoiceId row = Some invoiceId"
    "cl_invoiceCustomer client w invoiceId = Inr (Some customerId)" "buildPosting row invoiceId customerId = Inr posting"
    "lines_kept row posting"
  using assms by (auto simp: prepare_def split: option.splits sum.splits if_splits)

lemma prepare_Inl: "prepare row client w = Inl (reason, error) \<Longrightarrow> isNothingSentReason (Some reason)"
  by (auto simp: prepare_def isNothingSentReason_def NOTHING_SENT_REASONS_def split: option.splits sum.splits if_splits)

lemma check_retry_None:
  assumes "check_retry writebackId posting client w = None"
  shows "\<exists>ref. postingReference writebackId = Inr ref \<and> cl_findByReference client w (posting_entity posting) ref = Inr []"
  using assms by (auto simp: check_retry_def Let_def split: sum.splits list.splits option.splits response.splits if_splits)

text \<open>An attempt and a result that say the same: a success is one, with the entity's id, only where the
  entity read from the ledger matched; a failure is one, for a reason of a request that may have been made.\<close>

definition agreed :: "PostingAttempt \<Rightarrow> PostingJobResult \<Rightarrow> bool" where
  "agreed a r \<longleftrightarrow> \<not> isNothingSentReason (at_reason a) \<and>
     (case r of Job_Succeeded txnId \<Rightarrow> at_status a = Succeeded \<and> at_qboTxnId a = Some txnId
      | WritebackFailedError reason \<Rightarrow> at_status a = Failed \<and> at_reason a = Some reason
      | _ \<Rightarrow> False)"

lemma not_nothing_sent:
  "\<not> isNothingSentReason (Some ''sent'')" "\<not> isNothingSentReason (Some ''found_on_retry'')"
  "\<not> isNothingSentReason (Some ''readback_failed'')" "\<not> isNothingSentReason (Some ''readback_mismatch'')"
  "\<not> isNothingSentReason (Some ''ambiguous_reference'')" "\<not> isNothingSentReason (Some ''send_failed'')"
  "\<not> isNothingSentReason (Some ''unknown_outcome'')"
  by (simp_all add: isNothingSentReason_def NOTHING_SENT_REASONS_def)

lemma send_reason_not_nothing: "\<not> isNothingSentReason (Some (send_reason e))"
  by (auto simp: send_reason_def not_nothing_sent split: option.splits)

lemmas attempt_simps = failed_attempt_def succeeded_attempt_def not_nothing_sent

lemma check_retry_agreed: "check_retry writebackId posting client w = Some (a, r) \<Longrightarrow> agreed a r"
  by (auto simp: check_retry_def Let_def agreed_def attempt_simps split: sum.splits list.splits option.splits response.splits if_splits)

lemma check_retry_verified: "check_retry writebackId posting client w = Some (a, Job_Succeeded txnId) \<Longrightarrow>
    \<exists>ref got. cl_findByReference client w (posting_entity posting) ref = Inr [got] \<and> key_of got ''Id'' = Some (R_Str txnId) \<and>
      verifyReadBack posting got = []"
  by (auto simp: check_retry_def Let_def split: sum.splits list.splits option.splits response.splits if_splits)

lemma read_back_agreed: "read_back writebackId posting client w created = (a, r) \<Longrightarrow> agreed a r"
  by (auto simp: read_back_def Let_def agreed_def attempt_simps split: sum.splits option.splits response.splits if_splits)

lemma read_back_verified: "read_back writebackId posting client w created = (a, Job_Succeeded txnId) \<Longrightarrow>
    \<exists>got. cl_getById client w (posting_entity posting) txnId = Inr got \<and> verifyReadBack posting got = []"
  by (auto simp: read_back_def Let_def split: sum.splits option.splits response.splits if_splits)

lemma sameLines_iff: "sameLines built stored \<longleftrightarrow> stored = Some built"
proof (cases stored)
  case (Some ls)
  have "length ls = length built \<and> list_all2 (\<lambda>l s. po_accountId s = po_accountId l \<and> po_side s = po_side l \<and>
      po_amountCents s = po_amountCents l) built ls \<longleftrightarrow> ls = built"
    by (auto simp: list_all2_conv_all_nth intro!: nth_equalityI PostingLine.equality)
  then show ?thesis using Some by (simp add: sameLines_def)
qed (simp add: sameLines_def)

text \<open>The four ways a run ends.\<close>

lemma job_cases:
  obtains (refused) result where "job_guard deps writebackId = Inl result"
      "postWritebackJob deps writebackId retry w = \<lparr>jr_ledger = w, jr_sent = None, jr_attempt = None, jr_result = result\<rparr>"
  | (not_sent) row client reason error where "job_guard deps writebackId = Inr (row, client)"
      "prepare row client w = Inl (reason, error)"
      "postWritebackJob deps writebackId retry w = \<lparr>jr_ledger = w, jr_sent = None,
         jr_attempt = Some (failed_attempt writebackId reason error), jr_result = WritebackNotSentError reason\<rparr>"
  | (read) row client posting a r where "job_guard deps writebackId = Inr (row, client)" "prepare row client w = Inr posting"
      "retry" "check_retry writebackId posting client w = Some (a, r)"
      "postWritebackJob deps writebackId retry w = \<lparr>jr_ledger = w, jr_sent = None, jr_attempt = Some a, jr_result = r\<rparr>"
  | (sent) row client posting where "job_guard deps writebackId = Inr (row, client)" "prepare row client w = Inr posting"
      "retry \<Longrightarrow> check_retry writebackId posting client w = None"
      "postWritebackJob deps writebackId retry w = send writebackId posting client w"
proof (cases "job_guard deps writebackId")
  case (Inl result)
  then show ?thesis using refused by (simp add: postWritebackJob_def)
next
  case (Inr rc)
  obtain row client where rc: "rc = (row, client)" by fastforce
  show ?thesis
  proof (cases "prepare row client w")
    case (Inl re)
    then show ?thesis using not_sent Inr rc by (cases re) (simp add: postWritebackJob_def)
  next
    case posting: (Inr posting)
    show ?thesis
    proof (cases "if retry then check_retry writebackId posting client w else None")
      case None
      then show ?thesis using sent [of row client posting] Inr rc posting by (simp add: postWritebackJob_def split: if_splits)
    next
      case (Some ar)
      then show ?thesis using read [of row client posting "fst ar" "snd ar"] Inr rc posting
        by (cases ar) (simp add: postWritebackJob_def split: if_splits)
    qed
  qed
qed


lemma send_spec:
  "\<exists>a r. jr_attempt (send writebackId posting client w) = Some a \<and> jr_result (send writebackId posting client w) = r \<and>
    agreed a r \<and> jr_sent (send writebackId posting client w) = Some (posting_entity posting, posting_body posting, writebackId) \<and>
    (\<forall>txnId. r = Job_Succeeded txnId \<longrightarrow> (\<exists>got. cl_getById client (jr_ledger (send writebackId posting client w)) (posting_entity posting) txnId = Inr got \<and>
       verifyReadBack posting got = []))"
proof -
  obtain w' o' where post: "cl_post client w (posting_entity posting) (posting_body posting) writebackId = (w', o')" by fastforce
  show ?thesis
  proof (cases o')
    case (Inl e)
    then show ?thesis using post
      by (auto simp: send_def Let_def agreed_def attempt_simps send_reason_not_nothing)
  next
    case (Inr created)
    obtain a r where rb: "read_back writebackId posting client w' created = (a, r)" by fastforce
    then have "send writebackId posting client w = \<lparr>jr_ledger = w', jr_sent = Some (posting_entity posting, posting_body posting, writebackId),
        jr_attempt = Some a, jr_result = r\<rparr>" using post Inr by (simp add: send_def Let_def)
    then show ?thesis using read_back_agreed [OF rb] read_back_verified [of writebackId posting client w' created a] rb
      by auto
  qed
qed

text \<open>A run that made a request passed every guard and leaves an attempt that does not say nothing was sent.\<close>

lemma job_sent:
  assumes "jr_sent (postWritebackJob deps writebackId retry w) \<noteq> None"
  shows "\<exists>row. dp_writebackForPosting deps writebackId = Some row \<and> pw_status row = Pending \<and> \<not> pw_voided row"
    "\<exists>a. jr_attempt (postWritebackJob deps writebackId retry w) = Some a \<and> \<not> isNothingSentReason (at_reason a)"
proof -
  obtain row client posting where sent: "job_guard deps writebackId = Inr (row, client)"
      "postWritebackJob deps writebackId retry w = send writebackId posting client w"
    using assms by (cases rule: job_cases [of deps writebackId retry w]) auto
  show "\<exists>row. dp_writebackForPosting deps writebackId = Some row \<and> pw_status row = Pending \<and> \<not> pw_voided row"
    using job_guard_Inr [OF sent(1)] by blast
  show "\<exists>a. jr_attempt (postWritebackJob deps writebackId retry w) = Some a \<and> \<not> isNothingSentReason (at_reason a)"
    using send_spec [of writebackId posting client w] unfolding sent(2) by (auto simp: agreed_def)
qed

text \<open>An attempt is recorded for the row asked for, and only when it was pending and not voided.\<close>

lemma job_attempt:
  assumes "jr_attempt (postWritebackJob deps writebackId retry w) = Some a"
  shows "\<exists>row. dp_writebackForPosting deps writebackId = Some row \<and> pw_status row = Pending \<and> \<not> pw_voided row"
    "at_writebackId a = writebackId"
proof -
  obtain row client where guard: "job_guard deps writebackId = Inr (row, client)"
    using assms by (cases rule: job_cases [of deps writebackId retry w]) auto
  show "\<exists>row. dp_writebackForPosting deps writebackId = Some row \<and> pw_status row = Pending \<and> \<not> pw_voided row"
    using job_guard_Inr [OF guard] by blast
  show "at_writebackId a = writebackId"
    using assms
    by (cases rule: job_cases [of deps writebackId retry w])
      (auto simp: attempt_simps check_retry_def send_def read_back_def Let_def
        split: sum.splits list.splits option.splits response.splits prod.splits if_splits)
qed

section \<open>Properties\<close>

text \<open>C4: A write request is made only for a pending row of an enabled connection that is not voided, by a
  member who may write, where posting is allowed; its id is the row's, its body is the row's posting
  with exactly the lines stored when it was approved, a payment follows its verified entry, and a
  retry sends only when the ledger answers that it holds nothing under the row's reference.\<close>

theorem sends_only_approved:
  assumes "jr_sent (postWritebackJob deps writebackId retry w) = Some (entity, body, requestId)"
  shows "requestId = writebackId \<and> dp_postingAllowed deps \<and> dp_memberMayWrite deps \<and>
    (\<exists>row client invoiceId customerId posting.
      dp_writebackForPosting deps writebackId = Some row \<and> pw_status row = Pending \<and> pw_postingEnabled row \<and>
      \<not> pw_voided row \<and> (pw_method row = Payment_Application \<longrightarrow> pw_journalEntryId row \<noteq> None) \<and>
      dp_clientFor deps (pw_connectionId row, pw_realmId row) = Some client \<and> pw_invoiceId row = Some invoiceId \<and>
      cl_invoiceCustomer client w invoiceId = Inr (Some customerId) \<and> buildPosting row invoiceId customerId = Inr posting \<and>
      entity = posting_entity posting \<and> body = posting_body posting \<and>
      (\<forall>e. posting = Entry_Posting e \<longrightarrow> pw_lines row = Some (je_lines e)) \<and>
      (retry \<longrightarrow> (\<exists>ref. postingReference writebackId = Inr ref \<and> cl_findByReference client w entity ref = Inr [])))"
proof (cases rule: job_cases [of deps writebackId retry w])
  case (sent row client posting)
  have request: "requestId = writebackId" "entity = posting_entity posting" "body = posting_body posting"
    using assms send_spec [of writebackId posting client w] unfolding sent(4) by (metis Pair_inject option.inject)+
  obtain invoiceId customerId where made: "pw_invoiceId row = Some invoiceId"
    "cl_invoiceCustomer client w invoiceId = Inr (Some customerId)" "buildPosting row invoiceId customerId = Inr posting"
    "lines_kept row posting" using prepare_Inr [OF sent(2)] .
  have "\<forall>e. posting = Entry_Posting e \<longrightarrow> pw_lines row = Some (je_lines e)"
    using made(4) by (auto simp: lines_kept_def sameLines_iff)
  moreover have "retry \<longrightarrow> (\<exists>ref. postingReference writebackId = Inr ref \<and> cl_findByReference client w entity ref = Inr [])"
    using check_retry_None [OF sent(3)] request by simp
  ultimately show ?thesis using job_guard_Inr [OF sent(1)] made request by blast
qed (use assms in simp_all)

text \<open>C20: What a run records is what it did: an attempt whose reason says nothing was sent made no request,
  every request made leaves an attempt that does not say so, a success is recorded exactly when it is
  the result, and then what the ledger returned matched what was to be sent.\<close>

theorem job_records_truth:
  assumes "run = postWritebackJob deps writebackId retry w"
  shows "(\<forall>a. jr_attempt run = Some a \<and> isNothingSentReason (at_reason a) \<longrightarrow>
      jr_sent run = None) \<and>
    (jr_sent run \<noteq> None \<longrightarrow>
      (\<exists>a. jr_attempt run = Some a \<and> \<not> isNothingSentReason (at_reason a))) \<and>
    ((\<exists>a. jr_attempt run = Some a \<and> at_status a = Succeeded \<and> at_qboTxnId a = Some txnId) \<longleftrightarrow>
      jr_result run = Job_Succeeded txnId) \<and>
    (jr_result run = Job_Succeeded txnId \<longrightarrow>
      (\<exists>row client invoiceId customerId posting got. dp_writebackForPosting deps writebackId = Some row \<and>
        dp_clientFor deps (pw_connectionId row, pw_realmId row) = Some client \<and>
        buildPosting row invoiceId customerId = Inr posting \<and> verifyReadBack posting got = [] \<and>
        (cl_getById client (jr_ledger run) (posting_entity posting) txnId = Inr got \<or>
         key_of got ''Id'' = Some (R_Str txnId) \<and> (\<exists>ref. cl_findByReference client w (posting_entity posting) ref = Inr [got]))))"
proof (cases rule: job_cases [of deps writebackId retry w])
  case (refused result)
  then show ?thesis using job_guard_Inl [OF refused(1)] unfolding assms refused(2) by auto
next
  case (not_sent row client reason error)
  then show ?thesis unfolding assms not_sent(3) by (auto simp: failed_attempt_def)
next
  case (read row client posting a r)
  obtain invoiceId customerId where "buildPosting row invoiceId customerId = Inr posting" using prepare_Inr [OF read(2)] by metis
  moreover note agree = check_retry_agreed [OF read(4)]
  moreover have "\<exists>ref got. cl_findByReference client w (posting_entity posting) ref = Inr [got] \<and>
      key_of got ''Id'' = Some (R_Str txnId) \<and> verifyReadBack posting got = []" if "r = Job_Succeeded txnId"
    using read(4) that by (auto dest!: check_retry_verified)
  moreover have "at_status a = Succeeded \<and> at_qboTxnId a = Some txnId \<longleftrightarrow> r = Job_Succeeded txnId"
    using agree by (auto simp: agreed_def split: PostingJobResult.splits)
  ultimately show ?thesis using job_guard_Inr(3,8) [OF read(1)] unfolding assms read(5)
    by (simp add: agreed_def) blast
next
  case (sent row client posting)
  obtain invoiceId customerId where b: "buildPosting row invoiceId customerId = Inr posting" using prepare_Inr [OF sent(2)] by metis
  from send_spec [of writebackId posting client w] obtain a r where s:
    "jr_attempt (send writebackId posting client w) = Some a" "jr_result (send writebackId posting client w) = r" "agreed a r"
    "jr_sent (send writebackId posting client w) = Some (posting_entity posting, posting_body posting, writebackId)"
    "\<And>txnId. r = Job_Succeeded txnId \<Longrightarrow> \<exists>got. cl_getById client (jr_ledger (send writebackId posting client w)) (posting_entity posting) txnId = Inr got \<and>
       verifyReadBack posting got = []" by blast
  have "\<not> isNothingSentReason (at_reason a)" using s(3) by (simp add: agreed_def)
  moreover have "at_status a = Succeeded \<and> at_qboTxnId a = Some txnId \<longleftrightarrow> r = Job_Succeeded txnId"
    using s(3) by (auto simp: agreed_def split: PostingJobResult.splits)
  ultimately show ?thesis using s b job_guard_Inr(3,8) [OF sent(1)] unfolding assms sent(4)
    by (simp add: option.inject) blast
qed


definition sample_row :: PostingWriteback where
  "sample_row = \<lparr>pw_writebackId = ''00000000-0000-4000-8000-000000000001'', pw_deductionId = ''c'', pw_decisionId = ''d'',
     pw_schemaId = Schema_S, pw_method = Journal_Entry, pw_status = Pending, pw_qboTxnId = None, pw_connectionId = ''n'',
     pw_realmId = ''1'', pw_postingEnabled = True, pw_amountCents = 5000, pw_lines = Some (map st_line sample_lines),
     pw_settlementLines = Some sample_lines, pw_caseAmountCents = 5000, pw_family = Some Fam_Shortage,
     pw_outcome = Some Outcome_Lost, pw_recoveredCents = None, pw_invoiceId = Some ''130'', pw_approvedOn = ''2026-10-05'',
     pw_map = \<lparr>lm_arAccountId = ''84'', lm_deductionsReceivableAccountId = ''85'', lm_writeoffByFamily = (\<lambda>_. ''90''),
       lm_unclassifiedWriteoff = ''91''\<rparr>, pw_journalEntryId = None, pw_voided = False\<rparr>"

definition sample_client :: "unit PostingLedgerClient" where
  "sample_client = \<lparr>cl_invoiceCustomer = (\<lambda>_ _. Inr (Some ''7'')), cl_findByReference = (\<lambda>_ _ _. Inr []),
     cl_post = (\<lambda>w _ _ _. (w, Inr [(''Id'', R_Str ''55'')])), cl_getById = (\<lambda>_ _ _. Inl Other_Failure)\<rparr>"

definition sample_deps :: "unit PostingJobDeps" where
  "sample_deps = \<lparr>dp_postingAllowed = True, dp_memberMayWrite = True, dp_writebackForPosting = (\<lambda>_. Some sample_row),
     dp_clientFor = (\<lambda>_. Some sample_client)\<rparr>"

lemma sample_run:
  "\<exists>e :: JournalEntryPosting. postWritebackJob sample_deps (pw_writebackId sample_row) False () =
    \<lparr>jr_ledger = (), jr_sent = Some (Entity_JournalEntry, je_body e, pw_writebackId sample_row),
     jr_attempt = Some (failed_attempt (pw_writebackId sample_row) ''readback_failed'' (Some Other_Failure)),
     jr_result = WritebackFailedError ''readback_failed''\<rparr>"
proof -
  obtain e where e: "buildStoredSettlementEntry sample_common sample_lines = Inr e" using sample_built ..
  have "row_common sample_row ''7'' = sample_common" by (simp add: row_common_def sample_row_def sample_common_def)
  then have "buildPosting sample_row ''130'' ''7'' = Inr (Entry_Posting e)"
    using e by (simp add: buildPosting_def sample_row_def)
  moreover have "lines_kept sample_row (Entry_Posting e)"
    using buildStored_Inr(1) [OF e] by (simp add: lines_kept_def sameLines_iff sample_row_def)
  ultimately have "prepare sample_row sample_client () = Inr (Entry_Posting e)"
    by (simp add: prepare_def sample_client_def sample_row_def [THEN arg_cong, of pw_invoiceId])
  moreover have "job_guard sample_deps (pw_writebackId sample_row) = Inr (sample_row, sample_client)"
    by (simp add: job_guard_def sample_deps_def sample_row_def)
  ultimately show ?thesis
    by (intro exI [of _ e]) (simp add: postWritebackJob_def send_def read_back_def sample_client_def key_of_def)
qed

lemma sends_only_approved_witness:
  "\<exists>entity body requestId. jr_sent (postWritebackJob sample_deps (pw_writebackId sample_row) False ()) = Some (entity, body, requestId) \<and>
    requestId = pw_writebackId sample_row \<and> entity = Entity_JournalEntry"
proof -
  obtain e :: JournalEntryPosting where "jr_sent (postWritebackJob sample_deps (pw_writebackId sample_row) False ()) =
      Some (Entity_JournalEntry, je_body e, pw_writebackId sample_row)" using sample_run by auto
  then show ?thesis using sends_only_approved [of sample_deps "pw_writebackId sample_row" False "()"] by blast
qed

lemma job_records_truth_witness:
  "\<exists>a. jr_attempt (postWritebackJob sample_deps (pw_writebackId sample_row) False ()) = Some a \<and>
    \<not> isNothingSentReason (at_reason a)"
proof -
  obtain e :: JournalEntryPosting where "jr_sent (postWritebackJob sample_deps (pw_writebackId sample_row) False ()) =
      Some (Entity_JournalEntry, je_body e, pw_writebackId sample_row)" using sample_run by auto
  then show ?thesis using job_records_truth [OF refl, of sample_deps "pw_writebackId sample_row" False "()" "[]"] by blast
qed

end
