(* ===== verification/Settlement_Decision.thy ===== *)
theory Settlement_Decision
  imports Posting_Job Settlement_Lines
begin

text \<open>
  What a settlement decision is and what it queues: \<open>prepareSettlementDecision\<close>, \<open>insertWriteback\<close>'s
  lines and \<open>insertWriteoff\<close> of \<open>packages/store-postgres/src/posting.ts\<close>. A person states the outcome, what
  was recovered and the invoice; the amounts are checked by the drafts, the invoice is the ledger's
  own answer, and the lines, when the person edits them, are checked against the chart. The
  lemmas compose this with the posting: what is prepared here can be built, and the job builds
  exactly the lines stored when the write-back was queued.
\<close>

section \<open>A decision\<close>

record DecisionFacts =
  df_deductionId :: string
  df_schemaId :: schemaId
  df_caseAmountCents :: int
  df_family :: "ReasonFamily option"
  df_outcome :: "JournalOutcome option"
  df_recoveredCents :: "int option"
  df_invoiceId :: "string option"

definition draftsFor :: "DecisionFacts \<Rightarrow> DraftEntry list res" where
  "draftsFor facts = draftEntries \<lparr>in_amount = Whole (df_caseAmountCents facts),
     in_recovered = map_option Whole (df_recoveredCents facts), in_outcome = df_outcome facts, in_family = df_family facts,
     in_printedReasonCode = None, in_map = None\<rparr>"

definition linesFor :: "DecisionFacts \<Rightarrow> LedgerAccountMap \<Rightarrow> PostingLine list res" where
  "linesFor facts accounts = bind_res (draftsFor facts) (\<lambda>entries. case df_schemaId facts of
     Schema_B \<Rightarrow> entryLines entries accounts [Found]
   | Schema_S \<Rightarrow> entryLines entries accounts (settlementStages (df_outcome facts = Some Outcome_Declined)))"

definition expenseDebit :: "DecisionFacts \<Rightarrow> int res" where
  "expenseDebit facts = bind_res (draftsFor facts) (\<lambda>entries.
     sumCents (map line_debit (filter (\<lambda>l. line_role l = Writeoff_Expense)
       (concat (map entry_lines (filter (\<lambda>e. entry_stage e = Written_Off_Stage) entries))))))"

text \<open>A stored line as the posting names it: account, side, cents, never its memo.\<close>

definition toPostingLine :: "StoredSettlementLine \<Rightarrow> PostingLine" where
  "toPostingLine l =
     (if set_debitCents l > 0
      then \<lparr>po_accountId = set_accountExternalId l, po_side = Debit, po_amountCents = set_debitCents l\<rparr>
      else \<lparr>po_accountId = set_accountExternalId l, po_side = Credit, po_amountCents = set_creditCents l\<rparr>)"

definition posting_stored :: "StoredSettlementLine \<Rightarrow> StoredPostingLine" where
  "posting_stored l = \<lparr>st_line = toPostingLine l, st_memo = set_memo l\<rparr>"

section \<open>What a write-back stores\<close>

definition decision_lines :: "DecisionFacts \<Rightarrow> StoredSettlementLine list \<Rightarrow> StoredSettlementLine list" where
  "decision_lines facts stored = (case df_schemaId facts of Schema_S \<Rightarrow> stored | Schema_B \<Rightarrow> [])"

definition writeback_content ::
  "WritebackMethod \<Rightarrow> DecisionFacts \<Rightarrow> LedgerAccountMap \<Rightarrow> StoredSettlementLine list \<Rightarrow> (PostingLine list option \<times> int) res" where
  "writeback_content method facts accounts stored = (case method of
     Journal_Entry \<Rightarrow>
       bind_res (if decision_lines facts stored \<noteq> [] then Inr (map toPostingLine (decision_lines facts stored))
                 else linesFor facts accounts)
         (\<lambda>ls. bind_res (sumCents (side_cents Debit ls)) (\<lambda>amount. Inr (Some ls, amount)))
   | Payment_Application \<Rightarrow>
       if df_schemaId facts = Schema_S \<and> df_outcome facts \<noteq> Some Outcome_Declined
       then Inl (PostingDecisionError ''only a found posting or a declined settlement applies a zero payment'')
       else case df_invoiceId facts of
         None \<Rightarrow> Inl (PostingDecisionError ''the decision names no ledger invoice'')
       | Some _ \<Rightarrow> Inr (None, df_caseAmountCents facts))"

text \<open>The write-off row is refused unless its amount is exactly the entry's expense debit.\<close>

definition insertWriteoff :: "DecisionFacts \<Rightarrow> bool \<Rightarrow> int \<Rightarrow> int res" where
  "insertWriteoff facts writeoffApproved amountCents =
     (if df_schemaId facts \<noteq> Schema_S then Inl (PostingDecisionError ''a write-off follows a settlement decision'')
      else bind_res (expenseDebit facts) (\<lambda>expected.
        if expected \<noteq> amountCents then Inl (WriteoffAmountMismatchError expected amountCents)
        else if \<not> writeoffApproved then Inl (WritebackNotApprovedError ''writeoff'')
        else Inr amountCents))"

section \<open>Preparing a settlement\<close>

definition SETTLEMENT_REFUSED_ACCOUNT_TYPES :: "string list" where
  "SETTLEMENT_REFUSED_ACCOUNT_TYPES = [''Accounts Payable'', ''Bank'']"

definition settlementAccountPolicy :: "LedgerAccountMap \<Rightarrow> SettlementAccountPolicy" where
  "settlementAccountPolicy accounts = \<lparr>pol_receivableAccountId = lm_arAccountId accounts,
     pol_receivableAccountTypes = [''Accounts Receivable''], pol_refusedAccountTypes = SETTLEMENT_REFUSED_ACCOUNT_TYPES\<rparr>"

definition account_ids :: "LedgerAccountMap \<Rightarrow> SettlementAccountIds" where
  "account_ids accounts = \<lparr>ids_arAccountId = lm_arAccountId accounts,
     ids_deductionsReceivableAccountId = lm_deductionsReceivableAccountId accounts,
     ids_writeoffByFamily = lm_writeoffByFamily accounts, ids_unclassifiedWriteoff = lm_unclassifiedWriteoff accounts\<rparr>"

text \<open>What the person sends, with the ledger's and the chart's live answers.\<close>

record SettlementInput =
  si_preparedBy :: string
  si_outcome :: JournalOutcome
  si_recoveredCents :: js_number
  si_family :: "ReasonFamily option"
  si_invoiceId :: string
  si_invoicesFound :: LedgerInvoiceMatches
  si_paymentId :: "string option"
  si_lines :: "(SettlementLineInput list \<times> SettlementChartAccount list) option"

text \<open>What the transaction reads of the case, under its row lock.\<close>

record SettlementCase =
  sc_userId :: string
  sc_amountCents :: "int option"
  sc_liveApproval :: bool
  sc_ledgerInvoiceId :: "string option"
  sc_connected :: bool
  sc_map :: "LedgerAccountMap option"

record PreparedSettlement =
  sp_outcome :: JournalOutcome
  sp_recoveredCents :: js_number
  sp_family :: "ReasonFamily option"
  sp_invoiceId :: string
  sp_invoiceNumber :: "string option"
  sp_paymentId :: "string option"
  sp_lines :: "StoredSettlementLine list option"
  sp_edited :: bool

datatype settlement_refusal =
    Settlement_Failed failure
  | Settlement_Already_Approved
  | Settlement_Invoice_Refused InvoiceRefusal
  | Account_Map_Required
  | Settlement_Lines_Refused "(SettlementLineProblemCode \<times> nat option) list"

definition or_refuse :: "'a res \<Rightarrow> ('a \<Rightarrow> settlement_refusal + 'b) \<Rightarrow> settlement_refusal + 'b" where
  "or_refuse m f = (case m of Inl e \<Rightarrow> Inl (Settlement_Failed e) | Inr x \<Rightarrow> f x)"

definition settlement_drafts :: "SettlementInput \<Rightarrow> int \<Rightarrow> DraftEntry list res" where
  "settlement_drafts input amountCents = draftEntries \<lparr>in_amount = Whole amountCents,
     in_recovered = Some (si_recoveredCents input), in_outcome = Some (si_outcome input), in_family = si_family input,
     in_printedReasonCode = None, in_map = None\<rparr>"

text \<open>The lines a person chose, checked against the map in force and the chart; and whether they
  differ from the computed ones.\<close>

definition chosen_lines ::
  "SettlementInput \<Rightarrow> SettlementCase \<Rightarrow> DraftEntry list \<Rightarrow> settlement_refusal + StoredSettlementLine list option \<times> bool" where
  "chosen_lines input c entries = (case si_lines input of
     None \<Rightarrow> Inr (None, False)
   | Some (given, chart) \<Rightarrow>
       if \<not> sc_connected c then Inl (Settlement_Failed (PostingConnectionNotFoundError ''connection''))
       else case sc_map c of
         None \<Rightarrow> Inl Account_Map_Required
       | Some accounts \<Rightarrow>
           or_refuse (settlementLinesFrom entries (account_ids accounts) (si_outcome input = Outcome_Declined)) (\<lambda>computed.
           or_refuse (validateSettlementLines given chart computed (settlementAccountPolicy accounts)) (\<lambda>verdict.
             case verdict of
               Lines_Refused problems \<Rightarrow> Inl (Settlement_Lines_Refused problems)
             | Lines_Ok ls \<Rightarrow> Inr (Some ls, diffSettlementLines (map SettlementLine.truncate ls) computed \<noteq> []))))"

text \<open>The transaction, once the case's amount is read.\<close>

definition prepare_in_case ::
  "SettlementInput \<Rightarrow> SettlementCase \<Rightarrow> string option \<Rightarrow> int \<Rightarrow> settlement_refusal + PreparedSettlement" where
  "prepare_in_case input c paymentId amountCents =
     or_refuse (settlement_drafts input amountCents) (\<lambda>entries.
       if sc_liveApproval c then Inl Settlement_Already_Approved
       else or_refuse (resolveStatedInvoice (trim (si_invoiceId input)) (si_invoicesFound input) (sc_ledgerInvoiceId c)) (\<lambda>resolved.
         case resolved of
           Refused reason \<Rightarrow> Inl (Settlement_Invoice_Refused reason)
         | Named invoice \<Rightarrow>
             or_refuse (assertQboId (ir_id invoice)) (\<lambda>invoiceId.
             case chosen_lines input c entries of
               Inl e \<Rightarrow> Inl e
             | Inr (ls, edited) \<Rightarrow>
                 Inr \<lparr>sp_outcome = si_outcome input, sp_recoveredCents = si_recoveredCents input,
                   sp_family = si_family input, sp_invoiceId = invoiceId,
                   sp_invoiceNumber = (case ir_docNumber invoice of None \<Rightarrow> None
                     | Some n \<Rightarrow> if STATED_INVOICE n then Some n else None),
                   sp_paymentId = paymentId, sp_lines = ls, sp_edited = edited\<rparr>)))"

definition prepareSettlementDecision ::
  "SettlementInput \<Rightarrow> SettlementCase \<Rightarrow> settlement_refusal + PreparedSettlement" where
  "prepareSettlementDecision input c =
     (if si_preparedBy input \<noteq> sc_userId c
      then Inl (Settlement_Failed (PostingDecisionError ''a settlement decision is prepared by the caller''))
      else if \<not> STATED_INVOICE (trim (si_invoiceId input))
      then Inl (Settlement_Failed (PostingDecisionError ''an invoice is named by its ledger id or its printed number''))
      else or_refuse (case si_paymentId input of None \<Rightarrow> Inr None | Some p \<Rightarrow> bind_res (assertQboId p) (\<lambda>q. Inr (Some q))) (\<lambda>paymentId.
        case sc_amountCents c of
          None \<Rightarrow> Inl (Settlement_Failed (PostingDecisionError ''case''))
        | Some amountCents \<Rightarrow> prepare_in_case input c paymentId amountCents))"

section \<open>What is prepared can be posted\<close>

lemma or_refuseE:
  assumes "or_refuse m f = Inr y"
  obtains x where "m = Inr x" "f x = Inr y"
  using assms by (cases m) (simp_all add: or_refuse_def)

lemma totals_safe: "settlementTotals xs = Inr (d, cb) \<Longrightarrow> safe_int d"
  by (auto simp: settlementTotals_def bind_res_Inr_iff dest: sumCents_Inr)

lemma accepted_total_safe:
  assumes "validateSettlementLines given chart computed policy = Inr (Lines_Ok ls)"
  shows "safe_int (\<Sum>l\<leftarrow>ls. set_debitCents l)"
proof -
  note rule = validate_accepts [OF assms]
  note rows = accepted_rows [OF rule(1)]
  obtain over where "check_totals policy (map (\<lambda>l. (inp_accountExternalId l, the (readable (input_sides l)))) given) computed = Inr over"
      "over = []"
    using assms rows(3) by (auto simp: validateSettlementLines_def Let_def bind_res_Inr_iff split: if_splits)
  then obtain cd cc b where totals: "settlementTotals (map line_sides computed) = Inr (cd, cc, b)"
    by (auto simp: check_totals_def Let_def bind_res_Inr_iff split: sum.splits)
  have "settlementTotals (map (\<lambda>l. (Whole (set_debitCents l), Whole (set_creditCents l))) computed) = Inr (cd, cc, b)"
    using totals by (simp add: line_sides_def [abs_def])
  note settlementTotals_Inr(1) [OF this]
  then have "safe_int (\<Sum>l\<leftarrow>computed. set_debitCents l)" using totals_safe [OF totals] by simp
  moreover have "(\<Sum>l\<leftarrow>ls. set_debitCents l) \<le> (\<Sum>l\<leftarrow>computed. set_debitCents l)" using rule(2) by (simp add: accepted_set_def)
  moreover have "\<forall>l\<in>set ls. 0 \<le> set_debitCents l"
    using rule(1) by (induction rule: list_all2_induct) (auto simp: accepts_line_def readable_Some)
  then have "0 \<le> (\<Sum>l\<leftarrow>ls. set_debitCents l)" by (intro sum_list_nonneg) auto
  ultimately show ?thesis by (auto simp: safe_int_def)
qed

text \<open>Lines that the check accepts, as the posting names them.\<close>

definition postable :: "StoredSettlementLine list \<Rightarrow> bool" where
  "postable ls \<longleftrightarrow> 2 \<le> length ls \<and> length ls \<le> 20 \<and> assertBalanced (map toPostingLine ls) = Inr () \<and>
     (\<forall>l\<in>set (map toPostingLine ls). 0 < po_amountCents l \<and> safe_int (po_amountCents l))"

lemma one_sided_sums:
  assumes "\<forall>l\<in>set ls. one_sided (set_debitCents l) (set_creditCents l)"
  shows "sum_list (side_cents Debit (map toPostingLine ls)) = (\<Sum>l\<leftarrow>ls. set_debitCents l)"
    "sum_list (side_cents Credit (map toPostingLine ls)) = (\<Sum>l\<leftarrow>ls. set_creditCents l)"
  using assms by (induction ls) (auto simp: side_cents_def toPostingLine_def one_sided_def)

lemma accepted_postable:
  assumes "validateSettlementLines given chart computed policy = Inr (Lines_Ok ls)"
  shows "postable ls"
proof -
  note rule = validate_accepts [OF assms]
  have each: "\<forall>l\<in>set ls. one_sided (set_debitCents l) (set_creditCents l) \<and> safe_int (set_debitCents l) \<and> safe_int (set_creditCents l)"
    using rule(1) by (induction rule: list_all2_induct) (auto simp: accepts_line_def readable_Some)
  then have amounts: "\<forall>l\<in>set (map toPostingLine ls). 0 < po_amountCents l \<and> safe_int (po_amountCents l)"
    by (auto simp: toPostingLine_def one_sided_def)
  have sums: "sum_list (side_cents side (map toPostingLine ls)) = (\<Sum>l\<leftarrow>ls. set_debitCents l)" for side
    using one_sided_sums [of ls] each rule(2) by (cases side) (auto simp: accepted_set_def)
  have pos: "\<forall>x\<in>set (side_cents side (map toPostingLine ls)). 0 \<le> x" for side
    using amounts by (auto simp: side_cents_def less_imp_le)
  have "sumCents (side_cents side (map toPostingLine ls)) = Inr (\<Sum>l\<leftarrow>ls. set_debitCents l)" for side
    using sumCents_nonneg [of "side_cents side (map toPostingLine ls)"] pos accepted_total_safe [OF assms] by (auto simp: sums safe_int_def)
  then have "assertBalanced (map toPostingLine ls) = Inr ()" by (simp add: assertBalanced_def)
  then show ?thesis using rule(2) amounts by (simp add: postable_def accepted_set_def)
qed


lemma posting_stored_line: "map st_line (map posting_stored ls) = map toPostingLine ls"
  by (simp add: posting_stored_def)

lemma journalEntry_total:
  assumes "\<forall>l\<in>set ls. safe_int (po_amountCents l)" "digits_id (cm_customerId input)"
    "assertDay (cm_approvedOn input) = Inr day" "postingReference (cm_writebackId input) = Inr reference"
  obtains e where "journalEntry input ls memos = Inr e"
proof -
  let ?memo = "postingMemo (cm_caseId input) (cm_family input) reference"
  let ?line = "\<lambda>(i, l). entry_line_json (cm_customerId input) ?memo l (if i < length memos then memos ! i else None)"
  have "\<exists>j. ?line x = Inr j" if "x \<in> set (enumerate 0 ls)" for x
  proof -
    obtain i l where x: "x = (i, l)" by fastforce
    then have "l \<in> set ls" using that by (auto simp: in_set_enumerate_eq)
    then show ?thesis using assms(1) by (simp add: x entry_line_json_def centsToQboAmount_def Let_def)
  qed
  then obtain js where "map_res ?line (enumerate 0 ls) = Inr js" using map_res_Inr_map [of ?line "enumerate 0 ls"] by blast
  moreover have "assertQboId (cm_customerId input) = Inr (cm_customerId input)" using assms(2) by (simp add: assertQboId_iff)
  ultimately show thesis using assms(3,4) that by (simp add: journalEntry_def Let_def)
qed

lemma postable_builds:
  assumes "postable ls" "\<forall>l\<in>set ls. digits_id (set_accountExternalId l)" "digits_id (cm_customerId input)"
    "assertDay (cm_approvedOn input) = Inr day" "postingReference (cm_writebackId input) = Inr reference"
  shows "\<exists>e. buildStoredSettlementEntry input (map posting_stored ls) = Inr e \<and> je_lines e = map toPostingLine ls"
proof -
  note ok = assms(1) [unfolded postable_def]
  let ?memo = "\<lambda>s. case st_memo s of None \<Rightarrow> None | Some m \<Rightarrow> if m = [] then None else Some m"
  have "map_res stored_line (map posting_stored ls) = Inr (map (\<lambda>s. (st_line s, ?memo s)) (map posting_stored ls))"
  proof (rule map_res_total)
    fix s assume "s \<in> set (map posting_stored ls)"
    then obtain l where l: "l \<in> set ls" "s = posting_stored l" by auto
    then have "0 < po_amountCents (toPostingLine l)" "safe_int (po_amountCents (toPostingLine l))" using ok by auto
    moreover have "digits_id (po_accountId (toPostingLine l))" using assms(2) l(1) by (simp add: toPostingLine_def)
    then have "assertQboId (po_accountId (toPostingLine l)) = Inr (po_accountId (toPostingLine l))" by (simp add: assertQboId_iff)
    ultimately show "stored_line s = Inr (st_line s, ?memo s)" by (simp add: stored_line_def l(2) posting_stored_def)
  qed
  moreover have "\<forall>l\<in>set (map toPostingLine ls). safe_int (po_amountCents l)" using ok by blast
  then obtain e where "journalEntry input (map toPostingLine ls) (map ?memo (map posting_stored ls)) = Inr e"
    by (rule journalEntry_total [OF _ assms(3-5)])
  ultimately have "buildStoredSettlementEntry input (map posting_stored ls) = Inr e"
    using ok by (simp add: buildStoredSettlementEntry_def posting_stored_def comp_def)
  then show ?thesis using buildStored_Inr(1) posting_stored_line by fastforce
qed


lemma chosen_postable:
  assumes "chosen_lines input c entries = Inr (Some ls, edited)"
  shows "postable ls"
  using assms accepted_postable
  by (auto simp: chosen_lines_def elim!: or_refuseE split: option.split_asm if_split_asm SettlementLinesVerdict.split_asm)

lemma prepared_parts:
  assumes "prepareSettlementDecision input c = Inr p"
  obtains amountCents entries invoice where
    "si_preparedBy input = sc_userId c" "\<not> sc_liveApproval c" "sc_amountCents c = Some amountCents"
    "settlement_drafts input amountCents = Inr entries"
    "resolveStatedInvoice (trim (si_invoiceId input)) (si_invoicesFound input) (sc_ledgerInvoiceId c) = Inr (Named invoice)"
    "sp_invoiceId p = ir_id invoice" "digits_id (sp_invoiceId p)" "sp_outcome p = si_outcome input"
    "sp_recoveredCents p = si_recoveredCents input" "chosen_lines input c entries = Inr (sp_lines p, sp_edited p)"
proof -
  from assms obtain paymentId amountCents where who: "si_preparedBy input = sc_userId c" "sc_amountCents c = Some amountCents"
    and rest: "prepare_in_case input c paymentId amountCents = Inr p"
    by (auto simp: prepareSettlementDecision_def elim!: or_refuseE split: if_split_asm option.split_asm)
  from rest obtain entries invoice ls edited where d: "settlement_drafts input amountCents = Inr entries"
    and live: "\<not> sc_liveApproval c"
    and named: "resolveStatedInvoice (trim (si_invoiceId input)) (si_invoicesFound input) (sc_ledgerInvoiceId c) = Inr (Named invoice)"
      "digits_id (ir_id invoice)"
    and chosen: "chosen_lines input c entries = Inr (ls, edited)"
    and p: "sp_outcome p = si_outcome input" "sp_recoveredCents p = si_recoveredCents input" "sp_invoiceId p = ir_id invoice"
      "sp_lines p = ls" "sp_edited p = edited"
    unfolding prepare_in_case_def
    by (elim or_refuseE)
      (auto simp: assertQboId_iff elim!: or_refuseE split: if_split_asm InvoiceResolution.split_asm sum.split_asm prod.split_asm)
  show thesis by (rule that [OF who(1) live who(2) d named(1) p(3)]) (use p named chosen in simp_all)
qed

lemma settlement_drafts_amounts:
  assumes "settlement_drafts input amountCents = Inr entries"
  obtains r where "si_recoveredCents input = Whole r" "0 \<le> r" "r \<le> amountCents" "0 < amountCents"
    "si_outcome input = Outcome_Won \<longrightarrow> r = amountCents"
    "si_outcome input = Outcome_Lost \<or> si_outcome input = Outcome_Declined \<longrightarrow> r = 0"
proof -
  from assms obtain a rIn where c: "checked_amounts \<lparr>in_amount = Whole amountCents,
     in_recovered = Some (si_recoveredCents input), in_outcome = Some (si_outcome input), in_family = si_family input,
     in_printedReasonCode = None, in_map = None\<rparr> = Inr (a, rIn)"
    by (auto simp: settlement_drafts_def draftEntries_def bind_res_Inr_iff)
  note ck = checked_amounts_Inr [OF c, simplified]
  obtain r where "rIn = Some r" "si_recoveredCents input = Whole r" using ck(4) by (cases rIn) auto
  then show thesis using that [of r] ck by auto
qed

section \<open>Properties\<close>

text \<open>C27: A settlement is prepared only by the caller, while no other settlement of the case is approved and
  not voided, for amounts the books can hold (nothing more than was deducted, the whole of a won
  case, nothing of a lost or declined one), on the one invoice the ledger answers; and the lines a
  person chose are ones the posting can carry: 2 to 20 positive amounts that balance.\<close>

theorem prepared_settlement:
  assumes "prepareSettlementDecision input c = Inr p"
  shows "si_preparedBy input = sc_userId c \<and> \<not> sc_liveApproval c \<and>
    (\<exists>amountCents r. sc_amountCents c = Some amountCents \<and> sp_recoveredCents p = Whole r \<and> 0 \<le> r \<and> r \<le> amountCents \<and>
      (sp_outcome p = Outcome_Won \<longrightarrow> r = amountCents) \<and>
      (sp_outcome p = Outcome_Lost \<or> sp_outcome p = Outcome_Declined \<longrightarrow> r = 0)) \<and>
    (\<exists>invoice. resolveStatedInvoice (trim (si_invoiceId input)) (si_invoicesFound input) (sc_ledgerInvoiceId c) = Inr (Named invoice) \<and>
      sp_invoiceId p = ir_id invoice \<and> digits_id (sp_invoiceId p)) \<and>
    (\<forall>ls. sp_lines p = Some ls \<longrightarrow> postable ls)"
proof -
  obtain amountCents entries invoice where parts:
    "si_preparedBy input = sc_userId c" "\<not> sc_liveApproval c" "sc_amountCents c = Some amountCents"
    "settlement_drafts input amountCents = Inr entries"
    "resolveStatedInvoice (trim (si_invoiceId input)) (si_invoicesFound input) (sc_ledgerInvoiceId c) = Inr (Named invoice)"
    "sp_invoiceId p = ir_id invoice" "digits_id (sp_invoiceId p)" "sp_outcome p = si_outcome input"
    "sp_recoveredCents p = si_recoveredCents input" "chosen_lines input c entries = Inr (sp_lines p, sp_edited p)"
    using prepared_parts [OF assms] .
  obtain r where "si_recoveredCents input = Whole r" "0 \<le> r" "r \<le> amountCents" "0 < amountCents"
    "si_outcome input = Outcome_Won \<longrightarrow> r = amountCents"
    "si_outcome input = Outcome_Lost \<or> si_outcome input = Outcome_Declined \<longrightarrow> r = 0"
    using settlement_drafts_amounts [OF parts(4)] .
  then show ?thesis using parts chosen_postable by auto
qed

text \<open>C28: Lines that were prepared and approved can always be built: on ids of digits, for a customer, a
  day and a write-back that are well formed, the entry is made and posts exactly those lines.\<close>

theorem prepared_lines_post:
  assumes "prepareSettlementDecision input c = Inr p" "sp_lines p = Some ls"
    "\<forall>l\<in>set ls. digits_id (set_accountExternalId l)" "digits_id (cm_customerId common)"
    "assertDay (cm_approvedOn common) = Inr day" "postingReference (cm_writebackId common) = Inr reference"
  shows "\<exists>e. buildStoredSettlementEntry common (map posting_stored ls) = Inr e \<and> je_lines e = map toPostingLine ls"
proof -
  obtain entries where "chosen_lines input c entries = Inr (sp_lines p, sp_edited p)" using prepared_parts [OF assms(1)] .
  then show ?thesis using postable_builds chosen_postable assms by simp
qed


definition sample_settlement :: SettlementInput where
  "sample_settlement = \<lparr>si_preparedBy = ''u'', si_outcome = Outcome_Lost, si_recoveredCents = Whole 0, si_family = None,
     si_invoiceId = ''130'', si_invoicesFound = \<lparr>im_byId = Some \<lparr>ir_id = ''130'', ir_docNumber = Some ''A-7''\<rparr>, im_byDocNumber = []\<rparr>,
     si_paymentId = None, si_lines = Some (sample_input, [
       \<lparr>acc_externalId = ''84'', acc_name = ''Deductions'', acc_accountType = ''Other Current Asset'', acc_active = True\<rparr>,
       \<lparr>acc_externalId = ''90'', acc_name = ''Write-off'', acc_accountType = ''Expense'', acc_active = True\<rparr>])\<rparr>"

definition sample_settlement_case :: SettlementCase where
  "sample_settlement_case = \<lparr>sc_userId = ''u'', sc_amountCents = Some 500, sc_liveApproval = False, sc_ledgerInvoiceId = None,
     sc_connected = True, sc_map = Some \<lparr>lm_arAccountId = ''80'', lm_deductionsReceivableAccountId = ''84'',
       lm_writeoffByFamily = (\<lambda>_. ''90''), lm_unclassifiedWriteoff = ''90''\<rparr>\<rparr>"

lemma sample_prepared:
  "\<exists>p ls. prepareSettlementDecision sample_settlement sample_settlement_case = Inr p \<and> sp_lines p = Some ls \<and>
    map set_accountExternalId ls = [''90'', ''84''] \<and> sp_family p = None \<and> sp_outcome p = Outcome_Lost \<and>
    sp_recoveredCents p = Whole 0 \<and> sp_invoiceId p = ''130''"
proof -
  have trims: "trim ''84'' = ''84''" "trim ''90'' = ''90''" "trim ''130'' = ''130''"
    by (simp_all add: trim_no_ws is_ws_def code_unit_def)
  have ids: "assertQboId ''130'' = Inr ''130''" "STATED_INVOICE ''130''" by code_simp+
  have keys: "receivable_keys policy [(''90'', 500, 0), (''84'', 0, 500)] = []" if "pol_receivableAccountId policy = ''80''" for policy
    by (simp add: receivable_keys_def that trims)
  show ?thesis
    by (simp add: prepareSettlementDecision_def prepare_in_case_def sample_settlement_def sample_settlement_case_def trims ids
        or_refuse_def settlement_drafts_def draftEntries_def checked_amounts_def safe_number_def safe_int_def max_safe_def
        subCents_def entries_of_def Let_def pair_def resolveStatedInvoice_def matches_def chosen_lines_def
        settlementLinesFrom_def settlementEntryStages_def pushed_def account_ids_def settlement_line_def
        validateSettlementLines_def sample_input_def input_sides_def check_totals_def keys line_sides_def settlementTotals_def
        sumCents_def addCents_def check_line_def side_problem_def normaliseSettlementMemo_def
        chart_account_def last_wins_def account_problem_def settlementAccountPolicy_def SETTLEMENT_REFUSED_ACCOUNT_TYPES_def
        SETTLEMENT_MIN_LINES_def SETTLEMENT_MAX_LINES_def)
      (rule exI, rule conjI, rule disjI2, rule refl, simp)
qed

lemma prepared_settlement_witness:
  "\<exists>p ls. prepareSettlementDecision sample_settlement sample_settlement_case = Inr p \<and> sp_lines p = Some ls \<and> postable ls"
proof -
  obtain p ls where "prepareSettlementDecision sample_settlement sample_settlement_case = Inr p" "sp_lines p = Some ls"
    using sample_prepared by blast
  then show ?thesis using prepared_settlement by blast
qed

lemma prepared_lines_post_witness:
  "\<exists>p ls e. prepareSettlementDecision sample_settlement sample_settlement_case = Inr p \<and> sp_lines p = Some ls \<and>
    buildStoredSettlementEntry sample_common (map posting_stored ls) = Inr e \<and> je_lines e = map toPostingLine ls"
proof -
  obtain p ls where p: "prepareSettlementDecision sample_settlement sample_settlement_case = Inr p" "sp_lines p = Some ls"
    "map set_accountExternalId ls = [''90'', ''84'']" using sample_prepared by metis
  have digits: "digits_id ''90''" "digits_id ''84''" "digits_id ''7''" by code_simp+
  have "\<forall>k\<in>set (map set_accountExternalId ls). digits_id k" using digits unfolding p(3) by simp
  then have lines: "\<forall>l\<in>set ls. digits_id (set_accountExternalId l)" by simp
  obtain e where "buildStoredSettlementEntry sample_common sample_lines = Inr e" using sample_built ..
  then obtain memos where e: "journalEntry sample_common (je_lines e) memos = Inr e" using buildStored_Inr(2) by blast
  obtain day where "assertDay (cm_approvedOn sample_common) = Inr day"
    using e by (auto simp: journalEntry_def bind_res_Inr_iff Let_def)
  moreover have "digits_id (cm_customerId sample_common)" using digits by (simp add: sample_common_def)
  ultimately show ?thesis
    using prepared_lines_post [OF p(1,2) lines] journalEntry_Inr(4) [OF e] p(1,2) by blast
qed

end
