(* ===== verification/Posting_Store.thy ===== *)
theory Posting_Store
  imports Settlement_Decision
begin

text \<open>
  The records of one settlement decision's posting and how they change:
  \<open>packages/store-postgres/src/posting.ts\<close>. The store keeps the decision's write-back rows and the
  case's events; a run of the job, a requeue, a void and an insert each change them in one
  transaction. The step relation interleaves them with runs that die before they record anything and
  with whatever else happens in the ledger; the lemmas show what a void means under all of it.
\<close>

section \<open>Records\<close>

record WritebackRow =
  wr_id :: string
  wr_method :: WritebackMethod
  wr_status :: WritebackStatus
  wr_qboTxnId :: "string option"
  wr_connectionId :: string
  wr_amountCents :: int
  wr_lines :: "PostingLine list option"

text \<open>What does not change once a decision is approved: the decision itself, its own lines, and, for each
  of the tenant's connections, the company it is for and its latest account map at the approval.\<close>

record decision_record =
  dr_decisionId :: string
  dr_facts :: DecisionFacts
  dr_stored :: "StoredSettlementLine list"
  dr_maps :: "string \<Rightarrow> LedgerAccountMap option"
  dr_realms :: "string \<Rightarrow> string option"
  dr_approvedOn :: string

datatype posting_event =
    Writeback_Queued string
  | Writeback_Attempted PostingAttempt
  | Retry_Requested string
  | Posting_Voided "string list"

record posting_records =
  ps_approved :: bool
  ps_rows :: "WritebackRow list"
  ps_events :: "posting_event list"

datatype VoidRefusal =
  Void_Not_Found | Void_Not_Approved | Void_Already | Void_Posted | Void_Not_Failed | Void_Maybe_Sent | Void_In_Ledger

definition find_row :: "posting_records \<Rightarrow> string \<Rightarrow> WritebackRow option" where
  "find_row s writebackId = find_first (\<lambda>r. wr_id r = writebackId) (ps_rows s)"

definition decisionIsVoided :: "posting_records \<Rightarrow> bool" where
  "decisionIsVoided s \<longleftrightarrow> list_ex (\<lambda>e. case e of Posting_Voided _ \<Rightarrow> True | _ \<Rightarrow> False) (ps_events s)"

text \<open>The reasons recorded for a row, oldest first.\<close>

fun attempt_reasons :: "string \<Rightarrow> posting_event list \<Rightarrow> string option list" where
  "attempt_reasons writebackId [] = []"
| "attempt_reasons writebackId (Writeback_Attempted a # es) =
     (if at_writebackId a = writebackId then at_reason a # attempt_reasons writebackId es
      else attempt_reasons writebackId es)"
| "attempt_reasons writebackId (e # es) = attempt_reasons writebackId es"

definition set_row :: "string \<Rightarrow> (WritebackRow \<Rightarrow> WritebackRow) \<Rightarrow> posting_records \<Rightarrow> posting_records" where
  "set_row writebackId f s = s\<lparr>ps_rows := map (\<lambda>r. if wr_id r = writebackId then f r else r) (ps_rows s)\<rparr>"

definition appendEvent :: "posting_event \<Rightarrow> posting_records \<Rightarrow> posting_records" where
  "appendEvent e s = s\<lparr>ps_events := ps_events s @ [e]\<rparr>"

section \<open>Operations\<close>

text \<open>A row is inserted pending, once for each method, under an approval; its id is new.\<close>

definition insertWriteback :: "decision_record \<Rightarrow> string \<Rightarrow> WritebackMethod \<Rightarrow> string \<Rightarrow> posting_records \<Rightarrow> posting_records res" where
  "insertWriteback d writebackId method connectionId s =
     (if dr_realms d connectionId = None then Inl (PostingConnectionNotFoundError connectionId)
      else if \<not> ps_approved s then Inl (WritebackNotApprovedError ''writeback'')
      else case dr_maps d connectionId of
        None \<Rightarrow> Inl (AccountMapRequiredError connectionId)
      | Some accounts \<Rightarrow> bind_res (writeback_content method (dr_facts d) accounts (dr_stored d)) (\<lambda>(ls, amount).
          if list_ex (\<lambda>r. wr_method r = method \<or> wr_id r = writebackId) (ps_rows s)
          then Inl (WritebackExistsError ''method'')
          else Inr (appendEvent (Writeback_Queued writebackId) (s\<lparr>ps_rows := ps_rows s @
            [\<lparr>wr_id = writebackId, wr_method = method, wr_status = Pending, wr_qboTxnId = None,
              wr_connectionId = connectionId, wr_amountCents = amount, wr_lines = ls\<rparr>]\<rparr>))))"

definition recordWritebackAttempt :: "PostingAttempt \<Rightarrow> posting_records \<Rightarrow> posting_records res" where
  "recordWritebackAttempt a s = (case find_row s (at_writebackId a) of
     None \<Rightarrow> Inl (WritebackNotFoundError (at_writebackId a))
   | Some _ \<Rightarrow> Inr (set_row (at_writebackId a)
       (\<lambda>r. r\<lparr>wr_status := at_status a, wr_qboTxnId := case wr_qboTxnId r of None \<Rightarrow> at_qboTxnId a | Some t \<Rightarrow> Some t\<rparr>)
       (appendEvent (Writeback_Attempted a) s)))"

definition requeueWriteback :: "string \<Rightarrow> posting_records \<Rightarrow> posting_records res" where
  "requeueWriteback writebackId s = (case find_row s writebackId of
     None \<Rightarrow> Inl (WritebackNotFoundError writebackId)
   | Some r \<Rightarrow>
       if decisionIsVoided s then Inl (PostingDecisionError ''voided and never sent'')
       else if wr_status r \<noteq> Failed then Inl (PostingDecisionError ''not failed'')
       else Inr (set_row writebackId (\<lambda>r. r\<lparr>wr_status := Pending\<rparr>) (appendEvent (Retry_Requested writebackId) s)))"

text \<open>What the job reads of a row. Its posting switch is read with it and may have been turned.\<close>

definition writebackForPosting :: "decision_record \<Rightarrow> bool \<Rightarrow> posting_records \<Rightarrow> string \<Rightarrow> PostingWriteback option" where
  "writebackForPosting d enabled s writebackId = (case find_row s writebackId of
     None \<Rightarrow> None
   | Some r \<Rightarrow> (case (dr_realms d (wr_connectionId r), dr_maps d (wr_connectionId r)) of (Some realm, Some accounts) \<Rightarrow> Some
       \<lparr>pw_writebackId = wr_id r, pw_deductionId = df_deductionId (dr_facts d), pw_decisionId = dr_decisionId d,
        pw_schemaId = df_schemaId (dr_facts d), pw_method = wr_method r, pw_status = wr_status r, pw_qboTxnId = wr_qboTxnId r,
        pw_connectionId = wr_connectionId r, pw_realmId = realm, pw_postingEnabled = enabled,
        pw_amountCents = wr_amountCents r, pw_lines = wr_lines r,
        pw_settlementLines = (let stored = if wr_method r = Journal_Entry then decision_lines (dr_facts d) (dr_stored d) else [] in
          if stored = [] then None else Some (map posting_stored stored)),
        pw_caseAmountCents = df_caseAmountCents (dr_facts d), pw_family = df_family (dr_facts d),
        pw_outcome = df_outcome (dr_facts d), pw_recoveredCents = df_recoveredCents (dr_facts d),
        pw_invoiceId = df_invoiceId (dr_facts d), pw_approvedOn = dr_approvedOn d, pw_map = accounts,
        pw_journalEntryId = (case find_first (\<lambda>e. wr_method e = Journal_Entry \<and> wr_status e = Succeeded) (ps_rows s) of
          None \<Rightarrow> None | Some e \<Rightarrow> wr_qboTxnId e),
        pw_voided = decisionIsVoided s\<rparr>
     | _ \<Rightarrow> None))"

definition unsent_row :: "posting_records \<Rightarrow> WritebackRow \<Rightarrow> WritebackRow \<Rightarrow> bool" where
  "unsent_row s entry r \<longleftrightarrow> (let reasons = attempt_reasons (wr_id r) (ps_events s) in
     if wr_id r = wr_id entry then nothingWasSent reasons else reasons = [] \<or> nothingWasSent reasons)"

text \<open>Only a settlement decision has a posting to void.\<close>

definition void_check :: "decision_record \<Rightarrow> posting_records \<Rightarrow> VoidRefusal + string list" where
  "void_check d s =
     (if df_schemaId (dr_facts d) \<noteq> Schema_S then Inl Void_Not_Found
      else if \<not> ps_approved s then Inl Void_Not_Approved
      else if decisionIsVoided s then Inl Void_Already
      else if list_ex (\<lambda>r. wr_status r = Succeeded) (ps_rows s) then Inl Void_Posted
      else case find_first (\<lambda>r. wr_method r = Journal_Entry) (ps_rows s) of
        None \<Rightarrow> Inl Void_Not_Failed
      | Some entry \<Rightarrow>
          if wr_status entry \<noteq> Failed then Inl Void_Not_Failed
          else if \<not> list_all (unsent_row s entry) (ps_rows s) then Inl Void_Maybe_Sent
          else Inr (map wr_id (ps_rows s)))"

text \<open>\<open>voidSettlementPosting\<close> is two transactions with the ledger asked between them: the check and the
  answer for the rows it saw, then the check again and the event.\<close>

definition void_ask :: "decision_record \<Rightarrow> posting_records \<Rightarrow> (string list \<Rightarrow> bool) \<Rightarrow> VoidRefusal + string list" where
  "void_ask d s ledgerHoldsNothing = (case void_check d s of
     Inl r \<Rightarrow> Inl r | Inr asked \<Rightarrow> if ledgerHoldsNothing asked then Inr asked else Inl Void_In_Ledger)"

definition void_commit :: "decision_record \<Rightarrow> posting_records \<Rightarrow> string list \<Rightarrow> VoidRefusal + posting_records" where
  "void_commit d s asked = (case void_check d s of
     Inl r \<Rightarrow> Inl r
   | Inr now \<Rightarrow> if now \<noteq> asked then Inl Void_Maybe_Sent else Inr (appendEvent (Posting_Voided now) s))"

section \<open>Steps\<close>

text \<open>The log is not kept by the program: the requests made, with whether the run lived to record its
  attempt, and the voids, in order. A connection's runs are made one at a time
  (\<open>POST_WRITEBACK_CONFIG\<close>: the event names its row's connection, and one key runs once), but a run
  reads its row when it begins and everything else goes on until it finishes or dies, the runs of
  other connections included: \<open>wd_running\<close> is the run under way for a connection, with what it read.

  The store's own calls can fail too. A read that fails ends the run before it has done anything, and
  the record of an attempt that fails ends it with the ledger changed and nothing recorded: a run that
  \<open>dies\<close> is either, as well as a process that stops.\<close>

datatype log_entry = Sent string bool | Void_Made

record 'w posting_world =
  wd_records :: posting_records
  wd_ledger :: 'w
  wd_running :: "string \<Rightarrow> ('w PostingJobDeps \<times> string \<times> bool) option"
  wd_asked :: "string list list"
  wd_log :: "log_entry list"

definition logged :: "string \<Rightarrow> bool \<Rightarrow> 'w job_run \<Rightarrow> log_entry list" where
  "logged writebackId recorded run = (case jr_sent run of None \<Rightarrow> [] | Some _ \<Rightarrow> [Sent writebackId recorded])"

definition record_run :: "'w job_run \<Rightarrow> posting_records \<Rightarrow> posting_records res" where
  "record_run run s = (case jr_attempt run of None \<Rightarrow> Inr s | Some a \<Rightarrow> recordWritebackAttempt a s)"

inductive posting_step :: "decision_record \<Rightarrow> 'w posting_world \<Rightarrow> 'w posting_world \<Rightarrow> bool" where
  approve: "posting_step d w (w\<lparr>wd_records := (wd_records w)\<lparr>ps_approved := True\<rparr>\<rparr>)"
| insert: "insertWriteback d writebackId method connectionId (wd_records w) = Inr s \<Longrightarrow> posting_step d w (w\<lparr>wd_records := s\<rparr>)"
| requeue: "requeueWriteback writebackId (wd_records w) = Inr s \<Longrightarrow> posting_step d w (w\<lparr>wd_records := s\<rparr>)"
| begins: "wd_running w c = None \<Longrightarrow> dp_writebackForPosting deps = writebackForPosting d enabled (wd_records w) \<Longrightarrow>
    \<forall>row. dp_writebackForPosting deps writebackId = Some row \<longrightarrow> pw_connectionId row = c \<Longrightarrow>
    posting_step d w (w\<lparr>wd_running := (wd_running w)(c \<mapsto> (deps, writebackId, retry))\<rparr>)"
| finishes: "wd_running w c = Some (deps, writebackId, retry) \<Longrightarrow>
    run = postWritebackJob deps writebackId retry (wd_ledger w) \<Longrightarrow>
    record_run run (wd_records w) = Inr s \<Longrightarrow>
    posting_step d w (w\<lparr>wd_records := s, wd_ledger := jr_ledger run, wd_running := (wd_running w)(c := None),
      wd_log := wd_log w @ logged writebackId True run\<rparr>)"
| dies: "wd_running w c = Some (deps, writebackId, retry) \<Longrightarrow>
    run = postWritebackJob deps writebackId retry (wd_ledger w) \<Longrightarrow>
    posting_step d w (w\<lparr>wd_ledger := jr_ledger run, wd_running := (wd_running w)(c := None),
      wd_log := wd_log w @ logged writebackId False run\<rparr>)"
| ask: "void_ask d (wd_records w) ledgerHoldsNothing = Inr asked \<Longrightarrow>
    posting_step d w (w\<lparr>wd_asked := asked # wd_asked w\<rparr>)"
| commit: "asked \<in> set (wd_asked w) \<Longrightarrow> void_commit d (wd_records w) asked = Inr s \<Longrightarrow>
    posting_step d w (w\<lparr>wd_records := s, wd_log := wd_log w @ [Void_Made]\<rparr>)"
| elsewhere: "posting_step d w (w\<lparr>wd_ledger := l\<rparr>)"

definition no_records :: posting_records where
  "no_records = \<lparr>ps_approved = False, ps_rows = [], ps_events = []\<rparr>"

inductive posting_reachable :: "decision_record \<Rightarrow> 'w posting_world \<Rightarrow> bool" for d where
  start: "posting_reachable d \<lparr>wd_records = no_records, wd_ledger = l, wd_running = Map.empty, wd_asked = [], wd_log = []\<rparr>"
| step: "posting_reachable d w \<Longrightarrow> posting_step d w w' \<Longrightarrow> posting_reachable d w'"

section \<open>What the operations keep\<close>

definition some_row :: "posting_records \<Rightarrow> (WritebackRow \<Rightarrow> bool) \<Rightarrow> bool" where
  "some_row s P \<longleftrightarrow> (\<exists>r\<in>set (ps_rows s). P r)"

definition attempt_of :: "posting_records \<Rightarrow> string \<Rightarrow> bool" where
  "attempt_of s i \<longleftrightarrow> (\<exists>a. Writeback_Attempted a \<in> set (ps_events s) \<and> at_writebackId a = i \<and> \<not> isNothingSentReason (at_reason a))"

lemma find_row_Some:
  assumes "find_row s i = Some r"
  shows "r \<in> set (ps_rows s)" "wr_id r = i"
  using find_first_Some [OF assms [unfolded find_row_def]] by auto

lemma voided_append [simp]:
  "decisionIsVoided (appendEvent e s) \<longleftrightarrow> decisionIsVoided s \<or> (\<exists>is. e = Posting_Voided is)"
  by (auto simp: decisionIsVoided_def appendEvent_def list_ex_iff split: posting_event.splits)

lemma voided_frame [simp]:
  "decisionIsVoided (set_row i f s) = decisionIsVoided s"
  "decisionIsVoided (s\<lparr>ps_rows := rs\<rparr>) = decisionIsVoided s"
  "decisionIsVoided (s\<lparr>ps_approved := b\<rparr>) = decisionIsVoided s"
  by (simp_all add: decisionIsVoided_def set_row_def)

lemma attempt_reasons_mem:
  "Writeback_Attempted a \<in> set es \<Longrightarrow> at_reason a \<in> set (attempt_reasons (at_writebackId a) es)"
  by (induction "at_writebackId a" es rule: attempt_reasons.induct) auto


text \<open>A void passed: every row is provably unsent, none succeeded, and the entry failed.\<close>

lemma void_check_Inr:
  assumes "void_check d s = Inr now"
  shows "\<not> decisionIsVoided s" "now = map wr_id (ps_rows s)" "\<forall>r\<in>set (ps_rows s). wr_status r \<noteq> Succeeded"
    "\<exists>entry\<in>set (ps_rows s). wr_method entry = Journal_Entry \<and> wr_status entry = Failed"
    "\<forall>r\<in>set (ps_rows s). \<not> attempt_of s (wr_id r)"
proof -
  obtain entry where entry: "find_first (\<lambda>r. wr_method r = Journal_Entry) (ps_rows s) = Some entry"
      "wr_status entry = Failed" "list_all (unsent_row s entry) (ps_rows s)"
    and rest: "\<not> decisionIsVoided s" "now = map wr_id (ps_rows s)" "\<forall>r\<in>set (ps_rows s). wr_status r \<noteq> Succeeded"
    using assms by (auto simp: void_check_def list_ex_iff split: if_splits option.splits)
  show "\<not> decisionIsVoided s" "now = map wr_id (ps_rows s)" "\<forall>r\<in>set (ps_rows s). wr_status r \<noteq> Succeeded"
    using rest by auto
  show "\<exists>entry\<in>set (ps_rows s). wr_method entry = Journal_Entry \<and> wr_status entry = Failed"
    using find_first_Some [OF entry(1)] entry(2) by auto
  show "\<forall>r\<in>set (ps_rows s). \<not> attempt_of s (wr_id r)"
  proof
    fix r assume "r \<in> set (ps_rows s)"
    then have "unsent_row s entry r" using entry(3) by (simp add: list_all_iff)
    then have "\<forall>q\<in>set (attempt_reasons (wr_id r) (ps_events s)). isNothingSentReason q"
      by (auto simp: unsent_row_def Let_def nothingWasSent_def list_all_iff split: if_splits)
    then show "\<not> attempt_of s (wr_id r)" unfolding attempt_of_def by (metis attempt_reasons_mem)
  qed
qed

definition records_ok :: "posting_records \<Rightarrow> bool" where
  "records_ok s \<longleftrightarrow> distinct (map wr_id (ps_rows s)) \<and> distinct (map wr_method (ps_rows s)) \<and>
     (decisionIsVoided s \<longrightarrow> (\<forall>r\<in>set (ps_rows s). wr_status r \<noteq> Succeeded))"

definition sendable :: "posting_records \<Rightarrow> string \<Rightarrow> bool" where
  "sendable s i \<longleftrightarrow> \<not> decisionIsVoided s \<and> (\<exists>r\<in>set (ps_rows s). wr_id r = i \<and> wr_status r = Pending \<and>
     (wr_method r = Journal_Entry \<or> (\<exists>e\<in>set (ps_rows s). wr_status e = Succeeded)))"

definition row_on :: "posting_records \<Rightarrow> string \<Rightarrow> string \<Rightarrow> bool" where
  "row_on s c i \<longleftrightarrow> (\<exists>r\<in>set (ps_rows s). wr_id r = i \<and> wr_connectionId r = c)"

lemma writeback_read:
  assumes "writebackForPosting d enabled s i = Some row"
  obtains r accounts where "find_row s i = Some r" "dr_maps d (wr_connectionId r) = Some accounts" "pw_status row = wr_status r"
    "pw_connectionId row = wr_connectionId r"
    "pw_voided row = decisionIsVoided s" "pw_method row = wr_method r"
    "pw_journalEntryId row = (case find_first (\<lambda>e. wr_method e = Journal_Entry \<and> wr_status e = Succeeded) (ps_rows s) of
          None \<Rightarrow> None | Some e \<Rightarrow> wr_qboTxnId e)"
    "pw_lines row = wr_lines r" "pw_amountCents row = wr_amountCents r" "pw_map row = accounts"
    "pw_schemaId row = df_schemaId (dr_facts d)" "pw_outcome row = df_outcome (dr_facts d)" "row_drafts row = draftsFor (dr_facts d)"
    "pw_settlementLines row = (let stored = if wr_method r = Journal_Entry then decision_lines (dr_facts d) (dr_stored d) else [] in
          if stored = [] then None else Some (map posting_stored stored))"
proof -
  obtain r where r: "find_row s i = Some r" using assms by (auto simp: writebackForPosting_def split: option.splits)
  obtain accounts realm where a: "dr_maps d (wr_connectionId r) = Some accounts" "dr_realms d (wr_connectionId r) = Some realm"
    using assms r by (auto simp: writebackForPosting_def split: option.splits)
  show thesis by (rule that [OF r a(1)]) (use assms in \<open>auto simp: writebackForPosting_def r a row_drafts_def draftsFor_def\<close>)
qed

text \<open>What passes the guard of a run can be sent; while it can, the decision is not voided.\<close>

lemma guard_sendable:
  assumes "dp_writebackForPosting deps = writebackForPosting d enabled s" "job_guard deps i = Inr (row, client)"
  shows "sendable s i" "row_on s (pw_connectionId row) i"
proof -
  note g = job_guard_Inr [OF assms(2)]
  have "writebackForPosting d enabled s i = Some row" using g(3) assms(1) by simp
  then obtain r where r: "find_row s i = Some r"
    and row: "pw_status row = wr_status r" "pw_voided row = decisionIsVoided s" "pw_method row = wr_method r"
      "pw_connectionId row = wr_connectionId r"
    "pw_journalEntryId row = (case find_first (\<lambda>e. wr_method e = Journal_Entry \<and> wr_status e = Succeeded) (ps_rows s) of
          None \<Rightarrow> None | Some e \<Rightarrow> wr_qboTxnId e)"
    by (rule writeback_read)
  have "wr_method r = Journal_Entry \<or> (\<exists>e\<in>set (ps_rows s). wr_status e = Succeeded)"
    using g(7) row(3,5) by (cases "wr_method r") (auto split: option.splits dest!: find_first_Some)
  then show "sendable s i" using find_row_Some [OF r] g(4,6) row by (auto simp: sendable_def)
  show "row_on s (pw_connectionId row) i" using find_row_Some [OF r] row(4) by (auto simp: row_on_def)
qed

lemma sendable_void_check:
  assumes "records_ok s" "sendable s i"
  shows "void_check d s \<noteq> Inr now"
proof
  assume v: "void_check d s = Inr now"
  obtain e where e: "e \<in> set (ps_rows s)" "wr_method e = Journal_Entry" "wr_status e = Failed" using void_check_Inr(4) [OF v] by blast
  obtain r where r: "r \<in> set (ps_rows s)" "wr_status r = Pending" "wr_method r = Journal_Entry"
    using assms(2) void_check_Inr(3) [OF v] by (auto simp: sendable_def)
  have "inj_on wr_method (set (ps_rows s))" using assms(1) by (simp add: records_ok_def distinct_map)
  then have "r = e" using r e by (metis inj_onD)
  then show False using r e by simp
qed


text \<open>What every change of the records outside a run and a void keeps.\<close>

definition keeps :: "posting_records \<Rightarrow> posting_records \<Rightarrow> bool" where
  "keeps s s' \<longleftrightarrow> records_ok s' \<and> (decisionIsVoided s' \<longleftrightarrow> decisionIsVoided s) \<and> (\<forall>i. sendable s i \<longrightarrow> sendable s' i) \<and>
     (\<forall>c i. row_on s c i \<longrightarrow> row_on s' c i) \<and> (\<forall>i. attempt_of s i \<longrightarrow> attempt_of s' i) \<and> wr_id ` set (ps_rows s) \<subseteq> wr_id ` set (ps_rows s')"

lemma attempt_append [simp]:
  "attempt_of (appendEvent e s) i \<longleftrightarrow> attempt_of s i \<or>
    (\<exists>a. e = Writeback_Attempted a \<and> at_writebackId a = i \<and> \<not> isNothingSentReason (at_reason a))"
  by (auto simp: attempt_of_def appendEvent_def)

lemma attempt_frame [simp]:
  "attempt_of (set_row i f s) j = attempt_of s j" "attempt_of (s\<lparr>ps_rows := rs\<rparr>) j = attempt_of s j"
  "attempt_of (s\<lparr>ps_approved := b\<rparr>) j = attempt_of s j"
  by (simp_all add: attempt_of_def set_row_def)

lemma rows_frame [simp]: "ps_rows (appendEvent e s) = ps_rows s"
  by (simp add: appendEvent_def)

lemma rows_set: "ps_rows (set_row i f s) = map (\<lambda>r. if wr_id r = i then f r else r) (ps_rows s)"
  by (simp add: set_row_def)

lemma approve_keeps: "records_ok s \<Longrightarrow> keeps s (s\<lparr>ps_approved := True\<rparr>)"
  by (simp add: keeps_def records_ok_def sendable_def row_on_def)

lemma insert_keeps:
  assumes "insertWriteback d i m c s = Inr s'" "records_ok s"
  shows "keeps s s'"
proof -
  obtain amount ls where s': "s' = appendEvent (Writeback_Queued i) (s\<lparr>ps_rows := ps_rows s @
        [\<lparr>wr_id = i, wr_method = m, wr_status = Pending, wr_qboTxnId = None, wr_connectionId = c, wr_amountCents = amount, wr_lines = ls\<rparr>]\<rparr>)"
    and new: "\<forall>r\<in>set (ps_rows s). wr_method r \<noteq> m \<and> wr_id r \<noteq> i"
    using assms(1) by (auto simp: insertWriteback_def list_ex_iff bind_res_Inr_iff split: if_splits option.splits)
  have "sendable s j \<longrightarrow> sendable s' j" for j unfolding sendable_def s' by auto
  moreover have "row_on s e j \<longrightarrow> row_on s' e j" for e j unfolding row_on_def s' by auto
  moreover have "records_ok s'" using assms(2) new unfolding records_ok_def s' by auto
  ultimately show ?thesis unfolding keeps_def s' by auto
qed

lemma set_row_kept:
  assumes "\<And>r. wr_id (f r) = wr_id r \<and> wr_method (f r) = wr_method r"
  shows "map wr_id (ps_rows (set_row i f s)) = map wr_id (ps_rows s)"
    "map wr_method (ps_rows (set_row i f s)) = map wr_method (ps_rows s)"
    "wr_id ` set (ps_rows (set_row i f s)) = wr_id ` set (ps_rows s)"
proof -
  show ids: "map wr_id (ps_rows (set_row i f s)) = map wr_id (ps_rows s)" by (simp add: assms rows_set)
  show "map wr_method (ps_rows (set_row i f s)) = map wr_method (ps_rows s)" by (simp add: assms rows_set)
  show "wr_id ` set (ps_rows (set_row i f s)) = wr_id ` set (ps_rows s)" using ids by (metis set_map)
qed

lemma row_on_set_row:
  assumes "\<And>r. wr_id (f r) = wr_id r \<and> wr_connectionId (f r) = wr_connectionId r" "row_on s c j"
  shows "row_on (set_row i f (appendEvent e s)) c j"
proof -
  obtain r where "r \<in> set (ps_rows s)" "wr_id r = j" "wr_connectionId r = c" using assms(2) by (auto simp: row_on_def)
  then show ?thesis using assms(1) unfolding row_on_def rows_set
    by (intro bexI [of _ "if wr_id r = i then f r else r"]) auto
qed

lemma requeue_keeps:
  assumes "requeueWriteback i s = Inr s'" "records_ok s"
  shows "keeps s s'"
proof -
  obtain q where q: "find_row s i = Some q" "\<not> decisionIsVoided s" "wr_status q = Failed"
    and s': "s' = set_row i (\<lambda>r. r\<lparr>wr_status := Pending\<rparr>) (appendEvent (Retry_Requested i) s)"
    using assms(1) by (auto simp: requeueWriteback_def split: option.splits if_splits)
  have kept: "map wr_id (ps_rows s') = map wr_id (ps_rows s)" "map wr_method (ps_rows s') = map wr_method (ps_rows s)"
    "wr_id ` set (ps_rows s') = wr_id ` set (ps_rows s)"
    unfolding s' by (subst set_row_kept; simp)+
  have inj: "inj_on wr_id (set (ps_rows s))" using assms(2) unfolding records_ok_def distinct_map by blast
  have others: "wr_id e \<noteq> i" if e: "e \<in> set (ps_rows s)" "wr_status e = Succeeded" for e
  proof
    assume "wr_id e = i"
    then have "e = q" using inj_onD [OF inj, of e q] e(1) find_row_Some [OF q(1)] by simp
    then show False using q(3) e(2) by simp
  qed
  have "sendable s' j" if sj: "sendable s j" for j
  proof -
    obtain r where r: "r \<in> set (ps_rows s)" "wr_id r = j" "wr_status r = Pending"
      "wr_method r = Journal_Entry \<or> (\<exists>e\<in>set (ps_rows s). wr_status e = Succeeded)" using sj by (auto simp: sendable_def)
    let ?f = "\<lambda>r. if wr_id r = i then r\<lparr>wr_status := Pending\<rparr> else r"
    have "?f r \<in> set (ps_rows s')" "wr_id (?f r) = j" "wr_status (?f r) = Pending" "wr_method (?f r) = wr_method r"
      using r by (auto simp: s' rows_set)
    moreover have "\<exists>e\<in>set (ps_rows s'). wr_status e = Succeeded" if "\<exists>e\<in>set (ps_rows s). wr_status e = Succeeded"
    proof -
      from that obtain e where "e \<in> set (ps_rows s)" "wr_status e = Succeeded" by blast
      then have "?f e \<in> set (ps_rows s')" "wr_status (?f e) = Succeeded" using others by (auto simp: s' rows_set)
      then show ?thesis by blast
    qed
    moreover have "\<not> decisionIsVoided s'" using q(2) by (simp add: s')
    ultimately show ?thesis using r(4) unfolding sendable_def by (intro conjI bexI [of _ "?f r"]) auto
  qed
  moreover have "row_on s c j \<Longrightarrow> row_on s' c j" for c j
    unfolding s' by (rule row_on_set_row) simp_all
  moreover have "records_ok s'" using assms(2) q(2) by (simp add: records_ok_def kept) (simp add: s')
  ultimately show ?thesis using q(2) kept(3) by (simp add: keeps_def) (simp add: s')
qed


lemma record_kept:
  assumes "recordWritebackAttempt a s = Inr s'" "records_ok s" "\<not> decisionIsVoided s"
  shows "records_ok s'" "\<not> decisionIsVoided s'" "attempt_of s j \<longrightarrow> attempt_of s' j"
    "\<not> isNothingSentReason (at_reason a) \<longrightarrow> attempt_of s' (at_writebackId a)"
    "wr_id ` set (ps_rows s') = wr_id ` set (ps_rows s)"
proof -
  obtain f where s': "s' = set_row (at_writebackId a) f (appendEvent (Writeback_Attempted a) s)"
    and f: "\<And>r. wr_id (f r) = wr_id r \<and> wr_method (f r) = wr_method r"
    using assms(1) by (auto simp: recordWritebackAttempt_def split: option.splits)
  show "records_ok s'" using assms(2,3) set_row_kept(1,2) [OF f] by (simp add: records_ok_def s')
  show "\<not> decisionIsVoided s'" "attempt_of s j \<longrightarrow> attempt_of s' j"
    "\<not> isNothingSentReason (at_reason a) \<longrightarrow> attempt_of s' (at_writebackId a)"
    using assms(3) by (auto simp: s')
  show "wr_id ` set (ps_rows s') = wr_id ` set (ps_rows s)" using set_row_kept(3) [OF f] by (simp add: s')
qed

text \<open>Recording a run's attempt changes nothing for a row another run may send.\<close>

lemma record_others:
  assumes "recordWritebackAttempt a s = Inr s'" "records_ok s" "sendable s (at_writebackId a)" "sendable s j" "j \<noteq> at_writebackId a"
  shows "sendable s' j"
proof -
  let ?i = "at_writebackId a"
  obtain f where s': "s' = set_row ?i f (appendEvent (Writeback_Attempted a) s)"
    using assms(1) by (auto simp: recordWritebackAttempt_def split: option.splits)
  have same: "e \<in> set (ps_rows s')" if "e \<in> set (ps_rows s)" "wr_id e \<noteq> ?i" for e
    using that by (force simp: s' rows_set)
  obtain q where q: "q \<in> set (ps_rows s)" "wr_id q = ?i" "wr_status q = Pending" using assms(3) by (auto simp: sendable_def)
  have inj: "inj_on wr_id (set (ps_rows s))" using assms(2) unfolding records_ok_def distinct_map by blast
  have succeeded: "e \<in> set (ps_rows s')" if e: "e \<in> set (ps_rows s)" "wr_status e = Succeeded" for e
  proof (rule same [OF e(1)])
    show "wr_id e \<noteq> ?i"
    proof
      assume "wr_id e = ?i"
      then have "e = q" using inj_onD [OF inj, of e q] e(1) q by simp
      then show False using e(2) q(3) by simp
    qed
  qed
  obtain r where r: "r \<in> set (ps_rows s)" "wr_id r = j" "wr_status r = Pending"
    "wr_method r = Journal_Entry \<or> (\<exists>e\<in>set (ps_rows s). wr_status e = Succeeded)" using assms(4) by (auto simp: sendable_def)
  have "r \<in> set (ps_rows s')" using same r(1,2) assms(5) by blast
  moreover have "\<not> decisionIsVoided s'" using assms(4) by (simp add: s' sendable_def)
  ultimately show ?thesis using r succeeded unfolding sendable_def by blast
qed

lemma record_row_on:
  assumes "recordWritebackAttempt a s = Inr s'" "row_on s c j"
  shows "row_on s' c j"
proof -
  obtain q where "find_row s (at_writebackId a) = Some q" using assms(1) by (auto simp: recordWritebackAttempt_def split: option.splits)
  then show ?thesis using assms by (auto simp: recordWritebackAttempt_def intro!: row_on_set_row)
qed

lemma row_on_one: "records_ok s \<Longrightarrow> row_on s c i \<Longrightarrow> row_on s e i \<Longrightarrow> c = e"
  unfolding records_ok_def row_on_def distinct_map by (metis inj_onD)

section \<open>The invariant\<close>

text \<open>Before a void no request was recorded as made, and after it none is made.\<close>

definition silent :: "log_entry list \<Rightarrow> bool" where
  "silent entries \<longleftrightarrow> (\<forall>pre post. entries = pre @ Void_Made # post \<longrightarrow>
     (\<forall>i. Sent i True \<notin> set pre) \<and> (\<forall>i b. Sent i b \<notin> set post) \<and> Void_Made \<notin> set post)"

text \<open>A run under way that passes its guard may still send, and its row is its connection's.\<close>

definition may_send :: "posting_records \<Rightarrow> string \<Rightarrow> 'w PostingJobDeps \<Rightarrow> string \<Rightarrow> bool" where
  "may_send s c deps i \<longleftrightarrow> (\<forall>row client. job_guard deps i = Inr (row, client) \<longrightarrow> sendable s i \<and> row_on s c i)"

definition posting_inv :: "'w posting_world \<Rightarrow> bool" where
  "posting_inv w \<longleftrightarrow> records_ok (wd_records w) \<and>
     (\<forall>c deps i retry. wd_running w c = Some (deps, i, retry) \<longrightarrow> may_send (wd_records w) c deps i) \<and>
     (Void_Made \<in> set (wd_log w) \<longleftrightarrow> decisionIsVoided (wd_records w)) \<and>
     (\<forall>i. Sent i True \<in> set (wd_log w) \<longrightarrow>
        attempt_of (wd_records w) i \<and> i \<in> wr_id ` set (ps_rows (wd_records w))) \<and>
     silent (wd_log w)"

lemma silent_without_void: "Void_Made \<notin> set entries \<Longrightarrow> silent entries"
  by (auto simp: silent_def)

lemma silent_void:
  assumes "Void_Made \<notin> set entries" "\<And>i. Sent i True \<notin> set entries"
  shows "silent (entries @ [Void_Made])"
  unfolding silent_def
proof (intro allI impI)
  fix pre post assume split: "entries @ [Void_Made] = pre @ Void_Made # post"
  have "post = []"
  proof (cases post rule: rev_cases)
    case (snoc post' e)
    then have "entries = pre @ Void_Made # post'" using split by simp
    then show ?thesis using assms(1) by simp
  qed
  then show "(\<forall>i. Sent i True \<notin> set pre) \<and> (\<forall>i b. Sent i b \<notin> set post) \<and> Void_Made \<notin> set post"
    using split assms(2) by auto
qed

lemma guard_begins:
  assumes "dp_writebackForPosting deps = writebackForPosting d enabled s"
    "\<forall>row. dp_writebackForPosting deps i = Some row \<longrightarrow> pw_connectionId row = c"
  shows "may_send s c deps i"
  using guard_sendable [OF assms(1)] job_guard_Inr(3) assms(2) unfolding may_send_def by metis

lemma running_may_send: "posting_inv w \<Longrightarrow> wd_running w c = Some (deps, i, retry) \<Longrightarrow> may_send (wd_records w) c deps i"
  by (simp add: posting_inv_def)

lemma may_send_keeps: "keeps s s' \<Longrightarrow> may_send s c deps i \<Longrightarrow> may_send s' c deps i"
  by (auto simp: keeps_def may_send_def)

lemma inv_keeps:
  assumes "posting_inv w" "keeps (wd_records w) s"
  shows "posting_inv (w\<lparr>wd_records := s\<rparr>)"
proof -
  note i = assms(1) [unfolded posting_inv_def] and k = assms(2) [unfolded keeps_def]
  have "\<forall>c deps i retry. wd_running w c = Some (deps, i, retry) \<longrightarrow> may_send s c deps i"
    using may_send_keeps [OF assms(2)] i by blast
  moreover have "\<forall>i. Sent i True \<in> set (wd_log w) \<longrightarrow> attempt_of s i \<and> i \<in> wr_id ` set (ps_rows s)" using i k by (meson subsetD)
  ultimately show ?thesis using i k by (simp add: posting_inv_def)
qed

text \<open>A run that passes its guard ends while the decision is not voided; any other changes nothing.\<close>

lemma run_ends:
  assumes inv: "posting_inv w" and run: "wd_running w c = Some (deps, i, retry)"
    and job: "run = postWritebackJob deps i retry (wd_ledger w)"
  shows "jr_sent run = None \<and> jr_attempt run = None \<or> sendable (wd_records w) i \<and> row_on (wd_records w) c i"
proof (cases "job_guard deps i")
  case (Inl result)
  then show ?thesis by (simp add: job postWritebackJob_def)
next
  case (Inr rc)
  then show ?thesis using running_may_send [OF inv run] by (cases rc) (simp add: may_send_def)
qed

lemma logged_simps:
  "Void_Made \<notin> set (logged i b run)" "Sent j b' \<in> set (logged i b run) \<longleftrightarrow> j = i \<and> b' = b \<and> jr_sent run \<noteq> None"
  "logged i b run = [] \<longleftrightarrow> jr_sent run = None"
  by (cases "jr_sent run"; auto simp: logged_def)+


text \<open>A void waits for runs under way: while one may send, its check refuses.\<close>

lemma commit_inv:
  assumes inv: "posting_inv w" and commit: "void_commit d (wd_records w) asked = Inr s"
  shows "posting_inv (w\<lparr>wd_records := s, wd_log := wd_log w @ [Void_Made]\<rparr>)"
proof -
  note i = inv [unfolded posting_inv_def]
  obtain now where v: "void_check d (wd_records w) = Inr now" and s: "s = appendEvent (Posting_Voided now) (wd_records w)"
    using commit by (auto simp: void_commit_def split: sum.splits if_splits)
  note c = void_check_Inr [OF v]
  have unsent: "Sent j True \<notin> set (wd_log w)" for j using i c(5) by auto
  have "\<not> sendable (wd_records w) j" for j using sendable_void_check i v by blast
  then have "\<forall>c deps j retry. wd_running w c = Some (deps, j, retry) \<longrightarrow> may_send s c deps j"
    using i unfolding may_send_def by blast
  moreover have "silent (wd_log w @ [Void_Made])" using silent_void unsent i c(1) by blast
  moreover have "records_ok s" using i c(3) by (simp add: records_ok_def s)
  ultimately show ?thesis using unsent by (simp add: posting_inv_def s)
qed

lemma others_may_send:
  assumes inv: "posting_inv w" and run: "wd_running w c = Some (deps, i, retry)" and
    recorded: "at_writebackId a = i" "sendable (wd_records w) i" "recordWritebackAttempt a (wd_records w) = Inr s"
    "row_on (wd_records w) c i" and
    other: "((wd_running w)(c := None)) e = Some (deps', j, retry')"
  shows "may_send s e deps' j"
  unfolding may_send_def
proof (intro allI impI)
  fix row client assume guard: "job_guard deps' j = Inr (row, client)"
  have e: "e \<noteq> c" "wd_running w e = Some (deps', j, retry')" using other by (auto split: if_splits)
  then have "sendable (wd_records w) j" "row_on (wd_records w) e j"
    using inv guard unfolding posting_inv_def may_send_def by blast+
  moreover have "records_ok (wd_records w)" using inv by (simp add: posting_inv_def)
  moreover from calculation have "j \<noteq> i" using row_on_one recorded(4) e(1) by blast
  ultimately show "sendable s j \<and> row_on s e j"
    using record_others [OF recorded(3)] record_row_on [OF recorded(3)] recorded(1,2) by blast
qed

lemma finish_inv:
  assumes inv: "posting_inv w" and run: "wd_running w c = Some (deps, i, retry)"
    and job: "run = postWritebackJob deps i retry (wd_ledger w)" and rec: "record_run run (wd_records w) = Inr s"
  shows "posting_inv (w\<lparr>wd_records := s, wd_ledger := jr_ledger run, wd_running := (wd_running w)(c := None), wd_log := wd_log w @ logged i True run\<rparr>)"
proof (cases "jr_attempt run")
  case None
  then have "jr_sent run = None" using job_sent(2) [of deps i retry "wd_ledger w"] job by (cases "jr_sent run") auto
  then show ?thesis using inv rec None by (simp add: posting_inv_def record_run_def logged_def)
next
  case (Some a)
  note i = inv [unfolded posting_inv_def]
  have "at_writebackId a = i" using job_attempt(2) [of deps i retry "wd_ledger w" a] Some job by simp
  moreover have sendable: "sendable (wd_records w) i" and row: "row_on (wd_records w) c i"
    using run_ends [OF inv run job] Some by simp_all
  moreover have "\<not> decisionIsVoided (wd_records w)" using sendable by (simp add: sendable_def)
  moreover have "recordWritebackAttempt a (wd_records w) = Inr s" using rec Some by (simp add: record_run_def)
  moreover from calculation have others: "\<forall>e deps j retry. ((wd_running w)(c := None)) e = Some (deps, j, retry) \<longrightarrow> may_send s e deps j"
    using others_may_send [OF inv run _ _ _ row] by blast
  ultimately have kept: "records_ok s" "\<not> decisionIsVoided s" "\<And>j. attempt_of (wd_records w) j \<Longrightarrow> attempt_of s j"
    "\<not> isNothingSentReason (at_reason a) \<longrightarrow> attempt_of s i" "wr_id ` set (ps_rows s) = wr_id ` set (ps_rows (wd_records w))"
    using record_kept [of a "wd_records w" s] i by simp_all
  have truth: "\<not> isNothingSentReason (at_reason a)" if "jr_sent run \<noteq> None" using job_sent(2) [of deps i retry "wd_ledger w"] that Some job by simp
  have silent_log: "Void_Made \<notin> set (wd_log w @ logged i True run)"
    using i sendable by (simp add: logged_simps sendable_def)
  have "i \<in> wr_id ` set (ps_rows (wd_records w))" using sendable by (auto simp: sendable_def)
  then have "\<forall>j. Sent j True \<in> set (wd_log w @ logged i True run) \<longrightarrow> attempt_of s j \<and> j \<in> wr_id ` set (ps_rows s)"
    using i kept(3-5) truth by (auto simp: logged_simps)
  then show ?thesis using kept(1,2) others silent_log silent_without_void [OF silent_log] by (simp add: posting_inv_def)
qed

lemma die_inv:
  assumes inv: "posting_inv w" and run: "wd_running w c = Some (deps, i, retry)"
    and job: "run = postWritebackJob deps i retry (wd_ledger w)"
  shows "posting_inv (w\<lparr>wd_ledger := jr_ledger run, wd_running := (wd_running w)(c := None), wd_log := wd_log w @ logged i False run\<rparr>)"
proof (cases "jr_sent run")
  case None
  then show ?thesis using inv by (simp add: posting_inv_def logged_def)
next
  case (Some q)
  note i = inv [unfolded posting_inv_def]
  have "\<not> decisionIsVoided (wd_records w)" using run_ends [OF inv run job] Some by (simp add: sendable_def)
  then have "Void_Made \<notin> set (wd_log w @ logged i False run)" using i by (simp add: logged_simps)
  then show ?thesis using i silent_without_void by (auto simp: posting_inv_def logged_simps)
qed

lemma step_inv: "posting_step d w w' \<Longrightarrow> posting_inv w \<Longrightarrow> posting_inv w'"
proof (induction rule: posting_step.induct)
  case (approve d w)
  then show ?case by (intro inv_keeps approve_keeps) (simp_all add: posting_inv_def)
next
  case (insert d i m c w s)
  then show ?case by (intro inv_keeps insert_keeps) (simp_all add: posting_inv_def)
next
  case (requeue i w s d)
  then show ?case by (intro inv_keeps requeue_keeps) (simp_all add: posting_inv_def)
next
  case (begins w c deps d enabled i retry)
  then have "may_send (wd_records w) c deps i" by (intro guard_begins)
  then show ?case using begins(4) by (auto simp: posting_inv_def split: if_splits)
next
  case (finishes w c deps i retry run s d)
  then show ?case by (intro finish_inv) simp_all
next
  case (dies w c deps i retry run d)
  then show ?case by (intro die_inv) simp_all
next
  case (ask w ledgerHoldsNothing asked d)
  then show ?case by (simp add: posting_inv_def)
next
  case (commit asked w s d)
  then show ?case by (intro commit_inv) simp_all
next
  case (elsewhere d w l)
  then show ?case by (simp add: posting_inv_def)
qed

lemma reachable_inv: "posting_reachable d w \<Longrightarrow> posting_inv w"
proof (induction rule: posting_reachable.induct)
  case (start l)
  show ?case by (simp add: posting_inv_def records_ok_def no_records_def decisionIsVoided_def silent_def)
next
  case (step w w')
  then show ?case using step_inv by blast
qed

section \<open>The lines of a row\<close>

text \<open>Every row holds what its decision stored when it was queued.\<close>

definition content_ok :: "decision_record \<Rightarrow> posting_records \<Rightarrow> bool" where
  "content_ok d s \<longleftrightarrow> (\<forall>r\<in>set (ps_rows s). \<exists>accounts. dr_maps d (wr_connectionId r) = Some accounts \<and>
     writeback_content (wr_method r) (dr_facts d) accounts (dr_stored d) = Inr (wr_lines r, wr_amountCents r))"

lemma content_set_row:
  assumes "\<And>r. wr_method (f r) = wr_method r \<and> wr_lines (f r) = wr_lines r \<and> wr_amountCents (f r) = wr_amountCents r \<and>
    wr_connectionId (f r) = wr_connectionId r"
  shows "content_ok d s \<Longrightarrow> content_ok d (set_row i f (appendEvent e s))"
  using assms by (auto simp: content_ok_def rows_set)

lemma content_frame [simp]:
  "content_ok d (appendEvent e s) = content_ok d s" "content_ok d (s\<lparr>ps_approved := b\<rparr>) = content_ok d s"
  by (simp_all add: content_ok_def)

lemma step_content: "posting_step d w w' \<Longrightarrow> content_ok d (wd_records w) \<Longrightarrow> content_ok d (wd_records w')"
proof (induction rule: posting_step.induct)
  case (insert d i m c w s)
  then show ?case
    by (auto simp: insertWriteback_def bind_res_Inr_iff split: if_splits option.splits) (auto simp: content_ok_def)
next
  case (requeue i w s d)
  then show ?case by (auto simp: requeueWriteback_def split: option.splits if_splits intro!: content_set_row)
next
  case (finishes w c deps i retry run s d)
  then show ?case
    by (auto simp: record_run_def recordWritebackAttempt_def split: option.splits intro!: content_set_row)
next
  case (commit asked w s d)
  then show ?case by (auto simp: void_commit_def split: sum.splits if_splits)
qed simp_all

lemma reachable_content: "posting_reachable d w \<Longrightarrow> content_ok d (wd_records w)"
proof (induction rule: posting_reachable.induct)
  case (start l)
  show ?case by (simp add: content_ok_def no_records_def)
next
  case (step w w')
  then show ?case using step_content by blast
qed

text \<open>The job's build of a row names the lines its content names.\<close>

lemma build_lines:
  assumes "writebackForPosting d enabled s i = Some row" "buildPosting row invoiceId customerId = Inr (Entry_Posting e)"
    "content_ok d s"
  shows "pw_lines row = Some (je_lines e) \<and> sumCents (side_cents Debit (je_lines e)) = Inr (pw_amountCents row) \<and>
    (if decision_lines (dr_facts d) (dr_stored d) \<noteq> [] then je_lines e = map toPostingLine (decision_lines (dr_facts d) (dr_stored d))
     else linesFor (dr_facts d) (the (dr_maps d (pw_connectionId row))) = Inr (je_lines e))"
proof -
  obtain r accounts where r: "find_row s i = Some r" and a: "dr_maps d (wr_connectionId r) = Some accounts" and
    row: "pw_method row = wr_method r" "pw_lines row = wr_lines r" "pw_amountCents row = wr_amountCents r" "pw_map row = accounts"
    "pw_schemaId row = df_schemaId (dr_facts d)" "pw_outcome row = df_outcome (dr_facts d)" "row_drafts row = draftsFor (dr_facts d)"
    "pw_settlementLines row = (let stored = if wr_method r = Journal_Entry then decision_lines (dr_facts d) (dr_stored d) else [] in
          if stored = [] then None else Some (map posting_stored stored))" and c: "pw_connectionId row = wr_connectionId r"
    by (rule writeback_read [OF assms(1)]) blast
  have entry: "wr_method r = Journal_Entry"
    using assms(2) row(1) by (cases "wr_method r") (auto simp: buildPosting_def Let_def bind_res_Inr_iff)
  have content: "writeback_content Journal_Entry (dr_facts d) accounts (dr_stored d) = Inr (wr_lines r, wr_amountCents r)"
    using assms(3) find_row_Some(1) [OF r] a entry by (auto simp: content_ok_def)
  have lines: "if decision_lines (dr_facts d) (dr_stored d) \<noteq> [] then je_lines e = map toPostingLine (decision_lines (dr_facts d) (dr_stored d))
     else linesFor (dr_facts d) accounts = Inr (je_lines e)"
  proof (cases "decision_lines (dr_facts d) (dr_stored d) = []")
    case False
    then have "df_schemaId (dr_facts d) = Schema_S" by (auto simp: decision_lines_def split: schemaId.splits)
    then have "buildStoredSettlementEntry (row_common row customerId) (map posting_stored (decision_lines (dr_facts d) (dr_stored d))) = Inr e"
      using assms(2) row entry False by (auto simp: buildPosting_def Let_def bind_res_Inr_iff)
    then show ?thesis using buildStored_Inr(1) False by (fastforce simp: posting_stored_def)
  next
    case True
    then have "linesFor (dr_facts d) accounts = Inr (je_lines e)"
      using assms(2) row entry
      by (auto simp: buildPosting_def Let_def bind_res_Inr_iff linesFor_def buildFoundEntry_def buildSettlementEntry_def
          buildEntry_def journalEntry_Inr(1) split: schemaId.splits)
    then show ?thesis using True by simp
  qed
  then have "wr_lines r = Some (je_lines e) \<and> sumCents (side_cents Debit (je_lines e)) = Inr (wr_amountCents r)"
    using content by (auto simp: writeback_content_def bind_res_Inr_iff split: if_splits)
  then show ?thesis using lines row a c by simp
qed

section \<open>Properties\<close>

text \<open>C2: However runs, deaths of runs, retries and voids interleave, once a person voids a posting no
  request for any of its rows is ever made again, no request had been made before it except by a run
  that died before recording its attempt, none of its rows is recorded as succeeded, and none can be
  put back to pending.\<close>

theorem voided_posting_never_sent:
  assumes "posting_reachable d w" "wd_log w = pre @ Void_Made # post"
  shows "(\<forall>i recorded. Sent i recorded \<in> set pre \<longrightarrow> \<not> recorded) \<and> (\<forall>i recorded. Sent i recorded \<notin> set post) \<and>
    Void_Made \<notin> set post \<and> (\<forall>r\<in>set (ps_rows (wd_records w)). wr_status r \<noteq> Succeeded) \<and>
    (\<forall>i s. requeueWriteback i (wd_records w) \<noteq> Inr s)"
proof -
  note i = reachable_inv [OF assms(1), unfolded posting_inv_def]
  have voided: "decisionIsVoided (wd_records w)" using i assms(2) by auto
  have "\<forall>i s. requeueWriteback i (wd_records w) \<noteq> Inr s"
    using voided by (auto simp: requeueWriteback_def split: option.splits)
  moreover have "\<forall>i recorded. Sent i recorded \<in> set pre \<longrightarrow> \<not> recorded" using i assms(2) by (auto simp: silent_def)
  ultimately show ?thesis using i assms(2) voided by (auto simp: silent_def records_ok_def)
qed



text \<open>C19: What the job sends for a row is what was stored when the row was queued, however runs, retries
  and voids interleave: the entry rebuilt from the decision has exactly the row's lines, which are the
  person's own lines where the decision carries them and the computed ones otherwise, and its debits
  add up to the row's amount; a payment applies the case's amount. So no row is refused because its
  lines changed.\<close>

theorem queued_lines_rebuilt:
  assumes "posting_reachable d w" "writebackForPosting d enabled (wd_records w) i = Some row"
    "buildPosting row invoiceId customerId = Inr posting"
  shows "lines_kept row posting \<and> (case posting of
      Entry_Posting e \<Rightarrow> pw_lines row = Some (je_lines e) \<and> sumCents (side_cents Debit (je_lines e)) = Inr (pw_amountCents row) \<and>
        (if decision_lines (dr_facts d) (dr_stored d) \<noteq> [] then je_lines e = map toPostingLine (decision_lines (dr_facts d) (dr_stored d))
         else linesFor (dr_facts d) (the (dr_maps d (pw_connectionId row))) = Inr (je_lines e))
    | Payment_Posting p \<Rightarrow> zp_amountCents p = df_caseAmountCents (dr_facts d) \<and> pw_amountCents row = df_caseAmountCents (dr_facts d))"
proof (cases posting)
  case (Entry_Posting e)
  then show ?thesis using build_lines [OF assms(2)] assms(3) reachable_content [OF assms(1)]
    by (simp add: lines_kept_def sameLines_iff)
next
  case (Payment_Posting p)
  obtain r accounts where r: "find_row (wd_records w) i = Some r" and a: "dr_maps d (wr_connectionId r) = Some accounts" and
    row: "pw_method row = wr_method r" "pw_amountCents row = wr_amountCents r"
    by (rule writeback_read [OF assms(2)]) blast
  have built: "wr_method r = Payment_Application" "zp_amountCents p = wr_amountCents r"
    using assms(3) row Payment_Posting
    by (auto simp: buildPosting_def Let_def bind_res_Inr_iff buildZeroPayment_def split: if_splits schemaId.splits option.splits)
  have "wr_amountCents r = df_caseAmountCents (dr_facts d)"
    using reachable_content [OF assms(1)] find_row_Some(1) [OF r] a built(1)
    by (auto simp: content_ok_def writeback_content_def split: if_splits option.splits)
  then show ?thesis using Payment_Posting built row by (simp add: lines_kept_def)
qed


text \<open>An approved posting whose case names no invoice, tried once and voided.\<close>

definition sample_decision :: decision_record where
  "sample_decision = \<lparr>dr_decisionId = ''d'',
     dr_facts = \<lparr>df_deductionId = ''c'', df_schemaId = Schema_S, df_caseAmountCents = 5000, df_family = Some Fam_Shortage,
       df_outcome = Some Outcome_Lost, df_recoveredCents = None, df_invoiceId = None\<rparr>,
     dr_stored = [
       \<lparr>set_lineNo = 1, set_accountExternalId = ''90'', set_debitCents = 5000, set_creditCents = 0, set_memo = Some ''shortage'',
        set_accountNameAsReported = ''a'', set_accountTypeAsReported = ''Expense''\<rparr>,
       \<lparr>set_lineNo = 2, set_accountExternalId = ''84'', set_debitCents = 0, set_creditCents = 5000, set_memo = None,
        set_accountNameAsReported = ''b'', set_accountTypeAsReported = ''Other Current Asset''\<rparr>],
     dr_maps = [''n'' \<mapsto> \<lparr>lm_arAccountId = ''84'', lm_deductionsReceivableAccountId = ''85'', lm_writeoffByFamily = (\<lambda>_. ''90''),
       lm_unclassifiedWriteoff = ''91''\<rparr>], dr_realms = [''n'' \<mapsto> ''1''],
     dr_approvedOn = ''2026-10-05''\<rparr>"

definition sample_id :: string where "sample_id = pw_writebackId sample_row"

definition stored_entry :: "WritebackStatus \<Rightarrow> WritebackRow" where
  "stored_entry status = \<lparr>wr_id = sample_id, wr_method = Journal_Entry, wr_status = status, wr_qboTxnId = None,
     wr_connectionId = ''n'', wr_amountCents = 5000, wr_lines = Some [\<lparr>po_accountId = ''90'', po_side = Debit, po_amountCents = 5000\<rparr>,
       \<lparr>po_accountId = ''84'', po_side = Credit, po_amountCents = 5000\<rparr>]\<rparr>"

definition queued :: posting_records where
  "queued = \<lparr>ps_approved = True, ps_rows = [stored_entry Pending], ps_events = [Writeback_Queued sample_id]\<rparr>"

definition tried :: posting_records where
  "tried = \<lparr>ps_approved = True, ps_rows = [stored_entry Failed],
     ps_events = [Writeback_Queued sample_id, Writeback_Attempted (failed_attempt sample_id ''no_invoice'' None)]\<rparr>"

definition tried_deps :: "unit PostingJobDeps" where
  "tried_deps = sample_deps\<lparr>dp_writebackForPosting := writebackForPosting sample_decision True queued\<rparr>"

definition world :: "posting_records \<Rightarrow> (string \<rightharpoonup> unit PostingJobDeps \<times> string \<times> bool) \<Rightarrow> string list list \<Rightarrow> log_entry list \<Rightarrow> unit posting_world" where
  "world s running asked entries = \<lparr>wd_records = s, wd_ledger = (), wd_running = running, wd_asked = asked, wd_log = entries\<rparr>"

lemma sample_content:
  "dr_realms sample_decision ''n'' \<noteq> None"
  "(case dr_maps sample_decision ''n'' of None \<Rightarrow> Inl (AccountMapRequiredError ''n'')
    | Some accounts \<Rightarrow> bind_res (writeback_content Journal_Entry (dr_facts sample_decision) accounts (dr_stored sample_decision)) f) =
   f (wr_lines (stored_entry Pending), wr_amountCents (stored_entry Pending))"
  by (simp_all add: sample_decision_def writeback_content_def decision_lines_def toPostingLine_def side_cents_def stored_entry_def
      sumCents_def addCents_def safe_int_def max_safe_def)

lemma tried_run:
  "postWritebackJob tried_deps sample_id False () = \<lparr>jr_ledger = (), jr_sent = None,
     jr_attempt = Some (failed_attempt sample_id ''no_invoice'' None), jr_result = WritebackNotSentError ''no_invoice''\<rparr>"
  by (simp add: postWritebackJob_def job_guard_def tried_deps_def sample_deps_def writebackForPosting_def queued_def
      find_row_def sample_decision_def stored_entry_def decisionIsVoided_def prepare_def)

lemma queued_world: "posting_reachable sample_decision (world queued Map.empty [] [])"
proof -
  have "posting_reachable sample_decision (world no_records Map.empty [] [])" unfolding world_def by (rule posting_reachable.start)
  moreover have "posting_step sample_decision (world no_records Map.empty [] []) (world (no_records\<lparr>ps_approved := True\<rparr>) Map.empty [] [])"
    using approve [of sample_decision "world no_records Map.empty [] []"] by (simp add: world_def)
  moreover have "posting_step sample_decision (world (no_records\<lparr>ps_approved := True\<rparr>) Map.empty [] []) (world queued Map.empty [] [])"
    using insert [of sample_decision "sample_id" Journal_Entry "''n''" "world (no_records\<lparr>ps_approved := True\<rparr>) Map.empty [] []" queued]
    by (simp add: world_def insertWriteback_def no_records_def queued_def appendEvent_def sample_content) (simp add: sample_decision_def stored_entry_def)
  ultimately show ?thesis by (meson posting_reachable.step)
qed

lemma voided_world: "posting_reachable sample_decision (world (appendEvent (Posting_Voided [sample_id]) tried) Map.empty [[sample_id]] [Void_Made])"
proof -
  note queued_world
  moreover have "posting_step sample_decision (world queued Map.empty [] []) (world queued [''n'' \<mapsto> (tried_deps, sample_id, False)] [] [])"
    using begins [of "world queued Map.empty [] []" "''n''" tried_deps sample_decision True "sample_id" False]
    by (simp add: world_def tried_deps_def writebackForPosting_def queued_def find_row_def sample_decision_def stored_entry_def)
  moreover have "posting_step sample_decision (world queued [''n'' \<mapsto> (tried_deps, sample_id, False)] [] []) (world tried Map.empty [] [])"
    using finishes [of "world queued [''n'' \<mapsto> (tried_deps, sample_id, False)] [] []", OF _ refl, of "''n''" tried_deps "sample_id" False tried] tried_run
    by (simp add: world_def logged_def record_run_def recordWritebackAttempt_def find_row_def queued_def tried_def
        set_row_def appendEvent_def failed_attempt_def stored_entry_def)
  moreover have check: "void_check sample_decision tried = Inr [sample_id]"
    by (simp add: void_check_def sample_decision_def tried_def stored_entry_def decisionIsVoided_def unsent_row_def failed_attempt_def nothingWasSent_def
        isNothingSentReason_def NOTHING_SENT_REASONS_def)
  moreover have "posting_step sample_decision (world tried Map.empty [] []) (world tried Map.empty [[sample_id]] [])"
    using ask [of sample_decision "world tried Map.empty [] []" "\<lambda>_. True" "[sample_id]"] check by (simp add: world_def void_ask_def)
  moreover have "posting_step sample_decision (world tried Map.empty [[sample_id]] []) (world (appendEvent (Posting_Voided [sample_id]) tried) Map.empty [[sample_id]] [Void_Made])"
    using commit [of "[sample_id]" "world tried Map.empty [[sample_id]] []" sample_decision] check by (simp add: world_def void_commit_def)
  ultimately show ?thesis by (meson posting_reachable.step)
qed

lemma voided_posting_never_sent_witness:
  "\<exists>w :: unit posting_world. posting_reachable sample_decision w \<and> wd_log w = [] @ Void_Made # [] \<and> ps_rows (wd_records w) \<noteq> [] \<and>
    list_all (\<lambda>r. wr_status r \<noteq> Succeeded) (ps_rows (wd_records w))"
proof (intro exI conjI)
  let ?w = "world (appendEvent (Posting_Voided [sample_id]) tried) Map.empty [[sample_id]] [Void_Made]"
  show "posting_reachable sample_decision ?w" by (rule voided_world)
  show l: "wd_log ?w = [] @ Void_Made # []" by (simp add: world_def)
  show "ps_rows (wd_records ?w) \<noteq> []" by (simp add: world_def tried_def)
  show "list_all (\<lambda>r. wr_status r \<noteq> Succeeded) (ps_rows (wd_records ?w))"
    unfolding list_all_iff using voided_posting_never_sent [OF voided_world l] by blast
qed


lemma queued_lines_rebuilt_witness:
  "\<exists>row e. writebackForPosting sample_decision True (wd_records (world queued Map.empty [] [])) sample_id = Some row \<and>
    buildPosting row ''130'' ''7'' = Inr (Entry_Posting e) \<and> lines_kept row (Entry_Posting e) \<and> je_lines e = map st_line sample_lines"
proof -
  let ?w = "world queued Map.empty [] []"
  obtain row where row: "writebackForPosting sample_decision True (wd_records ?w) sample_id = Some row"
    "row_common row ''7'' = sample_common" "pw_settlementLines row = Some sample_lines" "pw_method row = Journal_Entry" "pw_schemaId row = Schema_S"
    by (simp add: writebackForPosting_def world_def queued_def find_row_def stored_entry_def sample_id_def sample_row_def
        sample_decision_def row_common_def sample_common_def decision_lines_def posting_stored_def toPostingLine_def sample_lines_def)
  obtain e where "buildStoredSettlementEntry sample_common sample_lines = Inr e" using sample_built ..
  then have built: "buildPosting row ''130'' ''7'' = Inr (Entry_Posting e)" using row by (simp add: buildPosting_def)
  have "decision_lines (dr_facts sample_decision) (dr_stored sample_decision) \<noteq> []"
    "map toPostingLine (decision_lines (dr_facts sample_decision) (dr_stored sample_decision)) = map st_line sample_lines"
    by (simp_all add: sample_decision_def decision_lines_def toPostingLine_def sample_lines_def)
  then show ?thesis using row(1) built queued_lines_rebuilt [OF queued_world row(1) built] by auto
qed

end
