(* ===== verification/Settlement_Case.thy ===== *)
theory Settlement_Case
  imports Posting_Store
begin

text \<open>
  One case's settlements over time: \<open>prepareSettlementDecision\<close>, \<open>approveSettlement\<close> and everything
  \<open>Posting_Store\<close> does with each decision (\<open>packages/store-postgres/src/posting.ts\<close>). A case may be
  settled again after a posting was voided; the lemmas show that it is never sent to the ledger twice.
\<close>

section \<open>Decisions of a case\<close>

definition live :: "posting_records \<Rightarrow> bool" where
  "live s \<longleftrightarrow> ps_approved s \<and> \<not> decisionIsVoided s"

text \<open>The decision that is stored for what was prepared.\<close>

definition decision_of :: "SettlementCase \<Rightarrow> PreparedSettlement \<Rightarrow> decision_record \<Rightarrow> bool" where
  "decision_of c p d \<longleftrightarrow> dr_stored d = (case sp_lines p of None \<Rightarrow> [] | Some ls \<Rightarrow> ls) \<and>
     df_schemaId (dr_facts d) = Schema_S \<and> Some (df_caseAmountCents (dr_facts d)) = sc_amountCents c \<and>
     df_family (dr_facts d) = sp_family p \<and> df_outcome (dr_facts d) = Some (sp_outcome p) \<and>
     map_option Whole (df_recoveredCents (dr_facts d)) = Some (sp_recoveredCents p) \<and>
     df_invoiceId (dr_facts d) = Some (sp_invoiceId p)"

datatype approval_action = Approve_Writeback | Approve_Writeoff

text \<open>\<open>approveSettlement\<close>: only the case's latest settlement, each action once; a write-off is approved
  with it when the entry writes anything off.\<close>

definition approval_actions :: "DecisionFacts \<Rightarrow> approval_action list res" where
  "approval_actions facts = bind_res (expenseDebit facts) (\<lambda>writeoffCents.
     Inr (if writeoffCents > 0 then [Approve_Writeback, Approve_Writeoff] else [Approve_Writeback]))"

type_synonym 'w case_world = "(decision_record \<times> 'w posting_world) list"

definition new_world :: "'w \<Rightarrow> 'w posting_world" where
  "new_world l = \<lparr>wd_records = no_records, wd_ledger = l, wd_running = Map.empty, wd_asked = [], wd_log = []\<rparr>"

definition approveSettlement :: "'w case_world \<Rightarrow> nat \<Rightarrow> 'w case_world res" where
  "approveSettlement ds n =
     (if length ds \<le> n then Inl (PostingDecisionError ''decision'')
      else if df_schemaId (dr_facts (fst (ds ! n))) \<noteq> Schema_S
      then Inl (PostingDecisionError ''only a settlement decision is approved here'')
      else if n + 1 \<noteq> length ds then Inl (SettlementApprovalRefusedError ''superseded'')
      else bind_res (approval_actions (dr_facts (fst (ds ! n)))) (\<lambda>_.
        if ps_approved (wd_records (snd (ds ! n))) then Inl (SettlementApprovalRefusedError ''duplicate'')
        else Inr (ds[n := (fst (ds ! n), (snd (ds ! n))\<lparr>wd_records := (wd_records (snd (ds ! n)))\<lparr>ps_approved := True\<rparr>\<rparr>)])))"

text \<open>The decisions in the order they were made. \<open>posts\<close> is everything else that happens to one of
  them: it neither prepares nor approves.\<close>

inductive case_step :: "'w case_world \<Rightarrow> 'w case_world \<Rightarrow> bool" where
  prepares: "prepareSettlementDecision input c = Inr p \<Longrightarrow>
    sc_liveApproval c = list_ex (\<lambda>(d, w). live (wd_records w)) ds \<Longrightarrow> decision_of c p d \<Longrightarrow>
    case_step ds (ds @ [(d, new_world l)])"
| approves: "approveSettlement ds n = Inr ds' \<Longrightarrow> case_step ds ds'"
| posts: "n < length ds \<Longrightarrow> ds ! n = (d, w) \<Longrightarrow> posting_step d w w' \<Longrightarrow>
    ps_approved (wd_records w') = ps_approved (wd_records w) \<Longrightarrow> case_step ds (ds[n := (d, w')])"

inductive case_reachable :: "'w case_world \<Rightarrow> bool" where
  opened: "case_reachable []"
| case_step: "case_reachable ds \<Longrightarrow> case_step ds ds' \<Longrightarrow> case_reachable ds'"

section \<open>One live decision\<close>

text \<open>Each decision's records are reachable, and only the latest can be live.\<close>

definition case_inv :: "'w case_world \<Rightarrow> bool" where
  "case_inv ds \<longleftrightarrow> (\<forall>n<length ds. posting_reachable (fst (ds ! n)) (snd (ds ! n)) \<and>
     (live (wd_records (snd (ds ! n))) \<longrightarrow> n + 1 = length ds))"

text \<open>A void is never undone.\<close>

lemma step_voided: "posting_step d w w' \<Longrightarrow> decisionIsVoided (wd_records w) \<Longrightarrow> decisionIsVoided (wd_records w')"
  by (induction rule: posting_step.induct)
    (auto simp: insertWriteback_def requeueWriteback_def record_run_def recordWritebackAttempt_def void_commit_def bind_res_Inr_iff
      split: if_splits option.splits sum.splits)

lemma step_live:
  assumes "posting_step d w w'" "ps_approved (wd_records w') = ps_approved (wd_records w)" "live (wd_records w')"
  shows "live (wd_records w)"
  using step_voided [OF assms(1)] assms(2,3) by (auto simp: live_def)

lemma approve_Inr:
  assumes "approveSettlement ds n = Inr ds'"
  obtains d w where "ds ! n = (d, w)" "n + 1 = length ds" "ds' = ds[n := (d, w\<lparr>wd_records := (wd_records w)\<lparr>ps_approved := True\<rparr>\<rparr>)]"
  using assms by (cases "ds ! n") (auto simp: approveSettlement_def bind_res_Inr_iff split: if_splits)

lemma new_world_not_live: "\<not> live (wd_records (new_world l))"
  by (simp add: live_def new_world_def no_records_def)

lemma case_step_inv: "case_step ds ds' \<Longrightarrow> case_inv ds \<Longrightarrow> case_inv ds'"
proof (induction rule: case_step.induct)
  case (prepares input c p ds d l)
  obtain entries where "\<not> sc_liveApproval c" using prepared_parts [OF prepares(1)] by blast
  then have dead: "\<forall>n<length ds. \<not> live (wd_records (snd (ds ! n)))"
    using prepares(2) by (auto simp: list_ex_length case_prod_unfold)
  have "posting_reachable d (new_world l)" unfolding new_world_def by (rule posting_reachable.start)
  then show ?case using prepares(4) dead new_world_not_live by (auto simp: case_inv_def nth_append less_Suc_eq)
next
  case (approves ds n ds')
  obtain d w where n: "ds ! n = (d, w)" "n + 1 = length ds"
    "ds' = ds[n := (d, w\<lparr>wd_records := (wd_records w)\<lparr>ps_approved := True\<rparr>\<rparr>)]" using approve_Inr [OF approves(1)] .
  have "n < length ds" using n(2) by simp
  then have "posting_reachable d w" using approves(2) n(1) unfolding case_inv_def by fastforce
  then have "posting_reachable d (w\<lparr>wd_records := (wd_records w)\<lparr>ps_approved := True\<rparr>\<rparr>)"
    by (rule posting_reachable.step) (rule posting_step.approve)
  then show ?case using approves(2) n by (auto simp: case_inv_def nth_list_update)
next
  case (posts n ds d w w')
  have "posting_reachable d w" using posts(1,2,5) unfolding case_inv_def by fastforce
  then have "posting_reachable d w'" using posts(3) by (rule posting_reachable.step)
  moreover have "live (wd_records w') \<longrightarrow> n + 1 = length ds"
    using step_live [OF posts(3,4)] posts(1,2,5) by (auto simp: case_inv_def)
  ultimately show ?case using posts(1,5) by (auto simp: case_inv_def nth_list_update)
qed

lemma case_reachable_inv: "case_reachable ds \<Longrightarrow> case_inv ds"
proof (induction rule: case_reachable.induct)
  case opened
  show ?case by (simp add: case_inv_def)
next
  case (case_step ds ds')
  then show ?case using case_step_inv by blast
qed


section \<open>What was sent\<close>

text \<open>Rows exist only under an approval.\<close>

definition rows_approved :: "posting_records \<Rightarrow> bool" where
  "rows_approved s \<longleftrightarrow> (ps_rows s \<noteq> [] \<longrightarrow> ps_approved s)"

lemma step_rows: "posting_step d w w' \<Longrightarrow> rows_approved (wd_records w) \<Longrightarrow> rows_approved (wd_records w')"
  by (induction rule: posting_step.induct)
    (auto simp: rows_approved_def insertWriteback_def requeueWriteback_def record_run_def recordWritebackAttempt_def void_commit_def
      bind_res_Inr_iff appendEvent_def set_row_def split: if_splits option.splits sum.splits)

lemma reachable_rows: "posting_reachable d w \<Longrightarrow> rows_approved (wd_records w)"
proof (induction rule: posting_reachable.induct)
  case (start l)
  show ?case by (simp add: rows_approved_def no_records_def)
next
  case (step w w')
  then show ?case using step_rows by blast
qed

text \<open>A decision with a request on record, or a row that succeeded, is live.\<close>

lemma recorded_live:
  assumes "posting_reachable d w"
    "Sent i True \<in> set (wd_log w) \<or> (\<exists>r\<in>set (ps_rows (wd_records w)). wr_status r = Succeeded)"
  shows "live (wd_records w)"
proof -
  note inv = reachable_inv [OF assms(1), unfolded posting_inv_def]
  have "ps_rows (wd_records w) \<noteq> []" using assms(2) inv by auto
  then have "ps_approved (wd_records w)" using reachable_rows [OF assms(1)] by (simp add: rows_approved_def)
  moreover have "\<not> decisionIsVoided (wd_records w)"
  proof
    assume voided: "decisionIsVoided (wd_records w)"
    then obtain pre post where split: "wd_log w = pre @ Void_Made # post" using inv by (auto simp: in_set_conv_decomp)
    then have "Sent i True \<notin> set (wd_log w)" using inv by (auto simp: silent_def)
    moreover have "\<forall>r\<in>set (ps_rows (wd_records w)). wr_status r \<noteq> Succeeded" using inv voided by (simp add: records_ok_def)
    ultimately show False using assms(2) by blast
  qed
  ultimately show ?thesis by (simp add: live_def)
qed

section \<open>Properties\<close>

text \<open>C3: Whatever is prepared, approved, posted, retried and voided for a case, in any order, at most one of
  its settlements is approved and not voided, it is the latest one prepared, and no request whose
  attempt was recorded and no row that succeeded belongs to any other: a case is not settled twice.\<close>

theorem case_settled_once:
  assumes "case_reachable ds" "n < length ds"
    "live (wd_records (snd (ds ! n))) \<or> Sent i True \<in> set (wd_log (snd (ds ! n))) \<or>
     (\<exists>r\<in>set (ps_rows (wd_records (snd (ds ! n)))). wr_status r = Succeeded)"
  shows "n + 1 = length ds"
proof -
  note inv = case_reachable_inv [OF assms(1), unfolded case_inv_def, rule_format, OF assms(2)]
  have "live (wd_records (snd (ds ! n)))" using assms(3) recorded_live inv by blast
  then show ?thesis using inv by blast
qed


definition sample_facts :: DecisionFacts where
  "sample_facts = \<lparr>df_deductionId = ''c'', df_schemaId = Schema_S, df_caseAmountCents = 500, df_family = None,
     df_outcome = Some Outcome_Lost, df_recoveredCents = Some 0, df_invoiceId = Some ''130''\<rparr>"

lemma sample_actions: "approval_actions sample_facts = Inr [Approve_Writeback, Approve_Writeoff]"
  by (simp add: approval_actions_def expenseDebit_def draftsFor_def sample_facts_def draftEntries_def checked_amounts_def
      safe_number_def safe_int_def max_safe_def subCents_def Let_def entries_of_def pair_def sumCents_def addCents_def)

lemma case_settled_once_witness:
  "\<exists>ds :: unit case_world. case_reachable ds \<and> 0 < length ds \<and> live (wd_records (snd (ds ! 0))) \<and> 0 + 1 = length ds"
proof -
  obtain p ls where p: "prepareSettlementDecision sample_settlement sample_settlement_case = Inr p" "sp_lines p = Some ls"
    "sp_family p = None" "sp_outcome p = Outcome_Lost" "sp_recoveredCents p = Whole 0" "sp_invoiceId p = ''130''"
    using sample_prepared by metis
  define d where "d = \<lparr>dr_decisionId = ''d'', dr_facts = sample_facts, dr_stored = ls, dr_maps = Map.empty,
     dr_realms = [''n'' \<mapsto> ''1''], dr_approvedOn = ''2026-10-05''\<rparr>"
  have "decision_of sample_settlement_case p d"
    using p by (simp add: decision_of_def d_def sample_facts_def sample_settlement_case_def)
  then have "case_step ([] :: unit case_world) ([] @ [(d, new_world ())])"
    by (intro prepares [OF p(1)]) (simp add: sample_settlement_case_def)
  then have one: "case_reachable [(d, new_world ())]" using case_reachable.case_step [OF opened] by fastforce
  let ?w = "(new_world ())\<lparr>wd_records := (wd_records (new_world ()))\<lparr>ps_approved := True\<rparr>\<rparr>"
  have "approveSettlement [(d, new_world ())] 0 = Inr [(d, ?w)]"
    using sample_actions by (simp add: approveSettlement_def d_def sample_facts_def new_world_def no_records_def)
  then have ds: "case_reachable [(d, ?w)]" using case_reachable.case_step [OF one] approves by blast
  moreover have "live (wd_records (snd ([(d, ?w)] ! 0)))" by (simp add: live_def new_world_def no_records_def decisionIsVoided_def)
  moreover from this have "0 + 1 = length [(d, ?w)]" using case_settled_once [OF ds, of 0 "[]"] by simp
  ultimately show ?thesis by (intro exI [of _ "[(d, ?w)]"]) simp
qed

end
