(* ===== verification/Csv.thy ===== *)
theory Csv
  imports Prelude
begin

text \<open>
  The CSV and TSV reader at the door: \<open>parseCsv\<close> and \<open>csvSafe\<close> of \<open>packages/ingest/src/csv.ts\<close>. The
  loop is one step on the reader's variables, taken while the position is inside the text; it is a
  \<open>partial_function\<close>, so that it ends is a theorem. The text written by RFC 4180's rules is read back.
\<close>

section \<open>The reader\<close>

datatype CsvRefusedError = Text_After_Closing_Quote | Unterminated_Quote

record csv_state =
  cv_rows :: "string list list"
  cv_row :: "string list"
  cv_field :: string
  cv_quoted :: bool
  cv_fieldStarted :: bool
  cv_i :: nat

definition char_at :: "string \<Rightarrow> nat \<Rightarrow> char option" where
  "char_at t n = (if n < length t then Some (t ! n) else None)"

definition LF :: char where "LF = CHR 0x0A"

definition CR :: char where "CR = CHR 0x0D"

definition quote :: char where "quote = CHR 0x22"

definition end_field :: "csv_state \<Rightarrow> csv_state" where
  "end_field s = s\<lparr>cv_row := cv_row s @ [cv_field s], cv_field := [], cv_fieldStarted := False\<rparr>"

definition end_row :: "csv_state \<Rightarrow> csv_state" where
  "end_row s = (end_field s)\<lparr>cv_rows := cv_rows s @ [cv_row s @ [cv_field s]], cv_row := []\<rparr>"

text \<open>One turn of the loop, at a position inside the text.\<close>

definition csv_step :: "char \<Rightarrow> string \<Rightarrow> csv_state \<Rightarrow> CsvRefusedError + csv_state" where
  "csv_step delimiter t s =
     (let c = t ! cv_i s; after = char_at t (cv_i s + 1) in
      if cv_quoted s then
        if c = quote then
          if after = Some quote then Inr (s\<lparr>cv_field := cv_field s @ [quote], cv_i := cv_i s + 2\<rparr>)
          else if after \<noteq> None \<and> after \<notin> {Some delimiter, Some LF, Some CR} then Inl Text_After_Closing_Quote
          else Inr (s\<lparr>cv_quoted := False, cv_i := cv_i s + 1\<rparr>)
        else Inr (s\<lparr>cv_field := cv_field s @ [c], cv_i := cv_i s + 1\<rparr>)
      else if c = quote \<and> \<not> cv_fieldStarted s then Inr (s\<lparr>cv_quoted := True, cv_fieldStarted := True, cv_i := cv_i s + 1\<rparr>)
      else if c = delimiter then Inr ((end_field s)\<lparr>cv_i := cv_i s + 1\<rparr>)
      else if c = LF \<or> c = CR then
        Inr ((end_row s)\<lparr>cv_i := cv_i s + (if c = CR \<and> after = Some LF then 2 else 1)\<rparr>)
      else Inr (s\<lparr>cv_field := cv_field s @ [c], cv_fieldStarted := True, cv_i := cv_i s + 1\<rparr>))"

partial_function (option) csv_loop :: "char \<Rightarrow> string \<Rightarrow> csv_state \<Rightarrow> (CsvRefusedError + csv_state) option" where
  "csv_loop delimiter t s =
     (if cv_i s < length t
      then (case csv_step delimiter t s of Inl e \<Rightarrow> Some (Inl e) | Inr s' \<Rightarrow> csv_loop delimiter t s')
      else Some (Inr s))"

definition csv_start :: csv_state where
  "csv_start = \<lparr>cv_rows = [], cv_row = [], cv_field = [], cv_quoted = False, cv_fieldStarted = False, cv_i = 0\<rparr>"

text \<open>After the loop: an open quote is refused, a last row without a line end is kept.\<close>

definition csv_finish :: "csv_state \<Rightarrow> CsvRefusedError + string list list" where
  "csv_finish s =
     (if cv_quoted s then Inl Unterminated_Quote
      else if cv_fieldStarted s \<or> cv_field s \<noteq> [] \<or> cv_row s \<noteq> [] then Inr (cv_rows s @ [cv_row s @ [cv_field s]])
      else Inr (cv_rows s))"

definition parseCsv :: "string \<Rightarrow> char \<Rightarrow> (CsvRefusedError + string list list) option" where
  "parseCsv t delimiter = (case csv_loop delimiter t csv_start of
     None \<Rightarrow> None
   | Some (Inl e) \<Rightarrow> Some (Inl e)
   | Some (Inr s) \<Rightarrow> Some (csv_finish s))"

text \<open>A cell written out where a spreadsheet may open it never starts a formula.\<close>

definition starts_formula :: "string \<Rightarrow> bool" where
  "starts_formula cell \<longleftrightarrow> (case cell of [] \<Rightarrow> False | c # _ \<Rightarrow> c \<in> set ''=+-@'' \<or> c = CHR 0x09 \<or> c = CR)"

definition csvSafe :: "string \<Rightarrow> string" where
  "csvSafe cell = (if starts_formula cell then CHR 0x27 # cell else cell)"

section \<open>The loop ends\<close>

lemma csv_step_advances: "csv_step delimiter t s = Inr s' \<Longrightarrow> cv_i s < cv_i s'"
  by (auto simp: csv_step_def Let_def end_field_def end_row_def split: if_splits)

lemma csv_loop_ends: "\<exists>r. csv_loop delimiter t s = Some r"
proof (induction "length t - cv_i s" arbitrary: s rule: less_induct)
  case less
  show ?case
  proof (cases "cv_i s < length t")
    case False
    then show ?thesis by (simp add: csv_loop.simps)
  next
    case inside: True
    show ?thesis
    proof (cases "csv_step delimiter t s")
      case (Inl e)
      then show ?thesis using inside by (simp add: csv_loop.simps)
    next
      case (Inr s')
      then have "length t - cv_i s' < length t - cv_i s" using csv_step_advances inside by fastforce
      then show ?thesis using less.hyps inside Inr by (simp add: csv_loop.simps [of delimiter t s])
    qed
  qed
qed

section \<open>Reading what was written\<close>

text \<open>A cell is written plain when it holds nothing special, or between quotes with its quotes doubled.\<close>

definition plain_cell :: "char \<Rightarrow> string \<Rightarrow> bool" where
  "plain_cell delimiter cell \<longleftrightarrow> (\<forall>c\<in>set cell. c \<noteq> quote \<and> c \<noteq> delimiter \<and> c \<noteq> LF \<and> c \<noteq> CR)"

definition doubled :: "string \<Rightarrow> string" where
  "doubled cell = concat (map (\<lambda>c. if c = quote then [quote, quote] else [c]) cell)"

definition written :: "char \<Rightarrow> string \<Rightarrow> string \<Rightarrow> bool" where
  "written delimiter cell w \<longleftrightarrow> w = cell \<and> plain_cell delimiter cell \<or> w = quote # doubled cell @ [quote]"

fun joined :: "char \<Rightarrow> string list \<Rightarrow> string" where
  "joined delimiter [] = []"
| "joined delimiter [w] = w"
| "joined delimiter (w # ws) = w @ delimiter # joined delimiter ws"

lemma char_at_simps [simp]:
  "char_at (pre @ c # post) (length pre) = Some c"
  "char_at (pre @ c # post) (Suc (length pre)) = (case post of [] \<Rightarrow> None | d # _ \<Rightarrow> Some d)"
  by (auto simp: char_at_def nth_append split: list.split)

lemma csv_loop_inside:
  "csv_loop delimiter (pre @ c # post) (s\<lparr>cv_i := length pre\<rparr>) =
    (case csv_step delimiter (pre @ c # post) (s\<lparr>cv_i := length pre\<rparr>) of
       Inl e \<Rightarrow> Some (Inl e) | Inr s' \<Rightarrow> csv_loop delimiter (pre @ c # post) s')"
  by (subst csv_loop.simps) simp


text \<open>The loop at a position given by the text read so far; \<open>at\<close> leaves the other variables.\<close>

abbreviation at_end_of :: "string \<Rightarrow> csv_state \<Rightarrow> csv_state" where
  "at_end_of pre s \<equiv> s\<lparr>cv_i := length pre\<rparr>"

lemma loop_plain:
  assumes "\<not> cv_quoted s" "plain_cell delimiter cell" "delimiter \<notin> {quote, LF, CR}"
  shows "csv_loop delimiter (pre @ cell @ post) (at_end_of pre s) = csv_loop delimiter (pre @ cell @ post)
    (at_end_of (pre @ cell) (s\<lparr>cv_field := cv_field s @ cell, cv_fieldStarted := cv_fieldStarted s \<or> cell \<noteq> []\<rparr>))"
  using assms
proof (induction cell arbitrary: pre s)
  case (Cons c cell)
  have "c \<noteq> quote" "c \<noteq> delimiter" "c \<noteq> LF" "c \<noteq> CR" "plain_cell delimiter cell" using Cons.prems by (simp_all add: plain_cell_def)
  then show ?case
    using Cons.IH [of "s\<lparr>cv_field := cv_field s @ [c], cv_fieldStarted := True\<rparr>" "pre @ [c]"] Cons.prems csv_loop_inside [of delimiter pre c "cell @ post" s]
    by (simp add: csv_step_def Let_def)
qed simp

lemma loop_doubled:
  assumes "cv_quoted s"
  shows "csv_loop delimiter (pre @ doubled cell @ post) (at_end_of pre s) = csv_loop delimiter (pre @ doubled cell @ post)
    (at_end_of (pre @ doubled cell) (s\<lparr>cv_field := cv_field s @ cell\<rparr>))"
  using assms
proof (induction cell arbitrary: pre s)
  case (Cons c cell)
  show ?case
  proof (cases "c = quote")
    case True
    then show ?thesis
      using Cons.IH [of "s\<lparr>cv_field := cv_field s @ [c]\<rparr>" "pre @ [quote, quote]"] Cons.prems
        csv_loop_inside [of delimiter pre quote "quote # doubled cell @ post" s]
      by (simp add: csv_step_def Let_def doubled_def)
  next
    case False
    then show ?thesis
      using Cons.IH [of "s\<lparr>cv_field := cv_field s @ [c]\<rparr>" "pre @ [c]"] Cons.prems csv_loop_inside [of delimiter pre c "doubled cell @ post" s]
      by (simp add: csv_step_def Let_def doubled_def)
  qed
qed (simp add: doubled_def)

lemma loop_close:
  assumes "cv_quoted s" "delimiter \<notin> {quote, LF, CR}" "post = [] \<or> hd post \<in> {delimiter, LF, CR}"
  shows "csv_loop delimiter (pre @ quote # post) (at_end_of pre s) =
    csv_loop delimiter (pre @ quote # post) (at_end_of (pre @ [quote]) (s\<lparr>cv_quoted := False\<rparr>))"
proof -
  have "quote \<noteq> LF" "quote \<noteq> CR" by (simp_all add: quote_def LF_def CR_def)
  then show ?thesis using assms csv_loop_inside [of delimiter pre quote post s]
    by (cases post) (auto simp: csv_step_def Let_def)
qed

text \<open>One cell, followed by the end of the text, a delimiter or a line end.\<close>

lemma loop_cell:
  assumes "written delimiter cell w" "cv_field s = []" "\<not> cv_quoted s" "\<not> cv_fieldStarted s" "delimiter \<notin> {quote, LF, CR}"
    "post = [] \<or> hd post \<in> {delimiter, LF, CR}"
  obtains started where "csv_loop delimiter (pre @ w @ post) (at_end_of pre s) = csv_loop delimiter (pre @ w @ post)
    (at_end_of (pre @ w) (s\<lparr>cv_field := cell, cv_fieldStarted := started\<rparr>))"
proof (cases "w = cell \<and> plain_cell delimiter cell")
  case True
  then show thesis using loop_plain [of s delimiter cell pre post] assms that by simp
next
  case False
  then have w: "w = quote # doubled cell @ [quote]" using assms(1) by (auto simp: written_def)
  let ?s = "s\<lparr>cv_quoted := True, cv_fieldStarted := True\<rparr>"
  have "csv_loop delimiter (pre @ w @ post) (at_end_of pre s) = csv_loop delimiter (pre @ w @ post) (at_end_of (pre @ [quote]) ?s)"
    using csv_loop_inside [of delimiter pre quote "doubled cell @ quote # post" s] assms by (simp add: w csv_step_def Let_def)
  also have "\<dots> = csv_loop delimiter (pre @ w @ post) (at_end_of (pre @ quote # doubled cell) (?s\<lparr>cv_field := cell\<rparr>))"
    using loop_doubled [of ?s delimiter "pre @ [quote]" cell "quote # post"] assms(2) by (simp add: w)
  also have "\<dots> = csv_loop delimiter (pre @ w @ post) (at_end_of (pre @ w) (s\<lparr>cv_field := cell, cv_fieldStarted := True\<rparr>))"
    using loop_close [of "?s\<lparr>cv_field := cell\<rparr>" delimiter post "pre @ quote # doubled cell"] assms by (cases s) (simp add: w)
  finally show thesis by (rule that)
qed


lemma loop_row:
  assumes "list_all2 (written delimiter) cells ws" "cells \<noteq> []" "cv_field s = []" "\<not> cv_quoted s" "\<not> cv_fieldStarted s"
    "delimiter \<notin> {quote, LF, CR}" "post \<noteq> []" "hd post \<in> {LF, CR}"
  shows "\<exists>started. csv_loop delimiter (pre @ joined delimiter ws @ post) (at_end_of pre s) = csv_loop delimiter (pre @ joined delimiter ws @ post)
    (at_end_of (pre @ joined delimiter ws) (s\<lparr>cv_row := cv_row s @ butlast cells, cv_field := last cells, cv_fieldStarted := started\<rparr>))"
  using assms(1-5)
proof (induction cells ws arbitrary: pre s rule: list_all2_induct)
  case (Cons cell cells w ws)
  show ?case
  proof (cases "cells = []")
    case True
    then have "ws = []" using Cons.hyps by simp
    moreover obtain started where "csv_loop delimiter (pre @ w @ post) (at_end_of pre s) = csv_loop delimiter (pre @ w @ post)
        (at_end_of (pre @ w) (s\<lparr>cv_field := cell, cv_fieldStarted := started\<rparr>))"
      using loop_cell [of delimiter cell w s post pre] Cons assms(6-8) by blast
    ultimately show ?thesis using True by (intro exI [of _ started]) (cases s; simp)
  next
    case False
    then have ws: "joined delimiter (w # ws) = w @ delimiter # joined delimiter ws" using Cons.hyps by (cases ws) auto
    let ?rest = "delimiter # joined delimiter ws @ post"
    let ?s = "s\<lparr>cv_row := cv_row s @ [cell]\<rparr>"
    obtain started where "csv_loop delimiter (pre @ w @ ?rest) (at_end_of pre s) = csv_loop delimiter (pre @ w @ ?rest)
        (at_end_of (pre @ w) (s\<lparr>cv_field := cell, cv_fieldStarted := started\<rparr>))"
      using loop_cell [of delimiter cell w s ?rest pre] Cons assms(6) by auto
    also have "\<dots> = csv_loop delimiter (pre @ w @ ?rest) (at_end_of (pre @ w @ [delimiter]) ?s)"
      using csv_loop_inside [of delimiter "pre @ w" delimiter "joined delimiter ws @ post" "s\<lparr>cv_field := cell, cv_fieldStarted := started\<rparr>"]
        Cons.prems assms(6) by (cases s) (auto simp: csv_step_def Let_def end_field_def)
    finally have step: "csv_loop delimiter (pre @ w @ ?rest) (at_end_of pre s) =
      csv_loop delimiter (pre @ w @ ?rest) (at_end_of (pre @ w @ [delimiter]) ?s)" .
    obtain started' where "csv_loop delimiter ((pre @ w @ [delimiter]) @ joined delimiter ws @ post) (at_end_of (pre @ w @ [delimiter]) ?s) =
      csv_loop delimiter ((pre @ w @ [delimiter]) @ joined delimiter ws @ post) (at_end_of ((pre @ w @ [delimiter]) @ joined delimiter ws)
        (?s\<lparr>cv_row := cv_row ?s @ butlast cells, cv_field := last cells, cv_fieldStarted := started'\<rparr>))"
      using Cons.IH [of ?s "pre @ w @ [delimiter]"] False Cons.prems by auto
    then show ?thesis using step False ws by (intro exI [of _ started']) simp
  qed
qed simp

definition line_end :: "string \<Rightarrow> bool" where
  "line_end eol \<longleftrightarrow> eol = [LF] \<or> eol = [CR] \<or> eol = [CR, LF]"

lemma loop_line_end:
  assumes "line_end eol" "\<not> cv_quoted s" "delimiter \<notin> {quote, LF, CR}" "eol = [CR] \<Longrightarrow> post = [] \<or> hd post \<noteq> LF"
  shows "csv_loop delimiter (pre @ eol @ post) (at_end_of pre s) = csv_loop delimiter (pre @ eol @ post) (at_end_of (pre @ eol) (end_row s))"
proof -
  have "quote \<noteq> LF" "quote \<noteq> CR" "LF \<noteq> CR" by (simp_all add: quote_def LF_def CR_def)
  then show ?thesis using assms csv_loop_inside [of delimiter pre "hd eol" "tl eol @ post" s]
    by (cases s; cases post) (auto simp: line_end_def csv_step_def Let_def end_row_def end_field_def)
qed

definition csv_text :: "char \<Rightarrow> string \<Rightarrow> string list list \<Rightarrow> string" where
  "csv_text delimiter eol wss = concat (map (\<lambda>ws. joined delimiter ws @ eol) wss)"

lemma written_start:
  assumes "written delimiter cell w" "delimiter \<noteq> LF" "rest = [] \<or> hd rest \<noteq> LF"
  shows "w @ rest = [] \<or> hd (w @ rest) \<noteq> LF"
proof -
  have q: "quote \<noteq> LF" by (simp add: quote_def LF_def)
  show ?thesis
  proof (cases w)
    case Nil
    then show ?thesis using assms(3) by simp
  next
    case (Cons c w')
    then have "c = quote \<or> c \<in> set cell \<and> plain_cell delimiter cell" using assms(1) unfolding written_def by force
    then have "c \<noteq> LF" using q by (auto simp: plain_cell_def)
    then show ?thesis using Cons by simp
  qed
qed

lemma joined_start:
  assumes "list_all2 (written delimiter) cells ws" "delimiter \<noteq> LF"
  shows "hd (joined delimiter ws @ CR # post) \<noteq> LF"
proof -
  have cr: "CR \<noteq> LF" by (simp add: CR_def LF_def)
  show ?thesis
  proof (cases "(delimiter, ws)" rule: joined.cases)
    case (1 d)
    then show ?thesis using cr by simp
  next
    case (2 d w)
    then obtain cell where "written delimiter cell w" using assms(1) by (auto simp: list_all2_Cons2)
    then show ?thesis using written_start [of delimiter cell w "CR # post"] assms(2) cr 2 by simp
  next
    case (3 d w w' ws')
    then obtain cell where "written delimiter cell w" using assms(1) by (auto simp: list_all2_Cons2)
    then show ?thesis using written_start [of delimiter cell w "delimiter # joined delimiter (w' # ws') @ CR # post"] assms(2) 3 by simp
  qed
qed

lemma loop_rows:
  assumes "list_all2 (list_all2 (written delimiter)) rows wss" "\<forall>r\<in>set rows. r \<noteq> []" "line_end eol" "delimiter \<notin> {quote, LF, CR}"
  shows "csv_loop delimiter (pre @ csv_text delimiter eol wss) (at_end_of pre (csv_start\<lparr>cv_rows := before\<rparr>)) =
    Some (Inr (at_end_of (pre @ csv_text delimiter eol wss) (csv_start\<lparr>cv_rows := before @ rows\<rparr>)))"
  using assms(1,2)
proof (induction rows wss arbitrary: pre before rule: list_all2_induct)
  case Nil
  then show ?case by (simp add: csv_text_def csv_loop.simps)
next
  case (Cons cells rows ws wss)
  let ?s = "csv_start\<lparr>cv_rows := before\<rparr>" and ?line = "joined delimiter ws"
  let ?text = "pre @ ?line @ eol @ csv_text delimiter eol wss"
  have ends: "eol @ csv_text delimiter eol wss \<noteq> []" "hd (eol @ csv_text delimiter eol wss) \<in> {LF, CR}"
    using assms(3) by (auto simp: line_end_def)
  obtain started where "csv_loop delimiter ?text (at_end_of pre ?s) = csv_loop delimiter ?text
      (at_end_of (pre @ ?line) (?s\<lparr>cv_row := cv_row ?s @ butlast cells, cv_field := last cells, cv_fieldStarted := started\<rparr>))"
    using loop_row [OF Cons.hyps(1) _ _ _ _ assms(4) ends, of ?s pre] Cons.prems by (auto simp: csv_start_def)
  also have "\<dots> = csv_loop delimiter ?text (at_end_of (pre @ ?line @ eol) (csv_start\<lparr>cv_rows := before @ [cells]\<rparr>))"
  proof -
    have "csv_text delimiter eol wss = [] \<or> hd (csv_text delimiter eol wss) \<noteq> LF" if "eol = [CR]"
      using joined_start Cons.hyps(2) assms(4) that by (cases wss) (auto simp: csv_text_def list_all2_Cons2)
    then show ?thesis
      using loop_line_end [of eol "?s\<lparr>cv_row := cv_row ?s @ butlast cells, cv_field := last cells, cv_fieldStarted := started\<rparr>"
          delimiter "csv_text delimiter eol wss" "pre @ ?line"] assms(3,4) Cons.prems
      by (simp add: csv_start_def end_row_def end_field_def)
  qed
  finally show ?case using Cons.IH [of "pre @ ?line @ eol" "before @ [cells]"] Cons.prems by (simp add: csv_text_def)
qed


section \<open>What is read is in the text\<close>

definition cell_lengths :: "string list \<Rightarrow> nat" where
  "cell_lengths row = sum_list (map length row)"

definition csv_ok :: "string \<Rightarrow> csv_state \<Rightarrow> bool" where
  "csv_ok t s \<longleftrightarrow> cv_i s \<le> length t \<and>
     cell_lengths (concat (cv_rows s)) + cell_lengths (cv_row s) + length (cv_field s) \<le> cv_i s \<and>
     (\<forall>cell\<in>set (concat (cv_rows s)) \<union> set (cv_row s) \<union> {cv_field s}. set cell \<subseteq> set t) \<and> [] \<notin> set (cv_rows s)"

lemma cell_lengths_simps [simp]:
  "cell_lengths [] = 0" "cell_lengths (c # cs) = length c + cell_lengths cs"
  "cell_lengths (as @ bs) = cell_lengths as + cell_lengths bs"
  by (simp_all add: cell_lengths_def)

lemma csv_step_cases:
  assumes "csv_step delimiter t s = Inr s'" "cv_i s < length t"
  obtains "cv_rows s' = cv_rows s" "cv_row s' = cv_row s" "cv_field s' = cv_field s @ [t ! cv_i s]"
  | "cv_rows s' = cv_rows s" "cv_row s' = cv_row s" "cv_field s' = cv_field s"
  | "cv_rows s' = cv_rows s" "cv_row s' = cv_row s @ [cv_field s]" "cv_field s' = []"
  | "cv_rows s' = cv_rows s @ [cv_row s @ [cv_field s]]" "cv_row s' = []" "cv_field s' = []"
proof -
  consider "cv_quoted s" | "\<not> cv_quoted s" by blast
  then show thesis
  proof cases
    case 1
    then have "cv_rows s' = cv_rows s \<and> cv_row s' = cv_row s \<and> cv_field s' \<in> {cv_field s, cv_field s @ [t ! cv_i s]}"
      using assms(1) by (auto simp: csv_step_def Let_def split: if_split_asm)
    then show thesis using that(1,2) by blast
  next
    case 2
    then show thesis using assms(1) that
      by (auto simp: csv_step_def Let_def end_field_def end_row_def split: if_split_asm)
  qed
qed

lemma csv_step_position:
  assumes "csv_step delimiter t s = Inr s'" "cv_i s < length t"
  shows "cv_i s' \<le> length t"
proof -
  have "cv_i s + 1 < length t" if "char_at t (cv_i s + 1) = Some c" for c
    using that by (simp add: char_at_def split: if_splits)
  then show ?thesis using assms by (auto simp: csv_step_def Let_def end_field_def end_row_def split: if_split_asm)
qed

lemma csv_step_ok:
  assumes "csv_step delimiter t s = Inr s'" "csv_ok t s" "cv_i s < length t"
  shows "csv_ok t s'"
proof -
  have "t ! cv_i s \<in> set t" using assms(3) by simp
  then show ?thesis using csv_step_position [OF assms(1,3)] csv_step_advances [OF assms(1)] assms(2)
    by (cases rule: csv_step_cases [OF assms(1,3)]) (simp_all add: csv_ok_def)
qed

lemma csv_loop_ok:
  assumes "csv_loop delimiter t s = Some (Inr s')" "csv_ok t s"
  shows "csv_ok t s'"
  using assms
proof (induction "length t - cv_i s" arbitrary: s rule: less_induct)
  case less
  show ?case
  proof (cases "cv_i s < length t")
    case False
    then show ?thesis using less.prems by (simp add: csv_loop.simps)
  next
    case inside: True
    then obtain n where n: "csv_step delimiter t s = Inr n" "csv_loop delimiter t n = Some (Inr s')"
      using less.prems(1) by (auto simp: csv_loop.simps [of delimiter t s] split: sum.splits)
    then have "length t - cv_i n < length t - cv_i s" using csv_step_advances inside by fastforce
    then show ?thesis using less.hyps n csv_step_ok less.prems(2) inside by blast
  qed
qed

section \<open>Properties\<close>

text \<open>C34: the reader ends on every text, with an answer or a refusal, whatever the delimiter; an answer has
  no row without a cell, holds only characters of the text, and holds no more of them than the text.\<close>

theorem csv_terminates:
  "\<exists>r. parseCsv t delimiter = Some r \<and> (\<forall>rows. r = Inr rows \<longrightarrow>
    [] \<notin> set rows \<and> (\<forall>cell\<in>set (concat rows). set cell \<subseteq> set t) \<and> sum_list (map length (concat rows)) \<le> length t)"
proof -
  obtain l where l: "csv_loop delimiter t csv_start = Some l" using csv_loop_ends by blast
  show ?thesis
  proof (cases l)
    case (Inl e)
    then show ?thesis using l by (simp add: parseCsv_def)
  next
    case (Inr s)
    have "csv_ok t csv_start" by (simp add: csv_ok_def csv_start_def)
    then have "csv_ok t s" using csv_loop_ok l Inr by blast
    then have "[] \<notin> set rows \<and> (\<forall>cell\<in>set (concat rows). set cell \<subseteq> set t) \<and> cell_lengths (concat rows) \<le> length t"
      if "csv_finish s = Inr rows" for rows
    proof -
      have "rows = cv_rows s \<or> rows = cv_rows s @ [cv_row s @ [cv_field s]]" using that by (auto simp: csv_finish_def split: if_splits)
      then show ?thesis using \<open>csv_ok t s\<close> unfolding csv_ok_def by (elim disjE) simp_all
    qed
    then show ?thesis using l Inr by (simp add: parseCsv_def cell_lengths_def)
  qed
qed

lemma csv_terminates_witness:
  "parseCsv ''a,bc'' CHR '','' = Some (Inr [[''a'', ''bc'']]) \<and> [] \<notin> set [[''a'', ''bc'']] \<and>
    sum_list (map length (concat [[''a'', ''bc'']])) \<le> length ''a,bc''"
proof -
  have "parseCsv ''a,bc'' CHR '','' = Some (Inr [[''a'', ''bc'']])"
    by (simp add: parseCsv_def csv_start_def csv_loop.simps csv_step_def Let_def end_field_def csv_finish_def quote_def LF_def CR_def)
  then show ?thesis using csv_terminates [of "''a,bc''" "CHR '',''"] by auto
qed

text \<open>C35: a table written by RFC 4180's rules is read back exactly: each cell plain where it can be or
  between quotes with its quotes doubled, whatever it holds, cells parted by the delimiter, each row
  ended by the same line end, and no row without a cell.\<close>

theorem csv_round_trip:
  assumes "list_all2 (list_all2 (written delimiter)) rows wss" "\<forall>r\<in>set rows. r \<noteq> []" "line_end eol"
    "delimiter = CHR '','' \<or> delimiter = CHR 0x09"
  shows "parseCsv (csv_text delimiter eol wss) delimiter = Some (Inr rows)"
proof -
  have "delimiter \<notin> {quote, LF, CR}" using assms(4) by (auto simp: quote_def LF_def CR_def)
  then have "csv_loop delimiter (csv_text delimiter eol wss) csv_start =
      Some (Inr (at_end_of (csv_text delimiter eol wss) (csv_start\<lparr>cv_rows := rows\<rparr>)))"
    using loop_rows [OF assms(1-3), of "[]" "[]"] by (simp add: csv_start_def)
  then show ?thesis by (simp add: parseCsv_def csv_finish_def csv_start_def)
qed

lemma csv_round_trip_witness:
  "parseCsv (csv_text CHR '','' [CR, LF] [[''a'', quote # doubled [quote, CHR '','', LF] @ [quote]], [[], ''b'']]) CHR '','' =
    Some (Inr [[''a'', [quote, CHR '','', LF]], [[], ''b'']])"
  by (rule csv_round_trip) (simp_all add: written_def plain_cell_def line_end_def quote_def LF_def CR_def)

end
