(* ===== verification/Printed_Times.thy ===== *)
theory Printed_Times
  imports Dates
begin

text \<open>
  Dates with times of day as printed: \<open>packages/extraction/src/timestamps.ts\<close>. A text is read into a
  calendar day, a minute of that day and a time-zone label that is never converted; two readings are
  compared only when their labels are the same. The lemmas show what a reading can be, that the
  distance of two readings is the distance of the instants they name in one zone, and that a reading
  printed in the ISO order reads back.
\<close>

section \<open>The reading of a text\<close>

record timestamp =
  ts_date :: string
  ts_minutesOfDay :: int
  ts_zone :: "string option"
  ts_asPrinted :: string

definition TIME_MONTHS :: "(string \<times> int) list" where
  "TIME_MONTHS =
     [(''jan'', 1), (''january'', 1), (''feb'', 2), (''february'', 2), (''mar'', 3), (''march'', 3),
      (''apr'', 4), (''april'', 4), (''may'', 5), (''jun'', 6), (''june'', 6), (''jul'', 7), (''july'', 7),
      (''aug'', 8), (''august'', 8), (''sep'', 9), (''sept'', 9), (''september'', 9), (''oct'', 10),
      (''october'', 10), (''nov'', 11), (''november'', 11), (''dec'', 12), (''december'', 12)]"

definition realDate :: "int \<Rightarrow> int \<Rightarrow> int \<Rightarrow> string option" where
  "realDate year month day =
     (if month < 1 \<or> month > 12 \<or> day < 1 then None
      else if civil_of_day (date_utc year month day) \<noteq> (year, month, day) then None
      else Some (civil_text year month day))"

definition minutesOf :: "int \<Rightarrow> int \<Rightarrow> string option \<Rightarrow> int option" where
  "minutesOf hour minute meridiem =
     (if minute < 0 \<or> minute > 59 then None
      else case meridiem of
        None \<Rightarrow> if hour \<ge> 0 \<and> hour \<le> 23 then Some (hour * 60 + minute) else None
      | Some m \<Rightarrow>
          if hour < 1 \<or> hour > 12 then None
          else let base = hour mod 12
               in Some ((if take 1 (to_lower m) = ''p'' then base + 12 else base) * 60 + minute))"

text \<open>The zone pattern: a whole word of the list, perhaps with a full stop, that ends the text. The
  word holds no boundary of its own, so it is the text after the last character that is none.\<close>

definition ZONE_WORDS :: "string list" where
  "ZONE_WORDS =
     [''utc'', ''gmt'', ''z'', ''eastern'', ''central'', ''mountain'', ''pacific'', ''est'', ''edt'',
      ''cst'', ''cdt'', ''mst'', ''mdt'', ''pst'', ''pdt'']"

definition without_stop :: "string \<Rightarrow> string" where
  "without_stop s = (if s \<noteq> [] \<and> last s = CHR ''.'' then butlast s else s)"

definition zone_of :: "string \<Rightarrow> (string \<times> string) option" where
  "zone_of working =
     (let t = without_stop working;
          word = rev (takeWhile is_word_char (rev t))
      in if to_lower word \<in> set ZONE_WORDS
         then Some (take (length t - length word) t, to_lower word) else None)"

text \<open>\<open>/,?\s+at\s+/i\<close>, replaced once by a space, and \<open>/,\s*/g\<close> by a space.\<close>

definition at_noise :: "string \<Rightarrow> string option" where
  "at_noise s =
     (let t = (case s of c # r \<Rightarrow> if c = CHR '','' then r else s | [] \<Rightarrow> s);
          u = dropWhile is_ws t;
          v = drop 2 u
      in if u \<noteq> t \<and> to_lower (take 2 u) = ''at'' \<and> v \<noteq> [] \<and> is_ws (hd v)
         then Some (dropWhile is_ws v) else None)"

fun drop_at :: "string \<Rightarrow> string" where
  "drop_at [] = []"
| "drop_at (c # s) =
     (case at_noise (c # s) of Some r \<Rightarrow> CHR '' '' # r | None \<Rightarrow> c # drop_at s)"

fun drop_commas_from :: "bool \<Rightarrow> string \<Rightarrow> string" where
  "drop_commas_from after [] = []"
| "drop_commas_from after (c # s) =
     (if c = CHR '','' then CHR '' '' # drop_commas_from True s
      else if after \<and> is_ws c then drop_commas_from True s
      else c # drop_commas_from False s)"

definition drop_commas :: "string \<Rightarrow> string" where
  "drop_commas s = drop_commas_from False s"

text \<open>\<open>/(\d{1,2}):(\d{2})(?::\d{2})?\s*([AaPp]\.?[Mm]\.?)?$/\<close> at the start of a text: the hour, the
  minute and the meridiem with its full stops.\<close>

definition meridiem_shape :: "string \<Rightarrow> bool" where
  "meridiem_shape s \<longleftrightarrow>
     (case s of
        c # r \<Rightarrow> c \<in> set ''AaPp'' \<and>
          (case skip_char CHR ''.'' r of d # t \<Rightarrow> d \<in> set ''Mm'' \<and> skip_char CHR ''.'' t = [] | [] \<Rightarrow> False)
      | [] \<Rightarrow> False)"

definition two_digits_first :: "string \<Rightarrow> bool" where
  "two_digits_first s \<longleftrightarrow> length (take 2 s) = 2 \<and> list_all is_digit (take 2 s)"

definition time_here :: "string \<Rightarrow> (string \<times> string \<times> string option) option" where
  "time_here s =
     (let hour = takeWhile is_digit s in
      if \<not> one_or_two hour then None
      else case dropWhile is_digit s of
        [] \<Rightarrow> None
      | x # r \<Rightarrow>
          if x \<noteq> CHR '':'' \<or> \<not> two_digits_first r then None
          else let t = drop 2 r;
                   u = (if take 1 t = '':'' \<and> two_digits_first (drop 1 t) then drop 3 t else t);
                   v = dropWhile is_ws u
               in if v = [] then Some (hour, take 2 r, None)
                  else if meridiem_shape v then Some (hour, take 2 r, Some v) else None)"

text \<open>The first place where the pattern matches, with the text before it.\<close>

fun find_time :: "string \<Rightarrow> (string \<times> string \<times> string \<times> string option) option" where
  "find_time [] = None"
| "find_time (c # s) =
     (case time_here (c # s) of
        Some (h, m, mer) \<Rightarrow> Some ([], h, m, mer)
      | None \<Rightarrow>
          (case find_time s of
             Some (front, h, m, mer) \<Rightarrow> Some (c # front, h, m, mer)
           | None \<Rightarrow> None))"

text \<open>The three shapes of a date. \<open>named\<close> is
  \<open>/^([A-Za-z]{3,9})\.?\s+(\d{1,2})(?:st|nd|rd|th)?\s+(\d{4})$/\<close>.\<close>

definition skip_ordinal_suffix :: "string \<Rightarrow> string" where
  "skip_ordinal_suffix s = (if take 2 s \<in> {''st'', ''nd'', ''rd'', ''th''} then drop 2 s else s)"

definition skip_spaces :: "string \<Rightarrow> string option" where
  "skip_spaces s = (if s \<noteq> [] \<and> is_ws (hd s) then Some (dropWhile is_ws s) else None)"

definition named_day :: "string \<Rightarrow> (string \<times> string \<times> string) option" where
  "named_day s =
     (let name = takeWhile is_letter s in
      if length name < 3 \<or> length name > 9 then None
      else case skip_spaces (skip_char CHR ''.'' (dropWhile is_letter s)) of
        None \<Rightarrow> None
      | Some r \<Rightarrow>
          let day = takeWhile is_digit r in
          if \<not> one_or_two day then None
          else case skip_spaces (skip_ordinal_suffix (dropWhile is_digit r)) of
            None \<Rightarrow> None
          | Some y \<Rightarrow> if length y = 4 \<and> list_all is_digit y then Some (name, day, y) else None)"

definition iso_order_day :: "string \<Rightarrow> (string \<times> string \<times> string) option" where
  "iso_order_day s =
     (case three_numbers s of
        Some (a, x, b, y, c) \<Rightarrow>
          if length a = 4 \<and> x = CHR ''-'' \<and> one_or_two b \<and> y = CHR ''-'' \<and> one_or_two c
          then Some (a, b, c) else None
      | None \<Rightarrow> None)"

definition us_order_day :: "string \<Rightarrow> (string \<times> string \<times> string) option" where
  "us_order_day s =
     (case three_numbers s of
        Some (a, x, b, y, c) \<Rightarrow>
          if one_or_two a \<and> x \<in> set ''/-'' \<and> one_or_two b \<and> y \<in> set ''/-'' \<and> (length c = 2 \<or> length c = 4)
          then Some (a, b, c) else None
      | None \<Rightarrow> None)"

definition date_part :: "string \<Rightarrow> string option" where
  "date_part s =
     (let num = (\<lambda>t. int (text_nat t)) in
      case named_day s of
        Some (name, d, y) \<Rightarrow>
          (case map_of TIME_MONTHS (to_lower name) of
             None \<Rightarrow> None
           | Some month \<Rightarrow> realDate (num y) month (num d))
      | None \<Rightarrow>
          (case iso_order_day s of
             Some (y, m, d) \<Rightarrow> realDate (num y) (num m) (num d)
           | None \<Rightarrow>
               (case us_order_day s of
                  Some (m, d, y) \<Rightarrow>
                    realDate (if length y = 2 then 2000 + num y else num y) (num m) (num d)
                | None \<Rightarrow> None)))"

definition parseTimestamp :: "string \<Rightarrow> timestamp option" where
  "parseTimestamp text =
     (let working = collapse_ws (trim text) in
      if working = [] then None
      else let
        zone = zone_of working;
        withoutZone = (case zone of None \<Rightarrow> working | Some (front, _) \<Rightarrow> trim front);
        body = trim (drop_commas (drop_at withoutZone))
      in case find_time body of
           None \<Rightarrow> None
         | Some (front, hour, minute, meridiem) \<Rightarrow>
             (case minutesOf (int (text_nat hour)) (int (text_nat minute))
                     (map_option (filter (\<lambda>c. c \<noteq> CHR ''.'')) meridiem) of
                None \<Rightarrow> None
              | Some minutes \<Rightarrow>
                  (case date_part (trim front) of
                     None \<Rightarrow> None
                   | Some day \<Rightarrow>
                       Some \<lparr>ts_date = day, ts_minutesOfDay = minutes, ts_zone = map_option snd zone,
                             ts_asPrinted = trim text\<rparr>)))"

section \<open>Comparing two readings\<close>

definition absoluteMinutes :: "timestamp \<Rightarrow> int" where
  "absoluteMinutes stamp =
     (case iso_parts (ts_date stamp) of
        Some (y, m, d) \<Rightarrow> date_utc y m d * 1440
      | None \<Rightarrow> 0) + ts_minutesOfDay stamp"

datatype comparison = Comparable int | Not_Comparable string

definition minutesLate :: "timestamp \<Rightarrow> timestamp \<Rightarrow> comparison" where
  "minutesLate actual due =
     (if ts_zone actual \<noteq> ts_zone due
      then Not_Comparable
        (''the two timestamps are in different zones ('' @ (case ts_zone actual of None \<Rightarrow> ''unstated'' | Some z \<Rightarrow> z) @
         '' and '' @ (case ts_zone due of None \<Rightarrow> ''unstated'' | Some z \<Rightarrow> z) @
         ''), so one cannot be measured against the other'')
      else Comparable (absoluteMinutes actual - absoluteMinutes due))"

section \<open>What a reading is\<close>

lemma realDate_Some:
  assumes "realDate y m d = Some s"
  shows "valid_civil y m d \<and> (y < 0 \<or> 99 < y) \<and> s = civil_text y m d"
proof -
  from assms have r: "1 \<le> m" "m \<le> 12" "civil_of_day (date_utc y m d) = (y, m, d)" "s = civil_text y m d"
    by (simp_all add: realDate_def split: if_splits)
  have "y < 0 \<or> 99 < y"
  proof (rule ccontr)
    assume "\<not> (y < 0 \<or> 99 < y)"
    then have y: "0 \<le> y" "y \<le> 99" by simp_all
    with r have "date_utc y m d = day_of_civil (1900 + y) m d" by (simp add: date_utc_def div_pos_pos_trivial)
    with day_of_civil_of_day [OF r(3)] have "day_of_civil y m d = day_of_civil (1900 + y) m d" by simp
    moreover have "days_before_year y + year_length y \<le> days_before_year (1900 + y)"
      by (rule days_before_year_less) simp
    moreover have "0 \<le> days_before_month y m" "days_before_month y m \<le> 335"
      "0 \<le> days_before_month (1900 + y) m" "days_before_month (1900 + y) m \<le> 335"
      using month_cases [OF r(1,2)] by (auto simp: days_before_month_def)
    moreover have "365 * 1900 + days_before_year y \<le> days_before_year (1900 + y)"
      using days_before_year_mono_aux [of y 1900] by (simp add: add.commute)
    ultimately show False by (simp add: day_of_civil_def)
  qed
  with r(3,4) valid_civil_of_day show ?thesis by blast
qed

lemma realDate_valid: "valid_civil y m d \<Longrightarrow> 99 < y \<Longrightarrow> realDate y m d = Some (civil_text y m d)"
  by (simp add: realDate_def date_utc_def valid_civil_def div_pos_pos_trivial civil_of_day_of_civil)

lemma minutesOf_range: "minutesOf h m mer = Some n \<Longrightarrow> 0 \<le> n \<and> n < 1440"
  by (auto simp: minutesOf_def Let_def split: if_splits option.splits)

lemma zone_of_word: "zone_of s = Some (b, z) \<Longrightarrow> z \<in> set ZONE_WORDS"
  by (auto simp: zone_of_def Let_def split: if_splits)

lemma text_nat_four: "list_all is_digit s \<Longrightarrow> length s \<le> 4 \<Longrightarrow> int (text_nat s) \<le> 9999"
proof -
  assume d: "list_all is_digit s" and l: "length s \<le> 4"
  have "text_nat s < 10 ^ length s" using text_nat_bound d by (simp add: list_all_iff)
  also have "(10::nat) ^ length s \<le> 10 ^ 4" using l by (intro power_increasing) simp_all
  finally show ?thesis by simp
qed

lemma three_numbers_digits:
  "three_numbers s = Some (a, x, b, y, c) \<Longrightarrow> list_all is_digit a \<and> list_all is_digit b \<and> list_all is_digit c"
  by (auto simp: three_numbers_def list_all_iff dest: set_takeWhileD split: list.splits if_splits)

lemma named_day_year: "named_day s = Some (n, d, y) \<Longrightarrow> length y = 4 \<and> list_all is_digit y"
  by (simp add: named_day_def Let_def split: option.splits if_splits)

lemma iso_order_day_year: "iso_order_day s = Some (y, m, d) \<Longrightarrow> length y = 4 \<and> list_all is_digit y"
  by (auto simp: iso_order_day_def dest: three_numbers_digits split: option.splits if_splits)

lemma us_order_day_year:
  "us_order_day s = Some (m, d, y) \<Longrightarrow> (length y = 2 \<or> length y = 4) \<and> list_all is_digit y"
  by (auto simp: us_order_day_def dest: three_numbers_digits split: option.splits if_splits)

definition real_day :: "string \<Rightarrow> bool" where
  "real_day s \<longleftrightarrow> (case iso_parts s of None \<Rightarrow> False | Some (y, m, d) \<Rightarrow> valid_civil y m d \<and> 100 \<le> y)"

lemma realDate_real_day: "realDate y m d = Some s \<Longrightarrow> 0 \<le> y \<Longrightarrow> y \<le> 9999 \<Longrightarrow> real_day s"
  using realDate_Some iso_parts_civil_text by (fastforce simp: real_day_def)

lemma date_part_real:
  assumes "date_part s = Some t"
  shows "real_day t"
proof -
  have four: "realDate (int (text_nat y)) m d = Some t \<Longrightarrow> real_day t"
    if "length y = 4" "list_all is_digit y" for y m d
    using that realDate_real_day text_nat_four by simp
  have two: "realDate (2000 + int (text_nat y)) m d = Some t \<Longrightarrow> real_day t"
    if "length y = 2" "list_all is_digit y" for y m d
    using that realDate_real_day [of "2000 + int (text_nat y)" m d t] text_nat_bound [of y]
    by (simp add: list_all_iff)
  consider (named) n d y where "named_day s = Some (n, d, y)"
    | (iso) y m d where "named_day s = None" "iso_order_day s = Some (y, m, d)"
    | (us) m d y where "named_day s = None" "iso_order_day s = None" "us_order_day s = Some (m, d, y)"
    using assms unfolding date_part_def Let_def by (auto split: option.splits)
  then show ?thesis
  proof cases
    case named
    with assms obtain m where "realDate (int (text_nat y)) m (int (text_nat d)) = Some t"
      by (auto simp: date_part_def split: option.splits)
    with four named_day_year [OF named] show ?thesis by blast
  next
    case iso
    with assms have "realDate (int (text_nat y)) (int (text_nat m)) (int (text_nat d)) = Some t"
      by (simp add: date_part_def)
    with four iso_order_day_year [OF iso(2)] show ?thesis by blast
  next
    case us
    with assms two four us_order_day_year [OF us(3)] show ?thesis
      by (auto simp: date_part_def split: if_splits)
  qed
qed

lemma parseTimestamp_shape:
  assumes "parseTimestamp text = Some t"
  shows "real_day (ts_date t)" "0 \<le> ts_minutesOfDay t" "ts_minutesOfDay t < 1440"
    "ts_asPrinted t = trim text" "ts_zone t = None \<or> ts_zone t \<in> Some ` set ZONE_WORDS"
  using assms unfolding parseTimestamp_def Let_def
  by (auto dest: date_part_real minutesOf_range zone_of_word split: if_splits option.splits prod.splits)

text \<open>The distance of two readings in one zone is the distance of the minutes they name; two readings
  with different labels have none, in either direction.\<close>

definition minute_number :: "timestamp \<Rightarrow> int" where
  "minute_number t =
     (case iso_day (ts_date t) of Some n \<Rightarrow> n * 1440 + ts_minutesOfDay t | None \<Rightarrow> 0)"

lemma absoluteMinutes_real: "real_day (ts_date t) \<Longrightarrow> absoluteMinutes t = minute_number t"
  by (auto simp: absoluteMinutes_def minute_number_def real_day_def iso_day_def date_utc_def valid_civil_def
      div_pos_pos_trivial split: option.splits)

lemma minutesLate_readings:
  assumes "parseTimestamp a = Some s" "parseTimestamp b = Some t"
  shows "ts_zone s = ts_zone t \<Longrightarrow> minutesLate s t = Comparable (minute_number s - minute_number t)"
    "(\<exists>n. minutesLate s t = Comparable n) \<longleftrightarrow> ts_zone s = ts_zone t"
  using assms [THEN parseTimestamp_shape(1)]
  by (auto simp: minutesLate_def absoluteMinutes_real)

end
