(* ===== verification/Reconcile.thy ===== *)
theory Reconcile
  imports MoneyText Number_Cell Json Printed_Times
begin

text \<open>
  Cross-document reconciliation: \<open>packages/extraction/src/reconcile.ts\<close>. A notice, or one line of a
  remittance, is checked against its own arithmetic, the invoice, the order, the delivery record and
  what was written about the appointment; every check appends findings. The lemmas show what a
  reading without a blocking finding guarantees, what a remittance line's verdict says of the lines
  that share its invoice, that nothing a message says reaches a letter, and exactly when the
  reconciliation of a notice throws instead of reporting; they are in \<open>Reconcile_Facts\<close>.

  The em dash and the quotation marks of the messages keep their Windows-1252 byte, and the minus
  sign \<open>U+2212\<close> is written \<open>CHR 0x96\<close>.
\<close>

section \<open>Findings and documents\<close>

datatype severity = Blocking | Warns | Supports_Dispute | Informs

record finding =
  fi_code :: string
  fi_severity :: severity
  fi_message :: string
  fi_fieldPath :: "string option"

definition LETTER_SAFE_FINDING_CODES :: "string list" where
  "LETTER_SAFE_FINDING_CODES =
     [''arrived_before_appointment'', ''delivery_confirms_shortage'', ''delivery_shows_full_receipt'',
      ''item_not_on_invoice'', ''line_arithmetic_differs'', ''unit_cost_differs_from_po'']"

datatype line_verdict = Line_Matches | Line_Differs | Not_Checkable

text \<open>The two columns of a remittance line are there on that line only: absent, \<open>null\<close> or cents.\<close>

record line_reconciliation =
  lr_sku :: string
  lr_reasonCode :: string
  lr_claimedCents :: "int option"
  lr_expectedShortageCents :: "int option"
  lr_deltaCents :: "int option"
  lr_verdict :: line_verdict
  lr_grossCents :: "int option option"
  lr_netCents :: "int option option"

record reconciliation =
  rc_lines :: "line_reconciliation list"
  rc_claimedTotalCents :: "int option"
  rc_lineSumCents :: "int option"
  rc_findings :: "finding list"
  rc_internallyConsistent :: bool

text \<open>A field object with the part that is read here, its value; the object itself may be missing.\<close>

record 'a field_value =
  fv_value :: "'a option"

type_synonym 'a field = "'a field_value option"

definition valueOf :: "'a field \<Rightarrow> 'a option" where
  "valueOf field = (case field of None \<Rightarrow> None | Some f \<Rightarrow> fv_value f)"

record notice_line =
  nl_sku_upc :: "string field"
  nl_qty_invoiced :: "int field"
  nl_qty_received :: "int field"
  nl_unit_cost :: "string field"
  nl_deduction_amount :: "string field"
  nl_reason_code :: "string field"

record deduction_notice =
  dn_po_number :: "string field"
  dn_lines :: "notice_line list"
  dn_deduction_total :: "string field"

record remittance_line =
  rl_invoice_number :: "string field"
  rl_gross_amount :: "string field"
  rl_deduction_amount :: "string field"
  rl_net_amount :: "string field"
  rl_reason_code :: "string field"

record invoice_item =
  il_sku_upc :: "string field"
  il_qty :: "int field"

record invoice_document =
  id_invoice_number :: "string field"
  id_invoice_total :: "string field"
  id_lines :: "invoice_item list"

record po_line =
  pl_sku_upc :: "string field"
  pl_qty_ordered :: "int field"
  pl_unit_cost :: "string field"

record shipment_document =
  sd_po_number :: "string field"
  sd_appointment_at :: "string field"
  sd_gate_check_in_at :: "string field"
  sd_appointment_reference :: "string field"
  sd_total_cartons_shipped :: "int field"
  sd_total_cartons_received :: "int field"
  sd_signature_present :: "bool field"

record commitment =
  cm_commitment_text :: "string field"
  cm_supersedes :: "string field"
  cm_establishes :: "string field"
  cm_waives_charge :: "bool field"

record correspondence =
  co_message_reference :: "string field"
  co_sender_organisation :: "string field"
  co_commitments :: "commitment list"

section \<open>Reading a field\<close>

definition error_text :: "failure \<Rightarrow> string" where
  "error_text e = (case e of MoneyError m \<Rightarrow> m | _ \<Rightarrow> ''unknown error'')"

definition unparseable :: "string \<Rightarrow> string \<Rightarrow> string \<Rightarrow> string \<Rightarrow> finding" where
  "unparseable text what why fieldPath =
     \<lparr>fi_code = ''unparseable_amount'', fi_severity = Blocking,
      fi_message = ''could not read '' @ quote text @ '' as '' @ what @ '': '' @ why,
      fi_fieldPath = Some fieldPath\<rparr>"

definition unitPrice :: "string field \<Rightarrow> string \<Rightarrow> unit_price option \<times> finding list" where
  "unitPrice field fieldPath =
     (case valueOf field of
        None \<Rightarrow> (None, [])
      | Some text \<Rightarrow>
          (case parseUnitPrice text of
             Inl e \<Rightarrow> (None, [unparseable text ''a unit price'' (error_text e) fieldPath])
           | Inr price \<Rightarrow>
               if up_units price < 0
               then (None, [unparseable text ''a unit price'' ''a unit price cannot be negative'' fieldPath])
               else (Some price, [])))"

definition money :: "string field \<Rightarrow> string \<Rightarrow> int option \<times> finding list" where
  "money field fieldPath =
     (case valueOf field of
        None \<Rightarrow> (None, [])
      | Some text \<Rightarrow>
          (case parseMoneyToCents text of
             Inl e \<Rightarrow> (None, [unparseable text ''an amount'' (error_text e) fieldPath])
           | Inr c \<Rightarrow> (Some c, [])))"

definition quietMoney :: "string field \<Rightarrow> int option" where
  "quietMoney field =
     (case valueOf field of
        None \<Rightarrow> None
      | Some text \<Rightarrow> (case parseMoneyToCents text of Inl e \<Rightarrow> None | Inr c \<Rightarrow> Some c))"

definition normaliseSku :: "string \<Rightarrow> string" where
  "normaliseSku sku = filter (\<lambda>c. is_lower c \<or> is_digit c) (to_lower sku)"

definition sameReference :: "string \<Rightarrow> string \<Rightarrow> bool" where
  "sameReference a b \<longleftrightarrow> to_lower (trim a) = to_lower (trim b)"

definition or_else :: "'a option \<Rightarrow> 'a \<Rightarrow> 'a" where
  "or_else v d = (case v of None \<Rightarrow> d | Some x \<Rightarrow> x)"

definition finding_at :: "string \<Rightarrow> severity \<Rightarrow> string \<Rightarrow> string \<Rightarrow> finding" where
  "finding_at code severity message path =
     \<lparr>fi_code = code, fi_severity = severity, fi_message = message, fi_fieldPath = Some path\<rparr>"

section \<open>The delivery record and the messages\<close>

definition superseded_finding :: "shipment_document \<Rightarrow> correspondence \<Rightarrow> commitment \<Rightarrow> finding" where
  "superseded_finding shipment message commitment =
     finding_at ''appointment_superseded'' Supports_Dispute
       (or_else (valueOf (co_sender_organisation message)) ''the customer'' @ '' confirmed in writing ('' @
        or_else (valueOf (co_message_reference message)) ''in a message on this case'' @ '') that '' @
        or_else (valueOf (cm_establishes commitment)) ''a later appointment'' @ '' replaced '' @
        or_else (valueOf (cm_supersedes commitment)) ''the earlier appointment'' @
        (case valueOf (sd_appointment_reference shipment) of
           None \<Rightarrow> [] | Some cited \<Rightarrow> ''; the delivery record cites '' @ cited) @
        '': '' @ [CHR 0x93] @ or_else (valueOf (cm_commitment_text commitment)) [] @ [CHR 0x94])
       ''correspondence.commitments''"

definition supersessions :: "shipment_document \<Rightarrow> correspondence list \<Rightarrow> finding list" where
  "supersessions shipment messages =
     concat (map (\<lambda>message.
       map (superseded_finding shipment message)
         (filter (\<lambda>c. \<not> (valueOf (cm_supersedes c) = None \<and> valueOf (cm_establishes c) = None))
           (co_commitments message))) messages)"

definition lateness :: "timestamp \<Rightarrow> timestamp \<Rightarrow> finding" where
  "lateness checkIn appointment =
     (case minutesLate checkIn appointment of
        Not_Comparable why \<Rightarrow>
          finding_at ''appointment_times_not_comparable'' Informs (''lateness was not checked: '' @ why)
            ''shipment.gate_check_in_at''
      | Comparable late \<Rightarrow>
          if late \<le> 0
          then finding_at ''arrived_before_appointment'' Supports_Dispute
            (''gate check-in was '' @ int_text \<bar>late\<bar> @ '' minutes before the confirmed appointment ('' @
             ts_asPrinted checkIn @ '' against '' @ ts_asPrinted appointment @ '')'')
            ''shipment.gate_check_in_at''
          else finding_at ''arrived_after_appointment'' Warns
            (''gate check-in was '' @ int_text late @ '' minutes after the confirmed appointment ('' @
             ts_asPrinted checkIn @ '' against '' @ ts_asPrinted appointment @
             ''); check the agreement'' @ [CHR 0x92] @
             ''s grace window and whether the delay was carrier-caused before disputing'')
            ''shipment.gate_check_in_at'')"

definition reconcileAppointment :: "shipment_document option \<Rightarrow> correspondence list \<Rightarrow> finding list" where
  "reconcileAppointment shipment messages =
     (case shipment of
        None \<Rightarrow> []
      | Some s \<Rightarrow>
          (case (valueOf (sd_gate_check_in_at s), valueOf (sd_appointment_at s)) of
             (Some checkInText, Some appointmentText) \<Rightarrow>
               (case (parseTimestamp checkInText, parseTimestamp appointmentText) of
                  (Some checkIn, Some appointment) \<Rightarrow>
                    supersessions s messages @ [lateness checkIn appointment]
                | _ \<Rightarrow>
                    [finding_at ''appointment_times_unreadable'' Informs
                       (''could not read the appointment ('' @ appointmentText @
                        '') or the gate check-in ('' @ checkInText @
                        '') as a date and time, so lateness was not checked'')
                       ''shipment.gate_check_in_at''])
           | _ \<Rightarrow> []))"

definition reconcileWaivers :: "correspondence list \<Rightarrow> finding list" where
  "reconcileWaivers messages =
     concat (map (\<lambda>message.
       map (\<lambda>c. finding_at ''charge_waived_in_writing'' Supports_Dispute
              (or_else (valueOf (co_sender_organisation message)) ''the customer'' @
               '' stated in writing that a charge would not apply: '' @ [CHR 0x93] @
               or_else (valueOf (cm_commitment_text c)) [] @ [CHR 0x94])
              ''correspondence.commitments'')
         (filter (\<lambda>c. valueOf (cm_waives_charge c) = Some True) (co_commitments message))) messages)"

definition carton_findings :: "shipment_document \<Rightarrow> finding list" where
  "carton_findings shipment =
     (case (valueOf (sd_total_cartons_shipped shipment), valueOf (sd_total_cartons_received shipment)) of
        (Some shipped, Some received) \<Rightarrow>
          (if received < shipped
           then [finding_at ''delivery_confirms_shortage'' Supports_Dispute
             (''the delivery document shows '' @ int_text shipped @ '' shipped and '' @ int_text received @
              '' signed for: a '' @ int_text (round_double (shipped - received)) @ ''-carton shortage at the dock'')
             ''shipment.total_cartons_received'']
           else []) @
          (if received = shipped
           then [finding_at ''delivery_shows_full_receipt'' Supports_Dispute
             (''the delivery document shows all '' @ int_text shipped @
              '' cartons signed for, contradicting a shortage deduction'')
             ''shipment.total_cartons_received'']
           else [])
      | _ \<Rightarrow> [])"

definition reconcileShipment :: "shipment_document option \<Rightarrow> string option \<Rightarrow> finding list" where
  "reconcileShipment shipment claimedPo =
     (case shipment of
        None \<Rightarrow> []
      | Some s \<Rightarrow>
          (if or_else (valueOf (sd_signature_present s)) False then []
           else [finding_at ''delivery_document_unsigned'' Blocking
             (''the delivery document shows no signature or stamp '' @ [CHR 0x97] @
              '' most retailers reject an unsigned delivery report as evidence'')
             ''shipment.signature_present'']) @
          carton_findings s @
          (case (claimedPo, valueOf (sd_po_number s)) of
             (Some po, Some shipmentPo) \<Rightarrow>
               if sameReference po shipmentPo then []
               else [finding_at ''shipment_po_mismatch'' Warns
                 (''the notice cites PO '' @ po @ '' but the delivery document cites '' @ shipmentPo @
                  '': check this evidence belongs to this claim'')
                 ''shipment.po_number'']
           | _ \<Rightarrow> []))"

section \<open>A notice\<close>

definition line_path :: "nat \<Rightarrow> string" where
  "line_path index = ''lines['' @ nat_text index @ '']''"

definition quantity_gap :: "int \<Rightarrow> int \<Rightarrow> int" where
  "quantity_gap qtyInvoiced qtyReceived = \<bar>round_double (qtyInvoiced - qtyReceived)\<bar>"

definition contradiction ::
  "string \<Rightarrow> string \<Rightarrow> int option \<Rightarrow> int option \<Rightarrow> int option \<Rightarrow> unit_price option \<Rightarrow> finding list" where
  "contradiction sku path claimed qtyInvoiced qtyReceived unitCost =
     (case (qtyInvoiced, qtyReceived, unitCost, claimed) of
        (Some qi, Some qr, Some cost, Some amount) \<Rightarrow>
          if up_units cost \<le> 0 then []
          else (case unitsAtPrice amount cost of
             None \<Rightarrow> []
           | Some implied \<Rightarrow>
               if implied \<noteq> quantity_gap qi qr \<and> \<not> withinACentAt (Whole (quantity_gap qi qr)) cost amount
               then [finding_at ''quantities_contradict_the_amount'' Blocking
                 (sku @ '': '' @ formatCents amount @ '' deducted at '' @ formatUnitPrice cost @ '' each is '' @
                  int_text implied @ '' unit'' @ (if implied = 1 then [] else ''s'') @ '', but the line says '' @
                  int_text qi @ '' invoiced and '' @ int_text qr @ '' received, a gap of '' @
                  int_text (quantity_gap qi qr) @
                  ''. The quantities and the amount on this line cannot both be right'') path]
               else [])
      | _ \<Rightarrow> [])"

definition line_arithmetic ::
  "string \<Rightarrow> string \<Rightarrow> int option \<Rightarrow> int option \<Rightarrow> int option \<Rightarrow> unit_price option \<Rightarrow>
     (int option \<times> line_verdict \<times> finding list) res" where
  "line_arithmetic sku path claimed qtyInvoiced qtyReceived unitCost =
     (case (qtyInvoiced, qtyReceived, unitCost) of
        (Some qi, Some qr, Some cost) \<Rightarrow>
          if qr > qi
          then Inr (None, Not_Checkable,
            [finding_at ''overage_not_shortage'' Warns
              (sku @ '': the retailer received '' @ int_text qr @ '' of '' @ int_text qi @ '' invoiced '' @
               [CHR 0x97] @ '' that is an overage, so a shortage claim does not apply'') path])
          else bind_res (shortageCentsAt (Whole qi) (Whole qr) cost) (\<lambda>expected.
            case claimed of
              None \<Rightarrow> Inr (Some expected, Not_Checkable, [])
            | Some amount \<Rightarrow>
                if expected = amount then Inr (Some expected, Line_Matches, [])
                else Inr (Some expected, Line_Differs,
                  [finding_at ''line_arithmetic_differs''
                    (if amount > expected then Supports_Dispute else Warns)
                    (sku @ '': ('' @ int_text qi @ '' invoiced '' @ [CHR 0x96] @ '' '' @ int_text qr @
                     '' received) '' @ [CHR 0xD7] @ '' '' @ formatUnitPrice cost @ '' = '' @
                     formatCents expected @ '', but '' @ formatCents amount @ '' was deducted'') path]))
      | _ \<Rightarrow> Inr (None, Not_Checkable, []))"

definition notice_line_step :: "nat \<Rightarrow> notice_line \<Rightarrow> (line_reconciliation \<times> finding list) res" where
  "notice_line_step index line =
     (let path = line_path index;
          sku = or_else (valueOf (nl_sku_upc line)) (''line '' @ nat_text (index + 1));
          (claimed, f1) = money (nl_deduction_amount line) (path @ ''.deduction_amount'');
          qi = valueOf (nl_qty_invoiced line);
          qr = valueOf (nl_qty_received line);
          (unitCost, f2) = unitPrice (nl_unit_cost line) (path @ ''.unit_cost'')
      in bind_res (line_arithmetic sku path claimed qi qr unitCost) (\<lambda>(expected, verdict, f4).
         Inr (\<lparr>lr_sku = sku, lr_reasonCode = or_else (valueOf (nl_reason_code line)) [],
               lr_claimedCents = claimed, lr_expectedShortageCents = expected,
               lr_deltaCents = (case (claimed, expected) of
                  (Some c, Some e) \<Rightarrow> Some (round_double (c - e)) | _ \<Rightarrow> None),
               lr_verdict = verdict, lr_grossCents = None, lr_netCents = None\<rparr>,
              f1 @ f2 @ contradiction sku path claimed qi qr unitCost @ f4)))"

fun notice_lines_from :: "nat \<Rightarrow> notice_line list \<Rightarrow> (line_reconciliation \<times> finding list) list res" where
  "notice_lines_from index [] = Inr []"
| "notice_lines_from index (line # lines) =
     bind_res (notice_line_step index line) (\<lambda>r.
     bind_res (notice_lines_from (index + 1) lines) (\<lambda>rs. Inr (r # rs)))"

text \<open>\<open>new Map(...)\<close> over the lines with an item: of two lines with one key the later one stays.\<close>

definition by_sku :: "('l \<Rightarrow> string field) \<Rightarrow> 'l list \<Rightarrow> string \<Rightarrow> 'l option" where
  "by_sku item lines sku =
     map_of (rev (concat (map (\<lambda>l. case valueOf (item l) of
        None \<Rightarrow> [] | Some s \<Rightarrow> [(normaliseSku s, l)]) lines))) (normaliseSku sku)"

definition invoice_findings :: "invoice_document \<Rightarrow> nat \<Rightarrow> notice_line \<Rightarrow> finding list" where
  "invoice_findings invoice index line =
     (case valueOf (nl_sku_upc line) of
        None \<Rightarrow> []
      | Some sku \<Rightarrow>
          (case by_sku il_sku_upc (id_lines invoice) sku of
             None \<Rightarrow> [finding_at ''item_not_on_invoice'' Supports_Dispute
               (sku @ '' was deducted but does not appear on the invoice'') (line_path index @ ''.sku_upc'')]
           | Some l \<Rightarrow>
               (case (valueOf (nl_qty_invoiced line), valueOf (il_qty l)) of
                  (Some n, Some i) \<Rightarrow>
                    if n \<noteq> i then [finding_at ''invoiced_quantity_differs'' Warns
                      (sku @ '': the notice says '' @ int_text n @ '' invoiced, the invoice says '' @ int_text i)
                      (line_path index @ ''.qty_invoiced'')] else []
                | _ \<Rightarrow> [])))"

definition po_findings :: "po_line list \<Rightarrow> nat \<Rightarrow> notice_line \<Rightarrow> finding list" where
  "po_findings po index line =
     (case valueOf (nl_sku_upc line) of
        None \<Rightarrow> []
      | Some sku \<Rightarrow>
          (case by_sku pl_sku_upc po sku of
             None \<Rightarrow> []
           | Some l \<Rightarrow>
               let (noticeCost, f1) = unitPrice (nl_unit_cost line) (line_path index @ ''.unit_cost'');
                   (poCost, f2) = unitPrice (pl_unit_cost l) ''po.lines.unit_cost''
               in f1 @ f2 @
                 (case (noticeCost, poCost) of
                    (Some n, Some p) \<Rightarrow>
                      if compareUnitPrices n p \<noteq> 0
                      then [finding_at ''unit_cost_differs_from_po'' Supports_Dispute
                        (sku @ '': the deduction uses '' @ formatUnitPrice n @ '' but the PO agreed '' @ formatUnitPrice p)
                        (line_path index @ ''.unit_cost'')] else []
                  | _ \<Rightarrow> []) @
                 (case (valueOf (nl_qty_invoiced line), valueOf (pl_qty_ordered l)) of
                    (Some n, Some ordered) \<Rightarrow>
                      if n > ordered then [finding_at ''invoiced_above_po_quantity'' Warns
                        (sku @ '': '' @ int_text n @ '' invoiced against a PO for '' @ int_text ordered)
                        (line_path index @ ''.qty_invoiced'')] else []
                  | _ \<Rightarrow> [])))"

definition each_line :: "(nat \<Rightarrow> notice_line \<Rightarrow> finding list) \<Rightarrow> notice_line list \<Rightarrow> finding list" where
  "each_line f lines = concat (map (\<lambda>(i, l). f i l) (enumerate 0 lines))"

definition is_blocking :: "finding \<Rightarrow> bool" where
  "is_blocking f \<longleftrightarrow> fi_severity f = Blocking"

definition total_finding :: "int option \<Rightarrow> int option \<Rightarrow> finding list" where
  "total_finding lineSum claimedTotal =
     (case (lineSum, claimedTotal) of
        (Some s, Some t) \<Rightarrow>
          if s \<noteq> t then [finding_at ''total_does_not_match_lines'' Blocking
            (''the notice's lines sum to '' @ formatCents s @ '' but its total says '' @ formatCents t)
            ''deduction_total''] else []
      | _ \<Rightarrow> [])"

definition line_sum :: "line_reconciliation list \<Rightarrow> int option res" where
  "line_sum lines =
     (let claimedAmounts = List.map_filter lr_claimedCents lines
      in if length claimedAmounts = length lines then bind_res (sumCents claimedAmounts) (\<lambda>s. Inr (Some s))
         else Inr None)"

definition reconcileNotice ::
  "deduction_notice \<Rightarrow> invoice_document option \<Rightarrow> po_line list option \<Rightarrow> shipment_document option \<Rightarrow>
     correspondence list \<Rightarrow> reconciliation res" where
  "reconcileNotice notice invoice po shipment messages =
     bind_res (notice_lines_from 0 (dn_lines notice)) (\<lambda>rs.
     bind_res (line_sum (map fst rs)) (\<lambda>lineSum.
       let (claimedTotal, ft) = money (dn_deduction_total notice) ''deduction_total'';
           findings =
             concat (map snd rs) @ ft @ total_finding lineSum claimedTotal @
             (case invoice of None \<Rightarrow> [] | Some i \<Rightarrow> each_line (invoice_findings i) (dn_lines notice)) @
             (case po of None \<Rightarrow> [] | Some p \<Rightarrow> each_line (po_findings p) (dn_lines notice)) @
             reconcileShipment shipment (valueOf (dn_po_number notice)) @
             reconcileAppointment shipment messages @ reconcileWaivers messages
       in Inr \<lparr>rc_lines = map fst rs, rc_claimedTotalCents = claimedTotal, rc_lineSumCents = lineSum,
               rc_findings = findings,
               rc_internallyConsistent = \<not> list_ex is_blocking findings\<rparr>))"

section \<open>One line of a remittance\<close>

definition printsDash :: "string field \<Rightarrow> bool" where
  "printsDash field = (case valueOf field of None \<Rightarrow> False | Some text \<Rightarrow> printsNoAmount text)"

definition shares_invoice :: "string \<Rightarrow> int \<Rightarrow> int \<Rightarrow> remittance_line \<Rightarrow> bool" where
  "shares_invoice invoice gross net other \<longleftrightarrow>
     (case valueOf (rl_invoice_number other) of None \<Rightarrow> False | Some theirs \<Rightarrow> sameReference theirs invoice) \<and>
     quietMoney (rl_gross_amount other) = Some gross \<and> quietMoney (rl_net_amount other) = Some net"

definition sharingInvoice :: "remittance_line list \<Rightarrow> nat \<Rightarrow> int \<Rightarrow> int \<Rightarrow> nat list" where
  "sharingInvoice lines index gross net =
     (if index < length lines
      then (case valueOf (rl_invoice_number (lines ! index)) of
              None \<Rightarrow> []
            | Some invoice \<Rightarrow>
                filter (\<lambda>i. i \<noteq> index \<and> shares_invoice invoice gross net (lines ! i)) [0..<length lines])
      else [])"

definition deduction_or_zero :: "remittance_line \<Rightarrow> int option" where
  "deduction_or_zero line =
     (if printsDash (rl_deduction_amount line) then Some 0 else quietMoney (rl_deduction_amount line))"

definition sharedDeductions :: "remittance_line list \<Rightarrow> nat list \<Rightarrow> int option res" where
  "sharedDeductions lines indices =
     (let amounts = map (\<lambda>i. deduction_or_zero (lines ! i)) indices
      in if None \<in> set amounts then Inr None
         else bind_res (sumCents (map the amounts)) (\<lambda>s. Inr (Some s)))"

definition dash_finding :: "string \<Rightarrow> string \<Rightarrow> bool \<Rightarrow> int \<Rightarrow> int \<Rightarrow> int \<Rightarrow> finding list" where
  "dash_finding label path dash gross net implied =
     (if dash \<and> implied > 0
      then [finding_at ''remittance_line_dash_but_short_paid'' Warns
        (label @ '': the line prints a dash for its deduction, but '' @ formatCents gross @ '' gross less '' @
         formatCents net @ '' paid is '' @ formatCents implied @ '' withheld; this case is the subtraction'')
        (path @ ''.deduction_amount'')]
      else [])"

definition shared_verdict ::
  "string \<Rightarrow> string \<Rightarrow> nat \<Rightarrow> int \<Rightarrow> int \<Rightarrow> int \<Rightarrow> int \<Rightarrow> int option \<Rightarrow> line_verdict \<times> finding list" where
  "shared_verdict label path sharing gross net implied printed shared =
     (if shared = Some implied
      then (Line_Matches,
        [finding_at ''remittance_invoice_shared'' Informs
          (label @ '': '' @ nat_text sharing @ '' lines of this remittance share the invoice's '' @
           formatCents gross @ '' gross and '' @ formatCents net @ '' paid, and their deductions add up to the '' @
           formatCents implied @ '' withheld; this case is the '' @ formatCents printed @ '' of it'') path])
      else (Line_Differs,
        [finding_at ''remittance_line_does_not_add_up'' Blocking
          (label @ '': '' @ formatCents gross @ '' gross less '' @ formatCents net @ '' paid is '' @
           formatCents implied @ '' withheld, but the '' @ nat_text sharing @ '' lines sharing this invoice '' @
           (case shared of
              None \<Rightarrow> ''do not all print a readable deduction''
            | Some s \<Rightarrow> ''deduct '' @ formatCents s @ '' between them'') @
           ''. The lines and their own columns cannot all be right'') path]))"

definition own_verdict ::
  "string \<Rightarrow> string \<Rightarrow> int \<Rightarrow> int \<Rightarrow> int \<Rightarrow> int \<Rightarrow> line_verdict \<times> finding list" where
  "own_verdict label path gross net implied printed =
     (if printed = implied then (Line_Matches, [])
      else (Line_Differs,
        [finding_at ''remittance_line_does_not_add_up'' Blocking
          (label @ '': '' @ formatCents gross @ '' gross less '' @ formatCents net @ '' paid is '' @
           formatCents implied @ '' withheld, but the line says '' @ formatCents printed @
           '' was deducted. The line and its own columns cannot both be right'') path]))"

text \<open>What the two columns say was withheld, with the verdict on the printed deduction beside it.\<close>

definition column_check ::
  "remittance_line list \<Rightarrow> nat \<Rightarrow> string \<Rightarrow> bool \<Rightarrow> int option \<Rightarrow> int option \<Rightarrow> int option \<Rightarrow>
     (int option \<times> line_verdict \<times> finding list) res" where
  "column_check lines index label dash printed gross net =
     (case (gross, net) of
        (Some g, Some n) \<Rightarrow>
          bind_res (subCents g n) (\<lambda>implied.
            let path = line_path index;
                fd = dash_finding label path dash g n implied;
                siblings = sharingInvoice lines index g n
            in case printed of
                 None \<Rightarrow> Inr (Some implied, Not_Checkable, fd)
               | Some p \<Rightarrow>
                   if siblings \<noteq> []
                   then bind_res (sharedDeductions lines (index # siblings)) (\<lambda>shared.
                     case shared_verdict label path (length siblings + 1) g n implied p shared of
                       (verdict, fv) \<Rightarrow> Inr (Some implied, verdict, fd @ fv))
                   else (case own_verdict label path g n implied p of
                       (verdict, fv) \<Rightarrow> Inr (Some implied, verdict, fd @ fv)))
      | _ \<Rightarrow> Inr (None, Not_Checkable, []))"

definition invoice_mismatch :: "string option \<Rightarrow> string option \<Rightarrow> string \<Rightarrow> finding option" where
  "invoice_mismatch invoiceNumber billedNumber path =
     (case (invoiceNumber, billedNumber) of
        (Some ours, Some billed) \<Rightarrow>
          if sameReference ours billed then None
          else Some (finding_at ''invoice_number_mismatch'' Warns
            (''the remittance line pays invoice '' @ ours @ '' but the invoice on this case is '' @ billed @
             '': check this evidence belongs to this claim'') (path @ ''.invoice_number''))
      | _ \<Rightarrow> None)"

definition remittance_invoice_findings ::
  "invoice_document option \<Rightarrow> string option \<Rightarrow> string \<Rightarrow> string \<Rightarrow> int option \<Rightarrow> finding list" where
  "remittance_invoice_findings invoice invoiceNumber label path gross =
     (case invoice of
        None \<Rightarrow> []
      | Some i \<Rightarrow>
          (case invoice_mismatch invoiceNumber (valueOf (id_invoice_number i)) path of
             Some f \<Rightarrow> [f]
           | None \<Rightarrow>
               let (total, ft) = money (id_invoice_total i) ''invoice.invoice_total''
               in ft @ (case (gross, total) of
                    (Some g, Some t) \<Rightarrow>
                      if g \<noteq> t then [finding_at ''gross_differs_from_invoice'' Warns
                        (label @ '': the remittance puts the invoice at '' @ formatCents g @
                         '' gross, but the invoice totals '' @ formatCents t @ '' '' @ [CHR 0x97] @
                         '' a difference the deduction on this line does not account for'')
                        (path @ ''.gross_amount'')] else []
                  | _ \<Rightarrow> [])))"

definition own_line ::
  "remittance_line list \<Rightarrow> nat \<Rightarrow> remittance_line \<Rightarrow> invoice_document option \<Rightarrow>
     (line_reconciliation \<times> finding list) res" where
  "own_line lines index line invoice =
     (let path = line_path index;
          invoiceNumber = valueOf (rl_invoice_number line);
          label = or_else invoiceNumber (''line '' @ nat_text (index + 1));
          dash = printsDash (rl_deduction_amount line);
          (printed, f1) =
            (if dash then (None, []) else money (rl_deduction_amount line) (path @ ''.deduction_amount''));
          (gross, f2) = money (rl_gross_amount line) (path @ ''.gross_amount'');
          (net, f3) = money (rl_net_amount line) (path @ ''.net_amount'')
      in bind_res (column_check lines index label dash printed gross net) (\<lambda>(implied, verdict, fc).
         let claimed = (case printed of None \<Rightarrow> implied | Some p \<Rightarrow> Some p);
             expected = (if verdict = Line_Matches \<and> printed \<noteq> None then printed else implied)
         in bind_res (case (printed, expected) of
                (Some p, Some e) \<Rightarrow> bind_res (subCents p e) (\<lambda>d. Inr (Some d)) | _ \<Rightarrow> Inr None) (\<lambda>delta.
            Inr (\<lparr>lr_sku = label, lr_reasonCode = or_else (valueOf (rl_reason_code line)) [],
                  lr_claimedCents = claimed, lr_expectedShortageCents = expected, lr_deltaCents = delta,
                  lr_verdict = verdict, lr_grossCents = Some gross, lr_netCents = Some net\<rparr>,
                 f1 @ f2 @ f3 @ fc @ remittance_invoice_findings invoice invoiceNumber label path gross))))"

definition line_not_found :: finding where
  "line_not_found =
     \<lparr>fi_code = ''remittance_line_not_found'', fi_severity = Blocking,
      fi_message = ''no line on the remittance is the one this case was opened from, so there is no '' @
        ''short-pay to reconcile; the evidence below was still checked'',
      fi_fieldPath = None\<rparr>"

definition reconcileRemittanceLine ::
  "(remittance_line list \<times> nat) option \<Rightarrow> invoice_document option \<Rightarrow> shipment_document option \<Rightarrow>
     correspondence list \<Rightarrow> reconciliation res" where
  "reconcileRemittanceLine line invoice shipment messages =
     bind_res
       (case line of
          None \<Rightarrow> Inr ([], [line_not_found])
        | Some (lines, index) \<Rightarrow>
            if index < length lines
            then bind_res (own_line lines index (lines ! index) invoice) (\<lambda>(r, fs). Inr ([r], fs))
            else Inr ([], [line_not_found]))
       (\<lambda>(rs, fs).
         let findings = fs @ reconcileShipment shipment None @ reconcileAppointment shipment messages @
               reconcileWaivers messages;
             total = (case rs of [] \<Rightarrow> None | r # _ \<Rightarrow> lr_claimedCents r)
         in Inr \<lparr>rc_lines = rs, rc_claimedTotalCents = total, rc_lineSumCents = total,
                 rc_findings = findings, rc_internallyConsistent = \<not> list_ex is_blocking findings\<rparr>)"

definition blockingFindings :: "reconciliation \<Rightarrow> finding list" where
  "blockingFindings r = filter is_blocking (rc_findings r)"

definition disputeSupport :: "reconciliation \<Rightarrow> finding list" where
  "disputeSupport r = filter (\<lambda>f. fi_severity f = Supports_Dispute) (rc_findings r)"

text \<open>The findings a packet's letter may print: the filter of \<open>apps/web/app/cases/[id]/packet/route.ts\<close>.\<close>

definition letter_findings :: "finding list \<Rightarrow> finding list" where
  "letter_findings findings =
     filter (\<lambda>f. fi_severity f = Supports_Dispute \<and> fi_code f \<in> set LETTER_SAFE_FINDING_CODES) findings"

end
