(* ===== verification/Reconcile_Facts.thy ===== *)
theory Reconcile_Facts
  imports Reconcile
begin

text \<open>
  What a reconciliation (\<open>Reconcile\<close>) shows: when a notice has nothing blocking, when its
  reconciliation throws, what the verdict on a remittance line means, and that the findings a letter
  may print are the same whatever the messages on the case say.
\<close>

section \<open>Fields\<close>

definition price_of :: "string field \<Rightarrow> unit_price option" where
  "price_of field =
     (case valueOf field of
        None \<Rightarrow> None
      | Some text \<Rightarrow>
          (case parseUnitPrice text of
             Inl e \<Rightarrow> None | Inr price \<Rightarrow> if up_units price < 0 then None else Some price))"

text \<open>A text that is there and cannot be read as what it should be.\<close>

definition amount_unread :: "string field \<Rightarrow> bool" where
  "amount_unread field \<longleftrightarrow> valueOf field \<noteq> None \<and> quietMoney field = None"

definition price_unread :: "string field \<Rightarrow> bool" where
  "price_unread field \<longleftrightarrow> valueOf field \<noteq> None \<and> price_of field = None"

lemma blocking_code [simp]:
  "is_blocking (finding_at code severity message path) \<longleftrightarrow> severity = Blocking"
  "is_blocking (unparseable text what why path)"
  by (simp_all add: is_blocking_def finding_at_def unparseable_def)

lemma money_value [simp]: "fst (money field path) = quietMoney field"
  by (simp add: money_def quietMoney_def split: option.splits sum.splits)

lemma money_pair:
  obtains fs where "money field path = (quietMoney field, fs)"
  by (metis money_value prod.collapse)

lemma money_blocking [simp]: "list_ex is_blocking (snd (money field path)) \<longleftrightarrow> amount_unread field"
  by (auto simp: money_def amount_unread_def quietMoney_def split: option.splits sum.splits)

lemma unitPrice_value [simp]: "fst (unitPrice field path) = price_of field"
  by (simp add: unitPrice_def price_of_def split: option.splits sum.splits)

lemma unitPrice_blocking [simp]: "list_ex is_blocking (snd (unitPrice field path)) \<longleftrightarrow> price_unread field"
  by (auto simp: unitPrice_def price_unread_def price_of_def split: option.splits sum.splits)

section \<open>Findings that never block, and findings a letter never prints\<close>

lemma supersessions_not_blocking: "\<not> list_ex is_blocking (supersessions s ms)"
  by (auto simp: list_ex_iff supersessions_def superseded_finding_def)

lemma appointment_not_blocking [simp]: "\<not> list_ex is_blocking (reconcileAppointment s ms)"
  using supersessions_not_blocking
  by (auto simp: reconcileAppointment_def lateness_def list_ex_iff split: option.splits comparison.splits)

lemma waivers_not_blocking [simp]: "\<not> list_ex is_blocking (reconcileWaivers ms)"
  by (auto simp: reconcileWaivers_def list_ex_iff)

lemma cartons_not_blocking [simp]: "\<not> list_ex is_blocking (carton_findings s)"
  by (simp add: carton_findings_def split: option.splits)

lemma invoice_not_blocking [simp]: "\<not> list_ex is_blocking (invoice_findings i k l)"
  by (simp add: invoice_findings_def split: option.splits)

lemma shipment_blocking:
  "list_ex is_blocking (reconcileShipment shipment po) \<longleftrightarrow>
     (\<exists>s. shipment = Some s \<and> valueOf (sd_signature_present s) \<noteq> Some True)"
  by (auto simp: reconcileShipment_def or_else_def split: option.splits)

lemma letter_findings_append [simp]: "letter_findings (xs @ ys) = letter_findings xs @ letter_findings ys"
  by (simp add: letter_findings_def)

lemma superseded_not_printed: "letter_findings (supersessions s ms) = []"
  by (auto simp: letter_findings_def filter_empty_conv supersessions_def superseded_finding_def finding_at_def
      LETTER_SAFE_FINDING_CODES_def)

lemma waivers_not_printed: "letter_findings (reconcileWaivers ms) = []"
  by (auto simp: letter_findings_def filter_empty_conv reconcileWaivers_def finding_at_def
      LETTER_SAFE_FINDING_CODES_def)

lemma appointment_printed: "letter_findings (reconcileAppointment s ms) = letter_findings (reconcileAppointment s [])"
proof -
  have n: "supersessions x [] = []" for x by (simp add: supersessions_def)
  show ?thesis
    unfolding reconcileAppointment_def n
    by (simp add: superseded_not_printed split: option.splits)
qed

section \<open>The lines of a notice\<close>

definition contradicts :: "notice_line \<Rightarrow> bool" where
  "contradicts line \<longleftrightarrow>
     (\<exists>qi qr cost amount k.
        valueOf (nl_qty_invoiced line) = Some qi \<and> valueOf (nl_qty_received line) = Some qr \<and>
        price_of (nl_unit_cost line) = Some cost \<and> quietMoney (nl_deduction_amount line) = Some amount \<and>
        0 < up_units cost \<and> safe_int k \<and> amount * 10 ^ up_places cost = k * (up_units cost * 100) \<and>
        k \<noteq> quantity_gap qi qr \<and> \<not> withinACentAt (Whole (quantity_gap qi qr)) cost amount)"

lemma unitsAtPrice_Some:
  "0 < up_units cost \<Longrightarrow>
     unitsAtPrice amount cost = Some k \<longleftrightarrow> safe_int k \<and> amount * 10 ^ up_places cost = k * (up_units cost * 100)"
  by (auto simp: unitsAtPrice_def Let_def)

lemma contradiction_blocking:
  "list_ex is_blocking (contradiction sku path (quietMoney (nl_deduction_amount line)) (valueOf (nl_qty_invoiced line))
     (valueOf (nl_qty_received line)) (price_of (nl_unit_cost line))) \<longleftrightarrow> contradicts line"
proof -
  have split: "(list_ex is_blocking (case unitsAtPrice amount cost of None \<Rightarrow> [] | Some k \<Rightarrow> if P k then [F k] else [])) =
      (\<exists>k. unitsAtPrice amount cost = Some k \<and> P k)" if "\<And>k. is_blocking (F k)" for amount cost P F
    using that by (cases "unitsAtPrice amount cost") simp_all
  show ?thesis
    unfolding contradiction_def contradicts_def
    by (auto simp: split unitsAtPrice_Some not_le split: option.split)
qed

lemma arithmetic_not_blocking:
  "line_arithmetic sku path claimed qi qr cost = Inr (expected, verdict, fs) \<Longrightarrow> \<not> list_ex is_blocking fs"
  by (auto simp: line_arithmetic_def bind_res_Inr_iff split: option.splits if_splits)

lemma notice_line_step_facts:
  assumes "notice_line_step k line = Inr (x, fs)"
  shows "lr_claimedCents x = quietMoney (nl_deduction_amount line)"
    "list_ex is_blocking fs \<longleftrightarrow>
       amount_unread (nl_deduction_amount line) \<or> price_unread (nl_unit_cost line) \<or> contradicts line"
proof -
  let ?sku = "or_else (valueOf (nl_sku_upc line)) (''line '' @ nat_text (k + 1))" and ?path = "line_path k"
  obtain f1 f2 where m: "money (nl_deduction_amount line) (?path @ ''.deduction_amount'') =
      (quietMoney (nl_deduction_amount line), f1)"
    and u: "unitPrice (nl_unit_cost line) (?path @ ''.unit_cost'') = (price_of (nl_unit_cost line), f2)"
    by (metis money_value unitPrice_value prod.collapse)
  from assms obtain e v f4 where
    a: "line_arithmetic ?sku ?path (quietMoney (nl_deduction_amount line)) (valueOf (nl_qty_invoiced line))
      (valueOf (nl_qty_received line)) (price_of (nl_unit_cost line)) = Inr (e, v, f4)"
    and x: "lr_claimedCents x = quietMoney (nl_deduction_amount line)"
    and fs: "fs = f1 @ f2 @ contradiction ?sku ?path (quietMoney (nl_deduction_amount line))
      (valueOf (nl_qty_invoiced line)) (valueOf (nl_qty_received line)) (price_of (nl_unit_cost line)) @ f4"
    unfolding notice_line_step_def Let_def m u by (auto simp: bind_res_Inr_iff)
  show "lr_claimedCents x = quietMoney (nl_deduction_amount line)" by (rule x)
  have "list_ex is_blocking f1 \<longleftrightarrow> amount_unread (nl_deduction_amount line)"
    "list_ex is_blocking f2 \<longleftrightarrow> price_unread (nl_unit_cost line)"
    using money_blocking unitPrice_blocking m u by (metis snd_conv)+
  then show "list_ex is_blocking fs \<longleftrightarrow>
       amount_unread (nl_deduction_amount line) \<or> price_unread (nl_unit_cost line) \<or> contradicts line"
    unfolding fs using contradiction_blocking arithmetic_not_blocking [OF a] by auto
qed

lemma notice_lines_facts:
  "notice_lines_from k lines = Inr rs \<Longrightarrow>
     map (lr_claimedCents \<circ> fst) rs = map (quietMoney \<circ> nl_deduction_amount) lines \<and>
     (list_ex is_blocking (concat (map snd rs)) \<longleftrightarrow>
       (\<exists>l\<in>set lines. amount_unread (nl_deduction_amount l) \<or> price_unread (nl_unit_cost l) \<or> contradicts l))"
proof (induction k lines arbitrary: rs rule: notice_lines_from.induct)
  case (2 k line lines)
  from "2.prems" obtain x fs rest where s: "notice_line_step k line = Inr (x, fs)"
    and rest: "notice_lines_from (k + 1) lines = Inr rest" and rs: "rs = (x, fs) # rest"
    by (auto simp: bind_res_Inr_iff)
  from "2.IH" [OF rest] notice_line_step_facts [OF s] show ?case by (auto simp: rs)
qed simp

text \<open>The invoice never blocks; the order blocks when it has the item and one of the two prices that
  are compared cannot be read.\<close>

definition po_price_unread :: "po_line list \<Rightarrow> notice_line \<Rightarrow> bool" where
  "po_price_unread po line \<longleftrightarrow>
     (\<exists>sku l. valueOf (nl_sku_upc line) = Some sku \<and> by_sku pl_sku_upc po sku = Some l \<and>
        (price_unread (nl_unit_cost line) \<or> price_unread (pl_unit_cost l)))"

lemma po_blocking: "list_ex is_blocking (po_findings po k line) \<longleftrightarrow> po_price_unread po line"
proof -
  have tail: "\<not> list_ex is_blocking (case (n, p) of (Some a, Some b) \<Rightarrow> if Q a b then [finding_at c Supports_Dispute (M a b) w] else [] | _ \<Rightarrow> [])"
    "\<not> list_ex is_blocking (case (n, p) of (Some a, Some b) \<Rightarrow> if Q a b then [finding_at c Warns (M a b) w] else [] | _ \<Rightarrow> [])"
    for n p :: "'x option" and Q c M w by (simp_all split: option.splits)
  show ?thesis
    by (auto simp: po_findings_def po_price_unread_def Let_def case_prod_beta tail split: option.splits)
qed

lemma each_line_ex:
  assumes "\<And>k l. list_ex P (f k l) \<longleftrightarrow> Q l"
  shows "list_ex P (each_line f lines) \<longleftrightarrow> (\<exists>l\<in>set lines. Q l)"
proof -
  have "list_ex P (concat (map (\<lambda>(i, l). f i l) (enumerate n lines))) \<longleftrightarrow> (\<exists>l\<in>set lines. Q l)" for n
    by (induction lines arbitrary: n) (simp_all add: assms)
  then show ?thesis by (simp add: each_line_def)
qed

section \<open>When a notice has nothing blocking\<close>

definition line_amounts :: "deduction_notice \<Rightarrow> int option list" where
  "line_amounts notice = map (quietMoney \<circ> nl_deduction_amount) (dn_lines notice)"

lemma map_filter_all:
  "length (List.map_filter f xs) = length xs \<longleftrightarrow> None \<notin> set (map f xs)"
  "None \<notin> set (map f xs) \<Longrightarrow> List.map_filter f xs = map the (map f xs)"
proof -
  have le: "length (List.map_filter f xs) \<le> length xs" for xs
    by (induction xs) (auto simp: List.map_filter_simps split: option.splits)
  show "length (List.map_filter f xs) = length xs \<longleftrightarrow> None \<notin> set (map f xs)"
  proof (induction xs)
    case (Cons x xs)
    with le [of xs] show ?case by (cases "f x") (auto simp: List.map_filter_simps)
  qed (simp add: List.map_filter_simps)
  show "None \<notin> set (map f xs) \<Longrightarrow> List.map_filter f xs = map the (map f xs)"
    by (induction xs) (auto simp: List.map_filter_simps split: option.splits)
qed

lemma line_sum_cases:
  "line_sum rows =
     (if None \<in> set (map lr_claimedCents rows) then Inr None
      else bind_res (sumCents (map the (map lr_claimedCents rows))) (\<lambda>s. Inr (Some s)))"
  unfolding line_sum_def Let_def map_filter_all(1) using map_filter_all(2) [of lr_claimedCents rows] by auto

definition adds_up :: "deduction_notice \<Rightarrow> bool" where
  "adds_up notice \<longleftrightarrow>
     (\<forall>total. quietMoney (dn_deduction_total notice) = Some total \<longrightarrow> None \<notin> set (line_amounts notice) \<longrightarrow>
        sum_list (map the (line_amounts notice)) = total)"

definition sound_lines :: "deduction_notice \<Rightarrow> bool" where
  "sound_lines notice \<longleftrightarrow>
     (\<forall>l\<in>set (dn_lines notice). \<not> amount_unread (nl_deduction_amount l) \<and> \<not> price_unread (nl_unit_cost l) \<and>
        \<not> contradicts l)"

lemma total_finding_blocking:
  assumes "line_sum rows = Inr s" "map lr_claimedCents rows = line_amounts notice"
  shows "list_ex is_blocking (total_finding s (quietMoney (dn_deduction_total notice))) \<longleftrightarrow> \<not> adds_up notice"
proof (cases "None \<in> set (line_amounts notice)")
  case True
  then have "s = None" using assms by (simp add: line_sum_cases)
  with True show ?thesis by (simp add: total_finding_def adds_up_def)
next
  case False
  then have "s = Some (sum_list (map the (line_amounts notice)))"
    using assms by (auto simp: line_sum_cases bind_res_Inr_iff dest: sumCents_Inr)
  with False show ?thesis by (auto simp: total_finding_def adds_up_def split: option.splits)
qed

text \<open>C6: the reconciliation of a notice reports nothing blocking exactly when every amount and unit
  price it prints can be read, no line's quantities contradict its amount at the printed price beyond a
  cent, the line amounts add up to the printed total whenever all of them are there, the order's prices
  it is compared with can be read, and the delivery record, if there is one, is signed.\<close>

theorem notice_consistent:
  assumes "reconcileNotice notice invoice po shipment messages = Inr r"
  shows "rc_internallyConsistent r \<longleftrightarrow>
    sound_lines notice \<and> \<not> amount_unread (dn_deduction_total notice) \<and> adds_up notice \<and>
    (\<forall>p. po = Some p \<longrightarrow> (\<forall>l\<in>set (dn_lines notice). \<not> po_price_unread p l)) \<and>
    (\<forall>s. shipment = Some s \<longrightarrow> valueOf (sd_signature_present s) = Some True)"
proof -
  obtain ft where m: "money (dn_deduction_total notice) ''deduction_total'' = (quietMoney (dn_deduction_total notice), ft)"
    by (metis money_value prod.collapse)
  then have ft: "list_ex is_blocking ft \<longleftrightarrow> amount_unread (dn_deduction_total notice)"
    using money_blocking by (metis snd_conv)
  from assms obtain rs s where rs: "notice_lines_from 0 (dn_lines notice) = Inr rs"
    and s: "line_sum (map fst rs) = Inr s"
    and r: "rc_internallyConsistent r \<longleftrightarrow> \<not> list_ex is_blocking
      (concat (map snd rs) @ ft @ total_finding s (quietMoney (dn_deduction_total notice)) @
       (case invoice of None \<Rightarrow> [] | Some i \<Rightarrow> each_line (invoice_findings i) (dn_lines notice)) @
       (case po of None \<Rightarrow> [] | Some p \<Rightarrow> each_line (po_findings p) (dn_lines notice)) @
       reconcileShipment shipment (valueOf (dn_po_number notice)) @
       reconcileAppointment shipment messages @ reconcileWaivers messages)"
    unfolding reconcileNotice_def m Let_def by (auto simp: bind_res_Inr_iff)
  note lines = notice_lines_facts [OF rs]
  have total: "list_ex is_blocking (total_finding s (quietMoney (dn_deduction_total notice))) \<longleftrightarrow> \<not> adds_up notice"
    by (rule total_finding_blocking [OF s]) (use lines in \<open>simp add: line_amounts_def\<close>)
  have inv: "\<not> list_ex is_blocking (case invoice of None \<Rightarrow> [] | Some i \<Rightarrow> each_line (invoice_findings i) (dn_lines notice))"
    using each_line_ex [of is_blocking "invoice_findings i" "\<lambda>_. False" for i] by (simp split: option.splits)
  have ord: "list_ex is_blocking (case po of None \<Rightarrow> [] | Some p \<Rightarrow> each_line (po_findings p) (dn_lines notice)) \<longleftrightarrow>
      (\<exists>p. po = Some p \<and> (\<exists>l\<in>set (dn_lines notice). po_price_unread p l))"
    using each_line_ex [of is_blocking "po_findings p" "po_price_unread p" for p] po_blocking
    by (simp split: option.splits)
  show ?thesis
    unfolding r sound_lines_def using lines ft total inv ord by (auto simp: shipment_blocking)
qed

section \<open>When the reconciliation of a notice throws\<close>

definition line_throws :: "notice_line \<Rightarrow> bool" where
  "line_throws line \<longleftrightarrow>
     (\<exists>qi qr cost. valueOf (nl_qty_invoiced line) = Some qi \<and> valueOf (nl_qty_received line) = Some qr \<and>
        price_of (nl_unit_cost line) = Some cost \<and> qr \<le> qi \<and>
        (qr < 0 \<or> (\<exists>e. extendedCents (Whole (qi - qr)) cost = Inl e)))"

lemma price_of_nonneg: "price_of field = Some cost \<Longrightarrow> 0 \<le> up_units cost"
  by (auto simp: price_of_def split: option.splits sum.splits if_splits)

lemma notice_line_step_throws: "(\<exists>e. notice_line_step k line = Inl e) \<longleftrightarrow> line_throws line"
proof -
  obtain f1 f2 where m: "money (nl_deduction_amount line) (line_path k @ ''.deduction_amount'') =
      (quietMoney (nl_deduction_amount line), f1)"
    and u: "unitPrice (nl_unit_cost line) (line_path k @ ''.unit_cost'') = (price_of (nl_unit_cost line), f2)"
    by (metis money_value unitPrice_value prod.collapse)
  have "(\<exists>e. notice_line_step k line = Inl e) \<longleftrightarrow>
      (\<exists>e. line_arithmetic (or_else (valueOf (nl_sku_upc line)) (''line '' @ nat_text (k + 1))) (line_path k)
         (quietMoney (nl_deduction_amount line)) (valueOf (nl_qty_invoiced line))
         (valueOf (nl_qty_received line)) (price_of (nl_unit_cost line)) = Inl e)"
    unfolding notice_line_step_def Let_def m u by (auto simp: bind_res_Inl_iff)
  also have "\<dots> \<longleftrightarrow> line_throws line"
    unfolding line_arithmetic_def line_throws_def
    by (auto simp: bind_res_Inl_iff dest: price_of_nonneg split: option.splits if_splits)
  finally show ?thesis .
qed

lemma notice_lines_throw: "(\<exists>e. notice_lines_from k lines = Inl e) \<longleftrightarrow> (\<exists>l\<in>set lines. line_throws l)"
proof (induction lines arbitrary: k)
  case (Cons l ls)
  have "(\<exists>e. notice_lines_from k (l # ls) = Inl e) \<longleftrightarrow>
      (\<exists>e. notice_line_step k l = Inl e) \<or> (\<exists>e. notice_lines_from (k + 1) ls = Inl e)"
    by (cases "notice_line_step k l"; cases "notice_lines_from (k + 1) ls") simp_all
  with Cons [of "k + 1"] show ?case by (simp add: notice_line_step_throws)
qed simp

text \<open>C38: reconciling a notice throws exactly when a line with readable quantities and price claims no
  overage and has a negative received quantity or a shortage past the safe integers, or when all the line
  amounts can be read and their sum leaves the safe integers; every other notice gives findings.\<close>

theorem notice_reconciliation_throws:
  "(\<exists>e. reconcileNotice notice invoice po shipment messages = Inl e) \<longleftrightarrow>
     (\<exists>l\<in>set (dn_lines notice). line_throws l) \<or>
     None \<notin> set (line_amounts notice) \<and> (\<exists>e. sumCents (map the (line_amounts notice)) = Inl e)"
proof (cases "notice_lines_from 0 (dn_lines notice)")
  case (Inl e)
  then have "\<exists>l\<in>set (dn_lines notice). line_throws l" using notice_lines_throw by blast
  with Inl show ?thesis by (simp add: reconcileNotice_def)
next
  case (Inr rs)
  then have n: "\<not> (\<exists>l\<in>set (dn_lines notice). line_throws l)" using notice_lines_throw [of 0 "dn_lines notice"] by simp
  have l: "map lr_claimedCents (map fst rs) = line_amounts notice"
    using notice_lines_facts [OF Inr] by (simp add: line_amounts_def)
  have "(\<exists>e. reconcileNotice notice invoice po shipment messages = Inl e) \<longleftrightarrow> (\<exists>e. line_sum (map fst rs) = Inl e)"
    by (auto simp: reconcileNotice_def Inr Let_def case_prod_beta bind_res_Inl_iff)
  also have "\<dots> \<longleftrightarrow> None \<notin> set (line_amounts notice) \<and> (\<exists>e. sumCents (map the (line_amounts notice)) = Inl e)"
    unfolding line_sum_cases l by (auto simp: bind_res_Inl_iff)
  finally show ?thesis using n by simp
qed

section \<open>A letter prints nothing a message says\<close>

text \<open>What a reconciliation comes to apart from the findings no letter prints.\<close>

definition printable_part ::
  "reconciliation \<Rightarrow> line_reconciliation list \<times> int option \<times> int option \<times> bool \<times> finding list" where
  "printable_part r =
     (rc_lines r, rc_claimedTotalCents r, rc_lineSumCents r, rc_internallyConsistent r,
      letter_findings (rc_findings r))"

definition printable :: "reconciliation res \<Rightarrow> failure +
    line_reconciliation list \<times> int option \<times> int option \<times> bool \<times> finding list" where
  "printable result = map_sum id printable_part result"

lemma notice_printable:
  "printable (reconcileNotice notice invoice po shipment messages) =
   printable (reconcileNotice notice invoice po shipment [])"
proof -
  have w: "letter_findings (reconcileWaivers []) = []" by (rule waivers_not_printed)
  show ?thesis
  proof (cases "notice_lines_from 0 (dn_lines notice)")
    case (Inr rs)
    then show ?thesis
      by (cases "line_sum (map fst rs)")
        (simp_all add: reconcileNotice_def printable_def printable_part_def Let_def case_prod_beta
          waivers_not_printed appointment_printed [of shipment messages])
  qed (simp add: reconcileNotice_def)
qed

lemma remittance_printable:
  "printable (reconcileRemittanceLine line invoice shipment messages) =
   printable (reconcileRemittanceLine line invoice shipment [])"
proof -
  have "printable (bind_res found (\<lambda>(rs, fs).
      let findings = fs @ reconcileShipment shipment None @ reconcileAppointment shipment ms @ reconcileWaivers ms;
          total = (case rs of [] \<Rightarrow> None | r # _ \<Rightarrow> lr_claimedCents r)
      in Inr \<lparr>rc_lines = rs, rc_claimedTotalCents = total, rc_lineSumCents = total,
              rc_findings = findings, rc_internallyConsistent = \<not> list_ex is_blocking findings\<rparr>)) =
    map_sum id (\<lambda>(rs, fs). let total = (case rs of [] \<Rightarrow> None | r # _ \<Rightarrow> lr_claimedCents r) in
      (rs, total, total, \<not> list_ex is_blocking (fs @ reconcileShipment shipment None),
       letter_findings (fs @ reconcileShipment shipment None @ reconcileAppointment shipment []))) found"
    for found ms
    using appointment_printed [of shipment ms]
    by (cases found) (auto simp: printable_def printable_part_def Let_def waivers_not_printed)
  then show ?thesis unfolding reconcileRemittanceLine_def by (simp only:)
qed

text \<open>C10: whatever the messages on a case say, a reconciliation throws alike and has the same lines,
  totals and consistency, and the findings a letter may print are the same, in the same order.\<close>

theorem letter_ignores_messages:
  "printable (reconcileNotice notice invoice po shipment messages) =
     printable (reconcileNotice notice invoice po shipment other) \<and>
   printable (reconcileRemittanceLine line invoice shipment messages) =
     printable (reconcileRemittanceLine line invoice shipment other)"
  using notice_printable [of notice invoice po shipment messages] notice_printable [of notice invoice po shipment other]
    remittance_printable [of line invoice shipment messages] remittance_printable [of line invoice shipment other]
  by simp

section \<open>The verdict on a remittance line\<close>

definition printed_deduction :: "remittance_line \<Rightarrow> int option" where
  "printed_deduction line =
     (if printsDash (rl_deduction_amount line) then None else quietMoney (rl_deduction_amount line))"

lemma printed_pair:
  obtains fs where "(if printsDash (rl_deduction_amount line) then (None, [])
    else money (rl_deduction_amount line) path) = (printed_deduction line, fs)"
proof (cases "printsDash (rl_deduction_amount line)")
  case False
  with that show ?thesis
    using money_pair [of "rl_deduction_amount line" path] by (auto simp: printed_deduction_def)
qed (use that in \<open>simp add: printed_deduction_def\<close>)

definition withheld :: "int option \<Rightarrow> int option \<Rightarrow> int option" where
  "withheld gross net = (case (gross, net) of (Some g, Some n) \<Rightarrow> Some (g - n) | _ \<Rightarrow> None)"

text \<open>The line and every other line that prints its invoice with the same two columns.\<close>

definition one_invoice :: "remittance_line list \<Rightarrow> nat \<Rightarrow> int \<Rightarrow> int \<Rightarrow> nat set" where
  "one_invoice lines k gross net =
     {i. i < length lines \<and> (i = k \<or>
        (\<exists>invoice theirs. valueOf (rl_invoice_number (lines ! k)) = Some invoice \<and>
           valueOf (rl_invoice_number (lines ! i)) = Some theirs \<and> sameReference theirs invoice \<and>
           quietMoney (rl_gross_amount (lines ! i)) = Some gross \<and>
           quietMoney (rl_net_amount (lines ! i)) = Some net))}"

definition deductions_add_up :: "remittance_line list \<Rightarrow> nat \<Rightarrow> int \<Rightarrow> int \<Rightarrow> bool" where
  "deductions_add_up lines k gross net \<longleftrightarrow>
     (\<forall>i\<in>one_invoice lines k gross net.
        printsDash (rl_deduction_amount (lines ! i)) \<or> quietMoney (rl_deduction_amount (lines ! i)) \<noteq> None) \<and>
     (\<Sum>i\<in>one_invoice lines k gross net.
        case printed_deduction (lines ! i) of None \<Rightarrow> 0 | Some c \<Rightarrow> c) = gross - net"

lemma deductions_add_up_alt:
  "deductions_add_up lines k gross net \<longleftrightarrow>
     (\<forall>i\<in>one_invoice lines k gross net. deduction_or_zero (lines ! i) \<noteq> None) \<and>
     (\<Sum>i\<in>one_invoice lines k gross net. the (deduction_or_zero (lines ! i))) = gross - net"
proof -
  have read: "deduction_or_zero l \<noteq> None \<longleftrightarrow>
      printsDash (rl_deduction_amount l) \<or> quietMoney (rl_deduction_amount l) \<noteq> None" for l
    by (simp add: deduction_or_zero_def)
  have amount: "deduction_or_zero l \<noteq> None \<Longrightarrow>
      the (deduction_or_zero l) = (case printed_deduction l of None \<Rightarrow> 0 | Some c \<Rightarrow> c)" for l
    by (auto simp: deduction_or_zero_def printed_deduction_def)
  show ?thesis
    unfolding deductions_add_up_def read [symmetric]
    by (intro conj_cong refl arg_cong2 [where f = "(=)"] sum.cong) (simp_all add: amount)
qed

lemma one_invoice_list:
  assumes "k < length lines"
  shows "set (k # sharingInvoice lines k g n) = one_invoice lines k g n" "distinct (k # sharingInvoice lines k g n)"
  using assms by (auto simp: sharingInvoice_def one_invoice_def shares_invoice_def split: option.splits)

lemma sharedDeductions_decided:
  assumes "k < length lines" "sharedDeductions lines (k # sharingInvoice lines k g n) = Inr shared"
  shows "shared = Some (g - n) \<longleftrightarrow> deductions_add_up lines k g n"
proof -
  let ?is = "k # sharingInvoice lines k g n" and ?d = "\<lambda>i. deduction_or_zero (lines ! i)"
  have sum: "sum_list (map (\<lambda>i. the (?d i)) ?is) = (\<Sum>i\<in>one_invoice lines k g n. the (?d i))"
    unfolding one_invoice_list(1) [OF assms(1), symmetric]
    by (rule sum_list_distinct_conv_sum_set [OF one_invoice_list(2) [OF assms(1)]])
  show ?thesis
  proof (cases "None \<in> set (map ?d ?is)")
    case True
    then obtain i where "i \<in> one_invoice lines k g n" "None = ?d i"
      unfolding set_map one_invoice_list(1) [OF assms(1)] by (rule imageE)
    then have "\<not> (\<forall>i\<in>one_invoice lines k g n. ?d i \<noteq> None)" by force
    moreover have "shared = None" using assms(2) True by (simp add: sharedDeductions_def)
    ultimately show ?thesis by (simp add: deductions_add_up_alt)
  next
    case False
    have all: "\<forall>i\<in>one_invoice lines k g n. ?d i \<noteq> None"
      unfolding one_invoice_list(1) [OF assms(1), symmetric]
    proof
      fix i assume "i \<in> set ?is"
      then have "?d i \<in> set (map ?d ?is)" unfolding set_map by (rule imageI)
      with False show "?d i \<noteq> None" by metis
    qed
    have "shared = Some (sum_list (map (\<lambda>i. the (?d i)) ?is))"
      using assms(2) False unfolding sharedDeductions_def Let_def
      by (auto simp: bind_res_Inr_iff comp_def dest!: sumCents_Inr)
    with all sum show ?thesis by (simp add: deductions_add_up_alt)
  qed
qed

lemma subCents_Inr: "subCents a b = Inr c \<Longrightarrow> c = a - b"
  by (simp add: subCents_def split: if_splits)

text \<open>Alone on its invoice, a line's own deduction is the sum.\<close>

lemma alone_adds_up:
  assumes "k < length lines" "sharingInvoice lines k g n = []" "printed_deduction (lines ! k) = Some p"
  shows "p = g - n \<longleftrightarrow> deductions_add_up lines k g n"
proof -
  have "one_invoice lines k g n = {k}" using one_invoice_list(1) [OF assms(1), of g n] assms(2) by simp
  moreover have "deduction_or_zero (lines ! k) = Some p"
    using assms(3) by (simp add: printed_deduction_def deduction_or_zero_def split: if_splits)
  ultimately show ?thesis by (simp add: deductions_add_up_alt)
qed

definition decided_verdict :: "remittance_line list \<Rightarrow> nat \<Rightarrow> line_verdict" where
  "decided_verdict lines k =
     (case (printed_deduction (lines ! k), quietMoney (rl_gross_amount (lines ! k)), quietMoney (rl_net_amount (lines ! k))) of
        (Some p, Some g, Some n) \<Rightarrow> if deductions_add_up lines k g n then Line_Matches else Line_Differs
      | _ \<Rightarrow> Not_Checkable)"

lemma column_check_decided:
  assumes "k < length lines"
    and "column_check lines k label dash (printed_deduction (lines ! k)) (quietMoney (rl_gross_amount (lines ! k)))
      (quietMoney (rl_net_amount (lines ! k))) = Inr (implied, verdict, fs)"
  shows "implied = withheld (quietMoney (rl_gross_amount (lines ! k))) (quietMoney (rl_net_amount (lines ! k))) \<and>
    verdict = decided_verdict lines k \<and> (verdict = Line_Differs \<longrightarrow> list_ex is_blocking fs)"
proof (cases "quietMoney (rl_gross_amount (lines ! k))")
  case None
  with assms(2) show ?thesis by (auto simp: column_check_def withheld_def decided_verdict_def split: option.split)
next
  case (Some g)
  note g = this
  show ?thesis
  proof (cases "quietMoney (rl_net_amount (lines ! k))")
    case None
    with g assms(2) show ?thesis by (simp add: column_check_def withheld_def decided_verdict_def split: option.splits)
  next
    case (Some n)
    note unfolded = assms(2) [unfolded column_check_def g Some]
    show ?thesis
    proof (cases "printed_deduction (lines ! k)")
      case None
      with unfolded show ?thesis
        by (auto simp: g Some withheld_def decided_verdict_def bind_res_Inr_iff Let_def dest!: subCents_Inr)
    next
      case (Some p)
      then show ?thesis
        using unfolded sharedDeductions_decided [OF assms(1), of g n] alone_adds_up [OF assms(1), of g n p]
        by (auto simp: g \<open>quietMoney (rl_net_amount (lines ! k)) = Some n\<close> withheld_def decided_verdict_def
            bind_res_Inr_iff Let_def shared_verdict_def own_verdict_def dest!: subCents_Inr split: if_splits)
    qed
  qed
qed

text \<open>With the three columns read and no sum past the safe integers, the reconciliation returns.\<close>

lemma column_check_returns:
  assumes "subCents g n = Inr w" "sharedDeductions lines (k # sharingInvoice lines k g n) = Inr shared"
  obtains verdict fs where "column_check lines k label dash (Some p) (Some g) (Some n) = Inr (Some w, verdict, fs)"
  using assms by (cases "sharingInvoice lines k g n = []")
    (auto simp: column_check_def Let_def case_prod_beta)

lemma remittance_line_returns:
  assumes "k < length lines" "printed_deduction (lines ! k) = Some p"
    "quietMoney (rl_gross_amount (lines ! k)) = Some g" "quietMoney (rl_net_amount (lines ! k)) = Some n"
    "subCents g n = Inr w" "subCents p w = Inr d"
    "sharedDeductions lines (k # sharingInvoice lines k g n) = Inr shared"
  obtains r where "reconcileRemittanceLine (Some (lines, k)) invoice shipment messages = Inr r"
proof -
  let ?line = "lines ! k" and ?path = "line_path k"
  obtain f1 where m1: "(if printsDash (rl_deduction_amount ?line) then (None, [])
      else money (rl_deduction_amount ?line) (?path @ ''.deduction_amount'')) = (printed_deduction ?line, f1)"
    by (rule printed_pair)
  obtain f2 where m2: "money (rl_gross_amount ?line) (?path @ ''.gross_amount'') = (quietMoney (rl_gross_amount ?line), f2)"
    by (rule money_pair)
  obtain f3 where m3: "money (rl_net_amount ?line) (?path @ ''.net_amount'') = (quietMoney (rl_net_amount ?line), f3)"
    by (rule money_pair)
  have z: "subCents p p = Inr 0" by (simp add: subCents_def safe_int_def max_safe_def)
  obtain v fs where c: "column_check lines k (or_else (valueOf (rl_invoice_number ?line)) (''line '' @ nat_text (k + 1)))
      (printsDash (rl_deduction_amount ?line)) (Some p) (Some g) (Some n) = Inr (Some w, v, fs)"
    by (rule column_check_returns [OF assms(5,7)])
  have "\<exists>x. own_line lines k ?line invoice = Inr x"
    unfolding own_line_def Let_def m1 m2 m3 assms(2-4) prod.case c bind_res_simps
    using assms(6) z by (simp split: option.splits)
  then show ?thesis using that assms(1) by (auto simp: reconcileRemittanceLine_def Let_def)
qed

text \<open>C7: a remittance line claims the deduction it prints, else its gross less its net; its verdict is
  that it matches exactly when the deductions of every line that prints the same invoice and columns can
  be read (a dash counting as none) and add up to the gross less the net, and a line that differs is
  never reported as consistent.\<close>

theorem remittance_line_decided:
  assumes "reconcileRemittanceLine (Some (lines, k)) invoice shipment messages = Inr r" "k < length lines"
  shows "\<exists>x. rc_lines r = [x] \<and> rc_claimedTotalCents r = lr_claimedCents x \<and>
    lr_claimedCents x =
      (case printed_deduction (lines ! k) of
         Some p \<Rightarrow> Some p
       | None \<Rightarrow> withheld (quietMoney (rl_gross_amount (lines ! k))) (quietMoney (rl_net_amount (lines ! k)))) \<and>
    lr_verdict x = decided_verdict lines k \<and>
    (lr_verdict x = Line_Matches \<longrightarrow> lr_deltaCents x = Some 0) \<and>
    (lr_verdict x = Line_Differs \<longrightarrow> \<not> rc_internallyConsistent r)"
proof -
  let ?line = "lines ! k" and ?path = "line_path k"
  let ?label = "or_else (valueOf (rl_invoice_number ?line)) (''line '' @ nat_text (k + 1))"
  obtain f1 where d: "(if printsDash (rl_deduction_amount ?line) then (None, [])
      else money (rl_deduction_amount ?line) (?path @ ''.deduction_amount'')) = (printed_deduction ?line, f1)"
    by (rule printed_pair)
  obtain f2 where g: "money (rl_gross_amount ?line) (?path @ ''.gross_amount'') = (quietMoney (rl_gross_amount ?line), f2)"
    by (rule money_pair)
  obtain f3 where n: "money (rl_net_amount ?line) (?path @ ''.net_amount'') = (quietMoney (rl_net_amount ?line), f3)"
    by (rule money_pair)
  from assms obtain x fs where own: "own_line lines k ?line invoice = Inr (x, fs)"
    and r: "rc_lines r = [x]" "rc_claimedTotalCents r = lr_claimedCents x"
      "rc_internallyConsistent r \<longleftrightarrow> \<not> list_ex is_blocking (fs @ reconcileShipment shipment None @
         reconcileAppointment shipment messages @ reconcileWaivers messages)"
    by (auto simp: reconcileRemittanceLine_def bind_res_Inr_iff Let_def)
  from own obtain implied verdict fc where
    c: "column_check lines k ?label (printsDash (rl_deduction_amount ?line)) (printed_deduction ?line)
      (quietMoney (rl_gross_amount ?line)) (quietMoney (rl_net_amount ?line)) = Inr (implied, verdict, fc)"
    and x: "lr_claimedCents x = (case printed_deduction ?line of None \<Rightarrow> implied | Some p \<Rightarrow> Some p)"
      "lr_verdict x = verdict"
      "verdict = Line_Matches \<Longrightarrow> printed_deduction ?line \<noteq> None \<Longrightarrow> lr_deltaCents x = Some 0"
    and fs: "list_ex is_blocking fc \<Longrightarrow> list_ex is_blocking fs"
    unfolding own_line_def Let_def d g n
    by (auto simp: bind_res_Inr_iff dest!: subCents_Inr split: option.splits if_splits)
  note col = column_check_decided [OF assms(2) c]
  have "verdict = Line_Matches \<Longrightarrow> printed_deduction ?line \<noteq> None"
    using col by (auto simp: decided_verdict_def split: option.splits if_splits)
  then show ?thesis using r x fs col by (auto split: option.splits)
qed

section \<open>The properties at concrete documents\<close>

definition printed_field :: "'a \<Rightarrow> 'a field" where
  "printed_field v = Some \<lparr>fv_value = Some v\<rparr>"

definition short_notice :: "int \<Rightarrow> deduction_notice" where
  "short_notice received =
     \<lparr>dn_po_number = None,
      dn_lines = [\<lparr>nl_sku_upc = printed_field ''SKU-1'', nl_qty_invoiced = printed_field 10,
        nl_qty_received = printed_field received, nl_unit_cost = printed_field ''2.50'',
        nl_deduction_amount = printed_field ''5.00'', nl_reason_code = printed_field ''31''\<rparr>],
      dn_deduction_total = printed_field ''5.00''\<rparr>"

definition shared_line :: "string \<Rightarrow> string \<Rightarrow> remittance_line" where
  "shared_line invoice deducted =
     \<lparr>rl_invoice_number = printed_field invoice, rl_gross_amount = printed_field ''100.00'',
      rl_deduction_amount = printed_field deducted, rl_net_amount = printed_field ''85.00'', rl_reason_code = None\<rparr>"

definition shared_advice :: "remittance_line list" where
  "shared_advice = [shared_line ''INV-7'' ''10.00'', shared_line '' inv-7'' ''5.00'']"

lemma shared_advice_values:
  "0 < length shared_advice" "printed_deduction (shared_advice ! 0) = Some 1000"
  "quietMoney (rl_gross_amount (shared_advice ! 0)) = Some 10000"
  "quietMoney (rl_net_amount (shared_advice ! 0)) = Some 8500"
  by code_simp+

lemma shared_advice_sharing: "sharingInvoice shared_advice 0 10000 8500 = [1]"
  by code_simp

lemma shared_advice_deductions: "sharedDeductions shared_advice [0, 1] = Inr (Some 1500)"
  by code_simp

lemma shared_advice_returns:
  obtains r where "reconcileRemittanceLine (Some (shared_advice, 0)) None None [] = Inr r"
proof -
  have "subCents 10000 8500 = Inr 1500" "subCents 1000 1500 = Inr (-500)"
    by (simp_all add: subCents_def safe_int_def max_safe_def)
  moreover have "sharedDeductions shared_advice (0 # sharingInvoice shared_advice 0 10000 8500) = Inr (Some 1500)"
    unfolding shared_advice_sharing by (rule shared_advice_deductions)
  ultimately show ?thesis using that remittance_line_returns [OF shared_advice_values] by blast
qed

theorem notice_consistent_witness:
  "\<exists>r. reconcileNotice (short_notice 8) None None None [] = Inr r \<and>
     (rc_internallyConsistent r \<longleftrightarrow> adds_up (short_notice 8) \<and> sound_lines (short_notice 8) \<and>
        \<not> amount_unread (dn_deduction_total (short_notice 8)))"
proof -
  have "\<not> isl (reconcileNotice (short_notice 8) None None None [])" by code_simp
  then obtain r where r: "reconcileNotice (short_notice 8) None None None [] = Inr r"
    by (cases "reconcileNotice (short_notice 8) None None None []") auto
  with notice_consistent [OF r] show ?thesis by auto
qed

theorem notice_reconciliation_throws_witness:
  "isl (reconcileNotice (short_notice (-1)) None None None [])"
proof -
  have l: "\<exists>l\<in>set (dn_lines (short_notice (-1))). line_throws l"
  proof -
    have p: "price_of (printed_field ''2.50'') \<noteq> None" by code_simp
    then show ?thesis by (auto simp: short_notice_def line_throws_def printed_field_def valueOf_def)
  qed
  then have "\<exists>e. reconcileNotice (short_notice (-1)) None None None [] = Inl e"
    using notice_reconciliation_throws [of "short_notice (-1)" None None None "[]"] by blast
  then show ?thesis by auto
qed

theorem remittance_line_decided_witness:
  "\<exists>r x. reconcileRemittanceLine (Some (shared_advice, 0)) None None [] = Inr r \<and> rc_lines r = [x] \<and>
     lr_claimedCents x = Some 1000 \<and> lr_verdict x = decided_verdict shared_advice 0"
proof -
  obtain r where r: "reconcileRemittanceLine (Some (shared_advice, 0)) None None [] = Inr r"
    by (rule shared_advice_returns)
  from remittance_line_decided [OF r shared_advice_values(1)] r shared_advice_values(2) show ?thesis by auto
qed

end
