(* ===== verification/Portal_Recipe.thy ===== *)
theory Portal_Recipe
  imports JsText
begin

text \<open>
  Portal recipes and the write guard: \<open>packages/portal/src/recipe.ts\<close> and \<open>guard.ts\<close>. A recipe is data
  whose steps can only read; a label on the never-click list is never clicked, and a request that is not a
  read leaves the browser only where the recipe names it. The schema's shape checks are a library's; what
  is modelled of the parser is its own refinement. \<open>new URL\<close>, \<open>JSON.parse\<close> and \<open>URLSearchParams\<close> are
  the parameters \<open>parse_url\<close>, \<open>parse_body\<close> and \<open>form_fields\<close>. The lemmas show that no recipe takes a word off
  the floor, that an accepted one dismisses nothing by a listed label, and which requests are allowed.
\<close>

section \<open>Recipes\<close>

definition NEVER_CLICK_FLOOR :: "string list" where
  "NEVER_CLICK_FLOOR =
     [''dispute'', ''appeal'', ''submit'', ''upload'', ''attach'', ''approve'', ''accept'', ''agree'', ''delete'',
      ''remove'', ''save'', ''create'', ''request'', ''send'', ''pay'', ''confirm'', ''continue'', ''yes'', ''ok'',
      ''finish'', ''complete'', ''withdraw'', ''cancel'', ''enroll'', ''opt in'', ''subscribe'', ''register'',
      ''update'', ''edit'', ''reset'', ''resend'', ''authorize'']"

datatype RecipeStep =
    Step_Open string string
  | Step_Sign_In
  | Step_Answer_Mfa
  | Step_Sign_Out
  | Step_Dismiss string string string string
  | Step_Follow string string
  | Step_Search string string "(string \<times> string) list" string string
  | Step_Wait_For string string
  | Step_Expect string "string option" "string option"
  | Step_Capture_Page string
  | Step_Download string string
  | Step_For_Each string string int "RecipeStep list"
  | Step_Next_Page string string int

datatype StepKind =
    Kind_Open | Kind_Sign_In | Kind_Answer_Mfa | Kind_Dismiss | Kind_Follow | Kind_Search | Kind_Wait_For
  | Kind_Expect | Kind_Capture_Page | Kind_Download | Kind_For_Each | Kind_Next_Page | Kind_Sign_Out

text \<open>A step's name; the three steps without arguments are named by their kind.\<close>

fun stepName :: "RecipeStep \<Rightarrow> string" where
  "stepName (Step_Open name _) = name"
| "stepName Step_Sign_In = ''sign_in''"
| "stepName Step_Answer_Mfa = ''answer_mfa''"
| "stepName Step_Sign_Out = ''sign_out''"
| "stepName (Step_Dismiss name _ _ _) = name"
| "stepName (Step_Follow name _) = name"
| "stepName (Step_Search name _ _ _ _) = name"
| "stepName (Step_Wait_For name _) = name"
| "stepName (Step_Expect name _ _) = name"
| "stepName (Step_Capture_Page name) = name"
| "stepName (Step_Download name _) = name"
| "stepName (Step_For_Each name _ _ _) = name"
| "stepName (Step_Next_Page name _ _) = name"

fun allSteps :: "RecipeStep list \<Rightarrow> RecipeStep list" where
  "allSteps [] = []"
| "allSteps (s # steps) =
     (case s of Step_For_Each _ _ _ inner \<Rightarrow> s # allSteps inner | _ \<Rightarrow> [s]) @ allSteps steps"

record post_as_read =
  pr_step :: string
  pr_path :: string
  pr_bodyDiscriminator :: "(string \<times> string) option"

record recipe_version =
  rv_hostAllowlist :: "string list"
  rv_origin :: string
  rv_formPaths :: "string list"
  rv_mfaPaths :: "string list"
  rv_acsPaths :: "string list"
  rv_neverClick :: "string list"
  rv_postAsRead :: "post_as_read list"
  rv_steps :: "RecipeStep list"

text \<open>What the sources read of a parsed URL.\<close>

record url =
  url_protocol :: string
  url_host :: string
  url_origin :: string
  url_pathname :: string
  url_search :: string

section \<open>Labels that are never clicked\<close>

definition effectiveNeverClick :: "recipe_version \<Rightarrow> string list" where
  "effectiveNeverClick r = dedupe (NEVER_CLICK_FLOOR @ map (\<lambda>w. to_lower (trim w)) (rv_neverClick r))"

definition label_char :: "char \<Rightarrow> bool" where
  "label_char c \<longleftrightarrow> is_lower c \<or> is_digit c"

text \<open>The pattern of a word: its letters, one space for each run of white space, bounded on both sides
  by an end of the text or a character that is no letter or digit.\<close>

fun bounded_at :: "bool \<Rightarrow> string \<Rightarrow> string \<Rightarrow> bool" where
  "bounded_at boundary word [] = (boundary \<and> word = [])"
| "bounded_at boundary word (c # s) =
     (boundary \<and> take (length word) (c # s) = word \<and>
        (case drop (length word) (c # s) of [] \<Rightarrow> True | d # _ \<Rightarrow> \<not> label_char d) \<or>
      bounded_at (\<not> label_char c) word s)"

definition matchesNeverClick :: "string \<Rightarrow> string list \<Rightarrow> bool" where
  "matchesNeverClick label words =
     (let text = collapse_ws (to_lower label)
      in list_ex (\<lambda>w. bounded_at True (collapse_ws (trim (to_lower w))) text) words)"

section \<open>The refinement of a parsed recipe\<close>

definition hostOf :: "(string \<Rightarrow> url option) \<Rightarrow> string \<Rightarrow> string option" where
  "hostOf parse_url s = map_option url_host (parse_url s)"

datatype recipe_issue = Origin_Not_Listed | Name_Not_Unique string | Dismiss_Never_Click string

definition step_issues :: "recipe_version \<Rightarrow> string list \<Rightarrow> RecipeStep \<Rightarrow> recipe_issue list" where
  "step_issues r seen s =
     (if stepName s \<in> set seen then [Name_Not_Unique (stepName s)] else []) @
     (case s of
        Step_Dismiss _ _ label _ \<Rightarrow>
          if matchesNeverClick label (effectiveNeverClick r) then [Dismiss_Never_Click (stepName s)] else []
      | _ \<Rightarrow> [])"

fun steps_issues :: "recipe_version \<Rightarrow> string list \<Rightarrow> RecipeStep list \<Rightarrow> recipe_issue list" where
  "steps_issues r seen [] = []"
| "steps_issues r seen (s # steps) = step_issues r seen s @ steps_issues r (stepName s # seen) steps"

definition recipe_issues :: "(string \<Rightarrow> url option) \<Rightarrow> recipe_version \<Rightarrow> recipe_issue list" where
  "recipe_issues parse_url r =
     (case hostOf parse_url (rv_origin r) of
        Some h \<Rightarrow> if h \<in> set (rv_hostAllowlist r) then [] else [Origin_Not_Listed]
      | None \<Rightarrow> [Origin_Not_Listed]) @
     steps_issues r [] (allSteps (rv_steps r))"

section \<open>The write guard\<close>

record active_step =
  as_kind :: StepKind
  as_name :: string
  as_recordedAction :: "string option"

record request_context =
  rq_method :: string
  rq_url :: string
  rq_body :: "string option"
  rq_activeStep :: "active_step option"

datatype refusal = Host_Not_Allowed | Non_Get_Not_Allowed | Body_Discriminator_Mismatch | Scheme_Not_Allowed

datatype GuardDecision = Allow | Refuse refusal

text \<open>What \<open>JSON.parse\<close> gives, as far as a field of it is read; an object has each of its keys once.\<close>

datatype body_value = Body_Text string | Body_Object "(string \<times> body_value) list" | Body_Other

record body_readers =
  parse_body :: "string \<Rightarrow> body_value option"
  form_fields :: "string \<Rightarrow> (string \<times> string) list"

definition bodyField :: "body_readers \<Rightarrow> string option \<Rightarrow> string \<Rightarrow> string option" where
  "bodyField readers body field =
     (case body of
        None \<Rightarrow> None
      | Some text \<Rightarrow>
          (case parse_body readers text of
             Some (Body_Object entries) \<Rightarrow>
               (case map_of entries field of Some (Body_Text v) \<Rightarrow> Some v | _ \<Rightarrow> None)
           | Some _ \<Rightarrow> None
           | None \<Rightarrow>
               (case filter (\<lambda>(k, _). k = field) (form_fields readers text) of
                  [(_, v)] \<Rightarrow> Some v | _ \<Rightarrow> None)))"

text \<open>The origin of a parsed recipe is a URL: the schema checked it.\<close>

definition sign_in_allows :: "(string \<Rightarrow> url option) \<Rightarrow> recipe_version \<Rightarrow> active_step \<Rightarrow> url \<Rightarrow> bool" where
  "sign_in_allows parse_url r step u \<longleftrightarrow>
     (as_kind step = Kind_Sign_In \<or> as_kind step = Kind_Answer_Mfa) \<and>
     (case parse_url (rv_origin r) of
        None \<Rightarrow> False
      | Some signIn \<Rightarrow>
          url_origin u = url_origin signIn \<and>
          url_pathname u \<in> set (rv_formPaths r @ rv_mfaPaths r @ rv_acsPaths r))"

definition search_allows :: "(string \<Rightarrow> url option) \<Rightarrow> active_step \<Rightarrow> url \<Rightarrow> bool" where
  "search_allows parse_url step u \<longleftrightarrow>
     as_kind step = Kind_Search \<and>
     (case as_recordedAction step of
        None \<Rightarrow> False
      | Some action \<Rightarrow>
          (case parse_url action of
             None \<Rightarrow> False
           | Some recorded \<Rightarrow>
               url_origin recorded = url_origin u \<and> url_pathname recorded = url_pathname u \<and>
               url_search recorded = url_search u))"

definition discriminated :: "body_readers \<Rightarrow> string option \<Rightarrow> post_as_read \<Rightarrow> bool" where
  "discriminated readers body p \<longleftrightarrow>
     (case pr_bodyDiscriminator p of
        None \<Rightarrow> True | Some (field, equals) \<Rightarrow> bodyField readers body field = Some equals)"

definition decideRequest ::
  "(string \<Rightarrow> url option) \<Rightarrow> body_readers \<Rightarrow> recipe_version \<Rightarrow> request_context \<Rightarrow> GuardDecision" where
  "decideRequest parse_url readers recipe req =
     (case parse_url (rq_url req) of
        None \<Rightarrow> Refuse Scheme_Not_Allowed
      | Some u \<Rightarrow>
          if url_protocol u \<noteq> ''http:'' \<and> url_protocol u \<noteq> ''https:'' then Refuse Scheme_Not_Allowed
          else if url_host u \<notin> set (rv_hostAllowlist recipe) then Refuse Host_Not_Allowed
          else let meth = to_upper (rq_method req) in
          if meth = ''GET'' \<or> meth = ''HEAD'' then Allow
          else if meth \<noteq> ''POST'' then Refuse Non_Get_Not_Allowed
          else case rq_activeStep req of
            None \<Rightarrow> Refuse Non_Get_Not_Allowed
          | Some step \<Rightarrow>
              if sign_in_allows parse_url recipe step u then Allow
              else if search_allows parse_url step u then Allow
              else let entries = filter (\<lambda>p. pr_step p = as_name step \<and> pr_path p = url_pathname u)
                                   (rv_postAsRead recipe)
                   in if entries \<noteq> []
                      then (if list_ex (discriminated readers (rq_body req)) entries then Allow
                            else Refuse Body_Discriminator_Mismatch)
                      else Refuse Non_Get_Not_Allowed)"

section \<open>What a label matches\<close>

text \<open>The label holds the word with nothing of a longer word on either side.\<close>

definition names_word :: "string \<Rightarrow> string \<Rightarrow> bool" where
  "names_word label word \<longleftrightarrow>
     (\<exists>a c. collapse_ws (to_lower label) = a @ collapse_ws (trim (to_lower word)) @ c \<and>
        (a = [] \<or> \<not> label_char (last a)) \<and> (c = [] \<or> \<not> label_char (hd c)))"

lemma bounded_at_iff:
  "bounded_at boundary word t \<longleftrightarrow>
     (\<exists>a c. t = a @ word @ c \<and> (if a = [] then boundary else \<not> label_char (last a)) \<and> (c = [] \<or> \<not> label_char (hd c)))"
proof (induction boundary word t rule: bounded_at.induct)
  case (2 boundary word x s)
  have here: "take (length word) (x # s) = word \<and>
        (case drop (length word) (x # s) of [] \<Rightarrow> True | d # _ \<Rightarrow> \<not> label_char d) \<longleftrightarrow>
      (\<exists>c. x # s = word @ c \<and> (c = [] \<or> \<not> label_char (hd c)))"
    by (metis append_eq_conv_conj append_take_drop_id hd_drop_conv_nth list.case_eq_if)
  show ?case
  proof
    assume "bounded_at boundary word (x # s)"
    then consider "boundary" "\<exists>c. x # s = word @ c \<and> (c = [] \<or> \<not> label_char (hd c))"
      | "bounded_at (\<not> label_char x) word s" using here by auto
    then show "\<exists>a c. x # s = a @ word @ c \<and> (if a = [] then boundary else \<not> label_char (last a)) \<and> (c = [] \<or> \<not> label_char (hd c))"
    proof cases
      case 1
      then show ?thesis by (metis append_Nil)
    next
      case 2
      with "2.IH" obtain a c where "s = a @ word @ c" "if a = [] then \<not> label_char x else \<not> label_char (last a)"
        "c = [] \<or> \<not> label_char (hd c)" by auto
      then have "x # s = (x # a) @ word @ c \<and> \<not> label_char (last (x # a)) \<and> (c = [] \<or> \<not> label_char (hd c))"
        by (auto split: if_splits)
      then show ?thesis by (metis list.distinct(1))
    qed
  next
    assume "\<exists>a c. x # s = a @ word @ c \<and> (if a = [] then boundary else \<not> label_char (last a)) \<and> (c = [] \<or> \<not> label_char (hd c))"
    then obtain a c where e: "x # s = a @ word @ c" "if a = [] then boundary else \<not> label_char (last a)"
      "c = [] \<or> \<not> label_char (hd c)" by blast
    show "bounded_at boundary word (x # s)"
    proof (cases a)
      case Nil
      with e have "boundary" "x # s = word @ c" by simp_all
      with e(3) here show ?thesis unfolding bounded_at.simps by blast
    next
      case (Cons y a')
      with e have "s = a' @ word @ c" "if a' = [] then \<not> label_char x else \<not> label_char (last a')"
        by (auto split: if_splits)
      with e(3) "2.IH" have "bounded_at (\<not> label_char x) word s" by blast
      then show ?thesis by simp
    qed
  qed
qed auto

lemma bounded_at_text:
  "bounded_at True word t \<longleftrightarrow>
     (\<exists>a c. t = a @ word @ c \<and> (a = [] \<or> \<not> label_char (last a)) \<and> (c = [] \<or> \<not> label_char (hd c)))"
  unfolding bounded_at_iff by ((rule iff_exI)+) auto

lemma matchesNeverClick_iff: "matchesNeverClick label words \<longleftrightarrow> (\<exists>w\<in>set words. names_word label w)"
  unfolding matchesNeverClick_def Let_def list_ex_iff names_word_def bounded_at_text ..

lemma names_word_lower: "names_word label (to_lower (trim w)) \<longleftrightarrow> names_word label w"
proof -
  have "trim (to_lower (to_lower (trim w))) = trim (to_lower w)"
    by (simp add: trim_map [OF to_lower_ws] comp_def)
  then show ?thesis by (simp add: names_word_def)
qed

lemma effective_matches:
  "matchesNeverClick label (effectiveNeverClick r) \<longleftrightarrow>
     (\<exists>w\<in>set NEVER_CLICK_FLOOR \<union> set (rv_neverClick r). names_word label w)"
  unfolding matchesNeverClick_iff by (simp add: effectiveNeverClick_def bex_Un names_word_lower)

section \<open>What an accepted recipe can do\<close>

definition dismissed_labels :: "RecipeStep list \<Rightarrow> string list" where
  "dismissed_labels steps =
     concat (map (\<lambda>s. case s of Step_Dismiss _ _ label _ \<Rightarrow> [label] | _ \<Rightarrow> []) steps)"

lemma steps_issues_none:
  "steps_issues r seen steps = [] \<longleftrightarrow>
     distinct (map stepName steps) \<and> set seen \<inter> set (map stepName steps) = {} \<and>
     (\<forall>label\<in>set (dismissed_labels steps). \<not> matchesNeverClick label (effectiveNeverClick r))"
proof (induction steps arbitrary: seen)
  case (Cons s steps)
  then show ?case by (cases s) (auto simp: step_issues_def dismissed_labels_def)
qed (simp add: dismissed_labels_def)

text \<open>C37: the parser's refinement accepts a recipe exactly when its sign-in host is on its allowlist, no
  two of its steps share a name, those inside a loop included, and no label it dismisses holds a word of
  the never-click floor or of the recipe's own additions, so that no recipe takes a word off the floor.\<close>

theorem accepted_recipe:
  "recipe_issues parse_url r = [] \<longleftrightarrow>
     (\<exists>u. parse_url (rv_origin r) = Some u \<and> url_host u \<in> set (rv_hostAllowlist r)) \<and>
     distinct (map stepName (allSteps (rv_steps r))) \<and>
     (\<forall>label\<in>set (dismissed_labels (allSteps (rv_steps r))).
        \<not> (\<exists>w\<in>set NEVER_CLICK_FLOOR \<union> set (rv_neverClick r). names_word label w))"
  by (auto simp: recipe_issues_def hostOf_def steps_issues_none effective_matches split: option.splits)

section \<open>Which requests leave\<close>

text \<open>What a body says of a field: the text a JSON object has under it, or the value of the one form
  entry of that name when the body is no JSON.\<close>

definition body_says :: "body_readers \<Rightarrow> string option \<Rightarrow> string \<Rightarrow> string \<Rightarrow> bool" where
  "body_says readers body field v \<longleftrightarrow>
     (\<exists>text. body = Some text \<and>
       ((\<exists>entries. parse_body readers text = Some (Body_Object entries) \<and> map_of entries field = Some (Body_Text v)) \<or>
        parse_body readers text = None \<and>
        (\<exists>xs ys. form_fields readers text = xs @ (field, v) # ys \<and> field \<notin> fst ` set (xs @ ys))))"

text \<open>A recipe names a POST to a URL for a step: one of its sign-in forms, on the sign-in origin, while it
  signs in or answers a second factor; the recorded action of a search, its query included; or a
  read that posts, with the body it is told apart by.\<close>

definition post_named ::
  "(string \<Rightarrow> url option) \<Rightarrow> body_readers \<Rightarrow> recipe_version \<Rightarrow> active_step \<Rightarrow> string option \<Rightarrow> url \<Rightarrow> bool" where
  "post_named parse_url readers r step body u \<longleftrightarrow>
     as_kind step \<in> {Kind_Sign_In, Kind_Answer_Mfa} \<and>
       (\<exists>signIn. parse_url (rv_origin r) = Some signIn \<and> url_origin signIn = url_origin u) \<and>
       url_pathname u \<in> set (rv_formPaths r) \<union> set (rv_mfaPaths r) \<union> set (rv_acsPaths r) \<or>
     as_kind step = Kind_Search \<and>
       (\<exists>action recorded. as_recordedAction step = Some action \<and> parse_url action = Some recorded \<and>
          (url_origin recorded, url_pathname recorded, url_search recorded) =
          (url_origin u, url_pathname u, url_search u)) \<or>
     (\<exists>p\<in>set (rv_postAsRead r). pr_step p = as_name step \<and> pr_path p = url_pathname u \<and>
        (pr_bodyDiscriminator p = None \<or>
         (\<exists>field v. pr_bodyDiscriminator p = Some (field, v) \<and> body_says readers body field v)))"

lemma one_entry_iff:
  "filter (\<lambda>(k, _). k = field) es = [(x, v)] \<longleftrightarrow>
     x = field \<and> (\<exists>xs ys. es = xs @ (field, v) # ys \<and> field \<notin> fst ` set (xs @ ys))"
proof
  assume f: "filter (\<lambda>(k, _). k = field) es = [(x, v)]"
  then obtain xs ys where es: "es = xs @ (x, v) # ys" "\<forall>e\<in>set xs. fst e \<noteq> field" "x = field"
    "filter (\<lambda>(k, _). k = field) ys = []"
    by (auto simp: filter_eq_Cons_iff split_beta)
  then show "x = field \<and> (\<exists>xs ys. es = xs @ (field, v) # ys \<and> field \<notin> fst ` set (xs @ ys))"
    by (intro conjI exI [of _ xs] exI [of _ ys]) (auto simp: filter_empty_conv)
next
  assume "x = field \<and> (\<exists>xs ys. es = xs @ (field, v) # ys \<and> field \<notin> fst ` set (xs @ ys))"
  then obtain xs ys where es: "x = field" "es = xs @ (field, v) # ys" "field \<notin> fst ` set (xs @ ys)" by blast
  have "filter (\<lambda>(k, _). k = field) xs = []" "filter (\<lambda>(k, _). k = field) ys = []"
    using es(3) by (force simp: filter_empty_conv)+
  with es(1,2) show "filter (\<lambda>(k, _). k = field) es = [(x, v)]" by simp
qed

lemma bodyField_iff: "bodyField readers body field = Some v \<longleftrightarrow> body_says readers body field v"
proof (cases body)
  case None
  then show ?thesis by (simp add: bodyField_def body_says_def)
next
  case (Some t)
  show ?thesis
  proof (cases "parse_body readers t")
    case None
    have "bodyField readers body field = Some v \<longleftrightarrow>
        (\<exists>x. filter (\<lambda>(k, _). k = field) (form_fields readers t) = [(x, v)])"
      by (auto simp: bodyField_def Some None split: list.splits)
    then show ?thesis by (simp add: one_entry_iff body_says_def Some None)
  next
    case parsed: (Some v')
    then show ?thesis
      by (cases v') (auto simp: bodyField_def body_says_def Some split: option.splits body_value.splits)
  qed
qed

lemma sign_in_allows_iff:
  "sign_in_allows parse_url r step u \<longleftrightarrow>
     as_kind step \<in> {Kind_Sign_In, Kind_Answer_Mfa} \<and>
     (\<exists>signIn. parse_url (rv_origin r) = Some signIn \<and> url_origin signIn = url_origin u) \<and>
     url_pathname u \<in> set (rv_formPaths r) \<union> set (rv_mfaPaths r) \<union> set (rv_acsPaths r)"
  by (auto simp: sign_in_allows_def split: option.splits)

lemma search_allows_iff:
  "search_allows parse_url step u \<longleftrightarrow>
     as_kind step = Kind_Search \<and>
     (\<exists>action recorded. as_recordedAction step = Some action \<and> parse_url action = Some recorded \<and>
        (url_origin recorded, url_pathname recorded, url_search recorded) =
        (url_origin u, url_pathname u, url_search u))"
  by (auto simp: search_allows_def split: option.splits)

lemma discriminated_iff:
  "discriminated readers body p \<longleftrightarrow> pr_bodyDiscriminator p = None \<or>
     (\<exists>field v. pr_bodyDiscriminator p = Some (field, v) \<and> body_says readers body field v)"
  by (auto simp: discriminated_def bodyField_iff split: option.splits prod.splits)

lemma post_named_iff:
  "post_named parse_url readers r step body u \<longleftrightarrow>
     sign_in_allows parse_url r step u \<or> search_allows parse_url step u \<or>
     (\<exists>p\<in>set (rv_postAsRead r). pr_step p = as_name step \<and> pr_path p = url_pathname u \<and>
        discriminated readers body p)"
  unfolding post_named_def sign_in_allows_iff search_allows_iff discriminated_iff by simp

lemma decideRequest_Allow:
  "decideRequest parse_url readers r req = Allow \<longleftrightarrow>
     (\<exists>u. parse_url (rq_url req) = Some u \<and> url_protocol u \<in> {''http:'', ''https:''} \<and>
        url_host u \<in> set (rv_hostAllowlist r) \<and>
        (to_upper (rq_method req) \<in> {''GET'', ''HEAD''} \<or>
         to_upper (rq_method req) = ''POST'' \<and>
         (\<exists>step. rq_activeStep req = Some step \<and> post_named parse_url readers r step (rq_body req) u)))"
proof (cases "parse_url (rq_url req)")
  case None
  then show ?thesis by (simp add: decideRequest_def)
next
  case (Some u)
  show ?thesis
  proof (cases "rq_activeStep req")
    case None
    with Some show ?thesis by (auto simp: decideRequest_def Let_def)
  next
    case (Some step)
    with \<open>parse_url (rq_url req) = Some u\<close> show ?thesis
      by (auto simp: decideRequest_def Let_def post_named_iff list_ex_iff filter_empty_conv)
  qed
qed

text \<open>A step that is no sign-in, no search and no read that posts sends reads only.\<close>

lemma reads_only:
  assumes "decideRequest parse_url readers r req = Allow" "rq_activeStep req = Some step"
    and "as_kind step \<notin> {Kind_Sign_In, Kind_Answer_Mfa, Kind_Search}"
    and "\<forall>p\<in>set (rv_postAsRead r). pr_step p \<noteq> as_name step"
  shows "to_upper (rq_method req) = ''GET'' \<or> to_upper (rq_method req) = ''HEAD''"
proof -
  have "\<not> post_named parse_url readers r step body u" for body u
    using assms(3,4) by (auto simp: post_named_def)
  with assms(1,2) show ?thesis unfolding decideRequest_Allow by auto
qed

text \<open>C9: a request leaves the browser exactly when it is http or https to a host of the allowlist and
  either a read, or a POST during a step that the recipe names it for: a sign-in form on the sign-in
  origin, the recorded search with its query, or a read that posts whose one value of a field is the
  one it is told apart by.\<close>

theorem request_allowed:
  "decideRequest parse_url readers r req = Allow \<longleftrightarrow>
     (\<exists>u. parse_url (rq_url req) = Some u \<and> url_protocol u \<in> {''http:'', ''https:''} \<and>
        url_host u \<in> set (rv_hostAllowlist r) \<and>
        (to_upper (rq_method req) \<in> {''GET'', ''HEAD''} \<or>
         to_upper (rq_method req) = ''POST'' \<and>
         (\<exists>step. rq_activeStep req = Some step \<and> post_named parse_url readers r step (rq_body req) u)))"
  by (rule decideRequest_Allow)

definition sample_recipe :: recipe_version where
  "sample_recipe =
     \<lparr>rv_hostAllowlist = [''portal.example''], rv_origin = ''https://portal.example'', rv_formPaths = [''/login''],
      rv_mfaPaths = [], rv_acsPaths = [], rv_neverClick = ['' Archive ''], rv_postAsRead = [],
      rv_steps = [Step_Sign_In, Step_For_Each ''rows'' ''tr'' 50
        [Step_Dismiss ''notice'' ''button'' ''X'' ''What is new'', Step_Capture_Page ''row''], Step_Sign_Out]\<rparr>"

definition sample_url :: "string \<Rightarrow> url option" where
  "sample_url s = (if s = ''https://portal.example''
     then Some \<lparr>url_protocol = ''https:'', url_host = ''portal.example'', url_origin = s, url_pathname = ''/'', url_search = []\<rparr>
     else None)"

theorem accepted_recipe_witness:
  "recipe_issues sample_url sample_recipe = [] \<and> \<not> names_word ''X'' ''submit'' \<and>
   \<not> names_word ''X'' '' Archive ''"
proof -
  have ws: "list_all (\<lambda>w. 2 \<le> length (collapse_ws (trim (to_lower w)))) (NEVER_CLICK_FLOOR @ ['' Archive ''])"
    by (simp add: NEVER_CLICK_FLOOR_def collapse_ws_def trim_def trim_start_def trim_end_def is_ws_def code_unit_def
        to_lower_char_def is_upper_def)
  have "length (collapse_ws (to_lower ''X'')) = 1"
    by (simp add: collapse_ws_def is_ws_def code_unit_def to_lower_char_def is_upper_def)
  then have "\<not> names_word ''X'' w" if "w \<in> set (NEVER_CLICK_FLOOR @ ['' Archive ''])" for w
    using ws that unfolding list_all_iff names_word_def by (auto dest!: arg_cong [where f = length])
  moreover have "rv_neverClick sample_recipe = ['' Archive '']" by (simp add: sample_recipe_def)
  ultimately have "\<not> matchesNeverClick ''X'' (effectiveNeverClick sample_recipe)"
    unfolding effective_matches by auto
  then have ok: "recipe_issues sample_url sample_recipe = []"
    by (simp add: recipe_issues_def hostOf_def steps_issues_none)
      (simp add: sample_url_def sample_recipe_def dismissed_labels_def)
  have l: "''X'' \<in> set (dismissed_labels (allSteps (rv_steps sample_recipe)))"
    "'' Archive '' \<in> set (rv_neverClick sample_recipe)" "''submit'' \<in> set NEVER_CLICK_FLOOR"
    by (simp_all add: sample_recipe_def dismissed_labels_def NEVER_CLICK_FLOOR_def)
  with ok accepted_recipe [of sample_url sample_recipe] show ?thesis by blast
qed

section \<open>Requests of a recipe\<close>

text \<open>Two hosts are listed and one is the sign-in's; a search has a query; a read posts one field.\<close>

definition guarded_recipe :: recipe_version where
  "guarded_recipe = sample_recipe\<lparr>rv_hostAllowlist := [''portal.example'', ''data.example''],
     rv_postAsRead := [\<lparr>pr_step = ''rows'', pr_path = ''/list'', pr_bodyDiscriminator = Some (''op'', ''read'')\<rparr>]\<rparr>"

definition portal_page :: "string \<Rightarrow> string \<Rightarrow> string \<Rightarrow> url" where
  "portal_page host path query = \<lparr>url_protocol = ''https:'', url_host = host, url_origin = ''https://'' @ host,
     url_pathname = path, url_search = query\<rparr>"

definition portal_urls :: "string \<Rightarrow> url option" where
  "portal_urls = map_of
     [(''https://portal.example'', portal_page ''portal.example'' ''/'' []),
      (''login'', portal_page ''portal.example'' ''/login'' []), (''other login'', portal_page ''data.example'' ''/login'' []),
      (''search'', portal_page ''data.example'' ''/find'' ''?all=1''), (''other search'', portal_page ''data.example'' ''/find'' ''?all=2''),
      (''list'', portal_page ''data.example'' ''/list'' [])]"

definition form_only :: body_readers where
  "form_only = \<lparr>parse_body = (\<lambda>_. None),
     form_fields = (\<lambda>t. if t = ''op=read'' then [(''op'', ''read'')] else [(''op'', ''read''), (''op'', ''write'')])\<rparr>"

definition post_request :: "string \<Rightarrow> string \<Rightarrow> StepKind \<Rightarrow> string \<Rightarrow> string option \<Rightarrow> request_context" where
  "post_request u body kind name action = \<lparr>rq_method = ''POST'', rq_url = u, rq_body = Some body,
     rq_activeStep = Some \<lparr>as_kind = kind, as_name = name, as_recordedAction = action\<rparr>\<rparr>"

lemma form_only_says: "body_says form_only (Some t) field v \<longleftrightarrow>
    t = ''op=read'' \<and> field = ''op'' \<and> v = ''read''"
proof -
  have two: "filter (\<lambda>(k, _). k = field) [(''op'', ''read''), (''op'', ''write'')] \<noteq> [(field, v)]"
    by auto
  show ?thesis
    using two one_entry_iff [of field "form_fields form_only t" field v] unfolding body_says_def form_only_def
    by (auto split: if_splits)
qed

theorem request_allowed_witness:
  "decideRequest portal_urls form_only guarded_recipe (post_request ''login'' [] Kind_Sign_In ''sign_in'' None) = Allow \<and>
   decideRequest portal_urls form_only guarded_recipe (post_request ''other login'' [] Kind_Sign_In ''sign_in'' None) \<noteq> Allow \<and>
   decideRequest portal_urls form_only guarded_recipe (post_request ''search'' [] Kind_Search ''s'' (Some ''search'')) = Allow \<and>
   decideRequest portal_urls form_only guarded_recipe (post_request ''other search'' [] Kind_Search ''s'' (Some ''search'')) \<noteq> Allow \<and>
   decideRequest portal_urls form_only guarded_recipe (post_request ''list'' ''op=read'' Kind_Next_Page ''rows'' None) = Allow \<and>
   decideRequest portal_urls form_only guarded_recipe (post_request ''list'' ''op=read&op=write'' Kind_Next_Page ''rows'' None) \<noteq> Allow"
  unfolding request_allowed post_named_def
  by (simp add: post_request_def portal_urls_def portal_page_def guarded_recipe_def sample_recipe_def form_only_says
      to_upper_char_def is_lower_def code_unit_def)

end
