(* ===== verification/Totp.thy ===== *)
theory Totp
  imports Invariants Money "HOL-Library.Word"
begin

unbundle bit_operations_syntax

text \<open>
  One-time codes of RFC 6238: \<open>packages/portal/src/totp.ts\<close>. A setup key is folded into canonical
  base32, decoded into bytes through a 32-bit buffer, and a code is the truncated HMAC over the number of
  whole thirty-second steps since the epoch. HMAC-SHA-1 is Node's and a parameter. The lemmas show that the
  bytes are the key's bits read from the front, that a folded key folds to itself and can be decoded,
  and that every code has exactly its digits and is one code for the whole of a step.
\<close>

section \<open>The secret\<close>

definition BASE32_ALPHABET :: string where
  "BASE32_ALPHABET = ''ABCDEFGHIJKLMNOPQRSTUVWXYZ234567''"

definition totpSecretMin :: nat where "totpSecretMin = 16"

definition totpSecretMax :: nat where "totpSecretMax = 128"

definition base32_char :: "char \<Rightarrow> bool" where
  "base32_char c \<longleftrightarrow> is_upper c \<or> 50 \<le> code_unit c \<and> code_unit c \<le> 55"

text \<open>\<open>indexOf\<close> in the alphabet, for a character of it.\<close>

definition alphabet_index :: "char \<Rightarrow> nat" where
  "alphabet_index c = length (takeWhile (\<lambda>d. d \<noteq> c) BASE32_ALPHABET)"

record bit_reader =
  br_bytes :: "8 word list"
  br_buffer :: "32 word"
  br_bits :: nat

definition take_char :: "bit_reader \<Rightarrow> char \<Rightarrow> bit_reader" where
  "take_char r c =
     (let buffer = push_bit 5 (br_buffer r) OR of_nat (alphabet_index c);
          bits = br_bits r + 5
      in if bits \<ge> 8
         then \<lparr>br_bytes = br_bytes r @ [ucast (drop_bit (bits - 8) buffer AND 0xFF)],
               br_buffer = buffer AND (push_bit (bits - 8) 1 - 1), br_bits = bits - 8\<rparr>
         else \<lparr>br_bytes = br_bytes r, br_buffer = buffer, br_bits = bits\<rparr>)"

definition secret_bytes :: "string \<Rightarrow> 8 word list" where
  "secret_bytes secret = br_bytes (foldl take_char \<lparr>br_bytes = [], br_buffer = 0, br_bits = 0\<rparr> secret)"

definition decodeSecret :: "string \<Rightarrow> 8 word list res" where
  "decodeSecret secret =
     (if secret = [] \<or> \<not> list_all base32_char secret \<or> length secret mod 8 \<notin> {0, 2, 4, 5, 7}
      then Inl (TotpSecretError ''not canonical base32'')
      else if length secret < totpSecretMin \<or> length secret > totpSecretMax
      then Inl (TotpSecretError ''length'')
      else Inr (secret_bytes secret))"

definition typed_char :: "char \<Rightarrow> bool" where
  "typed_char c \<longleftrightarrow> is_letter c \<or> 50 \<le> code_unit c \<and> code_unit c \<le> 55 \<or> is_ws c \<or> c = CHR ''-''"

definition drop_padding :: "string \<Rightarrow> string" where
  "drop_padding s = rev (dropWhile (\<lambda>c. c = CHR ''='') (rev s))"

definition canonicalTotpSecret :: "string \<Rightarrow> string res" where
  "canonicalTotpSecret typed =
     (let trimmed = trim typed in
      if \<not> list_all typed_char (drop_padding trimmed)
      then Inl (TotpSecretError ''not a setup key'')
      else let canonical = to_upper (filter (\<lambda>c. \<not> (is_ws c \<or> c = CHR ''-'')) (drop_padding trimmed))
           in bind_res (decodeSecret canonical) (\<lambda>_. Inr canonical))"

section \<open>The code\<close>

definition STEP_MS :: int where "STEP_MS = 30 * 1000"

fun wholeMs :: "js_double \<Rightarrow> int res" where
  "wholeMs (Finite v) =
     (if v < 0 \<or> v > of_int max_safe then Inl (TotpInputError ''not a time'') else Inr \<lfloor>v\<rfloor>)"
| "wholeMs _ = Inl (TotpInputError ''not a time'')"

definition assertDigits :: "nat \<Rightarrow> unit res" where
  "assertDigits digits =
     (if digits \<noteq> 6 \<and> digits \<noteq> 7 \<and> digits \<noteq> 8 then Inl (TotpInputError ''6, 7 or 8 digits'') else Inr ())"

definition counter_message :: "64 word \<Rightarrow> 8 word list" where
  "counter_message counter = map (\<lambda>i. ucast (drop_bit (8 * (7 - i)) counter)) [0..<8]"

definition truncated :: "8 word list \<Rightarrow> 32 word" where
  "truncated mac =
     (let offset = unat (last mac AND 0x0F)
      in push_bit 24 (ucast (mac ! offset AND 0x7F)) OR push_bit 16 (ucast (mac ! (offset + 1))) OR
         push_bit 8 (ucast (mac ! (offset + 2))) OR ucast (mac ! (offset + 3)))"

definition hotp :: "(8 word list \<Rightarrow> 8 word list \<Rightarrow> 8 word list) \<Rightarrow> 8 word list \<Rightarrow> int \<Rightarrow> nat \<Rightarrow> string" where
  "hotp hmac key counter digits =
     pad_start digits CHR ''0''
       (nat_text (unat (truncated (hmac key (counter_message (of_int counter)))) mod 10 ^ digits))"

definition totpCode ::
  "(8 word list \<Rightarrow> 8 word list \<Rightarrow> 8 word list) \<Rightarrow> string \<Rightarrow> js_double \<Rightarrow> nat \<Rightarrow> string res" where
  "totpCode hmac secret atMs digits =
     bind_res (assertDigits digits) (\<lambda>_.
     bind_res (wholeMs atMs) (\<lambda>ms.
     bind_res (decodeSecret secret) (\<lambda>key.
     Inr (hotp hmac key (ms div STEP_MS) digits))))"

definition totpStepRemainingMs :: "js_double \<Rightarrow> int res" where
  "totpStepRemainingMs atMs = bind_res (wholeMs atMs) (\<lambda>ms. Inr (STEP_MS - ms mod STEP_MS))"

section \<open>The bytes are the bits of the key\<close>

definition base32_value :: "string \<Rightarrow> nat" where
  "base32_value s = foldl (\<lambda>a c. a * 32 + alphabet_index c) 0 s"

definition bytes_value :: "8 word list \<Rightarrow> nat" where
  "bytes_value bs = foldl (\<lambda>a b. a * 256 + unat b) 0 bs"

lemma alphabet_index_bound: "base32_char c \<Longrightarrow> alphabet_index c < 32"
proof -
  assume "base32_char c"
  then have "code_unit c \<in> set ([65..<91] @ [50..<56])"
    unfolding set_append set_upt base32_char_def is_upper_def by auto
  then have "c \<in> char_of ` set ([65..<91] @ [50..<56])"
    unfolding code_unit_def by (metis char_of_char image_eqI)
  moreover have "char_of ` set ([65..<91] @ [50..<56]) \<subseteq> set BASE32_ALPHABET" by code_simp
  ultimately have "c \<in> set BASE32_ALPHABET" by blast
  then have "length (takeWhile (\<lambda>d. d \<noteq> c) BASE32_ALPHABET) < length BASE32_ALPHABET"
    by (metis (mono_tags, lifting) length_takeWhile_le nat_less_le takeWhile_eq_all_conv takeWhile_eq_take take_all_iff)
  then show ?thesis by (simp add: alphabet_index_def BASE32_ALPHABET_def)
qed

lemma unat_append_five:
  assumes "unat (b :: 32 word) < 2 ^ 8" "i < 32"
  shows "unat (push_bit 5 b OR of_nat i) = unat b * 32 + i"
proof -
  have i: "\<not> bit i n" if "5 \<le> n" for n
  proof -
    have "i < 2 ^ n" using assms(2) power_increasing [OF that, of "2::nat"] by simp
    then show ?thesis by (simp add: bit_iff_odd)
  qed
  have "push_bit 5 b AND of_nat i = 0"
    by (rule bit_word_eqI) (use i in \<open>auto simp: bit_simps\<close>)
  then have "push_bit 5 b OR of_nat i = push_bit 5 b + of_nat i" by (simp add: disjunctive_add_eq_or)
  also have "\<dots> = of_nat (unat b * 32 + i)" by (simp add: push_bit_eq_mult)
  finally have e: "push_bit 5 b OR of_nat i = (of_nat (unat b * 32 + i) :: 32 word)" .
  moreover have "take_bit 32 (unat b * 32 + i) = unat b * 32 + i"
    using assms by (simp add: take_bit_nat_eq_self_iff)
  ultimately show ?thesis unfolding e unsigned_of_nat by simp
qed

text \<open>Before every character the bytes and the buffer together hold the bits read.\<close>

definition reader_holds :: "bit_reader \<Rightarrow> string \<Rightarrow> bool" where
  "reader_holds r s \<longleftrightarrow>
     br_bits r < 8 \<and> unat (br_buffer r) < 2 ^ br_bits r \<and> 8 * length (br_bytes r) + br_bits r = 5 * length s \<and>
     bytes_value (br_bytes r) * 2 ^ br_bits r + unat (br_buffer r) = base32_value s"

lemma unat_low_bits: "unat (w AND (push_bit k 1 - 1) :: 32 word) = unat w mod 2 ^ k"
proof -
  have e: "w AND (push_bit k 1 - 1) = take_bit k w"
    unfolding take_bit_eq_mask mask_eq_exp_minus_1 by (simp add: push_bit_eq_mult)
  show ?thesis unfolding e unsigned_take_bit_eq by (rule take_bit_eq_mod)
qed

lemma unat_top_byte:
  assumes "unat (w :: 32 word) < 2 ^ (k + 8)"
  shows "unat (ucast (drop_bit k w AND 0xFF) :: 8 word) = unat w div 2 ^ k"
proof -
  have l: "unat w div 2 ^ k < 256" using assms by (simp add: less_mult_imp_div_less power_add mult.commute)
  have e: "drop_bit k w AND 0xFF = take_bit 8 (drop_bit k w)"
    unfolding take_bit_eq_mask mask_eq_exp_minus_1 by simp
  have "unat (ucast (drop_bit k w AND 0xFF) :: 8 word) = take_bit 8 (take_bit 8 (unat w div 2 ^ k))"
    unfolding e unsigned_ucast_eq unsigned_take_bit_eq unat_drop_bit_eq by (simp add: drop_bit_eq_div)
  also have "\<dots> = unat w div 2 ^ k" using l by (simp add: take_bit_nat_eq_self_iff)
  finally show ?thesis .
qed

lemma bytes_value_snoc: "bytes_value (bs @ [b]) = bytes_value bs * 256 + unat b"
  by (simp add: bytes_value_def)

lemma base32_value_snoc: "base32_value (s @ [c]) = base32_value s * 32 + alphabet_index c"
  by (simp add: base32_value_def)

lemma take_char_holds:
  assumes "reader_holds r s" "base32_char c"
  shows "reader_holds (take_char r c) (s @ [c])"
proof -
  let ?i = "alphabet_index c" and ?n = "unat (br_buffer r) * 32 + alphabet_index c" and ?b = "br_bits r"
  let ?w = "push_bit 5 (br_buffer r) OR of_nat ?i"
  have r: "?b < 8" "unat (br_buffer r) < 2 ^ ?b" "8 * length (br_bytes r) + ?b = 5 * length s"
    "bytes_value (br_bytes r) * 2 ^ ?b + unat (br_buffer r) = base32_value s"
    using assms(1) by (simp_all add: reader_holds_def)
  have i: "?i < 32" using assms(2) by (rule alphabet_index_bound)
  have "(2::nat) ^ ?b \<le> 2 ^ 7" using r(1) by (intro power_increasing) simp_all
  then have w: "unat ?w = ?n" using r(2) i by (intro unat_append_five) simp_all
  have n: "?n < 2 ^ (?b + 5)"
  proof -
    have "?n < (unat (br_buffer r) + 1) * 32" using i by simp
    also have "\<dots> \<le> 2 ^ ?b * 32" using r(2) by (intro mult_right_mono) simp_all
    finally show ?thesis by (simp add: power_add)
  qed
  have v: "base32_value (s @ [c]) = bytes_value (br_bytes r) * 2 ^ (?b + 5) + ?n"
    unfolding base32_value_snoc r(4) [symmetric] by (simp add: power_add algebra_simps)
  show ?thesis
  proof (cases "?b + 5 \<ge> 8")
    case False
    then show ?thesis using r(3) n v w by (simp add: take_char_def Let_def reader_holds_def)
  next
    case True
    define k where "k = ?b + 5 - 8"
    have b: "?b + 5 = k + 8" using True by (simp add: k_def)
    have top: "unat (ucast (drop_bit k ?w AND 0xFF) :: 8 word) = ?n div 2 ^ k"
      using n unfolding w [symmetric] b by (rule unat_top_byte)
    have "base32_value (s @ [c]) = bytes_value (br_bytes r) * 256 * 2 ^ k + (?n div 2 ^ k * 2 ^ k + ?n mod 2 ^ k)"
      unfolding v b by (simp add: power_add div_mult_mod_eq)
    also have "\<dots> = (bytes_value (br_bytes r) * 256 + ?n div 2 ^ k) * 2 ^ k + ?n mod 2 ^ k"
      by (simp add: algebra_simps)
    finally have "bytes_value (br_bytes r @ [ucast (drop_bit k ?w AND 0xFF)]) * 2 ^ k +
        unat (?w AND (push_bit k 1 - 1)) = base32_value (s @ [c])"
      unfolding bytes_value_snoc top unat_low_bits w by simp
    moreover have "unat (?w AND (push_bit k 1 - 1)) < 2 ^ k" unfolding unat_low_bits by simp
    ultimately show ?thesis
      using True r(1,3) b unfolding take_char_def Let_def reader_holds_def k_def by simp
  qed
qed

lemma reader_holds_all:
  assumes "list_all base32_char s"
  shows "reader_holds (foldl take_char \<lparr>br_bytes = [], br_buffer = 0, br_bits = 0\<rparr> s) s"
  using assms
proof (induction s rule: rev_induct)
  case Nil
  then show ?case by (simp add: reader_holds_def bytes_value_def base32_value_def)
next
  case (snoc c s)
  then show ?case using take_char_holds by simp
qed

lemma secret_bytes_value:
  assumes "list_all base32_char s"
  shows "length (secret_bytes s) = 5 * length s div 8"
    "bytes_value (secret_bytes s) = base32_value s div 2 ^ (5 * length s mod 8)"
proof -
  define r where "r = foldl take_char \<lparr>br_bytes = [], br_buffer = 0, br_bits = 0\<rparr> s"
  have h: "reader_holds r s" unfolding r_def by (rule reader_holds_all [OF assms])
  have b: "secret_bytes s = br_bytes r" by (simp add: secret_bytes_def r_def)
  from h have n: "br_bits r < 8" "8 * length (br_bytes r) + br_bits r = 5 * length s"
    and u: "unat (br_buffer r) < 2 ^ br_bits r"
    and v: "bytes_value (br_bytes r) * 2 ^ br_bits r + unat (br_buffer r) = base32_value s"
    by (simp_all add: reader_holds_def)
  have bits: "br_bits r = 5 * length s mod 8" and len: "length (br_bytes r) = 5 * length s div 8"
    unfolding n(2) [symmetric] using n(1) by simp_all
  show "length (secret_bytes s) = 5 * length s div 8" using len b by simp
  have "base32_value s div 2 ^ br_bits r = bytes_value (br_bytes r)"
    unfolding v [symmetric] using u by simp
  then show "bytes_value (secret_bytes s) = base32_value s div 2 ^ (5 * length s mod 8)"
    unfolding b bits by simp
qed

lemma decodeSecret_Inr:
  "decodeSecret s = Inr key \<longleftrightarrow>
     list_all base32_char s \<and> length s mod 8 \<in> {0, 2, 4, 5, 7} \<and> 16 \<le> length s \<and> length s \<le> 128 \<and>
     key = secret_bytes s"
  by (auto simp: decodeSecret_def totpSecretMin_def totpSecretMax_def)

text \<open>C40: a decoded secret has one byte for every eight of its bits, and read as one number its bytes are
  the number its base32 digits write, without the bits past the last whole byte.\<close>

theorem secret_decoded:
  assumes "decodeSecret secret = Inr key"
  shows "length key = 5 * length secret div 8 \<and>
    bytes_value key = base32_value secret div 2 ^ (5 * length secret mod 8)"
  using assms secret_bytes_value unfolding decodeSecret_Inr by blast

section \<open>Folding a typed key\<close>

lemma base32_char_typed: "base32_char c \<Longrightarrow> typed_char c \<and> \<not> is_ws c \<and> c \<noteq> CHR ''-'' \<and> c \<noteq> CHR ''=''"
  by (auto simp: base32_char_def typed_char_def is_letter_def is_upper_def is_ws_def code_unit_def)

lemma base32_char_upper: "base32_char c \<Longrightarrow> to_upper_char c = c"
  by (auto simp: base32_char_def to_upper_char_def is_upper_def is_lower_def)

lemma canonical_of_canonical:
  assumes "list_all base32_char s"
  shows "to_upper (filter (\<lambda>c. \<not> (is_ws c \<or> c = CHR ''-'')) (drop_padding (trim s))) = s"
    "list_all typed_char (drop_padding (trim s))"
proof -
  have c: "base32_char c" if "c \<in> set s" for c using assms that by (simp add: list_all_iff)
  have t: "trim s = s" using c base32_char_typed by (intro trim_no_ws) blast
  have p: "drop_padding s = s"
  proof (cases s rule: rev_cases)
    case (snoc s' x)
    then have "x \<noteq> CHR ''=''" using c base32_char_typed by auto
    with snoc show ?thesis by (simp add: drop_padding_def)
  qed (simp add: drop_padding_def)
  have f: "filter (\<lambda>c. \<not> (is_ws c \<or> c = CHR ''-'')) s = s" using c base32_char_typed by (auto simp: filter_id_conv)
  show "to_upper (filter (\<lambda>c. \<not> (is_ws c \<or> c = CHR ''-'')) (drop_padding (trim s))) = s"
    unfolding t p f using c base32_char_upper by (simp add: map_idI)
  show "list_all typed_char (drop_padding (trim s))"
    unfolding t p using c base32_char_typed by (simp add: list_all_iff)
qed

definition folded :: "string \<Rightarrow> string" where
  "folded typed = to_upper (filter (\<lambda>c. \<not> (is_ws c \<or> c = CHR ''-'')) (drop_padding (trim typed)))"

lemma canonicalTotpSecret_Inr:
  "canonicalTotpSecret typed = Inr s \<longleftrightarrow>
     list_all typed_char (drop_padding (trim typed)) \<and> s = folded typed \<and> (\<exists>key. decodeSecret s = Inr key)"
  unfolding canonicalTotpSecret_def Let_def folded_def [symmetric]
  by (cases "decodeSecret (folded typed)") auto

text \<open>A setup key that is accepted is folded to a secret that decodes, and folding that secret again
  gives the same secret, so what is sealed is what the worker computes codes from.\<close>

theorem folded_key_usable:
  assumes "canonicalTotpSecret typed = Inr secret"
  shows "canonicalTotpSecret secret = Inr secret \<and> (\<exists>key. decodeSecret secret = Inr key) \<and> secret = folded typed"
proof -
  from assms obtain key where d: "decodeSecret secret = Inr key" and s: "secret = folded typed"
    unfolding canonicalTotpSecret_Inr by blast
  from d have "list_all base32_char secret" by (simp add: decodeSecret_Inr)
  from canonical_of_canonical [OF this] d have "canonicalTotpSecret secret = Inr secret"
    unfolding canonicalTotpSecret_Inr folded_def by simp
  with d s show ?thesis by blast
qed

section \<open>Every code has its digits\<close>

lemma totpCode_Inr:
  "totpCode hmac secret atMs digits = Inr code \<longleftrightarrow>
     digits \<in> {6, 7, 8} \<and>
     (\<exists>ms key. wholeMs atMs = Inr ms \<and> decodeSecret secret = Inr key \<and> code = hotp hmac key (ms div STEP_MS) digits)"
  by (auto simp: totpCode_def assertDigits_def bind_res_Inr_iff split: if_splits)

lemma hotp_digits: "0 < digits \<Longrightarrow> length (hotp hmac key n digits) = digits \<and> list_all is_digit (hotp hmac key n digits)"
  unfolding hotp_def list_all_iff
  by (intro conjI length_pad_start length_nat_text_less pad_start_digits nat_text_digits) simp_all

text \<open>C39: a code has exactly the digits asked for, all of them decimal digits, and until the remaining
  milliseconds of its step have passed, which are more than none and at most thirty seconds, every later
  time gives the same code.\<close>

theorem code_for_a_step:
  assumes "totpCode hmac secret atMs digits = Inr code"
  shows "length code = digits \<and> list_all is_digit code \<and>
    (\<exists>ms left. wholeMs atMs = Inr ms \<and> totpStepRemainingMs atMs = Inr left \<and> 0 < left \<and> left \<le> STEP_MS \<and>
       (\<forall>later. wholeMs (Finite later) = Inr \<lfloor>later\<rfloor> \<longrightarrow> ms \<le> \<lfloor>later\<rfloor> \<longrightarrow> \<lfloor>later\<rfloor> < ms + left \<longrightarrow>
          totpCode hmac secret (Finite later) digits = Inr code))"
proof -
  from assms obtain ms key where d: "digits \<in> {6, 7, 8}" and ms: "wholeMs atMs = Inr ms"
    and k: "decodeSecret secret = Inr key" and c: "code = hotp hmac key (ms div STEP_MS) digits"
    unfolding totpCode_Inr by blast
  define left where "left = STEP_MS - ms mod STEP_MS"
  have l: "0 < left" "left \<le> STEP_MS" by (simp_all add: left_def STEP_MS_def)
  have same: "n div STEP_MS = ms div STEP_MS" if "ms \<le> n" "n < ms + left" for n
  proof (rule int_div_pos_eq)
    have "ms = STEP_MS * (ms div STEP_MS) + ms mod STEP_MS" by simp
    moreover have "0 \<le> ms mod STEP_MS" by (simp add: STEP_MS_def)
    ultimately show "n = STEP_MS * (ms div STEP_MS) + (n - STEP_MS * (ms div STEP_MS))"
      "0 \<le> n - STEP_MS * (ms div STEP_MS)" "n - STEP_MS * (ms div STEP_MS) < STEP_MS"
      using that unfolding left_def by linarith+
  qed
  have "totpCode hmac secret (Finite later) digits = Inr code"
    if "wholeMs (Finite later) = Inr \<lfloor>later\<rfloor>" "ms \<le> \<lfloor>later\<rfloor>" "\<lfloor>later\<rfloor> < ms + left" for later
    using that d k same unfolding totpCode_Inr c by metis
  moreover have "totpStepRemainingMs atMs = Inr left" by (simp add: totpStepRemainingMs_def ms left_def)
  moreover have "length code = digits \<and> list_all is_digit code"
    unfolding c using d by (intro hotp_digits) auto
  ultimately show ?thesis using ms l by blast
qed

lemma sample_secret: "decodeSecret ''JBSWY3DPEHPK3PXP'' = Inr (secret_bytes ''JBSWY3DPEHPK3PXP'')"
  by (simp add: decodeSecret_def totpSecretMin_def totpSecretMax_def base32_char_def is_upper_def code_unit_def)

theorem secret_decoded_witness:
  "length (secret_bytes ''JBSWY3DPEHPK3PXP'') = 10 \<and>
   bytes_value (secret_bytes ''JBSWY3DPEHPK3PXP'') = base32_value ''JBSWY3DPEHPK3PXP''"
  using secret_decoded [OF sample_secret] by simp

theorem folded_key_usable_witness:
  "canonicalTotpSecret ''jbsw y3dp-ehpk 3pxp=='' = Inr ''JBSWY3DPEHPK3PXP'' \<and>
   canonicalTotpSecret ''JBSWY3DPEHPK3PXP'' = Inr ''JBSWY3DPEHPK3PXP''"
proof -
  have "canonicalTotpSecret ''jbsw y3dp-ehpk 3pxp=='' = Inr ''JBSWY3DPEHPK3PXP''"
    unfolding canonicalTotpSecret_Inr folded_def
    by (simp add: sample_secret drop_padding_def trim_def trim_start_def trim_end_def is_ws_def code_unit_def
        typed_char_def is_letter_def is_lower_def is_upper_def to_upper_char_def) code_simp
  with folded_key_usable [OF this] show ?thesis by blast
qed

theorem code_for_a_step_witness:
  "\<exists>code. totpCode (\<lambda>_ _. replicate 20 7) ''JBSWY3DPEHPK3PXP'' (Finite 59000) 6 = Inr code \<and> length code = 6"
proof -
  have "wholeMs (Finite 59000) = Inr 59000" by (simp add: max_safe_def)
  then obtain code where c: "totpCode (\<lambda>_ _. replicate 20 7) ''JBSWY3DPEHPK3PXP'' (Finite 59000) 6 = Inr code"
    using sample_secret by (simp add: totpCode_def assertDigits_def)
  with code_for_a_step [OF c] show ?thesis by blast
qed

end
