(* ===== verification/Flatten.thy ===== *)
theory Flatten
  imports Qbo_Reader
begin

text \<open>
  One row per extracted field: \<open>packages/extraction/src/flatten.ts\<close>, and which fields are money,
  from \<open>amounts.ts\<close>. A document is JSON, as \<open>Qbo_Reader\<close> has it, with each key of an object once and no
  key that is a number. The lemmas show what every stored row carries: a page, a quote, a
  probability, and a box inside the page or none.
\<close>

section \<open>Rows\<close>

record extracted_field =
  ef_fieldPath :: string
  ef_value :: response
  ef_confidence :: js_double
  ef_sourcePage :: js_double
  ef_sourceQuote :: string
  ef_sourceBbox :: "js_double list option"

definition isFieldObject :: "JsonObject \<Rightarrow> bool" where
  "isFieldObject row \<longleftrightarrow>
     list_all (\<lambda>k. key_of row k \<noteq> None) [''value'', ''confidence'', ''source_page'', ''source_quote'']"

fun finite_number :: "response \<Rightarrow> js_double option" where
  "finite_number (R_Num (Finite v)) = Some (Finite v)"
| "finite_number _ = None"

definition normaliseBbox :: "response option \<Rightarrow> js_double list option" where
  "normaliseBbox raw =
     (case raw of
        Some (R_Arr xs) \<Rightarrow>
          (case List.map_filter finite_number xs of
             [x0, y0, x1, y1] \<Rightarrow>
               if list_ex (\<lambda>n. js_less n (Finite 0) \<or> js_less (Finite 1) n) [x0, y0, x1, y1] then None
               else if js_less x1 x0 \<or> js_less y1 y0 then None
               else Some [x0, y0, x1, y1]
           | _ \<Rightarrow> None)
      | _ \<Rightarrow> None)"

definition clampConfidence :: "response option \<Rightarrow> js_double" where
  "clampConfidence raw =
     (case raw of Some (R_Num (Finite v)) \<Rightarrow> Finite (min 1 (max 0 v)) | _ \<Rightarrow> Finite 0)"

text \<open>\<open>Math.trunc\<close>: toward zero, and a special value is itself.\<close>

fun js_trunc :: "js_double \<Rightarrow> js_double" where
  "js_trunc (Finite v) = Finite (of_int (if v < 0 then \<lceil>v\<rceil> else \<lfloor>v\<rfloor>))"
| "js_trunc x = x"

definition page_of :: "response option \<Rightarrow> js_double" where
  "page_of raw = (case raw of Some (R_Num n) \<Rightarrow> js_trunc n | _ \<Rightarrow> Finite 0)"

definition quote_of :: "response option \<Rightarrow> string" where
  "quote_of raw = (case raw of Some (R_Str s) \<Rightarrow> trim s | _ \<Rightarrow> [])"

definition field_row :: "JsonObject \<Rightarrow> string \<Rightarrow> extracted_field list" where
  "field_row node path =
     (case key_of node ''value'' of
        None \<Rightarrow> []
      | Some v \<Rightarrow>
          if v = R_Null then []
          else let page = page_of (key_of node ''source_page''); quoted = quote_of (key_of node ''source_quote'')
               in if js_less page (Finite 1) \<or> quoted = [] then []
                  else [\<lparr>ef_fieldPath = path, ef_value = v,
                         ef_confidence = clampConfidence (key_of node ''confidence''),
                         ef_sourcePage = page, ef_sourceQuote = take 2000 quoted,
                         ef_sourceBbox = normaliseBbox (key_of node ''source_bbox'')\<rparr>])"

fun walk :: "response \<Rightarrow> string \<Rightarrow> extracted_field list"
  and walk_items :: "response list \<Rightarrow> string \<Rightarrow> nat \<Rightarrow> extracted_field list"
  and walk_entries :: "(string \<times> response) list \<Rightarrow> string \<Rightarrow> extracted_field list" where
  "walk (R_Obj node) path = (if isFieldObject node then field_row node path else walk_entries node path)"
| "walk (R_Arr items) path = walk_items items path 0"
| "walk _ path = []"
| "walk_items [] path i = []"
| "walk_items (x # xs) path i = walk x (indexed path i) @ walk_items xs path (i + 1)"
| "walk_entries [] path = []"
| "walk_entries ((key, v) # entries) path =
     walk v (if path = [] then key else dotted path key) @ walk_entries entries path"

definition flattenExtraction :: "response \<Rightarrow> extracted_field list" where
  "flattenExtraction document = walk document []"

section \<open>Which fields are money\<close>

datatype MoneyKind = Amount_Kind | Unit_Price_Kind

fun holds_text :: "string \<Rightarrow> string \<Rightarrow> bool" where
  "holds_text part [] = (part = [])"
| "holds_text part (c # s) = (take (length part) (c # s) = part \<or> holds_text part s)"

definition moneyKindOf :: "string \<Rightarrow> MoneyKind option" where
  "moneyKindOf fieldPath =
     (let leaf = last (split_on CHR ''.'' fieldPath)
      in if leaf = ''unit_cost'' then Some Unit_Price_Kind
         else if holds_text ''_amount'' leaf \<or> holds_text ''_total'' leaf then Some Amount_Kind
         else None)"

section \<open>What a row carries\<close>

definition sound_row :: "extracted_field \<Rightarrow> bool" where
  "sound_row f \<longleftrightarrow>
     ef_value f \<noteq> R_Null \<and> isProbability (ef_confidence f) \<and> \<not> js_less (ef_sourcePage f) (Finite 1) \<and>
     ef_sourceQuote f \<noteq> [] \<and> length (ef_sourceQuote f) \<le> 2000 \<and> \<not> is_ws (hd (ef_sourceQuote f)) \<and>
     (case ef_sourceBbox f of
        None \<Rightarrow> True
      | Some box \<Rightarrow> \<exists>x0 y0 x1 y1. box = map Finite [x0, y0, x1, y1] \<and>
          0 \<le> x0 \<and> x0 \<le> x1 \<and> x1 \<le> 1 \<and> 0 \<le> y0 \<and> y0 \<le> y1 \<and> y1 \<le> 1)"

lemma clampConfidence_probability: "isProbability (clampConfidence raw)"
  by (auto simp: clampConfidence_def isProbability_def split: option.splits response.splits js_double.splits)

lemma finite_number_Some: "finite_number x = Some n \<Longrightarrow> \<exists>v. n = Finite v"
  by (induction x rule: finite_number.induct) auto

lemma normaliseBbox_inside:
  assumes "normaliseBbox raw = Some box"
  shows "\<exists>x0 y0 x1 y1. box = map Finite [x0, y0, x1, y1] \<and>
    0 \<le> x0 \<and> x0 \<le> x1 \<and> x1 \<le> 1 \<and> 0 \<le> y0 \<and> y0 \<le> y1 \<and> y1 \<le> 1"
proof -
  from assms obtain xs where xs: "raw = Some (R_Arr xs)"
    by (auto simp: normaliseBbox_def split: option.splits response.splits)
  from assms obtain a b c d where l: "List.map_filter finite_number xs = [a, b, c, d]" and box: "box = [a, b, c, d]"
    and r: "\<not> list_ex (\<lambda>n. js_less n (Finite 0) \<or> js_less (Finite 1) n) [a, b, c, d]"
      "\<not> js_less c a" "\<not> js_less d b"
    unfolding xs by (auto simp: normaliseBbox_def split: list.splits if_splits)
  have "\<forall>n\<in>set (List.map_filter finite_number xs). \<exists>v. n = Finite v"
    using finite_number_Some by (auto simp: List.map_filter_def)
  then obtain p q u v where "a = Finite p" "b = Finite q" "c = Finite u" "d = Finite v" unfolding l by auto
  with r box show ?thesis by auto
qed

lemma trim_first: "trim s \<noteq> [] \<Longrightarrow> \<not> is_ws (hd (trim s))"
  unfolding trim_def using hd_trim_end trim_start_ends by (metis trim_end_def dropWhile.simps(1) rev.simps(1))

lemma field_row_sound: "list_all sound_row (field_row node path)"
proof -
  have "\<not> is_ws (hd (quote_of raw))" if "quote_of raw \<noteq> []" for raw
    using that trim_first by (auto simp: quote_of_def split: option.splits response.splits)
  then show ?thesis
    using normaliseBbox_inside clampConfidence_probability
    by (auto simp: field_row_def sound_row_def Let_def hd_take split: option.splits)
qed

lemma walk_sound:
  "list_all sound_row (walk v path)" "list_all sound_row (walk_items vs path i)"
  "list_all sound_row (walk_entries es path)"
  by (induction v path and vs path i and es path rule: walk_walk_items_walk_entries.induct)
    (simp_all add: field_row_sound)

text \<open>Whatever the response holds, every row that is stored has a confidence within 0 and 1, a page
  number that can be stored, a quote of at most 2000 characters and a box that lies on its page.\<close>

theorem stored_rows_sound: "list_all sound_row (flattenExtraction document)"
  unfolding flattenExtraction_def by (rule walk_sound)

end
