(* ===== verification/Sheet_Reading.thy ===== *)
theory Sheet_Reading
  imports Flatten Number_Cell Csv
begin

text \<open>
  A spreadsheet read by code through a mapping a person confirmed: \<open>packages/pipeline/src/sheet-reading.ts\<close>,
  with the mapping's header of \<open>sheet-mapping.ts\<close>, the cells of \<open>packages/ingest/src/sheet-read.ts\<close> a
  delimited file gives, and the recording of a reading in \<open>packages/pipeline/src/steps.ts\<close>. The
  schema's verdict on the document is a parameter. The lemmas are in \<open>Sheet_Facts\<close>.
\<close>

section \<open>Cells and mappings\<close>

datatype CellType = Shared_String_Cell | Inline_String_Cell | Numeric_Cell | Boolean_Cell | Date_Serial_Cell | Csv_Field_Cell

record sheet_cell =
  sc_row :: int
  sc_column :: int
  sc_ref :: string
  sc_type :: CellType
  sc_text :: string
  sc_numberFormat :: "string option"
  sc_wasFormula :: bool
  sc_hidden :: bool

record parsed_sheet =
  ps_ordinal :: int
  ps_name :: string
  ps_cells :: "sheet_cell list"

record parsed_workbook =
  pb_date1904 :: bool
  pb_sheets :: "parsed_sheet list"

text \<open>\<open>3\<close> is \<open>C\<close> and \<open>28\<close> is \<open>AB\<close>.\<close>

fun column_letters :: "nat \<Rightarrow> string" where
  "column_letters n =
     (if n = 0 then [] else column_letters ((n - 1) div 26) @ [char_of (65 + (n - 1) mod 26)])"

declare column_letters.simps [simp del]

definition columnLetters :: "int \<Rightarrow> string" where
  "columnLetters column = column_letters (nat column)"

definition cellRef :: "int \<Rightarrow> int \<Rightarrow> string" where
  "cellRef row column = columnLetters column @ int_text row"

definition csv_cells :: "string list list \<Rightarrow> sheet_cell list" where
  "csv_cells rows =
     concat (map (\<lambda>(r, fs).
       concat (map (\<lambda>(c, text).
         if text = [] then []
         else [\<lparr>sc_row = int r + 1, sc_column = int c + 1, sc_ref = cellRef (int r + 1) (int c + 1),
                sc_type = Csv_Field_Cell, sc_text = text, sc_numberFormat = None, sc_wasFormula = False,
                sc_hidden = False\<rparr>]) (enumerate 0 fs))) (enumerate 0 rows))"

definition csv_workbook :: "string list list \<Rightarrow> parsed_workbook" where
  "csv_workbook rows =
     \<lparr>pb_date1904 = False, pb_sheets = [\<lparr>ps_ordinal = 0, ps_name = ''Sheet1'', ps_cells = csv_cells rows\<rparr>]\<rparr>"

datatype SheetShape = Remittance_Shape | Deduction_List_Shape

datatype NonLineRule = Blank_Column int | First_Cell_Matches "string list"

datatype SheetSign = Deductions_Positive | Deductions_Negative

text \<open>A mapping names each field's column, counted from 1; the keys of \<open>columns\<close> are different.\<close>

record sheet_mapping =
  sm_headerRow :: int
  sm_sheetName :: string
  sm_shape :: SheetShape
  sm_columns :: "(string \<times> int) list"
  sm_nonLineRule :: NonLineRule
  sm_sign :: SheetSign
  sm_dateOrder :: DateOrder

definition headerFingerprint :: "string list \<Rightarrow> string list" where
  "headerFingerprint texts = map trim texts"

definition rowCells :: "parsed_sheet \<Rightarrow> int \<Rightarrow> sheet_cell list" where
  "rowCells sheet row = sort_key sc_column (filter (\<lambda>c. sc_row c = row) (ps_cells sheet))"

definition HEADER_SEARCH_ROWS :: int where "HEADER_SEARCH_ROWS = 10"

definition headerCandidates :: "parsed_workbook \<Rightarrow> (parsed_sheet \<times> int \<times> string list) list" where
  "headerCandidates wb =
     concat (map (\<lambda>sheet. concat (map (\<lambda>row.
       let cells = rowCells sheet row
       in if cells = [] then [] else [(sheet, row, headerFingerprint (map sc_text cells))])
       [1..HEADER_SEARCH_ROWS])) (pb_sheets wb))"

section \<open>One cell\<close>

definition moneyFromCell :: "sheet_cell \<Rightarrow> bool \<Rightarrow> int res" where
  "moneyFromCell cell flip =
     bind_res
       (if sc_type cell = Numeric_Cell
        then bind_res (numberCellToMoneyText (sc_text cell)) parseMoneyToCents
        else if sc_type cell \<in> {Shared_String_Cell, Inline_String_Cell, Csv_Field_Cell}
        then parseMoneyToCents (sc_text cell)
        else Inl (RangeError ''not money''))
       (\<lambda>value. Inr (if flip \<and> value \<noteq> 0 then - value else value))"

text \<open>\<open>/^\d+(?:\.\d+)?$/\<close>\<close>

definition plain_decimal :: "string \<Rightarrow> bool" where
  "plain_decimal s \<longleftrightarrow>
     takeWhile is_digit s \<noteq> [] \<and>
     (case dropWhile is_digit s of
        [] \<Rightarrow> True | c # r \<Rightarrow> c = CHR ''.'' \<and> r \<noteq> [] \<and> list_all is_digit r)"

definition unitPriceText :: "sheet_cell \<Rightarrow> string res" where
  "unitPriceText cell =
     (if sc_type cell = Numeric_Cell \<and> \<not> plain_decimal (trim (sc_text cell))
      then Inl (RangeError ''not a plain unit price'')
      else if sc_type cell \<in> {Boolean_Cell, Date_Serial_Cell} then Inl (RangeError ''not a price'')
      else bind_res (parseUnitPrice (sc_text cell)) (\<lambda>_. Inr (trim (sc_text cell))))"

definition dateFromCell :: "sheet_cell \<Rightarrow> parsed_workbook \<Rightarrow> sheet_mapping \<Rightarrow> string res" where
  "dateFromCell cell wb mapping =
     (if sc_type cell = Date_Serial_Cell then excelSerialToIso (sc_text cell) (pb_date1904 wb)
      else if sc_type cell \<in> {Numeric_Cell, Boolean_Cell} then Inl (RangeError ''not a date'')
      else parsePrintedDate (sc_text cell) (sm_dateOrder mapping))"

text \<open>\<open>/^-?\d+$/\<close>\<close>

definition whole_number :: "string \<Rightarrow> bool" where
  "whole_number s \<longleftrightarrow>
     (let t = (case s of c # r \<Rightarrow> if c = CHR ''-'' then r else s | [] \<Rightarrow> [])
      in t \<noteq> [] \<and> list_all is_digit t)"

definition DATE_FIELDS :: "string list" where
  "DATE_FIELDS = [''deduction_date'', ''dispute_deadline'', ''payment_date'']"

definition QTY_FIELDS :: "string list" where
  "QTY_FIELDS = [''qty_invoiced'', ''qty_received'']"

definition flipsSign :: "string \<Rightarrow> sheet_mapping \<Rightarrow> bool" where
  "flipsSign field mapping \<longleftrightarrow> sm_sign mapping = Deductions_Negative \<and> field = ''deduction_amount''"

definition cell_value :: "string \<Rightarrow> sheet_cell \<Rightarrow> parsed_workbook \<Rightarrow> sheet_mapping \<Rightarrow> string res" where
  "cell_value name cell wb mapping =
     (if name = ''unit_cost'' then unitPriceText cell
      else if moneyKindOf name = Some Amount_Kind
      then bind_res (moneyFromCell cell (flipsSign name mapping)) (\<lambda>c. Inr (formatCents c))
      else if name \<in> set DATE_FIELDS then dateFromCell cell wb mapping
      else if name \<in> set QTY_FIELDS
      then (if whole_number (trim (sc_text cell)) then Inr (trim (sc_text cell))
            else Inl (RangeError ''not a whole quantity''))
      else Inr (trim (sc_text cell)))"

section \<open>Rows\<close>

text \<open>A field object of a sheet reading: every value read is a text, at confidence 1.\<close>

record sheet_field =
  sf_value :: "string option"
  sf_source_page :: int
  sf_source_quote :: string

definition fieldOf :: "string \<Rightarrow> sheet_cell \<Rightarrow> parsed_sheet \<Rightarrow> sheet_field" where
  "fieldOf value cell sheet =
     \<lparr>sf_value = Some value, sf_source_page = ps_ordinal sheet + 1, sf_source_quote = sc_text cell\<rparr>"

definition absent_field :: sheet_field where
  "absent_field = \<lparr>sf_value = None, sf_source_page = 0, sf_source_quote = []\<rparr>"

text \<open>The name of an error's class as \<open>error.name\<close> has it: only the built-in ones have one of their own.\<close>

definition error_name :: "failure \<Rightarrow> string" where
  "error_name e = (case e of RangeError _ \<Rightarrow> ''RangeError'' | _ \<Rightarrow> ''Error'')"

type_synonym row_fields = "(string \<times> sheet_field \<times> sheet_cell) list"

fun readRow :: "(int \<Rightarrow> sheet_cell option) \<Rightarrow> parsed_workbook \<Rightarrow> parsed_sheet \<Rightarrow> sheet_mapping \<Rightarrow>
    (string \<times> int) list \<Rightarrow> string + row_fields" where
  "readRow byColumn wb sheet mapping [] = Inr []"
| "readRow byColumn wb sheet mapping ((name, column) # columns) =
     (case byColumn column of
        None \<Rightarrow> readRow byColumn wb sheet mapping columns
      | Some cell \<Rightarrow>
          if trim (sc_text cell) = [] then readRow byColumn wb sheet mapping columns
          else case cell_value name cell wb mapping of
            Inl e \<Rightarrow> Inl (name @ '' at '' @ sc_ref cell @ '': '' @ error_name e)
          | Inr value \<Rightarrow>
              (case readRow byColumn wb sheet mapping columns of
                 Inl reason \<Rightarrow> Inl reason
               | Inr fs \<Rightarrow> Inr ((name, fieldOf value cell sheet, cell) # fs)))"

definition by_column :: "sheet_cell list \<Rightarrow> int \<Rightarrow> sheet_cell option" where
  "by_column cells column = map_of (rev (map (\<lambda>c. (sc_column c, c)) cells)) column"

definition isNonLine :: "sheet_cell list \<Rightarrow> sheet_mapping \<Rightarrow> bool" where
  "isNonLine cells mapping =
     (case sm_nonLineRule mapping of
        Blank_Column column \<Rightarrow>
          (case by_column cells column of None \<Rightarrow> True | Some cell \<Rightarrow> trim (sc_text cell) = [])
      | First_Cell_Matches texts \<Rightarrow>
          (case cells of [] \<Rightarrow> False | first # _ \<Rightarrow> trim (sc_text first) \<in> set texts))"

datatype row_result = Row_Skipped | Row_Unreadable string | Row_Read row_fields

definition classify_row :: "parsed_workbook \<Rightarrow> parsed_sheet \<Rightarrow> sheet_mapping \<Rightarrow> int \<Rightarrow> row_result" where
  "classify_row wb sheet mapping r =
     (let cells = rowCells sheet r in
      if isNonLine cells mapping then Row_Skipped
      else case readRow (by_column cells) wb sheet mapping (sm_columns mapping) of
        Inl reason \<Rightarrow> Row_Unreadable reason
      | Inr fs \<Rightarrow>
          if sm_shape mapping = Deduction_List_Shape \<and> map_of fs ''deduction_reference'' = None
          then Row_Unreadable ''no deduction reference to key the claim on''
          else if map_of fs ''deduction_amount'' = None \<and> sm_shape mapping = Deduction_List_Shape
          then Row_Unreadable ''no deduction amount''
          else Row_Read fs)"

section \<open>The document\<close>

definition TOP_FIELDS :: "SheetShape \<Rightarrow> string list" where
  "TOP_FIELDS shape =
     (case shape of
        Remittance_Shape \<Rightarrow> [''payer_name'', ''payment_reference'', ''payment_date'', ''payment_total'']
      | Deduction_List_Shape \<Rightarrow>
          [''retailer_name'', ''vendor_number'', ''invoice_number'', ''po_number'', ''store_or_dc'', ''gln'',
           ''asn_number'', ''deduction_date'', ''dispute_deadline'', ''remittance_or_check''])"

definition LINE_FIELDS :: "SheetShape \<Rightarrow> string list" where
  "LINE_FIELDS shape =
     (case shape of
        Remittance_Shape \<Rightarrow> [''invoice_number'', ''gross_amount'', ''deduction_amount'', ''net_amount'', ''reason_code'']
      | Deduction_List_Shape \<Rightarrow>
          [''sku_upc'', ''description'', ''qty_invoiced'', ''qty_received'', ''unit_cost'', ''deduction_amount'',
           ''reason_code'', ''deduction_reference'', ''reason_description''])"

definition sheetFields :: "SheetShape \<Rightarrow> string list" where
  "sheetFields shape = TOP_FIELDS shape @ LINE_FIELDS shape"

text \<open>A top field is kept when every row that prints it prints the same text: its first row's field.\<close>

definition shared_top :: "row_fields list \<Rightarrow> string \<Rightarrow> (sheet_field \<times> sheet_cell) option" where
  "shared_top read_rows name =
     (let printed = List.map_filter (\<lambda>fs. map_of fs name) read_rows in
      case printed of
        [] \<Rightarrow> None
      | (field, cell) # _ \<Rightarrow>
          if list_all (\<lambda>(_, c). sc_text c = sc_text cell) printed then Some (field, cell) else None)"

definition field_json :: "sheet_field \<Rightarrow> response" where
  "field_json f =
     R_Obj [(''value'', case sf_value f of None \<Rightarrow> R_Null | Some v \<Rightarrow> R_Str v), (''confidence'', R_Num (Finite 1)),
            (''source_page'', R_Num (Finite (of_int (sf_source_page f)))), (''source_quote'', R_Str (sf_source_quote f))]"

definition found_or_absent :: "(sheet_field \<times> sheet_cell) option \<Rightarrow> sheet_field" where
  "found_or_absent got = (case got of None \<Rightarrow> absent_field | Some (field, _) \<Rightarrow> field)"

definition fields_json :: "string list \<Rightarrow> (string \<Rightarrow> (sheet_field \<times> sheet_cell) option) \<Rightarrow> (string \<times> response) list" where
  "fields_json names got = map (\<lambda>name. (name, field_json (found_or_absent (got name)))) names"

definition line_json :: "SheetShape \<Rightarrow> row_fields \<Rightarrow> response" where
  "line_json shape fs = R_Obj (fields_json (LINE_FIELDS shape) (map_of fs))"

definition sheet_document :: "SheetShape \<Rightarrow> row_fields list \<Rightarrow> response" where
  "sheet_document shape read_rows =
     R_Obj (fields_json (TOP_FIELDS shape) (shared_top read_rows) @
            (case shape of
               Remittance_Shape \<Rightarrow> []
             | Deduction_List_Shape \<Rightarrow>
                 [(''claim_id'', field_json absent_field), (''deduction_total'', field_json absent_field)]) @
            [(''lines'', R_Arr (map (line_json shape) read_rows))])"

definition placed_cells ::
  "string list \<Rightarrow> (string \<Rightarrow> string) \<Rightarrow> (string \<Rightarrow> (sheet_field \<times> sheet_cell) option) \<Rightarrow> (string \<times> sheet_cell) list" where
  "placed_cells names path got =
     concat (map (\<lambda>name. case got name of None \<Rightarrow> [] | Some (_, cell) \<Rightarrow> [(path name, cell)]) names)"

definition line_field_path :: "nat \<Rightarrow> string \<Rightarrow> string" where
  "line_field_path index name = ''lines['' @ nat_text index @ ''].'' @ name"

text \<open>The \<open>Map\<close> of cells by field path, in the order it is filled; reading it takes the last entry.\<close>

definition cells_of :: "SheetShape \<Rightarrow> row_fields list \<Rightarrow> (string \<times> sheet_cell) list" where
  "cells_of shape read_rows =
     placed_cells (TOP_FIELDS shape) (\<lambda>name. name) (shared_top read_rows) @
     concat (map (\<lambda>(index, fs). placed_cells (LINE_FIELDS shape) (line_field_path index) (map_of fs))
       (enumerate 0 read_rows))"

record report_row =
  rr_row :: int
  rr_claimId :: string
  rr_notice :: response

definition report_row_of :: "int \<times> row_fields \<Rightarrow> report_row" where
  "report_row_of r =
     (case r of (row, fs) \<Rightarrow>
        let reference = found_or_absent (map_of fs ''deduction_reference'') in
        \<lparr>rr_row = row,
         rr_claimId = (case sf_value reference of None \<Rightarrow> ''null'' | Some v \<Rightarrow> v),
         rr_notice = R_Obj (fields_json (TOP_FIELDS Deduction_List_Shape) (map_of fs) @
           [(''claim_id'', field_json reference),
            (''deduction_total'', field_json (found_or_absent (map_of fs ''deduction_amount''))),
            (''lines'', R_Arr [line_json Deduction_List_Shape fs])])\<rparr>)"

record sheet_rows_read =
  sr_document :: response
  sr_fields :: "extracted_field list"
  sr_cells :: "(string \<times> sheet_cell) list"
  sr_unreadable :: "(int \<times> string) list"
  sr_skipped :: "int list"
  sr_rows :: "report_row list"
  sr_sheet :: parsed_sheet
  sr_mapping :: sheet_mapping

definition chosen_sheet :: "parsed_workbook \<Rightarrow> sheet_mapping \<Rightarrow> int option \<Rightarrow> parsed_sheet option" where
  "chosen_sheet wb mapping sheetOrdinal =
     (case (case sheetOrdinal of None \<Rightarrow> None | Some n \<Rightarrow> find_first (\<lambda>s. ps_ordinal s = n) (pb_sheets wb)) of
        Some s \<Rightarrow> Some s
      | None \<Rightarrow>
          (case find_first (\<lambda>s. ps_name s = sm_sheetName mapping) (pb_sheets wb) of
             Some s \<Rightarrow> Some s
           | None \<Rightarrow> (case pb_sheets wb of [] \<Rightarrow> None | s # _ \<Rightarrow> Some s)))"

definition row_numbers :: "parsed_sheet \<Rightarrow> sheet_mapping \<Rightarrow> int list" where
  "row_numbers sheet mapping = sort (filter (\<lambda>r. r > sm_headerRow mapping) (dedupe (map sc_row (ps_cells sheet))))"

text \<open>What a row adds to each of the three lists.\<close>

fun skipped_row :: "int \<times> row_result \<Rightarrow> int option" where
  "skipped_row (r, Row_Skipped) = Some r"
| "skipped_row (r, _) = None"

fun unreadable_row :: "int \<times> row_result \<Rightarrow> (int \<times> string) option" where
  "unreadable_row (r, Row_Unreadable reason) = Some (r, reason)"
| "unreadable_row (r, _) = None"

fun read_row :: "int \<times> row_result \<Rightarrow> (int \<times> row_fields) option" where
  "read_row (r, Row_Read fs) = Some (r, fs)"
| "read_row (r, _) = None"

definition readSheetRows :: "parsed_workbook \<Rightarrow> sheet_mapping \<Rightarrow> int option \<Rightarrow> sheet_rows_read res" where
  "readSheetRows wb mapping sheetOrdinal =
     (case chosen_sheet wb mapping sheetOrdinal of
        None \<Rightarrow> Inl (RangeError ''the workbook has no sheet'')
      | Some sheet \<Rightarrow>
          let results = map (\<lambda>r. (r, classify_row wb sheet mapping r)) (row_numbers sheet mapping);
              read_rows = List.map_filter read_row results;
              shape = sm_shape mapping;
              document = sheet_document shape (map snd read_rows)
          in Inr \<lparr>sr_document = document, sr_fields = flattenExtraction document,
                  sr_cells = cells_of shape (map snd read_rows),
                  sr_unreadable = List.map_filter unreadable_row results,
                  sr_skipped = List.map_filter skipped_row results,
                  sr_rows = (case shape of Remittance_Shape \<Rightarrow> []
                    | Deduction_List_Shape \<Rightarrow> map report_row_of read_rows),
                  sr_sheet = sheet, sr_mapping = mapping\<rparr>)"

section \<open>Checking and recording\<close>

definition verifyCellQuote ::
  "parsed_workbook \<Rightarrow> int \<Rightarrow> int \<Rightarrow> int \<Rightarrow> string \<Rightarrow> string \<Rightarrow> int option \<Rightarrow> bool" where
  "verifyCellQuote wb ordinal row column quoted field storedCents =
     (case find_first (\<lambda>s. ps_ordinal s = ordinal) (pb_sheets wb) of
        None \<Rightarrow> False
      | Some sheet \<Rightarrow>
          (case find_first (\<lambda>c. sc_row c = row \<and> sc_column c = column) (ps_cells sheet) of
             None \<Rightarrow> False
           | Some cell \<Rightarrow>
               if trim (sc_text cell) \<noteq> trim quoted then False
               else if moneyKindOf field \<noteq> Some Amount_Kind then True
               else (case storedCents of
                       None \<Rightarrow> False
                     | Some c \<Rightarrow> (case moneyFromCell cell False of Inl e \<Rightarrow> False | Inr v \<Rightarrow> v = c))))"

definition ends_with :: "string \<Rightarrow> string \<Rightarrow> bool" where
  "ends_with s tail \<longleftrightarrow> drop (length s - length tail) s = tail"

text \<open>What \<open>recordSheetReading\<close> checks of one field: the cents it holds, with the sheet's sign put back.\<close>

definition stored_cents :: "sheet_mapping \<Rightarrow> extracted_field \<Rightarrow> int option res" where
  "stored_cents mapping field =
     (case ef_value field of
        R_Str text \<Rightarrow>
          if moneyKindOf (ef_fieldPath field) \<noteq> None \<and> \<not> ends_with (ef_fieldPath field) ''unit_cost''
          then bind_res (parseMoneyToCents text) (\<lambda>cents.
            Inr (Some (if sm_sign mapping = Deductions_Negative \<and> ends_with (ef_fieldPath field) ''deduction_amount'' \<and>
                          cents \<noteq> 0 then - cents else cents)))
          else Inr None
      | _ \<Rightarrow> Inr None)"

definition verified_field :: "parsed_workbook \<Rightarrow> sheet_rows_read \<Rightarrow> extracted_field \<Rightarrow> (extracted_field \<times> bool) res" where
  "verified_field wb read_result field =
     (case map_of (rev (sr_cells read_result)) (ef_fieldPath field) of
        None \<Rightarrow> Inl (RangeError ''no cell recorded'')
      | Some cell \<Rightarrow>
          bind_res (stored_cents (sr_mapping read_result) field) (\<lambda>stored.
            Inr (field, verifyCellQuote wb (ps_ordinal (sr_sheet read_result)) (sc_row cell) (sc_column cell)
              (ef_sourceQuote field) (ef_fieldPath field) stored)))"

definition recorded_fields :: "parsed_workbook \<Rightarrow> sheet_rows_read \<Rightarrow> (extracted_field \<times> bool) list res" where
  "recorded_fields wb read_result = map_res (verified_field wb read_result) (sr_fields read_result)"

text \<open>The notice a stored deduction list holds for a claim.\<close>

definition with_key :: "string \<Rightarrow> response option \<Rightarrow> JsonObject \<Rightarrow> JsonObject" where
  "with_key key v row = (case v of None \<Rightarrow> filter (\<lambda>(k, _). k \<noteq> key) row | Some x \<Rightarrow> AList.update key x row)"

definition claim_of_line :: "response \<Rightarrow> response option" where
  "claim_of_line line =
     (case line of
        R_Obj row \<Rightarrow> (case key_of row ''deduction_reference'' of Some (R_Obj f) \<Rightarrow> key_of f ''value'' | _ \<Rightarrow> None)
      | _ \<Rightarrow> None)"

definition reportRowNotice :: "response \<Rightarrow> string \<Rightarrow> response option" where
  "reportRowNotice document claimId =
     (case document of
        R_Obj doc \<Rightarrow>
          (case find_first (\<lambda>l. claim_of_line l = Some (R_Str claimId))
                  (case key_of doc ''lines'' of Some (R_Arr ls) \<Rightarrow> ls | _ \<Rightarrow> []) of
             Some (R_Obj line) \<Rightarrow>
               Some (R_Obj (with_key ''lines'' (Some (R_Arr [R_Obj line]))
                 (with_key ''deduction_total'' (key_of line ''deduction_amount'')
                   (with_key ''claim_id'' (key_of line ''deduction_reference'') doc))))
           | _ \<Rightarrow> None)
      | _ \<Rightarrow> None)"

end
