(* ===== verification/Sheet_Facts.thy ===== *)
theory Sheet_Facts
  imports Sheet_Reading
begin

text \<open>
  What a spreadsheet's reading (\<open>Sheet_Reading\<close>) shows: every row below the header is read, skipped or
  named as unreadable, once; and every field that is stored was read from the one cell recorded for it,
  so that recording the reading neither throws nor finds a quote or an amount that is not in its cell.
\<close>

section \<open>Every row is accounted for\<close>









section \<open>What a field was read from\<close>









section \<open>The stored fields and their cells\<close>











section \<open>One cell for each path\<close>







section \<open>Every field is verified\<close>



















section \<open>Delimited files\<close>




section \<open>A concrete sheet\<close>






end
