(* ===== verification/Spec2Isabelle.thy ===== *)
theory Spec2Isabelle
  imports MoneyText Dates Case_State Invariants Reasons Journal Ledger Short_Pay Settlement_Lines Books
    Identity Triage Sizing In_Force Snapshot Packet Manual_Entry Work_Queue Document_Match
    Evidence Payer_Terms Retailer_Board Ledger_Extract Posting_Status Portal_Terms Number_Cell Letter_Budget
    Allocation Qbo_Amount Qbo_Reader Qbo_Map Qbo_Posting Posting_Job Settlement_Decision Posting_Store Settlement_Case Csv
    Printed_Times Reconcile_Facts Portal_Recipe Totp Flatten Sheet_Facts
begin

text \<open>
  A verification library for the deduction-recovery system: the program that finds what a payer held
  back from an invoice, opens a case on it, disputes it with a letter a person approved, and records
  what came back in the customer's books.

  \<^bold>\<open>The program.\<close> \<open>packages/core-domain\<close> holds the rules, as functions without effects: money,
  days, the life of a case, which invoices were short-paid, which arrival belongs to which case, what
  a letter says, what a settlement posts. \<open>packages/qbo\<close> turns QuickBooks responses into ledger rows
  and decisions into journal entries. \<open>packages/pipeline\<close> runs the jobs, and
  \<open>packages/store-postgres\<close> keeps the records that make a job safe to repeat. A short pay found in the
  ledger is matched against the cases held (identity), triaged by the tenant's floor and opened; a
  case moves only along the edges of its state machine; its packet is a letter and a hash over what
  was approved; a settlement is prepared, approved, queued as a write-back, posted once, read back,
  and voided only when nothing was sent.

  \<^bold>\<open>Shared ground.\<close> \<open>Prelude\<close> has results that are a thrown error or a value
  (\<open>failure + 'a\<close>), arrays, and JavaScript maps and sets as association lists and lists without
  repeats. \<open>JsText\<close> has the text functions of the language and the interfaces \<open>round_trip\<close> and
  \<open>codec\<close> every printer and parser interprets; \<open>JsSort\<close> has the stable sort and the interface
  \<open>comparator\<close>; \<open>Calendar\<close> and \<open>Timestamps\<close> have \<open>Date\<close>; \<open>Json\<close> has \<open>JSON.stringify\<close>; \<open>Doubles\<close>
  has the numbers of the language, rounded after each operation.

  \<^bold>\<open>Rules of the domain\<close>, one theory per source file under \<open>packages/core-domain/src\<close>:
  \<^item> \<open>money.ts\<close> is \<open>Money\<close> (cents, basis points, fees), \<open>Allocation\<close> (the split over weights, in
    doubles), \<open>MoneyText\<close> (amounts and unit prices as printed) and \<open>Number_Cell\<close> (spreadsheet cells);
    \<open>dates.ts\<close> is \<open>Dates\<close>.
  \<^item> \<open>state-machine.ts\<close> is \<open>Case_State\<close>, with its step relation and the search for reachable states.
  \<^item> \<open>invariants/index.ts\<close> and \<open>thresholds.ts\<close> are \<open>Invariants\<close>; \<open>reason-codes.ts\<close> and
    \<open>reason-words.ts\<close> are \<open>Reasons\<close>; \<open>evidence.ts\<close> and \<open>evidence-requirements.ts\<close> are \<open>Evidence\<close>.
  \<^item> \<open>ledger.ts\<close> and \<open>settlement.ts\<close> are \<open>Ledger\<close>; \<open>short-pay.ts\<close> is \<open>Short_Pay\<close>; \<open>triage.ts\<close> is
    \<open>Triage\<close>; \<open>identity.ts\<close> is \<open>Identity\<close>; \<open>document-match.ts\<close> is \<open>Document_Match\<close>;
    \<open>ledger-extract.ts\<close> is \<open>Ledger_Extract\<close>; \<open>manual-entry.ts\<close> is \<open>Manual_Entry\<close>.
  \<^item> \<open>payer-code-map.ts\<close> and \<open>dispute-windows.ts\<close> are \<open>In_Force\<close>; \<open>payer-terms.ts\<close> is
    \<open>Payer_Terms\<close>; \<open>portal-terms.ts\<close> is \<open>Portal_Terms\<close>; \<open>retailers.ts\<close> is \<open>Retailers\<close>;
    \<open>retailer-board.ts\<close> is \<open>Retailer_Board\<close>; \<open>work-queue.ts\<close> is \<open>Work_Queue\<close>.
  \<^item> \<open>packet.ts\<close> is \<open>Packet\<close> and, for the letter's budget, \<open>Letter_Budget\<close>.
  \<^item> \<open>journal.ts\<close> is \<open>Journal\<close>; \<open>settlement-lines.ts\<close> is \<open>Settlement_Lines\<close>; \<open>books.ts\<close> is
    \<open>Books\<close>; \<open>sizing.ts\<close> is \<open>Sizing\<close>; \<open>ledger-snapshot.ts\<close> is \<open>Snapshot\<close>;
    \<open>posting-status.ts\<close> is \<open>Posting_Status\<close>.

  \<^bold>\<open>The accounting system and its records.\<close>
  \<^item> \<open>packages/qbo/src\<close>: \<open>money.ts\<close> is \<open>Qbo_Amount\<close>, \<open>reader.ts\<close> and \<open>ids.ts\<close> are \<open>Qbo_Reader\<close>,
    \<open>map.ts\<close> is \<open>Qbo_Map\<close>, \<open>posting.ts\<close> is \<open>Qbo_Posting\<close>.
  \<^item> \<open>packages/pipeline/src/posting-job.ts\<close> is \<open>Posting_Job\<close>: one run of the job, over a ledger client
    that is a parameter with a state of its own and whose calls may fail after changing it.
  \<^item> \<open>packages/store-postgres/src/posting.ts\<close> is \<open>Settlement_Decision\<close> (preparing and approving),
    \<open>Posting_Store\<close> (the write-back rows of one decision and the steps that change them) and
    \<open>Settlement_Case\<close> (a case and all of its decisions).

  \<^bold>\<open>Documents, spreadsheets and portals.\<close>
  \<^item> \<open>packages/extraction/src\<close>: \<open>reconcile.ts\<close> is \<open>Reconcile\<close>, with its lemmas in \<open>Reconcile_Facts\<close>;
    \<open>timestamps.ts\<close> is \<open>Printed_Times\<close>; \<open>flatten.ts\<close> and \<open>moneyKindOf\<close> of \<open>amounts.ts\<close> are \<open>Flatten\<close>. The
    reconciliation is pure: a check returns its findings, and they are appended in the order of the
    source. A value it reads is in a field object that may be missing.
  \<^item> \<open>packages/ingest/src/csv.ts\<close> is \<open>Csv\<close>; the cells \<open>sheet-read.ts\<close> makes of its rows, the mapping of
    \<open>packages/core-domain/src/sheet-mapping.ts\<close>, \<open>packages/pipeline/src/sheet-reading.ts\<close> and the
    checks of \<open>recordSheetReading\<close> in \<open>steps.ts\<close> are \<open>Sheet_Reading\<close>, with its lemmas in \<open>Sheet_Facts\<close>.
  \<^item> \<open>packages/portal/src\<close>: \<open>recipe.ts\<close> and \<open>guard.ts\<close> are \<open>Portal_Recipe\<close>, over a URL parser and readers of
    a body that are parameters; \<open>totp.ts\<close> is \<open>Totp\<close>, over an HMAC that is a parameter, with its buffer,
    its counter and its truncation kept at 32, 64 and 8 bits.

  \<^bold>\<open>What the lemmas show.\<close> Printers and parsers: what is printed reads back, and a parser returns only
  what its type promises (\<open>MoneyText\<close>, \<open>Dates\<close>, \<open>Qbo_Amount\<close>, \<open>Csv\<close>, \<open>Snapshot\<close>). Sums: no cent is
  made or lost by an allocation within the safe integers, by journals, settlement lines, payment splits, the retailer board or the
  reconciliation. Choices: an answer is decided by what the sources say decides it, in both directions,
  and does not depend on the order of rows (\<open>Short_Pay\<close>, \<open>Books\<close>, \<open>Identity\<close>, \<open>Document_Match\<close>,
  \<open>In_Force\<close>, \<open>Payer_Terms\<close>, \<open>Work_Queue\<close>). Hashes: \<open>sha\<close> is a parameter, and two different contents
  with one hash are a collision of it (\<open>Snapshot\<close>, \<open>Packet\<close>, \<open>Ledger_Extract\<close>). Lives of records: no case
  reaches \<open>submitted\<close> without an approval, no run sends what is not approved or is voided, a voided
  decision was never sent, and a case settled again after a void is in the ledger at most once, each
  an invariant of a step relation by induction over its runs.

  Readings: a notice is consistent exactly when its own numbers hold up, a remittance line's verdict is
  the sum over the lines that share its invoice, nothing a message says reaches a letter, every row of
  a list is read, skipped or named, and what is stored of a sheet is what its cells say, verified unless a cell's text is too long. Requests: the
  browser sends what the recipe names and nothing else. Codes: a code holds until its step ends.

  \<^bold>\<open>Conventions.\<close> A text is a list of UTF-16 code units below 256; what the sources print past that
  keeps its Windows-1252 byte, so a dash or a quotation mark is one character as it is there. A number
  the sources keep as an integer is an \<open>int\<close> with the safe-integer checks written out; where the
  sources compute in doubles without a check, the result of each operation is rounded as a double. \<open>undefined\<close> and \<open>null\<close> are
  \<open>None\<close>. A thrown error is its class and a cause; the wording of messages is not modelled. Object
  keys inherited from \<open>Object.prototype\<close> are outside the model.

  \<^bold>\<open>Loops.\<close> Recursion is structural or has a measure (the breadth-first search over case states: the
  states not yet seen, then the queue); no definition takes fuel. The CSV reader's loop is a partial
  function, proved to return on every text. A run of posting steps has no bound; what is proved of it
  holds after any number of steps.

  \<^bold>\<open>Interleaving.\<close> A transaction of the store is one step. A run of the job is two, its begin and its
  finish, with voids, requeues, the runs of other connections and other changes of the ledger between
  them. A run may end without a finish: its process stops, or a call of the store fails, before it has
  done anything or when its attempt was to be recorded. The database's unique constraints and row locks are the branches they refuse on.

  \<^bold>\<open>Not modelled.\<close> The tenant, workflow, portal, credential and connection stores, and the views of
  the posting store: their logic is SQL under row-level security, over tables whose rules are in
  migrations, not in the language modelled here. The pipeline's steps beyond the recording of a
  sheet, the mail and portal jobs, and the web application beyond the filter of a letter's findings:
  input, output and rendering over the functions modelled here. The prompts and the model, OCR and mail clients, the QuickBooks client's HTTP and OAuth, the browser automation,
  encryption and the virus scanner: calls of outside services. The byte-level readers of PDF, TIFF,
  HEIF, XLSX and mail: third-party formats. Zod schemas: a library's validation of untyped
  values, whose results are the types of the model. The search for an amount in the text of a page.
\<close>

end
